(* ===== verification/Subnet_Prelude.thy ===== *)
theory Subnet_Prelude
  imports Main "HOL-Library.Word" "HOL-Library.Char_ord" "HOL-Library.List_Lexorder"
    "HOL-Library.Signed_Division" "HOL-Library.Multiset" "HOL-Library.Sublist"
begin

text \<open>
  What every component of the development shares: the Go value types the sources use, the
  fragments of Go's standard library they call (\<open>encoding/binary\<close>, \<open>encoding/hex\<close>, the
  \<open>%d\<close> and \<open>%020d\<close> verbs of \<open>fmt\<close>, \<open>time\<close>), run-time panics as values, and generic lemmas
  on lists and maps.

  Conventions.
  \<^item> \<open>uint64\<close>, \<open>uint32\<close> and \<open>byte\<close> are words of their width; \<open>int\<close> and \<open>int64\<close> are mathematical
    integers, with the two's complement wrap-around written out (\<open>i64\<close>) where a product or
    a sum could leave the 64-bit range.
  \<^item> A Go \<open>string\<close> is a HOL \<open>string\<close>, one \<open>char\<close> per byte; \<open><\<close> on strings is the bytewise
    lexicographic order of \<open>Char_ord\<close> and \<open>List_Lexorder\<close>, which is Go's.
  \<^item> A Go \<open>map\<close> is a partial function \<open>'k \<rightharpoonup> 'v\<close>. A \<open>range\<close> loop over a map visits the keys in an
    order the language leaves open, so a definition that ranges over a map takes the visiting
    order as an argument, and \<open>range_order\<close> says that it lists each key exactly once.
  \<^item> \<open>time.Time\<close> is the number of nanoseconds since the Unix epoch, \<open>time.Duration\<close> a number of
    nanoseconds; a definition that reads the clock takes the time as an argument.
\<close>

named_theorems codec_simps \<open>lengths and injectivity of the byte encoders\<close>
named_theorems spec_simps \<open>characterising equations of the components' operations\<close>

section \<open>Value types\<close>

type_synonym byte = "8 word"
type_synonym bytes = "byte list"
type_synonym u16 = "16 word"
type_synonym u32 = "32 word"
type_synonym u64 = "64 word"

text \<open>A run-time panic, where the Go program would stop instead of returning.\<close>

datatype go_panic = DivideByZero | IndexOutOfRange | NilDereference | CloseOfClosedChannel | SendOnClosedChannel

text \<open>Two's complement wrap-around of a 64-bit signed integer.\<close>

definition i64 :: "int \<Rightarrow> int" where
  "i64 x = (x + 2 ^ 63) mod 2 ^ 64 - 2 ^ 63"

lemma i64_id [simp]: "- (2 ^ 63) \<le> x \<Longrightarrow> x < 2 ^ 63 \<Longrightarrow> i64 x = x"
  by (simp add: i64_def)

lemma i64_range: "- (2 ^ 63) \<le> i64 x \<and> i64 x < 2 ^ 63"
  unfolding i64_def using pos_mod_bound [of "2 ^ 64" "x + 2 ^ 63"] pos_mod_sign [of "2 ^ 64" "x + 2 ^ 63"]
  by simp

lemma sdiv_nonneg [simp]: "0 \<le> (a::int) \<Longrightarrow> 0 < b \<Longrightarrow> a sdiv b = a div b"
  by (cases "a = 0") (simp_all add: signed_divide_int_def sgn_if)

lemma smod_nonneg [simp]: "0 \<le> (a::int) \<Longrightarrow> 0 < b \<Longrightarrow> a smod b = a mod b"
  by (cases "a = 0") (simp_all add: signed_modulo_int_def sgn_if)

text \<open>Division rounded up, as the sources write it: the quotient, plus one when there is a remainder.\<close>

definition ceil_div :: "int \<Rightarrow> int \<Rightarrow> int" where
  "ceil_div p d = p div d + (if p mod d > 0 then 1 else 0)"

lemma ceil_div_le:
  assumes d: "0 < d"
  shows "ceil_div p d \<le> k \<longleftrightarrow> p \<le> k * d"
proof -
  define q m where "q = p div d" and "m = p mod d"
  have p: "p = q * d + m" and m: "0 \<le> m" "m < d"
    using d by (simp_all add: q_def m_def)
  have c: "ceil_div p d = (if 0 < m then q + 1 else q)"
    by (simp add: ceil_div_def q_def m_def)
  consider "k < q" | "k = q" | "q < k" by linarith
  then show ?thesis
  proof cases
    case 1
    then have "k * d < q * d" using d by simp
    with m(1) have "\<not> p \<le> k * d" unfolding p by linarith
    with 1 c show ?thesis by simp
  next
    case 2
    then have "p \<le> k * d \<longleftrightarrow> m \<le> 0" using p by auto
    with 2 c show ?thesis by simp
  next
    case 3
    then have "(q + 1) * d \<le> k * d" using d by (intro mult_right_mono) simp_all
    then have "p \<le> k * d" unfolding p using m(2) by (simp add: distrib_right)
    with 3 c show ?thesis by simp
  qed
qed

lemma unat_less: "unat (w :: 'a::len word) < 2 ^ LENGTH('a)"
  by (rule unsigned_less)

section \<open>Time\<close>

text \<open>The zero \<open>time.Time\<close> is 1 January of year 1, UTC.\<close>

definition zero_time :: int where
  "zero_time = - 62135596800000000000"

definition second :: int where
  "second = 1000000000"

text \<open>\<open>t.Sub(u)\<close> saturates at the bounds of \<open>time.Duration\<close>.\<close>

definition time_sub :: "int \<Rightarrow> int \<Rightarrow> int" where
  "time_sub t u = max (- (2 ^ 63)) (min (2 ^ 63 - 1) (t - u))"

lemma time_sub_mono: "t \<le> t' \<Longrightarrow> time_sub t u \<le> time_sub t' u"
  by (simp add: time_sub_def)

section \<open>Maps and their visiting orders\<close>

definition range_order :: "('k \<rightharpoonup> 'v) \<Rightarrow> 'k list \<Rightarrow> bool" where
  "range_order m ks \<longleftrightarrow> distinct ks \<and> set ks = dom m"

lemma range_order_finite: "range_order m ks \<Longrightarrow> finite (dom m)"
  by (metis List.finite_set range_order_def)

lemma range_order_ex: "finite (dom m) \<Longrightarrow> \<exists>ks. range_order m ks"
  by (metis finite_distinct_list range_order_def)

lemma range_order_length: "range_order m ks \<Longrightarrow> length ks = card (dom m)"
  by (auto simp: range_order_def simp flip: distinct_card)

lemma card_dom_upd:
  "finite (dom m) \<Longrightarrow> card (dom (m(k \<mapsto> v))) = (if k \<in> dom m then card (dom m) else Suc (card (dom m)))"
  by (simp add: insert_absorb)

lemma finite_dom_upd [simp]: "finite (dom m) \<Longrightarrow> finite (dom (m(k := x)))"
  by (cases x) simp_all

lemma find_append: "List.find P (xs @ ys) = (case List.find P xs of None \<Rightarrow> List.find P ys | Some x \<Rightarrow> Some x)"
  by (induction xs) simp_all

section \<open>Strings as bytes\<close>

definition bytes_of :: "string \<Rightarrow> bytes" where
  "bytes_of s = map of_char s"

lemma unat_of_char: "unat (of_char c :: byte) = of_char c"
proof -
  have "(of_char c :: byte) = word_of_nat (of_char c)" by (simp add: of_nat_of_char)
  moreover have "(of_char c :: nat) < 256"
    using nat_of_char_less_256 by auto
  ultimately show ?thesis by (simp add: unat_of_nat take_bit_nat_eq_self)
qed

lemma of_char_word_inj: "(of_char c :: byte) = of_char d \<longleftrightarrow> c = d"
  by (metis of_char_eq_iff unat_of_char)

lemma bytes_of_inject [simp]: "bytes_of s = bytes_of t \<longleftrightarrow> s = t"
  unfolding bytes_of_def by (rule inj_map_eq_map) (simp add: inj_on_def of_char_word_inj)

lemma length_bytes_of [simp]: "length (bytes_of s) = length s"
  by (simp add: bytes_of_def)

section \<open>Hexadecimal strings\<close>

text \<open>
  \<open>hex.EncodeToString\<close> writes two lower-case digits per byte. \<open>hex.DecodeString\<close> reads
  digits of either case; at the first bad digit it returns the bytes read so far with an error,
  and a left-over single digit is a length error. The callers in the sources drop the error.
\<close>

datatype hex_error = InvalidByteError char | ErrLength

definition hex_digit :: "nat \<Rightarrow> char" where
  "hex_digit n = (''0123456789abcdef'' ! (n mod 16))"

definition hex_value :: "char \<Rightarrow> nat option" where
  "hex_value c =
     (let n = (of_char c :: nat) in
      if 48 \<le> n \<and> n \<le> 57 then Some (n - 48)
      else if 97 \<le> n \<and> n \<le> 102 then Some (n - 87)
      else if 65 \<le> n \<and> n \<le> 70 then Some (n - 55)
      else None)"

definition hex_of_byte :: "byte \<Rightarrow> string" where
  "hex_of_byte b = [hex_digit (unat b div 16), hex_digit (unat b mod 16)]"

definition EncodeToString :: "bytes \<Rightarrow> string" where
  "EncodeToString bs = concat (map hex_of_byte bs)"

fun DecodeString :: "string \<Rightarrow> bytes \<times> hex_error option" where
  "DecodeString [] = ([], None)"
| "DecodeString [c] =
     ([], Some (case hex_value c of None \<Rightarrow> InvalidByteError c | Some _ \<Rightarrow> ErrLength))"
| "DecodeString (c # d # s) =
     (case hex_value c of
        None \<Rightarrow> ([], Some (InvalidByteError c))
      | Some h \<Rightarrow>
          (case hex_value d of
             None \<Rightarrow> ([], Some (InvalidByteError d))
           | Some l \<Rightarrow> (case DecodeString s of (bs, e) \<Rightarrow> (word_of_nat (h * 16 + l) # bs, e))))"

lemma hex_value_digit: "n < 16 \<Longrightarrow> hex_value (hex_digit n) = Some n"
proof -
  assume "n < 16"
  then have "n \<in> set [0..<16]" by simp
  moreover have "\<forall>k \<in> set [0..<16]. hex_value (hex_digit k) = Some k"
    by (simp add: upt_rec hex_digit_def hex_value_def)
  ultimately show ?thesis by blast
qed

lemma DecodeString_byte:
  "DecodeString (hex_of_byte b @ s) = (case DecodeString s of (bs, e) \<Rightarrow> (b # bs, e))"
proof -
  have "unat b < 256" using unat_less [of b] by simp
  then have "unat b div 16 < 16" "unat b mod 16 < 16" by auto
  then show ?thesis
    by (simp add: hex_of_byte_def hex_value_digit split: prod.splits)
qed

lemma DecodeString_EncodeToString [simp]: "DecodeString (EncodeToString bs) = (bs, None)"
  by (induction bs) (simp_all add: EncodeToString_def DecodeString_byte)

lemma EncodeToString_inject [simp]: "EncodeToString a = EncodeToString b \<longleftrightarrow> a = b"
  by (metis DecodeString_EncodeToString fst_conv)

lemma length_EncodeToString [simp]: "length (EncodeToString bs) = 2 * length bs"
  by (induction bs) (simp_all add: EncodeToString_def hex_of_byte_def)

lemma EncodeToString_empty [simp]: "EncodeToString bs = [] \<longleftrightarrow> bs = []"
  by (metis EncodeToString_inject EncodeToString_def concat.simps(1) list.map(1))

section \<open>Big-endian integers\<close>

text \<open>\<open>binary.BigEndian.PutUint32\<close> and \<open>PutUint64\<close>: the most significant byte first.\<close>

definition be :: "nat \<Rightarrow> nat \<Rightarrow> bytes" where
  "be n v = map (\<lambda>i. word_of_nat (v div 256 ^ i)) (rev [0..<n])"

definition PutUint32 :: "u32 \<Rightarrow> bytes" where
  "PutUint32 w = be 4 (unat w)"

definition PutUint64 :: "u64 \<Rightarrow> bytes" where
  "PutUint64 w = be 8 (unat w)"

lemma length_be [simp, codec_simps]: "length (be n v) = n"
  by (simp add: be_def)

lemma be_Suc: "be (Suc n) v = word_of_nat (v div 256 ^ n) # be n v"
  by (simp add: be_def)

lemma word8_of_nat_eq: "(word_of_nat a :: byte) = word_of_nat b \<longleftrightarrow> a mod 256 = b mod 256"
  by (simp add: word_of_nat_eq_iff take_bit_eq_mod)

lemma be_inject:
  "v < 256 ^ n \<Longrightarrow> w < 256 ^ n \<Longrightarrow> be n v = be n w \<longleftrightarrow> v = w"
proof -
  have digits: "be n v = be n w \<Longrightarrow> v mod 256 ^ n = w mod 256 ^ n" for n and v w :: nat
  proof (induction n)
    case 0
    then show ?case by simp
  next
    case (Suc n)
    from Suc.prems have "(v div 256 ^ n) mod 256 = (w div 256 ^ n) mod 256" and "be n v = be n w"
      by (simp_all add: be_Suc word8_of_nat_eq)
    with Suc.IH show ?case
      by (simp add: mult.commute [of 256] mod_mult2_eq)
  qed
  assume "v < 256 ^ n" "w < 256 ^ n"
  with digits [of n v w] show ?thesis by auto
qed

lemma PutUint32_inject [simp, codec_simps]: "PutUint32 a = PutUint32 b \<longleftrightarrow> a = b"
  using unat_less [of a] unat_less [of b]
  by (simp add: PutUint32_def be_inject word_unat_eq_iff)

lemma PutUint64_inject [simp, codec_simps]: "PutUint64 a = PutUint64 b \<longleftrightarrow> a = b"
  using unat_less [of a] unat_less [of b]
  by (simp add: PutUint64_def be_inject word_unat_eq_iff)

lemma length_PutUint [simp, codec_simps]:
  "length (PutUint32 a) = 4" "length (PutUint64 b) = 8"
  by (simp_all add: PutUint32_def PutUint64_def)

text \<open>\<open>binary.BigEndian.Uint64\<close>.\<close>

definition Uint64 :: "bytes \<Rightarrow> u64" where
  "Uint64 bs = word_of_nat (foldl (\<lambda>a b. a * 256 + unat b) 0 bs)"

lemma foldl_be: "foldl (\<lambda>a b. a * 256 + unat b) a (be n v) = a * 256 ^ n + v mod 256 ^ n"
proof (induction n arbitrary: a)
  case (Suc n)
  have "v mod 256 ^ Suc n = 256 ^ n * (v div 256 ^ n mod 256) + v mod 256 ^ n"
    by (metis mod_mult2_eq mult.commute power_Suc)
  moreover have "foldl (\<lambda>a b. a * 256 + unat b) a (be (Suc n) v) =
      (a * 256 + v div 256 ^ n mod 256) * 256 ^ n + v mod 256 ^ n"
    by (simp add: be_Suc Suc.IH unat_of_nat take_bit_eq_mod)
  ultimately show ?case by (simp add: algebra_simps)
qed (simp add: be_def)

lemma Uint64_PutUint64 [simp, codec_simps]: "Uint64 (PutUint64 w) = w"
proof -
  have "unat w < 256 ^ 8" using unat_less [of w] by simp
  then show ?thesis by (simp add: Uint64_def PutUint64_def foldl_be)
qed

section \<open>Decimal numbers\<close>

text \<open>The \<open>%d\<close> verb of \<open>fmt.Sprintf\<close> on an unsigned and on a signed integer.\<close>

definition digit :: "nat \<Rightarrow> char" where
  "digit n = char_of (48 + n mod 10)"

fun dec :: "nat \<Rightarrow> string" where
  "dec n = (if n < 10 then [digit n] else dec (n div 10) @ [digit (n mod 10)])"

declare dec.simps [simp del]

definition dec_int :: "int \<Rightarrow> string" where
  "dec_int i = (if i < 0 then ''-'' @ dec (nat (- i)) else dec (nat i))"

definition undec :: "string \<Rightarrow> nat" where
  "undec s = foldl (\<lambda>n c. n * 10 + (of_char c - 48)) 0 s"

lemma of_char_digit: "n < 10 \<Longrightarrow> of_char (digit n) = 48 + n"
  by (simp add: digit_def)

lemma undec_snoc [simp]: "undec (s @ [c]) = undec s * 10 + (of_char c - 48)"
  by (simp add: undec_def)

lemma undec_dec [simp]: "undec (dec n) = n"
proof (induction n rule: dec.induct)
  case (1 n)
  show ?case
  proof (cases "n < 10")
    case True
    then show ?thesis by (simp add: dec.simps [of n] undec_def of_char_digit)
  next
    case False
    with 1 show ?thesis by (simp add: dec.simps [of n] of_char_digit)
  qed
qed

lemma dec_inject [simp]: "dec m = dec n \<longleftrightarrow> m = n"
  by (metis undec_dec)

lemma dec_chars: "c \<in> set (dec n) \<Longrightarrow> 48 \<le> (of_char c :: nat) \<and> (of_char c :: nat) \<le> 57"
proof (induction n rule: dec.induct)
  case (1 n)
  show ?case
  proof (cases "n < 10")
    case True
    with 1(2) show ?thesis by (simp add: dec.simps [of n] of_char_digit)
  next
    case False
    have "n mod 10 < 10" by simp
    with False 1 show ?thesis by (auto simp: dec.simps [of n] of_char_digit)
  qed
qed

lemma dec_nonempty [simp]: "dec n \<noteq> []"
  by (subst dec.simps) simp

lemma dec_no_char: "\<not> (48 \<le> (of_char c :: nat) \<and> (of_char c :: nat) \<le> 57) \<Longrightarrow> c \<notin> set (dec n)"
  using dec_chars by blast

lemma dec_no_minus: "CHR ''-'' \<notin> set (dec n)"
  by (rule dec_no_char) simp

lemma dec_int_inject [simp]: "dec_int i = dec_int j \<longleftrightarrow> i = j"
  using dec_no_minus [of "nat i"] dec_no_minus [of "nat j"]
  by (auto simp: dec_int_def split: if_splits) (metis list.set_intros(1))+

lemma dec_int_no_char:
  "\<not> (48 \<le> (of_char c :: nat) \<and> (of_char c :: nat) \<le> 57) \<Longrightarrow> c \<noteq> CHR ''-'' \<Longrightarrow> c \<notin> set (dec_int i)"
  by (auto simp: dec_int_def dec_no_char)

section \<open>Separated fields\<close>

text \<open>Two strings written with a separator that the first field does not contain.\<close>

lemma sep_inject:
  "c \<notin> set a \<Longrightarrow> c \<notin> set b \<Longrightarrow> a @ c # s = b @ c # t \<longleftrightarrow> a = b \<and> s = t"
proof (induction a arbitrary: b)
  case Nil
  then show ?case by (cases b) auto
next
  case (Cons x a)
  then show ?case by (cases b) auto
qed

end
