(* ===== verification/Proto_Types.thy ===== *)
theory Proto_Types
  imports Subnet_Prelude
begin

text \<open>
  The protobuf messages the modelled components exchange, one record per message
  (\<open>src/proto/subnet/*.pb.go\<close>, \<open>src/proto/rootlayer/*.pb.go\<close>), with the fields in the
  order of the generated structs. A message pointer that can be \<open>nil\<close> is an \<open>option\<close>. Field selectors carry a
  short prefix, because several messages have fields of the same name.
\<close>

record CommitmentRoots =
  cr_AgentRoot :: bytes
  cr_AgentServiceRoot :: bytes
  cr_RankRoot :: bytes
  cr_MetricsRoot :: bytes
  cr_DataUsageRoot :: bytes
  cr_StateRoot :: bytes
  cr_EventRoot :: bytes
  cr_CrossSubnetRoot :: bytes

record DACommitment =
  da_Kind :: string
  da_Pointer :: string
  da_SizeHint :: u64
  da_SegmentHashes :: "bytes list"
  da_Expiry :: int

record EpochSlot =
  es_Epoch :: u64
  es_Slot :: u64

record CheckpointSignatures =
  cs_EcdsaSignatures :: "bytes list"
  cs_SignersBitmap :: "bytes option"
  cs_SignatureCount :: u32
  cs_TotalWeight :: u64

record CheckpointHeader =
  h_SubnetId :: string
  h_Epoch :: u64
  h_ParentCpHash :: bytes
  h_Timestamp :: int
  h_Version :: u32
  h_ParamsHash :: bytes
  h_Roots :: "CommitmentRoots option"
  h_DaCommitments :: "DACommitment list"
  h_ValidatorSetId :: string
  h_Stats :: bytes
  h_AuxHash :: bytes
  h_EpochSlot :: "EpochSlot option"
  h_AssignmentsRoot :: bytes
  h_ValidationCommitment :: bytes
  h_PolicyRoot :: bytes
  h_Signatures :: "CheckpointSignatures option"

record Signature =
  sg_Algo :: string
  sg_Der :: bytes
  sg_Pubkey :: bytes
  sg_MsgHash :: bytes
  sg_SignerId :: string

text \<open>A protobuf enum is an open \<open>int32\<close>: a decoded message can carry a number with no name.\<close>

type_synonym ReportStatus = int

definition STATUS_UNSPECIFIED :: ReportStatus where "STATUS_UNSPECIFIED = 0"
definition SUCCESS :: ReportStatus where "SUCCESS = 1"
definition FAILED :: ReportStatus where "FAILED = 2"
definition PARTIAL :: ReportStatus where "PARTIAL = 3"

lemmas report_status_defs = STATUS_UNSPECIFIED_def SUCCESS_def FAILED_def PARTIAL_def

record ResourceUsage =
  ru_CpuMs :: u64
  ru_MemoryMb :: u64
  ru_IoOps :: u64
  ru_NetworkBytes :: u64

record VerificationEvidence =
  ev_EnvFingerprint :: bytes
  ev_InputsHash :: bytes
  ev_OutputsHash :: bytes
  ev_TranscriptRoot :: bytes
  ev_ProofExec :: bytes
  ev_ResourceUsage :: "ResourceUsage option"
  ev_ExternalRefs :: "string list"

record ErrorInfo =
  ei_Code :: string
  ei_Message :: string
  ei_Details :: bytes

record RootLayerRef =
  rr_Height :: u64
  rr_Root :: bytes
  rr_Proof :: bytes

record ExecutionReport =
  er_ReportId :: string
  er_AssignmentId :: string
  er_IntentId :: string
  er_AgentId :: string
  er_Status :: ReportStatus
  er_ResultData :: bytes
  er_Evidence :: "VerificationEvidence option"
  er_Error :: "ErrorInfo option"
  er_Timestamp :: int
  er_Signature :: bytes
  er_RootRef :: "RootLayerRef option"

record ExecutionTask =
  t_TaskId :: string
  t_IntentId :: string
  t_AgentId :: string
  t_BidId :: string
  t_CreatedAt :: int
  t_Deadline :: int
  t_IntentData :: bytes
  t_IntentType :: string

record ValidationBundleSignature =
  vb_IntentId :: string
  vb_AssignmentId :: string
  vb_AgentId :: string
  vb_Epoch :: u64
  vb_ValidatorAddress :: string
  vb_Signature :: bytes
  vb_Timestamp :: int
  vb_BundleDigestHash :: bytes

end
