(* ===== verification/Interfaces.thy ===== *)
theory Interfaces
  imports Subnet_Prelude
begin

text \<open>
  The contracts that more than one component offers to its clients, as locales. The theories
  that define the operations interpret them: the validator set and the stores are keyed stores,
  the replicated state machines are log machines, every threshold rule is a quorum rule, and
  both consensus engines keep the contract of the engine interface.
\<close>

section \<open>Keyed stores\<close>

text \<open>
  A store keeps values under a key that the value carries: what a lookup returns after a put.
  Writing a sequence of values leaves, under each key, the last value written.
\<close>

locale keyed_store =
  fixes lookup :: "'s \<Rightarrow> 'k \<Rightarrow> 'v option"
    and key :: "'v \<Rightarrow> 'k"
    and put :: "'s \<Rightarrow> 'v \<Rightarrow> 's"
    and invar :: "'s \<Rightarrow> bool"
  assumes lookup_put: "invar s \<Longrightarrow> lookup (put s v) k = (if k = key v then Some v else lookup s k)"
    and invar_put: "invar s \<Longrightarrow> invar (put s v)"
begin

lemma invar_puts: "invar s \<Longrightarrow> invar (foldl put s vs)"
  by (induction vs arbitrary: s) (simp_all add: invar_put)

lemma lookup_puts_notin: "invar s \<Longrightarrow> k \<notin> key ` set vs \<Longrightarrow> lookup (foldl put s vs) k = lookup s k"
  by (induction vs arbitrary: s) (simp_all add: invar_put lookup_put)

lemma lookup_puts_last:
  "invar s \<Longrightarrow> k \<notin> key ` set ws \<Longrightarrow> key v = k \<Longrightarrow> lookup (foldl put s (vs @ v # ws)) k = Some v"
  by (simp add: lookup_puts_notin invar_puts invar_put lookup_put)

lemma put_twice: "invar s \<Longrightarrow> lookup (put (put s v) v) = lookup (put s v)"
  by (rule ext) (simp add: lookup_put invar_put)

lemma put_commute:
  "invar s \<Longrightarrow> key v \<noteq> key w \<Longrightarrow> lookup (put (put s v) w) = lookup (put (put s w) v)"
  by (rule ext) (simp add: lookup_put invar_put)

end

locale deletable_store = keyed_store +
  fixes del :: "'s \<Rightarrow> 'k \<Rightarrow> 's"
  assumes lookup_del: "invar s \<Longrightarrow> lookup (del s k) j = (if j = k then None else lookup s j)"
    and invar_del: "invar s \<Longrightarrow> invar (del s k)"
begin

lemma del_put: "invar s \<Longrightarrow> lookup (del (put s v) (key v)) = lookup (del s (key v))"
  by (rule ext) (simp add: lookup_put lookup_del invar_put)

lemma lookup_dels: "invar s \<Longrightarrow> lookup (foldl del s ks) j = (if j \<in> set ks then None else lookup s j)"
  by (induction ks arbitrary: s) (simp_all add: invar_del lookup_del)

end

section \<open>Quorum rules\<close>

text \<open>
  A threshold rule says how many of \<open>n\<close> members make a quorum. If twice the quorum exceeds the
  membership by more than \<open>f\<close>, any two quorums share more than \<open>f\<close> members, so at least
  one correct member when no more than \<open>f\<close> are faulty.
\<close>

locale quorum_rule =
  fixes members :: "'s \<Rightarrow> 'm set"
    and quorum :: "'s \<Rightarrow> nat"
    and slack :: "'s \<Rightarrow> nat"
    and ok :: "'s \<Rightarrow> bool"
  assumes finite_members: "ok s \<Longrightarrow> finite (members s)"
    and quorum_slack: "ok s \<Longrightarrow> card (members s) + slack s < 2 * quorum s"
begin

lemma quorums_overlap:
  assumes ok: "ok s" and A: "A \<subseteq> members s" and B: "B \<subseteq> members s"
    and qA: "quorum s \<le> card A" and qB: "quorum s \<le> card B"
  shows "slack s < card (A \<inter> B)"
proof -
  have fin: "finite A" "finite B"
    using finite_subset [OF A finite_members [OF ok]] finite_subset [OF B finite_members [OF ok]]
    by simp_all
  have "card (A \<union> B) \<le> card (members s)"
    using A B by (intro card_mono finite_members ok) simp
  moreover have "card A + card B = card (A \<union> B) + card (A \<inter> B)"
    using fin by (rule card_Un_Int)
  ultimately show ?thesis using quorum_slack [OF ok] qA qB by linarith
qed

lemma correct_member_in_overlap:
  assumes "ok s" "A \<subseteq> members s" "B \<subseteq> members s" "quorum s \<le> card A" "quorum s \<le> card B"
    and F: "card F \<le> slack s" "finite F"
  shows "\<exists>m. m \<in> A \<inter> B \<and> m \<notin> F"
proof (rule ccontr)
  assume "\<nexists>m. m \<in> A \<inter> B \<and> m \<notin> F"
  then have "A \<inter> B \<subseteq> F" by blast
  then have "card (A \<inter> B) \<le> card F" by (rule card_mono [OF F(2)])
  with quorums_overlap [OF assms(1-5)] F(1) show False by linarith
qed

end

section \<open>Log machines\<close>

text \<open>
  A replicated state machine applies the entries of a log one by one, and can save and reload the
  part of its state that \<open>abs\<close> selects. Its promise: applying an entry depends on that
  part only, and reloading a saved state into any machine gives it back. Then a machine that
  starts from a snapshot and applies the rest of the log agrees with one that applied all of it.
\<close>

locale log_machine =
  fixes stp :: "'s \<Rightarrow> 'e \<Rightarrow> 's"
    and abs :: "'s \<Rightarrow> 'a"
    and saves :: "'s \<Rightarrow> bool"
    and reload :: "'s \<Rightarrow> 's \<Rightarrow> 's"
  assumes stp_abs: "abs s = abs t \<Longrightarrow> abs (stp s e) = abs (stp t e)"
    and reload_abs: "saves s \<Longrightarrow> abs (reload t s) = abs s"
begin

lemma replay_abs: "abs s = abs t \<Longrightarrow> abs (foldl stp s es) = abs (foldl stp t es)"
proof (induction es arbitrary: s t)
  case (Cons e es)
  show ?case unfolding foldl_Cons by (rule Cons.IH [OF stp_abs [OF Cons.prems]])
qed simp

lemma replay_from_snapshot:
  "saves (foldl stp s es) \<Longrightarrow>
     abs (foldl stp (reload t (foldl stp s es)) fs) = abs (foldl stp s (es @ fs))"
  unfolding foldl_append by (rule replay_abs) (rule reload_abs)

end

section \<open>Consensus engines\<close>

text \<open>
  What the interface \<open>ConsensusEngine\<close> promises of the state that consensus builds: a committed checkpoint
  is the latest one, a committed report is pending under its key until it is cleared, and the
  two do not touch each other. Then the answers of an engine are functions of the committed operations alone,
  so two engines that commit the same operations give the same answers.
\<close>

datatype ('h, 'r, 'k) engine_op = CommitHeader 'h | CommitReport 'r | Clear "'k list"

definition latest_of :: "('h, 'r, 'k) engine_op list \<Rightarrow> 'h option" where
  "latest_of ops = foldl (\<lambda>l op. case op of CommitHeader h \<Rightarrow> Some h | _ \<Rightarrow> l) None ops"

definition pending_of :: "('r \<Rightarrow> 'k) \<Rightarrow> ('h, 'r, 'k) engine_op list \<Rightarrow> ('k \<rightharpoonup> 'r)" where
  "pending_of key ops =
     foldl (\<lambda>m op. case op of CommitHeader h \<Rightarrow> m | CommitReport r \<Rightarrow> m(key r \<mapsto> r) | Clear ks \<Rightarrow> m |` (- set ks))
       Map.empty ops"

definition run_op ::
  "('s \<Rightarrow> 'h \<Rightarrow> 's) \<Rightarrow> ('s \<Rightarrow> 'r \<Rightarrow> 's) \<Rightarrow> ('s \<Rightarrow> 'k list \<Rightarrow> 's) \<Rightarrow> 's \<Rightarrow> ('h, 'r, 'k) engine_op \<Rightarrow> 's" where
  "run_op commitHeader commitReport clear s op =
     (case op of CommitHeader h \<Rightarrow> commitHeader s h | CommitReport r \<Rightarrow> commitReport s r | Clear ks \<Rightarrow> clear s ks)"

locale consensus_engine =
  fixes commitHeader :: "'s \<Rightarrow> 'h \<Rightarrow> 's"
    and commitReport :: "'s \<Rightarrow> 'r \<Rightarrow> 's"
    and clear :: "'s \<Rightarrow> 'k list \<Rightarrow> 's"
    and latest :: "'s \<Rightarrow> 'h option"
    and pending :: "'s \<Rightarrow> ('k \<rightharpoonup> 'r)"
    and key :: "'r \<Rightarrow> 'k"
  assumes latest_commitHeader: "latest (commitHeader s h) = Some h"
    and latest_commitReport: "latest (commitReport s r) = latest s"
    and latest_clear: "latest (clear s ks) = latest s"
    and pending_commitHeader: "pending (commitHeader s h) = pending s"
    and pending_commitReport: "pending (commitReport s r) = (pending s)(key r \<mapsto> r)"
    and pending_clear: "pending (clear s ks) = pending s |` (- set ks)"
begin

lemma latest_run: "latest s = None \<Longrightarrow> latest (foldl (run_op commitHeader commitReport clear) s ops) = latest_of ops"
  by (induction ops rule: rev_induct)
    (simp_all add: latest_of_def run_op_def latest_commitHeader latest_commitReport latest_clear split: engine_op.split)

lemma pending_run: "pending s = Map.empty \<Longrightarrow> pending (foldl (run_op commitHeader commitReport clear) s ops) = pending_of key ops"
  by (induction ops rule: rev_induct)
    (simp_all add: pending_of_def run_op_def pending_commitHeader pending_commitReport pending_clear split: engine_op.split)

end

end
