(* ===== verification/Validator_Set.thy ===== *)
theory Validator_Set
  imports Proto_Types Interfaces
begin

text \<open>
  The validator set of \<open>src/internal/types/types.go\<close>: its validation, lookups and updates, and
  the signature-count and weight thresholds. \<open>src/internal/consensus/threshold.go\<close> wraps the
  count threshold for a set pointer that may be \<open>nil\<close>.
\<close>

section \<open>Model\<close>

record Validator =
  v_ID :: string
  v_PubKey :: bytes
  v_Weight :: u64
  v_Endpoint :: string

record ValidatorSet =
  vs_Validators :: "Validator list"
  vs_MinValidators :: int
  vs_ThresholdNum :: int
  vs_ThresholdDenom :: int
  vs_EffectiveEpoch :: u64

datatype vset_error =
    InsufficientValidators int int
  | InvalidThreshold int int
  | NumeratorAboveDenominator int int
  | DuplicateValidatorID string

text \<open>The \<open>seen\<close> loop of \<open>Validate\<close>: the first ID that occurred before.\<close>

fun find_duplicate :: "string set \<Rightarrow> Validator list \<Rightarrow> string option" where
  "find_duplicate seen [] = None"
| "find_duplicate seen (v # vs) =
     (if v_ID v \<in> seen then Some (v_ID v) else find_duplicate (insert (v_ID v) seen) vs)"

definition Validate :: "ValidatorSet \<Rightarrow> vset_error + unit" where
  "Validate vs =
     (if int (length (vs_Validators vs)) < vs_MinValidators vs
      then Inl (InsufficientValidators (int (length (vs_Validators vs))) (vs_MinValidators vs))
      else if vs_ThresholdNum vs \<le> 0 \<or> vs_ThresholdDenom vs \<le> 0
      then Inl (InvalidThreshold (vs_ThresholdNum vs) (vs_ThresholdDenom vs))
      else if vs_ThresholdNum vs > vs_ThresholdDenom vs
      then Inl (NumeratorAboveDenominator (vs_ThresholdNum vs) (vs_ThresholdDenom vs))
      else (case find_duplicate {} (vs_Validators vs) of
              Some i \<Rightarrow> Inl (DuplicateValidatorID i)
            | None \<Rightarrow> Inr ()))"

text \<open>
  \<open>sort.Slice\<close> returns some ascending permutation; with distinct IDs there is only one
  (\<open>SortValidators_unique\<close> below), so a stable sort stands for it.
\<close>

definition SortValidators :: "ValidatorSet \<Rightarrow> ValidatorSet" where
  "SortValidators vs = vs\<lparr>vs_Validators := sort_key v_ID (vs_Validators vs)\<rparr>"

fun index_from :: "int \<Rightarrow> string \<Rightarrow> Validator list \<Rightarrow> int" where
  "index_from i k [] = - 1"
| "index_from i k (v # vs) = (if v_ID v = k then i else index_from (i + 1) k vs)"

definition IndexByID :: "ValidatorSet \<Rightarrow> string \<Rightarrow> int" where
  "IndexByID vs k = index_from 0 k (vs_Validators vs)"

definition RequiredSignatures :: "ValidatorSet \<Rightarrow> go_panic + int" where
  "RequiredSignatures vs =
     (let total = int (length (vs_Validators vs));
          p = i64 (total * vs_ThresholdNum vs)
      in if vs_ThresholdDenom vs = 0 then Inl DivideByZero
         else let required = i64 (p sdiv vs_ThresholdDenom vs);
                  required = (if p smod vs_ThresholdDenom vs > 0 then i64 (required + 1) else required)
              in Inr (if required < 1 then 1 else required))"

definition CheckThreshold :: "ValidatorSet \<Rightarrow> int \<Rightarrow> go_panic + bool" where
  "CheckThreshold vs numSignatures =
     (case RequiredSignatures vs of Inl e \<Rightarrow> Inl e | Inr r \<Rightarrow> Inr (numSignatures \<ge> r))"

definition TotalWeight :: "ValidatorSet \<Rightarrow> u64" where
  "TotalWeight vs = foldl (\<lambda>total v. total + v_Weight v) 0 (vs_Validators vs)"

definition RequiredWeight :: "ValidatorSet \<Rightarrow> go_panic + u64" where
  "RequiredWeight vs =
     (let p = TotalWeight vs * word_of_int (vs_ThresholdNum vs);
          d = (word_of_int (vs_ThresholdDenom vs) :: u64)
      in if d = 0 then Inl DivideByZero
         else let required = p div d
              in Inr (if p mod d > 0 then required + 1 else required))"

fun get_from :: "string \<Rightarrow> Validator list \<Rightarrow> Validator option" where
  "get_from k [] = None"
| "get_from k (v # vs) = (if v_ID v = k then Some v else get_from k vs)"

definition GetValidator :: "ValidatorSet \<Rightarrow> string \<Rightarrow> Validator option" where
  "GetValidator vs k = get_from k (vs_Validators vs)"

text \<open>The keys of the signature map, in the order the \<open>range\<close> loop visits them.\<close>

definition CheckWeightedThreshold :: "ValidatorSet \<Rightarrow> string list \<Rightarrow> go_panic + bool" where
  "CheckWeightedThreshold vs signers =
     (let totalWeight = foldl (\<lambda>t k. case GetValidator vs k of Some v \<Rightarrow> t + v_Weight v | None \<Rightarrow> t)
                          (0::u64) signers
      in case RequiredWeight vs of Inl e \<Rightarrow> Inl e | Inr r \<Rightarrow> Inr (totalWeight \<ge> r))"

fun upsert :: "Validator \<Rightarrow> Validator list \<Rightarrow> Validator list" where
  "upsert v [] = [v]"
| "upsert v (w # ws) = (if v_ID w = v_ID v then v # ws else w # upsert v ws)"

definition UpsertValidator :: "ValidatorSet \<Rightarrow> Validator \<Rightarrow> ValidatorSet" where
  "UpsertValidator vs v = vs\<lparr>vs_Validators := upsert v (vs_Validators vs)\<rparr>"

fun remove_first :: "string \<Rightarrow> Validator list \<Rightarrow> Validator list" where
  "remove_first k [] = []"
| "remove_first k (v # vs) = (if v_ID v = k then vs else v # remove_first k vs)"

definition RemoveValidator :: "ValidatorSet \<Rightarrow> string \<Rightarrow> ValidatorSet \<times> bool" where
  "RemoveValidator vs k =
     (vs\<lparr>vs_Validators := remove_first k (vs_Validators vs)\<rparr>,
      \<exists>v \<in> set (vs_Validators vs). v_ID v = k)"

definition Clone :: "ValidatorSet \<Rightarrow> ValidatorSet" where
  "Clone vs = \<lparr>vs_Validators = vs_Validators vs, vs_MinValidators = vs_MinValidators vs,
     vs_ThresholdNum = vs_ThresholdNum vs, vs_ThresholdDenom = vs_ThresholdDenom vs,
     vs_EffectiveEpoch = vs_EffectiveEpoch vs\<rparr>"

text \<open>\<open>consensus.RequiredSigs\<close> and \<open>consensus.CheckThreshold\<close>: a \<open>nil\<close> set needs no signature.\<close>

definition RequiredSigs :: "ValidatorSet option \<Rightarrow> go_panic + int" where
  "RequiredSigs vs = (case vs of None \<Rightarrow> Inr 0 | Some s \<Rightarrow> RequiredSignatures s)"

definition CheckThreshold_consensus :: "int \<Rightarrow> ValidatorSet option \<Rightarrow> go_panic + bool" where
  "CheckThreshold_consensus sigCount vs =
     (case RequiredSigs vs of Inl e \<Rightarrow> Inl e | Inr r \<Rightarrow> Inr (sigCount \<ge> r))"

section \<open>Validation and lookups\<close>

definition vset_ids :: "ValidatorSet \<Rightarrow> string set" where
  "vset_ids vs = v_ID ` set (vs_Validators vs)"

definition vset_distinct :: "ValidatorSet \<Rightarrow> bool" where
  "vset_distinct vs \<longleftrightarrow> distinct (map v_ID (vs_Validators vs))"

lemma find_duplicate_None:
  "find_duplicate seen vs = None \<longleftrightarrow> distinct (map v_ID vs) \<and> v_ID ` set vs \<inter> seen = {}"
  by (induction vs arbitrary: seen) auto

lemma find_duplicate_Some:
  "find_duplicate seen vs = Some i \<Longrightarrow>
     \<exists>us v ws. vs = us @ v # ws \<and> v_ID v = i \<and> (i \<in> seen \<or> i \<in> v_ID ` set us)"
proof (induction vs arbitrary: seen)
  case (Cons v vs)
  show ?case
  proof (cases "v_ID v \<in> seen")
    case True
    with Cons.prems show ?thesis by (intro exI [of _ "[]"]) auto
  next
    case False
    with Cons.prems have "find_duplicate (insert (v_ID v) seen) vs = Some i" by simp
    from Cons.IH [OF this] obtain us w ws where "vs = us @ w # ws" "v_ID w = i"
      "i \<in> insert (v_ID v) seen \<or> i \<in> v_ID ` set us" by blast
    then show ?thesis by (intro exI [of _ "v # us"]) auto
  qed
qed simp

lemma Validate_Inr [spec_simps]:
  "Validate vs = Inr u \<longleftrightarrow>
     vs_MinValidators vs \<le> int (length (vs_Validators vs)) \<and> 0 < vs_ThresholdNum vs \<and>
     vs_ThresholdNum vs \<le> vs_ThresholdDenom vs \<and> vset_distinct vs"
  using find_duplicate_None [of "{}" "vs_Validators vs"]
  by (auto simp: Validate_def vset_distinct_def split: option.splits)

lemma index_from_bounds: "index_from i k vs = - 1 \<or> (i \<le> index_from i k vs \<and> index_from i k vs < i + int (length vs))"
proof (induction vs arbitrary: i)
  case (Cons v vs)
  from Cons.IH [of "i + 1"] show ?case by auto
qed simp

lemma index_from_nth:
  "0 \<le> i \<Longrightarrow> index_from i k vs = j \<Longrightarrow> 0 \<le> j \<Longrightarrow>
     nat (j - i) < length vs \<and> v_ID (vs ! nat (j - i)) = k \<and> i \<le> j"
proof (induction vs arbitrary: i)
  case (Cons v vs)
  show ?case
  proof (cases "v_ID v = k")
    case False
    with Cons.prems have "index_from (i + 1) k vs = j" by simp
    from Cons.IH [OF _ this Cons.prems(3)] Cons.prems(1)
    have *: "nat (j - (i + 1)) < length vs" "v_ID (vs ! nat (j - (i + 1))) = k" "i + 1 \<le> j" by auto
    then have "nat (j - i) = Suc (nat (j - (i + 1)))" by simp
    with * show ?thesis by simp
  qed (use Cons.prems in auto)
qed simp

lemma index_from_missing: "0 \<le> i \<Longrightarrow> index_from i k vs = - 1 \<longleftrightarrow> k \<notin> v_ID ` set vs"
  by (induction vs arbitrary: i) auto

lemma get_from_Some: "get_from k vs = Some v \<Longrightarrow> v \<in> set vs \<and> v_ID v = k"
  by (induction vs) (auto split: if_splits)

lemma get_from_None: "get_from k vs = None \<longleftrightarrow> k \<notin> v_ID ` set vs"
  by (induction vs) auto

lemma GetValidator_None [spec_simps]: "GetValidator vs k = None \<longleftrightarrow> k \<notin> vset_ids vs"
  by (simp add: GetValidator_def vset_ids_def get_from_None)

lemma IndexByID_missing [spec_simps]: "IndexByID vs k = - 1 \<longleftrightarrow> k \<notin> vset_ids vs"
  by (simp add: IndexByID_def vset_ids_def index_from_missing)

lemma IndexByID_range: "IndexByID vs k = - 1 \<or> (0 \<le> IndexByID vs k \<and> IndexByID vs k < int (length (vs_Validators vs)))"
  using index_from_bounds [of 0 k "vs_Validators vs"] by (simp add: IndexByID_def)

lemma IndexByID_nth:
  "0 \<le> IndexByID vs k \<Longrightarrow>
     nat (IndexByID vs k) < length (vs_Validators vs) \<and> v_ID (vs_Validators vs ! nat (IndexByID vs k)) = k"
  using index_from_nth [of 0 k "vs_Validators vs" "IndexByID vs k"] by (simp add: IndexByID_def)

lemma IndexByID_inj: "0 \<le> IndexByID vs k \<Longrightarrow> IndexByID vs k = IndexByID vs l \<Longrightarrow> k = l"
  by (metis IndexByID_nth)

section \<open>Updates\<close>

lemma upsert_ids: "v_ID ` set (upsert v ws) = insert (v_ID v) (v_ID ` set ws)"
  by (induction ws) auto

lemma distinct_upsert: "distinct (map v_ID ws) \<Longrightarrow> distinct (map v_ID (upsert v ws))"
proof (induction ws)
  case (Cons w ws)
  then show ?case by (cases "v_ID w = v_ID v") (simp_all add: upsert_ids)
qed simp

lemma get_from_upsert:
  "get_from k (upsert v ws) = (if k = v_ID v then Some v else get_from k ws)"
  by (induction ws) auto

lemma remove_first_ids:
  "distinct (map v_ID ws) \<Longrightarrow> v_ID ` set (remove_first k ws) = v_ID ` set ws - {k}"
proof (induction ws)
  case (Cons w ws)
  then show ?case by (cases "v_ID w = k") auto
qed simp

lemma distinct_remove_first: "distinct (map v_ID ws) \<Longrightarrow> distinct (map v_ID (remove_first k ws))"
  by (induction ws) (simp_all add: remove_first_ids)

lemma get_from_remove_first:
  "distinct (map v_ID ws) \<Longrightarrow> get_from j (remove_first k ws) = (if j = k then None else get_from j ws)"
  by (induction ws) (auto simp: get_from_None)

text \<open>A validator set without duplicate IDs is a deletable keyed store.\<close>

interpretation vset: deletable_store GetValidator v_ID UpsertValidator vset_distinct
  "\<lambda>vs k. fst (RemoveValidator vs k)"
  by unfold_locales
    (simp_all add: GetValidator_def UpsertValidator_def RemoveValidator_def vset_distinct_def
      get_from_upsert get_from_remove_first distinct_upsert distinct_remove_first)

section \<open>Signature thresholds\<close>

text \<open>The product of the set's size and the threshold's numerator fits a 64-bit \<open>int\<close>.\<close>

definition fits_int :: "ValidatorSet \<Rightarrow> bool" where
  "fits_int vs \<longleftrightarrow> int (length (vs_Validators vs)) * vs_ThresholdNum vs < 2 ^ 63 - 1"

lemma RequiredSignatures_Inr:
  assumes "Validate vs = Inr ()" "fits_int vs"
  shows "RequiredSignatures vs =
    Inr (max 1 (ceil_div (int (length (vs_Validators vs)) * vs_ThresholdNum vs) (vs_ThresholdDenom vs)))"
proof -
  let ?p = "int (length (vs_Validators vs)) * vs_ThresholdNum vs" and ?d = "vs_ThresholdDenom vs"
  from assms have pos: "0 < vs_ThresholdNum vs" "0 < ?d" by (auto simp: spec_simps)
  then have p: "0 \<le> ?p" "?p < 2 ^ 63 - 1" using assms(2) by (simp_all add: fits_int_def)
  have q: "0 \<le> ?p div ?d" "?p div ?d \<le> ?p"
    using p(1) pos(2) zdiv_mono2 [of ?p 1 ?d] by (simp_all add: pos_imp_zdiv_nonneg_iff)
  have i: "i64 ?p = ?p" "i64 (?p div ?d) = ?p div ?d" "i64 (?p div ?d + 1) = ?p div ?d + 1"
    using p q by (intro i64_id; linarith)+
  show ?thesis
    using pos p(1) by (simp add: RequiredSignatures_def Let_def i ceil_div_def max_def)
qed

lemma RequiredSignatures_panic:
  "vs_ThresholdDenom vs = 0 \<longleftrightarrow> RequiredSignatures vs = Inl DivideByZero"
  by (simp add: RequiredSignatures_def Let_def)

lemma CheckThreshold_fraction:
  assumes "Validate vs = Inr ()" "fits_int vs"
  shows "CheckThreshold vs k =
    Inr (1 \<le> k \<and> int (length (vs_Validators vs)) * vs_ThresholdNum vs \<le> k * vs_ThresholdDenom vs)"
proof -
  from assms have "0 < vs_ThresholdDenom vs" by (auto simp: spec_simps)
  then show ?thesis
    by (simp add: CheckThreshold_def RequiredSignatures_Inr [OF assms] ceil_div_le)
qed

definition quorum_size :: "ValidatorSet \<Rightarrow> nat" where
  "quorum_size vs = (case RequiredSignatures vs of Inr r \<Rightarrow> nat r | Inl _ \<Rightarrow> 0)"

text \<open>How many members two quorums share at least, less one.\<close>

definition quorum_slack_of :: "ValidatorSet \<Rightarrow> nat" where
  "quorum_slack_of vs = 2 * quorum_size vs - card (vset_ids vs) - 1"

definition majority_set :: "ValidatorSet \<Rightarrow> bool" where
  "majority_set vs \<longleftrightarrow> Validate vs = Inr () \<and> fits_int vs \<and> vs_Validators vs \<noteq> [] \<and>
     vs_ThresholdDenom vs < 2 * vs_ThresholdNum vs"

lemma card_vset_ids: "vset_distinct vs \<Longrightarrow> card (vset_ids vs) = length (vs_Validators vs)"
  by (metis vset_ids_def vset_distinct_def distinct_card length_map list.set_map)

lemma quorum_size_bound:
  assumes "Validate vs = Inr ()" "fits_int vs"
  shows "int (length (vs_Validators vs)) * vs_ThresholdNum vs \<le> int (quorum_size vs) * vs_ThresholdDenom vs"
    and "1 \<le> quorum_size vs"
proof -
  from assms have d: "0 < vs_ThresholdDenom vs" by (auto simp: spec_simps)
  have "quorum_size vs =
      nat (max 1 (ceil_div (int (length (vs_Validators vs)) * vs_ThresholdNum vs) (vs_ThresholdDenom vs)))"
    by (simp add: quorum_size_def RequiredSignatures_Inr [OF assms])
  then have "ceil_div (int (length (vs_Validators vs)) * vs_ThresholdNum vs) (vs_ThresholdDenom vs)
      \<le> int (quorum_size vs)" and "1 \<le> quorum_size vs" by auto
  then show "int (length (vs_Validators vs)) * vs_ThresholdNum vs
      \<le> int (quorum_size vs) * vs_ThresholdDenom vs" and "1 \<le> quorum_size vs"
    using ceil_div_le [OF d] by auto
qed

lemma majority_quorum:
  assumes "majority_set vs"
  shows "card (vset_ids vs) < 2 * quorum_size vs"
proof -
  let ?n = "int (length (vs_Validators vs))" and ?num = "vs_ThresholdNum vs" and ?d = "vs_ThresholdDenom vs"
  from assms have ok: "Validate vs = Inr ()" "fits_int vs" and n: "0 < ?n" and maj: "?d < 2 * ?num"
    by (auto simp: majority_set_def)
  have d: "0 < ?d" using ok(1) by (auto simp: spec_simps)
  have "?n * ?d < ?n * (2 * ?num)" using n maj by (rule mult_strict_left_mono [rotated])
  also have "\<dots> \<le> (2 * int (quorum_size vs)) * ?d" using quorum_size_bound(1) [OF ok] by simp
  finally have "?n < 2 * int (quorum_size vs)" using d by (simp add: mult_less_cancel_right)
  then show ?thesis using ok(1) by (simp add: card_vset_ids spec_simps)
qed

interpretation vset_quorum: quorum_rule vset_ids quorum_size quorum_slack_of majority_set
proof
  fix s assume "majority_set s"
  then show "card (vset_ids s) + quorum_slack_of s < 2 * quorum_size s"
    using majority_quorum [of s] by (simp add: quorum_slack_of_def)
qed (simp add: vset_ids_def)

section \<open>Weights\<close>

definition weight_sum :: "ValidatorSet \<Rightarrow> nat" where
  "weight_sum vs = sum_list (map (unat \<circ> v_Weight) (vs_Validators vs))"

lemma foldl_add_acc: "foldl (\<lambda>t x. t + f x) (a :: 'a::comm_monoid_add) xs = a + sum_list (map f xs)"
  by (induction xs arbitrary: a) (simp_all add: add.assoc)

lemma unat_sum_list:
  "sum_list (map (unat \<circ> f) xs) < 2 ^ 64 \<Longrightarrow> unat (sum_list (map f xs) :: u64) = sum_list (map (unat \<circ> f) xs)"
  by (induction xs) (simp_all add: unat_word_ariths)

lemma unat_TotalWeight: "weight_sum vs < 2 ^ 64 \<Longrightarrow> unat (TotalWeight vs) = weight_sum vs"
  by (simp add: TotalWeight_def weight_sum_def foldl_add_acc unat_sum_list)

lemma CheckWeightedThreshold_perm:
  assumes "mset ks = mset ls"
  shows "CheckWeightedThreshold vs ks = CheckWeightedThreshold vs ls"
proof -
  let ?w = "\<lambda>k. case GetValidator vs k of Some v \<Rightarrow> v_Weight v | None \<Rightarrow> 0"
  have "(\<lambda>t k. case GetValidator vs k of Some v \<Rightarrow> t + v_Weight v | None \<Rightarrow> t) = (\<lambda>t k. t + ?w k)"
    by (intro ext) (simp split: option.splits)
  moreover have "sum_list (map ?w ks) = sum_list (map ?w ls)"
    using assms by (simp flip: sum_mset_sum_list)
  ultimately show ?thesis by (simp add: CheckWeightedThreshold_def foldl_add_acc)
qed

lemma unat_word_ceil:
  fixes p d :: u64
  assumes "d \<noteq> 0"
  shows "int (unat (if p mod d > 0 then p div d + 1 else p div d)) = ceil_div (int (unat p)) (int (unat d))"
proof -
  let ?a = "unat p" and ?b = "unat d"
  have gt: "p mod d > 0 \<longleftrightarrow> ?a mod ?b > 0"
    by (simp add: word_gt_0 unat_mod [symmetric] unat_gt_0)
  have "unat (p div d + 1) = ?a div ?b + 1" if "?a mod ?b > 0"
  proof -
    from that have "?b \<noteq> 1" by auto
    moreover from that have "0 < ?a" by (cases "?a = 0") simp_all
    moreover have "?b \<noteq> 0" using assms by (simp add: unat_eq_zero)
    ultimately have "?a div ?b < ?a" by (intro div_less_dividend) simp_all
    then have "?a div ?b + 1 < 2 ^ 64" using unat_less [of p] by simp
    then show ?thesis by (simp add: unat_word_ariths unat_div)
  qed
  moreover have "ceil_div (int ?a) (int ?b) = int (?a div ?b + (if ?a mod ?b > 0 then 1 else 0))"
    by (simp add: ceil_div_def del: of_nat_unat flip: of_nat_mod of_nat_div)
  ultimately show ?thesis using gt by (simp add: unat_div del: of_nat_unat)
qed

lemma RequiredWeight_no_overflow:
  assumes ok: "Validate vs = Inr ()" and num: "vs_ThresholdDenom vs < 2 ^ 63"
    and fits: "weight_sum vs * nat (vs_ThresholdNum vs) < 2 ^ 64"
  shows "\<exists>r. RequiredWeight vs = Inr r \<and>
    int (unat r) = ceil_div (int (weight_sum vs) * vs_ThresholdNum vs) (vs_ThresholdDenom vs)"
proof -
  let ?n = "vs_ThresholdNum vs" and ?d = "vs_ThresholdDenom vs" and ?w = "weight_sum vs"
  from ok have pos: "0 < ?n" "?n \<le> ?d" by (auto simp: spec_simps)
  have un: "unat (word_of_int ?n :: u64) = nat ?n" and ud: "unat (word_of_int ?d :: u64) = nat ?d"
    using pos num by (simp_all add: unat_eq_nat_uint uint_word_of_int)
  have "?w * 1 \<le> ?w * nat ?n" using pos(1) by (intro mult_le_mono2) simp
  then have w: "?w < 2 ^ 64" using fits by linarith
  let ?p = "TotalWeight vs * word_of_int ?n :: u64" and ?D = "word_of_int ?d :: u64"
  have p: "unat ?p = ?w * nat ?n"
    using fits by (simp add: unat_word_ariths unat_TotalWeight [OF w] un)
  have d0: "?D \<noteq> 0"
  proof
    assume "?D = 0"
    with ud pos show False by simp
  qed
  let ?r = "if ?p mod ?D > 0 then ?p div ?D + 1 else ?p div ?D"
  have "RequiredWeight vs = Inr ?r" using d0 by (simp add: RequiredWeight_def Let_def)
  moreover have "int (unat ?r) = ceil_div (int (unat ?p)) (int (unat ?D))" by (rule unat_word_ceil [OF d0])
  ultimately show ?thesis using pos by (simp only: p ud) simp
qed

section \<open>Properties\<close>

lemma slack_bound:
  assumes maj: "majority_set vs"
    and F: "int f * vs_ThresholdDenom vs
      < int (length (vs_Validators vs)) * (2 * vs_ThresholdNum vs - vs_ThresholdDenom vs)"
  shows "f \<le> quorum_slack_of vs"
proof -
  let ?n = "int (length (vs_Validators vs))" and ?num = "vs_ThresholdNum vs" and ?d = "vs_ThresholdDenom vs"
  from maj have ok: "Validate vs = Inr ()" "fits_int vs" by (auto simp: majority_set_def)
  have d: "0 < ?d" using ok(1) by (auto simp: spec_simps)
  have "int f * ?d < 2 * (?n * ?num) - ?n * ?d" using F by (simp add: algebra_simps)
  also have "\<dots> \<le> (2 * int (quorum_size vs) - ?n) * ?d"
    using quorum_size_bound(1) [OF ok] by (simp add: algebra_simps)
  finally have "int f < 2 * int (quorum_size vs) - ?n" using d by (simp add: mult_less_cancel_right)
  then show ?thesis using ok(1) by (simp add: quorum_slack_of_def card_vset_ids spec_simps)
qed

lemma CheckThreshold_quorum_size:
  "CheckThreshold vs (int k) = Inr True \<Longrightarrow> quorum_size vs \<le> k"
  by (auto simp: CheckThreshold_def quorum_size_def split: sum.splits)

text \<open>
  C1: The signature threshold is exactly the configured fraction. For a set that passes
  \<open>Validate\<close> (and whose size times the numerator fits an \<open>int\<close>), \<open>CheckThreshold\<close> never
  panics, and it accepts \<open>k\<close> signatures if and only if \<open>k\<close> is at least one and \<open>k\<close> out of
  \<open>n\<close> is at least the fraction \<open>ThresholdNum / ThresholdDenom\<close>: the count is rounded up.
\<close>

theorem CheckThreshold_exact:
  assumes "Validate vs = Inr ()"
    and "int (length (vs_Validators vs)) * vs_ThresholdNum vs < 2 ^ 63 - 1"
  shows "CheckThreshold vs k =
    Inr (1 \<le> k \<and> int (length (vs_Validators vs)) * vs_ThresholdNum vs \<le> k * vs_ThresholdDenom vs)"
  using assms by (intro CheckThreshold_fraction) (simp_all add: fits_int_def)

definition example_validator :: "string \<Rightarrow> u64 \<Rightarrow> Validator" where
  "example_validator i w = \<lparr>v_ID = i, v_PubKey = [], v_Weight = w, v_Endpoint = []\<rparr>"

definition example_set :: ValidatorSet where
  "example_set = \<lparr>vs_Validators = map (\<lambda>i. example_validator i 1) [''v1'', ''v2'', ''v3'', ''v4''],
     vs_MinValidators = 4, vs_ThresholdNum = 3, vs_ThresholdDenom = 4, vs_EffectiveEpoch = 0\<rparr>"

lemmas example_set_simps = example_set_def example_validator_def vset_distinct_def vset_ids_def

theorem CheckThreshold_exact_witness:
  "CheckThreshold example_set 3 = Inr True \<and> CheckThreshold example_set 2 = Inr False"
proof -
  have ok: "Validate example_set = Inr ()" by (simp add: spec_simps example_set_simps)
  have fits: "int (length (vs_Validators example_set)) * vs_ThresholdNum example_set < 2 ^ 63 - 1"
    by (simp add: example_set_simps)
  show ?thesis
    by (simp add: CheckThreshold_exact [OF ok fits]) (simp add: example_set_simps)
qed

text \<open>
  C13: Quorum intersection. When the threshold fraction is above one half, two groups of
  validators that both pass \<open>CheckThreshold\<close> share a validator outside any faulty group \<open>F\<close>
  with \<open>|F| * ThresholdDenom < n * (2 * ThresholdNum - ThresholdDenom)\<close>: for the threshold 3/4
  that tolerates every \<open>F\<close> with fewer than half the validators, so two conflicting checkpoints
  cannot both gather a threshold without a correct validator signing both.
\<close>

theorem quorum_intersection:
  assumes "Validate vs = Inr ()" "vs_Validators vs \<noteq> []"
    and "int (length (vs_Validators vs)) * vs_ThresholdNum vs < 2 ^ 63 - 1"
    and "vs_ThresholdDenom vs < 2 * vs_ThresholdNum vs"
    and "A \<subseteq> vset_ids vs" "B \<subseteq> vset_ids vs"
    and "CheckThreshold vs (int (card A)) = Inr True" "CheckThreshold vs (int (card B)) = Inr True"
    and "finite F" "int (card F) * vs_ThresholdDenom vs
           < int (length (vs_Validators vs)) * (2 * vs_ThresholdNum vs - vs_ThresholdDenom vs)"
  shows "\<exists>i. i \<in> A \<inter> B \<and> i \<notin> F"
proof -
  have "majority_set vs" using assms(1-4) by (simp add: majority_set_def fits_int_def)
  with assms show ?thesis
    by (intro vset_quorum.correct_member_in_overlap [of vs] CheckThreshold_quorum_size slack_bound)
qed

theorem quorum_intersection_witness:
  "\<exists>i. i \<in> {''v1'', ''v2'', ''v3''} \<inter> {''v2'', ''v3'', ''v4''} \<and> i \<notin> {''v2''}"
proof (rule quorum_intersection [of example_set])
  show "CheckThreshold example_set (int (card {''v1'', ''v2'', ''v3''})) = Inr True"
    and "CheckThreshold example_set (int (card {''v2'', ''v3'', ''v4''})) = Inr True"
    by (simp_all add: CheckThreshold_def RequiredSignatures_def example_set_simps)
qed (simp_all add: spec_simps example_set_simps)

text \<open>
  The weight threshold is the rounded-up fraction of the total weight as long as the total
  weight times the numerator stays below \<open>2^64\<close>: \<open>RequiredWeight\<close> then returns the least
  weight \<open>r\<close> with \<open>r * ThresholdDenom \<ge> total * ThresholdNum\<close>.
\<close>

theorem RequiredWeight_exact:
  assumes "Validate vs = Inr ()" "vs_ThresholdDenom vs < 2 ^ 63"
    and "weight_sum vs * nat (vs_ThresholdNum vs) < 2 ^ 64"
  shows "\<exists>r. RequiredWeight vs = Inr r \<and>
    (\<forall>k. int (unat r) \<le> k \<longleftrightarrow> int (weight_sum vs) * vs_ThresholdNum vs \<le> k * vs_ThresholdDenom vs)"
proof -
  have "0 < vs_ThresholdDenom vs" using assms(1) by (auto simp: spec_simps)
  with RequiredWeight_no_overflow [OF assms] show ?thesis
    by (metis ceil_div_le)
qed

theorem RequiredWeight_exact_witness: "RequiredWeight example_set = Inr 3"
proof -
  have ok: "Validate example_set = Inr ()" "vs_ThresholdDenom example_set < 2 ^ 63"
    "weight_sum example_set * nat (vs_ThresholdNum example_set) < 2 ^ 64"
    by (simp_all add: spec_simps example_set_simps weight_sum_def)
  obtain r where r: "RequiredWeight example_set = Inr r"
    and le: "\<forall>k. int (unat r) \<le> k \<longleftrightarrow> int (weight_sum example_set) * vs_ThresholdNum example_set
        \<le> k * vs_ThresholdDenom example_set"
    using RequiredWeight_exact [OF ok] by blast
  have "int (unat r) \<le> k \<longleftrightarrow> 3 \<le> k" for k using le by (simp add: example_set_simps weight_sum_def)
  then have "int (unat r) = 3" by (meson order_antisym order_refl)
  then have "unat r = 3" by linarith
  then have "r = 3" by (simp add: word_unat_eq_iff)
  with r show ?thesis by simp
qed

text \<open>
  Without that bound the weight threshold is void: \<open>TotalWeight\<close> wraps around at \<open>2^64\<close>,
  and there is a set that passes \<open>Validate\<close>, with two validators of positive weight, whose weight
  threshold is met by no signature at all.
\<close>

theorem weight_threshold_overflow:
  "\<exists>vs v w. Validate vs = Inr () \<and> vs_Validators vs = [v, w] \<and> 0 < v_Weight v \<and> 0 < v_Weight w \<and>
     CheckWeightedThreshold vs [] = Inr True"
proof -
  let ?v = "example_validator ''a'' (2 ^ 63)" and ?w = "example_validator ''b'' (2 ^ 63)"
  let ?vs = "\<lparr>vs_Validators = [?v, ?w],
     vs_MinValidators = 2, vs_ThresholdNum = 3, vs_ThresholdDenom = 4, vs_EffectiveEpoch = 0\<rparr>"
  have "Validate ?vs = Inr ()" "0 < v_Weight ?v" "0 < v_Weight ?w"
    by (simp_all add: spec_simps example_set_simps)
  moreover have "TotalWeight ?vs = 0" by (simp add: TotalWeight_def example_validator_def)
  then have "CheckWeightedThreshold ?vs [] = Inr True"
    by (simp add: CheckWeightedThreshold_def RequiredWeight_def)
  ultimately show ?thesis by (intro exI [of _ ?vs]) simp
qed

text \<open>
  Updates keep the set valid and do what their names say. Upserting a sequence of validators
  into a valid set gives a valid set in which every ID maps to the last validator upserted under
  it; removing an ID removes exactly that entry and reports whether it was there.
\<close>

theorem upserts_and_removal:
  assumes "Validate vs = Inr ()"
  shows "Validate (foldl UpsertValidator vs us) = Inr () \<and>
    (\<forall>k. k \<notin> v_ID ` set us \<longrightarrow> GetValidator (foldl UpsertValidator vs us) k = GetValidator vs k) \<and>
    (\<forall>xs v ys. us = xs @ v # ys \<longrightarrow> v_ID v \<notin> v_ID ` set ys \<longrightarrow>
        GetValidator (foldl UpsertValidator vs us) (v_ID v) = Some v) \<and>
    (\<forall>k j. GetValidator (fst (RemoveValidator vs k)) j = (if j = k then None else GetValidator vs j)) \<and>
    (\<forall>k. snd (RemoveValidator vs k) \<longleftrightarrow> GetValidator vs k \<noteq> None)"
proof -
  from assms have d: "vset_distinct vs" by (auto simp: spec_simps)
  have grow: "length ws \<le> length (upsert v ws)" for v ws by (induction ws) auto
  have "Validate (UpsertValidator s v) = Inr ()" if "Validate s = Inr ()" for s v
    using that vset.invar_put [of s v] grow [of "vs_Validators s" v]
    by (auto simp: spec_simps UpsertValidator_def)
  then have "Validate (foldl UpsertValidator vs us) = Inr ()"
    using assms by (induction us arbitrary: vs) simp_all
  moreover have "snd (RemoveValidator vs k) \<longleftrightarrow> GetValidator vs k \<noteq> None" for k
    by (auto simp: RemoveValidator_def spec_simps vset_ids_def)
  ultimately show ?thesis
    using d vset.lookup_puts_notin vset.lookup_puts_last vset.lookup_del by auto
qed

theorem upserts_and_removal_witness:
  "GetValidator (foldl UpsertValidator example_set [example_validator ''v5'' 7, example_validator ''v2'' 9]) ''v2''
     = Some (example_validator ''v2'' 9)"
proof -
  have ok: "Validate example_set = Inr ()" by (simp add: spec_simps example_set_simps)
  show ?thesis
    using upserts_and_removal [OF ok, of "[example_validator ''v5'' 7, example_validator ''v2'' 9]"]
    by (metis append_Cons append_Nil empty_iff empty_set example_validator_def image_empty select_convs(1) Validator.select_convs(1))
qed

text \<open>
  Sorting is canonical. Any two validator lists with the same members (in any order, with
  distinct IDs) become the same list under \<open>SortValidators\<close>, strictly ascending by ID, so every
  node assigns the same index (and with it the same leader slot) to every validator.
\<close>

theorem SortValidators_canonical:
  assumes "vset_distinct vs" "mset (vs_Validators ws) = mset (vs_Validators vs)"
  shows "vs_Validators (SortValidators ws) = vs_Validators (SortValidators vs) \<and>
    sorted_wrt (<) (map v_ID (vs_Validators (SortValidators vs))) \<and>
    IndexByID (SortValidators ws) k = IndexByID (SortValidators vs) k"
proof -
  have inj: "inj_on v_ID (set (vs_Validators vs))" and dist: "distinct (map v_ID (vs_Validators vs))"
    using assms(1) by (simp_all add: vset_distinct_def distinct_map)
  have eq: "sort_key v_ID (vs_Validators ws) = sort_key v_ID (vs_Validators vs)"
    using assms(2) inj mset_eq_setD [OF assms(2)]
    by (intro sort_key_inj_key_eq) simp_all
  have "distinct (map v_ID (sort_key v_ID (vs_Validators vs)))"
    using dist by (simp add: distinct_map)
  then have "sorted_wrt (<) (map v_ID (sort_key v_ID (vs_Validators vs)))"
    by (simp add: strict_sorted_iff)
  with eq show ?thesis by (simp add: SortValidators_def IndexByID_def)
qed

theorem SortValidators_canonical_witness:
  "vs_Validators (SortValidators (example_set\<lparr>vs_Validators := rev (vs_Validators example_set)\<rparr>))
     = vs_Validators (SortValidators example_set)"
proof -
  have "vset_distinct example_set" by (simp add: example_set_simps)
  then show ?thesis
    using SortValidators_canonical [of example_set "example_set\<lparr>vs_Validators := rev (vs_Validators example_set)\<rparr>"]
    by simp
qed

end
