(* ===== verification/Leader.thy ===== *)
theory Leader
  imports Validator_Set
begin

text \<open>
  Leader rotation and failover: \<open>src/internal/consensus/leader.go\<close> and
  \<open>src/internal/consensus/leader_tracker.go\<close>. The tracker's mutex makes every method atomic, so a
  history of calls is a list of operations.
\<close>

section \<open>Model\<close>

definition SelectLeader :: "u64 \<Rightarrow> ValidatorSet \<Rightarrow> int" where
  "SelectLeader epoch vs =
     (let n = length (vs_Validators vs)
      in if n = 0 then - 1 else int (unat (epoch mod word_of_nat n)))"

definition SelectBackup :: "u64 \<Rightarrow> ValidatorSet \<Rightarrow> int" where
  "SelectBackup epoch vs =
     (let n = length (vs_Validators vs)
      in if n = 0 then - 1 else (SelectLeader epoch vs + 1) smod int n)"

record LeaderTracker =
  lt_set :: ValidatorSet
  lt_timeout :: int
  lt_epoch :: u64
  lt_lastBeat :: int

definition NewLeaderTracker :: "ValidatorSet \<Rightarrow> int \<Rightarrow> LeaderTracker" where
  "NewLeaderTracker vs timeout =
     \<lparr>lt_set = vs, lt_timeout = timeout, lt_epoch = 0, lt_lastBeat = zero_time\<rparr>"

definition SetTimeout :: "LeaderTracker \<Rightarrow> int \<Rightarrow> LeaderTracker" where
  "SetTimeout lt timeout = lt\<lparr>lt_timeout := timeout\<rparr>"

text \<open>The validator at an index the selection returned; \<open>None\<close> is the \<open>nil\<close> pointer.\<close>

definition validator_at :: "ValidatorSet \<Rightarrow> int \<Rightarrow> Validator option" where
  "validator_at vs idx = (if 0 \<le> idx then Some (vs_Validators vs ! nat idx) else None)"

text \<open>Asking about another epoch moves the tracker there and forgets the heartbeat.\<close>

definition switch_epoch :: "LeaderTracker \<Rightarrow> u64 \<Rightarrow> LeaderTracker" where
  "switch_epoch lt epoch =
     (if epoch \<noteq> lt_epoch lt then lt\<lparr>lt_epoch := epoch, lt_lastBeat := zero_time\<rparr> else lt)"

definition Leader :: "LeaderTracker \<Rightarrow> u64 \<Rightarrow> LeaderTracker \<times> int \<times> Validator option" where
  "Leader lt epoch =
     (let idx = SelectLeader epoch (lt_set lt)
      in (switch_epoch lt epoch, idx, validator_at (lt_set lt) idx))"

definition Backup :: "LeaderTracker \<Rightarrow> u64 \<Rightarrow> LeaderTracker \<times> int \<times> Validator option" where
  "Backup lt epoch =
     (let idx = SelectBackup epoch (lt_set lt)
      in (switch_epoch lt epoch, idx, validator_at (lt_set lt) idx))"

definition RecordActivity :: "LeaderTracker \<Rightarrow> u64 \<Rightarrow> int \<Rightarrow> LeaderTracker" where
  "RecordActivity lt epoch ts =
     (if lt_epoch lt \<noteq> epoch then lt\<lparr>lt_epoch := epoch\<rparr> else lt)\<lparr>lt_lastBeat := ts\<rparr>"

definition ShouldFailover :: "LeaderTracker \<Rightarrow> u64 \<Rightarrow> int \<Rightarrow> LeaderTracker \<times> bool" where
  "ShouldFailover lt epoch now =
     (if lt_timeout lt \<le> 0 then (lt, False)
      else if epoch \<noteq> lt_epoch lt then (lt\<lparr>lt_epoch := epoch, lt_lastBeat := zero_time\<rparr>, False)
      else if lt_lastBeat lt = zero_time then (lt, False)
      else (lt, time_sub now (lt_lastBeat lt) \<ge> lt_timeout lt))"

definition UpdateSet :: "LeaderTracker \<Rightarrow> ValidatorSet \<Rightarrow> LeaderTracker" where
  "UpdateSet lt vs = lt\<lparr>lt_set := vs, lt_lastBeat := zero_time\<rparr>"

text \<open>A history of calls on one tracker.\<close>

datatype tracker_op =
    OpSetTimeout int
  | OpLeader u64
  | OpBackup u64
  | OpRecordActivity u64 int
  | OpShouldFailover u64 int
  | OpUpdateSet ValidatorSet

fun tracker_step :: "LeaderTracker \<Rightarrow> tracker_op \<Rightarrow> LeaderTracker" where
  "tracker_step lt (OpSetTimeout d) = SetTimeout lt d"
| "tracker_step lt (OpLeader e) = fst (Leader lt e)"
| "tracker_step lt (OpBackup e) = fst (Backup lt e)"
| "tracker_step lt (OpRecordActivity e ts) = RecordActivity lt e ts"
| "tracker_step lt (OpShouldFailover e now) = fst (ShouldFailover lt e now)"
| "tracker_step lt (OpUpdateSet vs) = UpdateSet lt vs"

lemmas tracker_defs = SetTimeout_def Leader_def Backup_def RecordActivity_def ShouldFailover_def
  UpdateSet_def switch_epoch_def Let_def

section \<open>Rotation\<close>

definition rotation_ok :: "ValidatorSet \<Rightarrow> bool" where
  "rotation_ok vs \<longleftrightarrow> vs_Validators vs \<noteq> [] \<and> length (vs_Validators vs) < 2 ^ 63"

lemma SelectLeader_eq:
  "rotation_ok vs \<Longrightarrow> SelectLeader epoch vs = int (unat epoch mod length (vs_Validators vs))"
  by (simp add: SelectLeader_def Let_def rotation_ok_def unat_mod unat_of_nat take_bit_nat_eq_self)

lemma SelectBackup_eq:
  "rotation_ok vs \<Longrightarrow> SelectBackup epoch vs = int (Suc (unat epoch) mod length (vs_Validators vs))"
  by (simp add: SelectBackup_def Let_def SelectLeader_eq)
    (simp add: rotation_ok_def zmod_int mod_simps add.commute [of 1])

lemma rotation_window:
  fixes i n s :: nat
  assumes "i < n"
  shows "\<exists>!e. s \<le> e \<and> e < s + n \<and> e mod n = i"
proof -
  define e where "e = s + (i + n - s mod n) mod n"
  have "e mod n = (s mod n + (i + n - s mod n)) mod n" by (simp add: e_def mod_simps)
  also have "s mod n + (i + n - s mod n) = i + n"
    using assms mod_less_divisor [of n s] by linarith
  also have "(i + n) mod n = i" using assms by simp
  finally have e: "s \<le> e" "e < s + n" "e mod n = i" using assms by (auto simp: e_def)
  moreover have "e' = e" if "s \<le> e'" "e' < s + n" "e' mod n = i" for e'
  proof -
    have dvd: "n dvd (if e \<le> e' then e' - e else e - e')"
      using that(3) e(3) mod_eq_dvd_iff_nat [of e e' n] mod_eq_dvd_iff_nat [of e' e n] by auto
    have "(if e \<le> e' then e' - e else e - e') < n" using that e by auto
    with dvd have "(if e \<le> e' then e' - e else e - e') = 0"
      by (metis dvd_imp_le gr0I not_less)
    then show ?thesis by (auto split: if_splits)
  qed
  ultimately show ?thesis by blast
qed

section \<open>Failover\<close>

text \<open>
  What the tracker remembers: the heartbeat it holds is the timestamp of the last
  \<open>RecordActivity\<close>, made for the tracker's epoch, and nothing since has forgotten it.
\<close>

fun forgets :: "u64 \<Rightarrow> tracker_op \<Rightarrow> bool" where
  "forgets e (OpSetTimeout d) = False"
| "forgets e (OpLeader e') = (e' \<noteq> e)"
| "forgets e (OpBackup e') = (e' \<noteq> e)"
| "forgets e (OpRecordActivity e' ts) = True"
| "forgets e (OpShouldFailover e' now) = False"
| "forgets e (OpUpdateSet vs) = True"

definition beat_recorded :: "tracker_op list \<Rightarrow> u64 \<Rightarrow> int \<Rightarrow> bool" where
  "beat_recorded ops e t \<longleftrightarrow>
     (\<exists>pre post. ops = pre @ OpRecordActivity e t # post \<and> (\<forall>x \<in> set post. \<not> forgets e x))"

lemma beat_recorded_snoc:
  "beat_recorded ops e t \<Longrightarrow> \<not> forgets e x \<Longrightarrow> beat_recorded (ops @ [x]) e t"
proof -
  assume "beat_recorded ops e t" and x: "\<not> forgets e x"
  then obtain pre post where "ops = pre @ OpRecordActivity e t # post" "\<forall>y \<in> set post. \<not> forgets e y"
    unfolding beat_recorded_def by blast
  with x show ?thesis
    unfolding beat_recorded_def by (intro exI [of _ pre] exI [of _ "post @ [x]"]) auto
qed

lemma beat_recorded_new: "beat_recorded (ops @ [OpRecordActivity e t]) e t"
  unfolding beat_recorded_def by (intro exI [of _ ops] exI [of _ "[]"]) simp

lemma tracker_heartbeat:
  "lt = foldl tracker_step (NewLeaderTracker vs d) ops \<Longrightarrow> lt_lastBeat lt \<noteq> zero_time \<Longrightarrow>
     beat_recorded ops (lt_epoch lt) (lt_lastBeat lt)"
proof (induction ops arbitrary: lt rule: rev_induct)
  case Nil
  then show ?case by (simp add: NewLeaderTracker_def)
next
  case (snoc x ops)
  let ?lt = "foldl tracker_step (NewLeaderTracker vs d) ops"
  have lt: "lt = tracker_step ?lt x" using snoc.prems by simp
  show ?case
  proof (cases "\<exists>e t. x = OpRecordActivity e t")
    case True
    then show ?thesis using lt beat_recorded_new by (auto simp: RecordActivity_def)
  next
    case False
    with lt snoc.prems(2) have same: "lt_epoch lt = lt_epoch ?lt" "lt_lastBeat lt = lt_lastBeat ?lt"
      and "\<not> forgets (lt_epoch ?lt) x"
      by (cases x; auto simp: tracker_defs split: if_splits)+
    moreover have "beat_recorded ops (lt_epoch ?lt) (lt_lastBeat ?lt)"
      using snoc.IH snoc.prems(2) same by simp
    ultimately show ?thesis by (simp add: beat_recorded_snoc)
  qed
qed

section \<open>Properties\<close>

text \<open>
  Leadership rotates fairly. Over any window of \<open>n\<close> consecutive epochs that does not cross
  \<open>2^64\<close>, each of the \<open>n\<close> validators is selected leader for exactly one epoch.
\<close>

theorem leader_rotation:
  assumes "vs_Validators vs \<noteq> []" "length (vs_Validators vs) < 2 ^ 63" "i < length (vs_Validators vs)"
    and "s + length (vs_Validators vs) \<le> 2 ^ 64"
  shows "\<exists>!e. s \<le> e \<and> e < s + length (vs_Validators vs) \<and> SelectLeader (word_of_nat e) vs = int i"
proof -
  have ok: "rotation_ok vs" using assms by (simp add: rotation_ok_def)
  have "SelectLeader (word_of_nat e) vs = int i \<longleftrightarrow> e mod length (vs_Validators vs) = i"
    if "e < s + length (vs_Validators vs)" for e
    using that assms(4) by (simp add: SelectLeader_eq [OF ok] unat_of_nat take_bit_nat_eq_self)
  then have "(s \<le> e \<and> e < s + length (vs_Validators vs) \<and> SelectLeader (word_of_nat e) vs = int i) \<longleftrightarrow>
      (s \<le> e \<and> e < s + length (vs_Validators vs) \<and> e mod length (vs_Validators vs) = i)" for e
    by blast
  then show ?thesis using rotation_window [OF assms(3), of s] by simp
qed

theorem leader_rotation_witness:
  "\<exists>!e. 10 \<le> e \<and> e < 10 + length (vs_Validators example_set) \<and> SelectLeader (word_of_nat e) example_set = int 1"
  by (rule leader_rotation) (simp_all add: example_set_simps)

text \<open>
  The backup of an epoch is the leader of the next epoch (the last epoch before the
  wrap-around at \<open>2^64\<close> apart), it is a member of the set, and with at least two validators it is
  not the epoch's leader.
\<close>

theorem backup_is_next_leader:
  assumes "vs_Validators vs \<noteq> []" "length (vs_Validators vs) < 2 ^ 63" "unat epoch + 1 < 2 ^ 64"
  shows "SelectBackup epoch vs = SelectLeader (epoch + 1) vs \<and>
    0 \<le> SelectBackup epoch vs \<and> SelectBackup epoch vs < int (length (vs_Validators vs)) \<and>
    (2 \<le> length (vs_Validators vs) \<longrightarrow> SelectBackup epoch vs \<noteq> SelectLeader epoch vs)"
proof -
  let ?n = "length (vs_Validators vs)"
  have ok: "rotation_ok vs" and n: "0 < ?n" using assms by (simp_all add: rotation_ok_def)
  have "unat (epoch + 1) = Suc (unat epoch)" using assms(3) by (simp add: unat_word_ariths)
  moreover have "Suc (unat epoch) mod ?n \<noteq> unat epoch mod ?n" if "2 \<le> ?n"
    using that by (simp add: mod_Suc)
  ultimately show ?thesis using n by (simp add: SelectLeader_eq [OF ok] SelectBackup_eq [OF ok])
qed

theorem backup_is_next_leader_witness: "SelectBackup 7 example_set = SelectLeader 8 example_set"
  using backup_is_next_leader [of example_set 7] by (simp add: example_set_simps)

text \<open>
  Failover is justified. Whatever sequence of calls a tracker has served, when
  \<open>ShouldFailover\<close> answers true for an epoch, the timeout is positive, activity of that very
  epoch was recorded at some time \<open>t\<close> at least the timeout ago, and since then there was no other
  recorded activity, no new validator set and no question about another epoch's leader or backup.
\<close>

theorem failover_justified:
  assumes "snd (ShouldFailover (foldl tracker_step (NewLeaderTracker vs d) ops) epoch now)"
  shows "\<exists>pre t post. ops = pre @ OpRecordActivity epoch t # post \<and>
    (\<forall>x \<in> set post. \<not> forgets epoch x) \<and>
    0 < lt_timeout (foldl tracker_step (NewLeaderTracker vs d) ops) \<and>
    lt_timeout (foldl tracker_step (NewLeaderTracker vs d) ops) \<le> time_sub now t"
proof -
  let ?lt = "foldl tracker_step (NewLeaderTracker vs d) ops"
  from assms have "0 < lt_timeout ?lt" "epoch = lt_epoch ?lt" "lt_lastBeat ?lt \<noteq> zero_time"
    "lt_timeout ?lt \<le> time_sub now (lt_lastBeat ?lt)"
    by (auto simp: ShouldFailover_def split: if_splits)
  with tracker_heartbeat [OF refl] show ?thesis unfolding beat_recorded_def by metis
qed

theorem failover_justified_witness:
  "\<exists>pre t post. [OpRecordActivity 3 100, OpLeader 3] = pre @ OpRecordActivity 3 t # post \<and>
     (\<forall>x \<in> set post. \<not> forgets 3 x) \<and> 0 < (50::int) \<and> 50 \<le> time_sub 160 t"
proof -
  let ?ops = "[OpRecordActivity 3 100, OpLeader 3]"
  have "snd (ShouldFailover (foldl tracker_step (NewLeaderTracker example_set 50) ?ops) 3 160)"
    by (simp add: tracker_defs NewLeaderTracker_def time_sub_def zero_time_def)
  from failover_justified [OF this] show ?thesis
    by (simp add: tracker_defs NewLeaderTracker_def)
qed

end
