(* ===== verification/Merkle.thy ===== *)
theory Merkle
  imports Proto_Types "HOL-Library.While_Combinator"
begin

text \<open>
  Merkle roots: the tree of \<open>src/internal/consensus/merkle.go\<close> (recursive) and the roots of
  \<open>src/internal/crypto/checkpoint.go\<close> (iterative), with the state, agent and event roots built on
  the latter. SHA-256 is the argument \<open>H\<close>; every statement holds for any function in its place,
  and the ones that need it to be free of collisions say so on the finitely many byte strings
  that the computation hashes.
\<close>

section \<open>Model\<close>

text \<open>One level up: pairs are concatenated and hashed, a last odd node is paired with itself.\<close>

definition nextLevel :: "(bytes \<Rightarrow> bytes) \<Rightarrow> bytes list \<Rightarrow> bytes list" where
  "nextLevel H nodes =
     map (\<lambda>k. let i = 2 * k in
            if i + 1 < length nodes then H (nodes ! i @ nodes ! (i + 1)) else H (nodes ! i @ nodes ! i))
       [0..<(length nodes + 1) div 2]"

lemma half_less: "2 \<le> n \<Longrightarrow> Suc n div 2 < n"
  by auto

lemma length_nextLevel [simp]: "length (nextLevel H nodes) = (length nodes + 1) div 2"
  by (simp add: nextLevel_def)

definition emptyHash :: "(bytes \<Rightarrow> bytes) \<Rightarrow> bytes" where
  "emptyHash H = H []"

function computeRoot :: "(bytes \<Rightarrow> bytes) \<Rightarrow> bytes list \<Rightarrow> bytes" where
  "computeRoot H nodes =
     (if length nodes = 0 then emptyHash H
      else if length nodes = 1 then nodes ! 0
      else computeRoot H (nextLevel H nodes))"
  by pat_completeness auto
termination
proof (relation "measure (\<lambda>(H, nodes). length nodes)")
  fix H :: "bytes \<Rightarrow> bytes" and nodes :: "bytes list"
  assume "length nodes \<noteq> 0" "length nodes \<noteq> 1"
  then have "2 \<le> length nodes" by linarith
  then show "((H, nextLevel H nodes), H, nodes) \<in> measure (\<lambda>(H, nodes). length nodes)"
    by (simp add: half_less)
qed simp

declare computeRoot.simps [simp del]

record MerkleTree =
  mt_leaves :: "bytes list"
  mt_root :: bytes

definition NewMerkleTree :: "(bytes \<Rightarrow> bytes) \<Rightarrow> bytes list \<Rightarrow> MerkleTree" where
  "NewMerkleTree H data =
     (if length data = 0 then \<lparr>mt_leaves = [], mt_root = emptyHash H\<rparr>
      else let leaves = map H data in \<lparr>mt_leaves = leaves, mt_root = computeRoot H leaves\<rparr>)"

definition ComputeMerkleRoot :: "(bytes \<Rightarrow> bytes) \<Rightarrow> bytes list \<Rightarrow> bytes" where
  "ComputeMerkleRoot H items = mt_root (NewMerkleTree H items)"

text \<open>\<open>ks\<close> is the order in which the \<open>range\<close> loop collects the keys before they are sorted.\<close>

definition ComputeSortedMerkleRoot :: "(bytes \<Rightarrow> bytes) \<Rightarrow> (string \<rightharpoonup> bytes) \<Rightarrow> string list \<Rightarrow> bytes" where
  "ComputeSortedMerkleRoot H items ks =
     (if ks = [] then emptyHash H
      else ComputeMerkleRoot H (map (\<lambda>k. bytes_of k @ the (items k)) (sort ks)))"

definition zeros32 :: bytes where
  "zeros32 = replicate 32 0"

text \<open>\<open>crypto.ComputeMerkleRoot\<close>: a loop over the levels, on hashes that are given.\<close>

definition ComputeMerkleRoot_crypto :: "(bytes \<Rightarrow> bytes) \<Rightarrow> bytes list \<Rightarrow> bytes" where
  "ComputeMerkleRoot_crypto H hashes =
     (if length hashes = 0 then zeros32
      else while (\<lambda>current. length current > 1)
             (\<lambda>current. map (\<lambda>i. H (current ! i @ (if i + 1 < length current then current ! (i + 1) else current ! i)))
                          (filter even [0..<length current]))
             hashes ! 0)"

definition ComputeStateRoot :: "(bytes \<Rightarrow> bytes) \<Rightarrow> string list \<Rightarrow> u64 list \<Rightarrow> bytes" where
  "ComputeStateRoot H validators balances =
     (if length validators \<noteq> length balances then zeros32
      else ComputeMerkleRoot_crypto H
             (map2 (\<lambda>v b. H (bytes_of v @ PutUint64 b)) validators balances))"

definition ComputeAgentRoot :: "(bytes \<Rightarrow> bytes) \<Rightarrow> string list \<Rightarrow> string list \<Rightarrow> bytes" where
  "ComputeAgentRoot H agents statuses =
     (if length agents \<noteq> length statuses then zeros32
      else ComputeMerkleRoot_crypto H (map2 (\<lambda>a s. H (bytes_of a @ bytes_of s)) agents statuses))"

definition event_leaf :: "ExecutionReport \<Rightarrow> bytes" where
  "event_leaf r = bytes_of (er_AssignmentId r) @ bytes_of (er_IntentId r) @ bytes_of (er_AgentId r) @
     PutUint64 (word_of_int (er_Timestamp r))"

definition ComputeEventRoot :: "(bytes \<Rightarrow> bytes) \<Rightarrow> ExecutionReport list \<Rightarrow> bytes" where
  "ComputeEventRoot H reports = ComputeMerkleRoot_crypto H (map (\<lambda>r. H (event_leaf r)) reports)"

section \<open>Levels\<close>

lemma nextLevel_Nil [simp]: "nextLevel H [] = []"
  by (simp add: nextLevel_def)

lemma nextLevel_single [simp]: "nextLevel H [a] = [H (a @ a)]"
  by (simp add: nextLevel_def)

lemma nextLevel_Cons2 [simp]: "nextLevel H (a # b # xs) = H (a @ b) # nextLevel H xs"
proof -
  have "[0..<(length (a # b # xs) + 1) div 2] = 0 # map Suc [0..<(length xs + 1) div 2]"
    by (simp add: upt_conv_Cons map_Suc_upt del: upt_Suc)
  then show ?thesis by (simp add: nextLevel_def Let_def del: upt_Suc)
qed

lemma nextLevel_induct [case_names Nil single Cons2]:
  "P [] \<Longrightarrow> (\<And>a. P [a]) \<Longrightarrow> (\<And>a b xs. P xs \<Longrightarrow> P (a # b # xs)) \<Longrightarrow> P xs"
  by (induction xs rule: induct_list012) simp_all

text \<open>The loop body of the crypto package computes the same level.\<close>

lemma upt_Suc2: "[0..<Suc (Suc n)] = 0 # 1 # map (\<lambda>i. Suc (Suc i)) [0..<n]"
proof -
  have "map Suc (map Suc [0..<n]) = [2..<Suc (Suc n)]" by (simp only: map_Suc_upt numeral_2_eq_2)
  then show ?thesis by (simp add: upt_conv_Cons comp_def numeral_2_eq_2 del: upt_Suc)
qed

lemma crypto_level:
  "map (\<lambda>i. H (xs ! i @ (if i + 1 < length xs then xs ! (i + 1) else xs ! i))) (filter even [0..<length xs])
     = nextLevel H xs"
proof (induction xs rule: nextLevel_induct)
  case (Cons2 a b xs)
  have "filter even [0..<length (a # b # xs)] = 0 # map (\<lambda>i. Suc (Suc i)) (filter even [0..<length xs])"
    by (simp only: list.size add_0_right One_nat_def add_Suc_right upt_Suc2) (simp add: filter_map comp_def)
  then show ?case by (simp add: comp_def Cons2 [symmetric] del: upt_Suc cong: if_cong)
qed simp_all

lemma computeRoot_step: "2 \<le> length xs \<Longrightarrow> computeRoot H xs = computeRoot H (nextLevel H xs)"
  by (subst computeRoot.simps) auto

lemma computeRoot_single [simp]: "computeRoot H [a] = a"
  by (subst computeRoot.simps) simp

lemma crypto_loop:
  "xs \<noteq> [] \<Longrightarrow> while (\<lambda>c. length c > 1) (nextLevel H) xs ! 0 = computeRoot H xs"
proof (induction H xs rule: computeRoot.induct)
  case (1 H xs)
  show ?case
  proof (cases "length xs > 1")
    case True
    then have "0 < length (nextLevel H xs)" by simp
    then have "nextLevel H xs \<noteq> []" by (rule length_greater_0_conv [THEN iffD1])
    with True 1 show ?thesis by (simp add: while_unfold [of _ _ xs] computeRoot_step)
  next
    case False
    with 1(2) have "xs = [hd xs]" by (cases xs) auto
    then show ?thesis
      by (metis computeRoot_single False nth_Cons_0 while_unfold)
  qed
qed

lemma ComputeMerkleRoot_crypto_eq:
  "ComputeMerkleRoot_crypto H xs = (if xs = [] then zeros32 else computeRoot H xs)"
  unfolding ComputeMerkleRoot_crypto_def crypto_level by (simp add: crypto_loop [simplified])

lemma ComputeMerkleRoot_eq: "ComputeMerkleRoot H xs = computeRoot H (map H xs)"
  by (simp add: ComputeMerkleRoot_def NewMerkleTree_def Let_def computeRoot.simps [of H "[]"])

section \<open>Binding\<close>

text \<open>The byte strings that \<open>computeRoot\<close> hashes.\<close>

fun level_inputs :: "bytes list \<Rightarrow> bytes set" where
  "level_inputs [] = {}"
| "level_inputs [a] = {a @ a}"
| "level_inputs (a # b # xs) = insert (a @ b) (level_inputs xs)"

function root_inputs :: "(bytes \<Rightarrow> bytes) \<Rightarrow> bytes list \<Rightarrow> bytes set" where
  "root_inputs H nodes =
     (if length nodes < 2 then {} else level_inputs nodes \<union> root_inputs H (nextLevel H nodes))"
  by pat_completeness auto
termination
  by (relation "measure (\<lambda>(H, nodes). length nodes)") (simp_all add: half_less)

declare root_inputs.simps [simp del]

lemma root_inputs_step: "2 \<le> length xs \<Longrightarrow> root_inputs H xs = level_inputs xs \<union> root_inputs H (nextLevel H xs)"
  by (subst root_inputs.simps) simp

lemma nextLevel_inject:
  assumes "nextLevel H xs = nextLevel H ys" "length xs = length ys"
    and "\<forall>x \<in> set xs \<union> set ys. length x = l" "inj_on H (level_inputs xs \<union> level_inputs ys)"
  shows "xs = ys"
  using assms
proof (induction xs arbitrary: ys rule: nextLevel_induct)
  case Nil
  then show ?case by simp
next
  case (single a)
  then obtain b where ys: "ys = [b]" by (cases ys) auto
  with single have "a @ a = b @ b" by (auto dest: inj_onD)
  with single ys show ?case by simp
next
  case (Cons2 a b xs)
  then obtain c d zs where ys: "ys = c # d # zs" by (cases ys; cases "tl ys") auto
  have "H (a @ b) = H (c @ d)" "nextLevel H xs = nextLevel H zs" using Cons2.prems(1) ys by simp_all
  moreover have "a @ b = c @ d"
    by (rule inj_onD [OF Cons2.prems(4)]) (use calculation ys in simp_all)
  moreover have "inj_on H (level_inputs xs \<union> level_inputs zs)"
    by (rule inj_on_subset [OF Cons2.prems(4)]) (use ys in auto)
  ultimately show ?case using Cons2.IH [of zs] Cons2.prems ys by simp
qed

lemma length_set_nextLevel: "\<forall>x. length (H x) = l \<Longrightarrow> x \<in> set (nextLevel H xs) \<Longrightarrow> length x = l"
  by (induction xs rule: nextLevel_induct) auto

lemma computeRoot_inject:
  assumes "computeRoot H xs = computeRoot H ys" "length xs = length ys" "\<forall>x. length (H x) = l"
    and "\<forall>x \<in> set xs \<union> set ys. length x = l" "inj_on H (root_inputs H xs \<union> root_inputs H ys)"
  shows "xs = ys"
  using assms
proof (induction H xs arbitrary: ys rule: computeRoot.induct)
  case (1 H xs)
  show ?case
  proof (cases "2 \<le> length xs")
    case False
    have short: "zs = [] \<or> zs = [hd zs]" if "\<not> 2 \<le> length zs" for zs :: "bytes list"
      using that by (cases zs; cases "tl zs") auto
    from False "1.prems"(2) show ?thesis using "1.prems"(1) short [of xs] short [of ys] by (metis computeRoot_single length_0_conv)
  next
    case True
    then have ys: "2 \<le> length ys" using "1.prems"(2) by simp
    note inp = root_inputs_step [OF True, of H] root_inputs_step [OF ys, of H]
    have "nextLevel H xs = nextLevel H ys"
    proof (rule "1.IH")
      show "computeRoot H (nextLevel H xs) = computeRoot H (nextLevel H ys)"
        using "1.prems"(1) True ys by (simp add: computeRoot_step)
      show "inj_on H (root_inputs H (nextLevel H xs) \<union> root_inputs H (nextLevel H ys))"
        by (rule inj_on_subset [OF "1.prems"(5)]) (auto simp: inp)
      show "\<forall>x \<in> set (nextLevel H xs) \<union> set (nextLevel H ys). length x = l"
        using length_set_nextLevel [OF "1.prems"(3)] by blast
    qed (use True "1.prems"(2,3) in auto)
    moreover have "inj_on H (level_inputs xs \<union> level_inputs ys)"
      by (rule inj_on_subset [OF "1.prems"(5)]) (auto simp: inp)
    ultimately show ?thesis by (rule nextLevel_inject [OF _ "1.prems"(2,4)])
  qed
qed

lemma nextLevel_repeat_last: "odd (length xs) \<Longrightarrow> nextLevel H (xs @ [last xs]) = nextLevel H xs"
proof (induction xs rule: nextLevel_induct)
  case (Cons2 a b xs)
  then have "xs \<noteq> []" by auto
  then have "last (a # b # xs) = last xs" by simp
  with Cons2 show ?case by (simp only: append_Cons nextLevel_Cons2) simp
qed simp_all

section \<open>Properties\<close>

text \<open>
  The roots of the two packages agree: \<open>crypto.ComputeMerkleRoot\<close> of the hashed items is
  \<open>consensus.ComputeMerkleRoot\<close> of the items, except that the empty list gives 32 zero bytes in one
  package and the hash of the empty string in the other.
\<close>

theorem merkle_packages_agree:
  "ComputeMerkleRoot_crypto H (map H xs) = (if xs = [] then zeros32 else ComputeMerkleRoot H xs)
   \<and> ComputeMerkleRoot H [] = H []"
  by (simp_all add: ComputeMerkleRoot_crypto_eq ComputeMerkleRoot_eq computeRoot.simps [of H "[]"] emptyHash_def)

text \<open>
  C14: A Merkle root binds its items: two lists of the same length with the same root are equal,
  for a hash function with outputs of a fixed length that has no collision among the byte strings
  hashed for the two roots.
\<close>

theorem merkle_binding:
  assumes "length xs = length ys" "\<And>x. length (H x) = l"
    and "inj_on H (set xs \<union> set ys \<union> root_inputs H (map H xs) \<union> root_inputs H (map H ys))"
  shows "ComputeMerkleRoot H xs = ComputeMerkleRoot H ys \<longleftrightarrow> xs = ys"
proof
  assume "ComputeMerkleRoot H xs = ComputeMerkleRoot H ys"
  then have "computeRoot H (map H xs) = computeRoot H (map H ys)" by (simp add: ComputeMerkleRoot_eq)
  then have "map H xs = map H ys"
    by (rule computeRoot_inject [of H _ _ l])
      (use assms in \<open>auto simp: ComputeMerkleRoot_eq intro: inj_on_subset [OF assms(3)]\<close>)
  then show "xs = ys"
    by (rule map_inj_on) (rule inj_on_subset [OF assms(3)], auto)
qed simp

definition example_hash :: "bytes \<Rightarrow> bytes" where
  "example_hash x = [foldl (\<lambda>h b. 31 * h + b) 7 x]"

theorem merkle_binding_witness:
  "ComputeMerkleRoot example_hash [[1], [2], [3]] \<noteq> ComputeMerkleRoot example_hash [[1], [2], [4]]"
proof -
  have "inj_on example_hash (set [[1], [2], [3]] \<union> set [[1], [2], [4]]
      \<union> root_inputs example_hash (map example_hash [[1], [2], [3]])
      \<union> root_inputs example_hash (map example_hash [[1], [2], [4]]))"
    by (simp add: root_inputs.simps example_hash_def insert_Diff_if)
  from merkle_binding [of "[[1], [2], [3]]" "[[1], [2], [4]]" example_hash 1, OF _ _ this]
  show ?thesis by (simp add: example_hash_def)
qed

text \<open>
  The length of the list is not bound: repeating the last item of a list of odd length (more
  than one item) leaves the root as it is, whatever the hash function.
\<close>

theorem merkle_duplicate_last:
  assumes "odd (length xs)" "length xs \<noteq> 1"
  shows "ComputeMerkleRoot H (xs @ [last xs]) = ComputeMerkleRoot H xs"
proof -
  have "xs \<noteq> []" using assms(1) by auto
  moreover have "2 \<le> length xs" using assms by (cases "length xs"; cases "length xs - 1") auto
  ultimately show ?thesis
    using assms(1) nextLevel_repeat_last [of "map H xs" H]
    by (simp add: ComputeMerkleRoot_eq computeRoot_step [of "map H xs"] computeRoot_step [of "map H xs @ [H (last xs)]"]
        last_map)
qed

theorem merkle_duplicate_last_witness:
  "ComputeMerkleRoot example_hash [[1], [2], [3], [3]] = ComputeMerkleRoot example_hash [[1], [2], [3]]"
  using merkle_duplicate_last [of "[[1], [2], [3]]" example_hash] by simp

text \<open>
  The sorted root of a map does not depend on the order in which the \<open>range\<close> loop visits the
  keys: it is the root of the key-value concatenations in ascending order of the keys.
\<close>

theorem ComputeSortedMerkleRoot_deterministic:
  assumes "range_order items ks"
  shows "ComputeSortedMerkleRoot H items ks =
    ComputeMerkleRoot H (map (\<lambda>k. bytes_of k @ the (items k)) (sorted_list_of_set (dom items)))"
proof -
  have "sort ks = sorted_list_of_set (dom items)"
    using assms unfolding range_order_def by (metis sorted_list_of_set_sort_remdups distinct_remdups_id)
  moreover have "ks = [] \<longleftrightarrow> sorted_list_of_set (dom items) = []"
    using calculation by (metis length_0_conv length_sort)
  ultimately show ?thesis
    by (simp add: ComputeSortedMerkleRoot_def ComputeMerkleRoot_eq computeRoot.simps [of H "[]"])
qed

theorem ComputeSortedMerkleRoot_deterministic_witness:
  "ComputeSortedMerkleRoot example_hash [''b'' \<mapsto> [1], ''a'' \<mapsto> [2]] [''b'', ''a''] =
   ComputeMerkleRoot example_hash [[97, 2], [98, 1]]"
proof -
  have "range_order [''b'' \<mapsto> [1::byte], ''a'' \<mapsto> [2]] [''b'', ''a'']"
    by (auto simp: range_order_def)
  from ComputeSortedMerkleRoot_deterministic [OF this, of example_hash]
  show ?thesis by (simp add: bytes_of_def less_list_code)
qed

text \<open>
  An event root does not determine its reports: the leaf concatenates the assignment,
  intent and agent identifiers with no separator, so that, whatever the hash function, moving a character
  from one identifier to the next keeps the root.
\<close>

theorem event_root_ambiguous:
  "ComputeEventRoot H (rs @ [r\<lparr>er_AssignmentId := a @ b, er_IntentId := c\<rparr>] @ rs') =
   ComputeEventRoot H (rs @ [r\<lparr>er_AssignmentId := a, er_IntentId := b @ c\<rparr>] @ rs')"
  by (simp add: ComputeEventRoot_def event_leaf_def bytes_of_def)

end
