(* ===== verification/Checkpoint_Hash.thy ===== *)
theory Checkpoint_Hash
  imports Merkle
begin

text \<open>
  The two hashes of a checkpoint header: \<open>CheckpointHasher\<close> of \<open>src/internal/crypto/checkpoint.go\<close>
  (over the protobuf header, the hash that validators sign and that links a checkpoint to its
  parent) and \<open>CanonicalHash\<close> of \<open>src/internal/types/types.go\<close> (over the storage header), with
  the helpers of \<open>src/internal/consensus/checkpoint.go\<close>. A writer of the sources is the byte
  string that it appends; \<open>H\<close> is SHA-256.
\<close>

section \<open>Model\<close>

subsection \<open>CheckpointHasher\<close>

definition writeInt64 :: "int \<Rightarrow> bytes" where
  "writeInt64 v = PutUint64 (word_of_int v)"

definition writeLengthPrefixedBytes :: "bytes \<Rightarrow> bytes" where
  "writeLengthPrefixedBytes d = PutUint32 (word_of_nat (length d)) @ d"

definition writeLengthPrefixedString :: "string \<Rightarrow> bytes" where
  "writeLengthPrefixedString s = PutUint32 (word_of_nat (length (bytes_of s))) @ bytes_of s"

definition writeFixedBytes :: "bytes \<Rightarrow> nat \<Rightarrow> bytes" where
  "writeFixedBytes d expectedLen = (if length d = expectedLen then d else replicate expectedLen 0)"

definition writeMerkleRoots :: "CommitmentRoots option \<Rightarrow> bytes" where
  "writeMerkleRoots roots =
     (case roots of
        None \<Rightarrow> replicate 32 0 @ replicate 32 0 @ replicate 32 0
      | Some r \<Rightarrow> writeFixedBytes (cr_StateRoot r) 32 @ writeFixedBytes (cr_AgentRoot r) 32
                @ writeFixedBytes (cr_EventRoot r) 32)"

definition writeMetadata :: "CheckpointHeader \<Rightarrow> bytes" where
  "writeMetadata h = []"

definition sortSignatures :: "bytes list \<Rightarrow> bytes list" where
  "sortSignatures sigs = sort sigs"

definition writeSignatures :: "CheckpointSignatures \<Rightarrow> bytes" where
  "writeSignatures s =
     PutUint32 (word_of_nat (length (cs_EcdsaSignatures s)))
     @ concat (sortSignatures (cs_EcdsaSignatures s))
     @ (case cs_SignersBitmap s of None \<Rightarrow> [] | Some b \<Rightarrow> writeLengthPrefixedBytes b)"

text \<open>The bytes \<open>ComputeHash\<close> feeds to the hash for a header.\<close>

definition hash_input :: "CheckpointHeader \<Rightarrow> bytes" where
  "hash_input h =
     PutUint32 1
     @ PutUint64 (h_Epoch h)
     @ writeLengthPrefixedString (h_SubnetId h)
     @ writeInt64 (h_Timestamp h)
     @ (if length (h_ParentCpHash h) = 32 then h_ParentCpHash h else replicate 32 0)
     @ writeMerkleRoots (h_Roots h)
     @ writeMetadata h"

definition ComputeHash :: "(bytes \<Rightarrow> bytes) \<Rightarrow> CheckpointHeader option \<Rightarrow> bytes" where
  "ComputeHash H header = (case header of None \<Rightarrow> zeros32 | Some h \<Rightarrow> H (hash_input h))"

text \<open>On a nil header the access to its signatures panics.\<close>

definition ComputeHashForVerification :: "(bytes \<Rightarrow> bytes) \<Rightarrow> CheckpointHeader option \<Rightarrow> go_panic + bytes" where
  "ComputeHashForVerification H header =
     (let baseHash = ComputeHash H header in
      case header of
        None \<Rightarrow> Inl NilDereference
      | Some h \<Rightarrow> Inr (H (baseHash @ (case h_Signatures h of None \<Rightarrow> [] | Some s \<Rightarrow> writeSignatures s))))"

text \<open>\<open>ComputeParentHash\<close> tests for a nil header first; \<open>None\<close> is its nil result.\<close>

definition ComputeParentHash :: "(bytes \<Rightarrow> bytes) \<Rightarrow> CheckpointHeader option \<Rightarrow> bytes option" where
  "ComputeParentHash H parent =
     (case parent of
        None \<Rightarrow> None
      | Some h \<Rightarrow> (case ComputeHashForVerification H (Some h) of Inl _ \<Rightarrow> None | Inr d \<Rightarrow> Some d))"

subsection \<open>Storage headers\<close>

text \<open>
  The header type of \<open>internal/types\<close>: hashes are hexadecimal strings, the roots and the epoch
  slot are embedded values. Its \<open>DACommitment\<close>, \<open>EpochSlot\<close> and \<open>CheckpointSignatures\<close> have the
  fields of the protobuf messages of the same name.
\<close>

record CommitmentRoots_types =
  tr_AgentRoot :: string
  tr_AgentServiceRoot :: string
  tr_RankRoot :: string
  tr_MetricsRoot :: string
  tr_DataUsageRoot :: string
  tr_StateRoot :: string
  tr_EventRoot :: string
  tr_CrossSubnetRoot :: string

record CheckpointHeader_types =
  th_SubnetID :: string
  th_Epoch :: u64
  th_ParentCPHash :: string
  th_Timestamp :: int
  th_Version :: u16
  th_ParamsHash :: string
  th_Roots :: CommitmentRoots_types
  th_DACommitments :: "DACommitment list"
  th_ValidatorSetID :: string
  th_Stats :: bytes
  th_AuxHash :: string
  th_EpochSlot :: EpochSlot
  th_AssignmentsRoot :: string
  th_ValidationCommitment :: string
  th_PolicyRoot :: string
  th_Signatures :: "CheckpointSignatures option"

definition bar :: "string \<Rightarrow> bytes" where
  "bar s = bytes_of ''|'' @ bytes_of s"

definition canonical_bytes :: "CheckpointHeader_types \<Rightarrow> bytes" where
  "canonical_bytes h =
     bytes_of ''checkpoint:v1|''
     @ PutUint32 (ucast (th_Version h))
     @ bar (th_SubnetID h)
     @ PutUint64 (th_Epoch h)
     @ bar (th_ParentCPHash h)
     @ PutUint64 (word_of_int (th_Timestamp h))
     @ bar (th_ValidatorSetID h)
     @ bar (th_ParamsHash h)
     @ bar (tr_AgentRoot (th_Roots h))
     @ bar (tr_AgentServiceRoot (th_Roots h))
     @ bar (tr_RankRoot (th_Roots h))
     @ bar (tr_MetricsRoot (th_Roots h))
     @ bar (tr_DataUsageRoot (th_Roots h))
     @ bar (tr_StateRoot (th_Roots h))
     @ bar (tr_EventRoot (th_Roots h))
     @ bar (tr_CrossSubnetRoot (th_Roots h))
     @ bar (th_AssignmentsRoot h)
     @ bar (th_ValidationCommitment h)
     @ bar (th_PolicyRoot h)
     @ bar (th_AuxHash h)
     @ PutUint64 (es_Epoch (th_EpochSlot h))
     @ PutUint64 (es_Slot (th_EpochSlot h))"

definition CanonicalHash :: "(bytes \<Rightarrow> bytes) \<Rightarrow> CheckpointHeader_types \<Rightarrow> bytes" where
  "CanonicalHash H h = H (canonical_bytes h)"

definition CanonicalHashHex :: "(bytes \<Rightarrow> bytes) \<Rightarrow> CheckpointHeader_types \<Rightarrow> string" where
  "CanonicalHashHex H h = EncodeToString (CanonicalHash H h)"

definition HashCheckpoint :: "(bytes \<Rightarrow> bytes) \<Rightarrow> CheckpointHeader_types \<Rightarrow> bytes" where
  "HashCheckpoint H h = CanonicalHash H h"

definition HashCheckpointHex :: "(bytes \<Rightarrow> bytes) \<Rightarrow> CheckpointHeader_types \<Rightarrow> string" where
  "HashCheckpointHex H h = EncodeToString (HashCheckpoint H h)"

definition IsChildOf :: "(bytes \<Rightarrow> bytes) \<Rightarrow> CheckpointHeader_types \<Rightarrow> CheckpointHeader_types \<Rightarrow> bool" where
  "IsChildOf H child parent \<longleftrightarrow> th_ParentCPHash child = EncodeToString (CanonicalHash H parent)"

definition ComputeAuxHash :: "(bytes \<Rightarrow> bytes) \<Rightarrow> bytes \<Rightarrow> string" where
  "ComputeAuxHash H data = EncodeToString (H data)"

section \<open>Codec lemmas\<close>

lemma length_writers [simp, codec_simps]:
  "length (writeInt64 v) = 8" "length (writeFixedBytes d n) = n"
  "length (writeMerkleRoots r) = 96"
  by (simp_all add: writeInt64_def writeFixedBytes_def writeMerkleRoots_def split: option.splits)

lemma writeInt64_inject [codec_simps]:
  assumes "- (2 ^ 63) \<le> a" "a < 2 ^ 63" "- (2 ^ 63) \<le> b" "b < 2 ^ 63"
  shows "writeInt64 a = writeInt64 b \<longleftrightarrow> a = b"
proof -
  have "sint (word_of_int x :: u64) = x" if "- (2 ^ 63) \<le> x" "x < 2 ^ 63" for x
    using that by (simp add: signed_of_int signed_take_bit_int_eq_self)
  then show ?thesis using assms by (metis writeInt64_def PutUint64_inject)
qed

lemma word32_of_nat_inject: "a < 2 ^ 32 \<Longrightarrow> b < 2 ^ 32 \<Longrightarrow> (word_of_nat a :: u32) = word_of_nat b \<longleftrightarrow> a = b"
  by (simp add: word_of_nat_eq_iff take_bit_nat_eq_self)

lemma writeLengthPrefixedBytes_append:
  assumes "length a < 2 ^ 32" "length b < 2 ^ 32"
  shows "writeLengthPrefixedBytes a @ s = writeLengthPrefixedBytes b @ t \<longleftrightarrow> a = b \<and> s = t"
  using assms by (auto simp: writeLengthPrefixedBytes_def word32_of_nat_inject)

lemmas writeLengthPrefixedBytes_inject = writeLengthPrefixedBytes_append [of _ _ "[]" "[]", simplified]

lemma writeLengthPrefixedString_eq: "writeLengthPrefixedString s = writeLengthPrefixedBytes (bytes_of s)"
  by (simp add: writeLengthPrefixedString_def writeLengthPrefixedBytes_def)

text \<open>What the hash sees of the roots: the three 32-byte fields, zeros when absent.\<close>

definition hashed_root :: "(CommitmentRoots \<Rightarrow> bytes) \<Rightarrow> CheckpointHeader \<Rightarrow> bytes" where
  "hashed_root f h = (case h_Roots h of None \<Rightarrow> zeros32 | Some r \<Rightarrow> writeFixedBytes (f r) 32)"

lemma length_zeros32 [simp]: "length zeros32 = 32"
  by (simp add: zeros32_def)

lemma length_hashed_root [simp]: "length (hashed_root f h) = 32"
  by (simp add: hashed_root_def split: option.splits)

lemma writeMerkleRoots_eq:
  "writeMerkleRoots (h_Roots h)
     = hashed_root cr_StateRoot h @ hashed_root cr_AgentRoot h @ hashed_root cr_EventRoot h"
  by (simp add: writeMerkleRoots_def hashed_root_def zeros32_def split: option.splits)

definition hashed_parent :: "CheckpointHeader \<Rightarrow> bytes" where
  "hashed_parent h = writeFixedBytes (h_ParentCpHash h) 32"

lemma length_hashed_parent [simp]: "length (hashed_parent h) = 32"
  by (simp add: hashed_parent_def)

text \<open>The two headers agree on everything that \<open>ComputeHash\<close> covers.\<close>

definition same_signed_content :: "CheckpointHeader \<Rightarrow> CheckpointHeader \<Rightarrow> bool" where
  "same_signed_content h k \<longleftrightarrow>
     h_Epoch h = h_Epoch k \<and> h_SubnetId h = h_SubnetId k \<and> h_Timestamp h = h_Timestamp k
     \<and> hashed_parent h = hashed_parent k \<and> hashed_root cr_StateRoot h = hashed_root cr_StateRoot k
     \<and> hashed_root cr_AgentRoot h = hashed_root cr_AgentRoot k
     \<and> hashed_root cr_EventRoot h = hashed_root cr_EventRoot k"

text \<open>The sizes a Go header has: 64-bit timestamps, strings and slices below 4 GiB.\<close>

definition sized :: "CheckpointHeader \<Rightarrow> bool" where
  "sized h \<longleftrightarrow> length (h_SubnetId h) < 2 ^ 32 \<and> - (2 ^ 63) \<le> h_Timestamp h \<and> h_Timestamp h < 2 ^ 63"

definition sized_signatures :: "nat \<Rightarrow> CheckpointHeader \<Rightarrow> bool" where
  "sized_signatures l h \<longleftrightarrow>
     (case h_Signatures h of
        None \<Rightarrow> True
      | Some s \<Rightarrow> length (cs_EcdsaSignatures s) < 2 ^ 32 \<and> list_all (\<lambda>g. length g = l) (cs_EcdsaSignatures s)
                \<and> (case cs_SignersBitmap s of None \<Rightarrow> True | Some b \<Rightarrow> length b < 2 ^ 32))"

lemma hash_input_eq:
  "hash_input h = PutUint32 1 @ PutUint64 (h_Epoch h) @ writeLengthPrefixedBytes (bytes_of (h_SubnetId h))
     @ writeInt64 (h_Timestamp h) @ hashed_parent h @ hashed_root cr_StateRoot h
     @ hashed_root cr_AgentRoot h @ hashed_root cr_EventRoot h"
  by (simp add: hash_input_def writeLengthPrefixedString_eq writeMerkleRoots_eq writeMetadata_def
      hashed_parent_def writeFixedBytes_def)

lemma hash_input_inject:
  "sized h \<Longrightarrow> sized k \<Longrightarrow> hash_input h = hash_input k \<longleftrightarrow> same_signed_content h k"
  by (auto simp: hash_input_eq sized_def same_signed_content_def writeLengthPrefixedBytes_append
      writeLengthPrefixedBytes_inject writeInt64_inject)

text \<open>Signatures of one length are recovered from the sorted concatenation.\<close>

lemma concat_equal_length_inject:
  "length xs = length ys \<Longrightarrow> list_all (\<lambda>g. length g = l) xs \<Longrightarrow> list_all (\<lambda>g. length g = l) ys \<Longrightarrow>
   concat xs @ s = concat ys @ t \<longleftrightarrow> xs = ys \<and> s = t"
  by (induction xs ys rule: list_induct2) auto

definition signature_content :: "CheckpointHeader \<Rightarrow> (bytes multiset \<times> bytes option) option" where
  "signature_content h = map_option (\<lambda>s. (mset (cs_EcdsaSignatures s), cs_SignersBitmap s)) (h_Signatures h)"

definition signature_input :: "CheckpointHeader \<Rightarrow> bytes" where
  "signature_input h = (case h_Signatures h of None \<Rightarrow> [] | Some s \<Rightarrow> writeSignatures s)"

lemma list_all_sort: "list_all P (sort xs) = list_all P (xs :: 'a::linorder list)"
  by (simp add: list_all_iff)

lemma sort_eq_mset: "sort xs = sort ys \<longleftrightarrow> mset xs = mset (ys :: 'a::linorder list)"
  by (metis mset_sort properties_for_sort sorted_sort)

lemma bitmap_bytes_inject:
  assumes "case x of None \<Rightarrow> True | Some b \<Rightarrow> length b < 2 ^ 32" "case y of None \<Rightarrow> True | Some b \<Rightarrow> length b < 2 ^ 32"
  shows "(case x of None \<Rightarrow> [] | Some b \<Rightarrow> writeLengthPrefixedBytes b)
       = (case y of None \<Rightarrow> [] | Some b \<Rightarrow> writeLengthPrefixedBytes b) \<longleftrightarrow> x = y"
proof -
  have "writeLengthPrefixedBytes b \<noteq> []" for b
    using length_PutUint(1) by (metis append_is_Nil_conv list.size(3) writeLengthPrefixedBytes_def zero_neq_numeral)
  moreover have "[] \<noteq> writeLengthPrefixedBytes b" for b using calculation by metis
  ultimately show ?thesis
    using assms by (auto simp: writeLengthPrefixedBytes_inject split: option.splits)
qed

lemma signature_input_inject:
  assumes "sized_signatures l h" "sized_signatures l k"
  shows "signature_input h = signature_input k \<longleftrightarrow> signature_content h = signature_content k"
proof -
  have ne: "writeSignatures s \<noteq> []" "[] \<noteq> writeSignatures s" for s
    using length_PutUint(1) by (metis append_is_Nil_conv list.size(3) writeSignatures_def zero_neq_numeral)+
  have "writeSignatures s = writeSignatures t \<longleftrightarrow>
      mset (cs_EcdsaSignatures s) = mset (cs_EcdsaSignatures t) \<and> cs_SignersBitmap s = cs_SignersBitmap t"
    if s: "h_Signatures h = Some s" and t: "h_Signatures k = Some t" for s t
  proof -
    let ?a = "cs_EcdsaSignatures s" and ?b = "cs_EcdsaSignatures t"
    have sizes: "length ?a < 2 ^ 32" "length ?b < 2 ^ 32" "list_all (\<lambda>g. length g = l) ?a"
        "list_all (\<lambda>g. length g = l) ?b"
      using assms s t by (simp_all add: sized_signatures_def)
    have bm: "(case cs_SignersBitmap s of None \<Rightarrow> [] | Some b \<Rightarrow> writeLengthPrefixedBytes b)
        = (case cs_SignersBitmap t of None \<Rightarrow> [] | Some b \<Rightarrow> writeLengthPrefixedBytes b)
        \<longleftrightarrow> cs_SignersBitmap s = cs_SignersBitmap t"
      using assms s t by (intro bitmap_bytes_inject) (simp_all add: sized_signatures_def)
    have "mset ?a = mset ?b \<Longrightarrow> length ?a = length ?b" by (metis size_mset)
    then show ?thesis
      using sizes concat_equal_length_inject [of "sort ?a" "sort ?b" l] bm
      by (auto simp: writeSignatures_def sortSignatures_def word32_of_nat_inject list_all_sort sort_eq_mset)
  qed
  with ne show ?thesis by (auto simp: signature_input_def signature_content_def split: option.splits)
qed

lemma ComputeParentHash_inject:
  assumes "sized h" "sized k" "sized_signatures l h" "sized_signatures l k" "\<And>x. length (H x) = 32"
    and "inj_on H {hash_input h, hash_input k, H (hash_input h) @ signature_input h, H (hash_input k) @ signature_input k}"
  shows "ComputeParentHash H (Some h) = ComputeParentHash H (Some k) \<longleftrightarrow>
    same_signed_content h k \<and> signature_content h = signature_content k"
proof -
  have parent: "ComputeParentHash H (Some x) = Some (H (H (hash_input x) @ signature_input x))" for x
    by (simp add: ComputeParentHash_def ComputeHashForVerification_def ComputeHash_def signature_input_def)
  have "H (H (hash_input h) @ signature_input h) = H (H (hash_input k) @ signature_input k) \<longleftrightarrow>
      H (hash_input h) @ signature_input h = H (hash_input k) @ signature_input k"
    by (rule inj_on_eq_iff [OF assms(6)]) simp_all
  moreover have "H (hash_input h) = H (hash_input k) \<longleftrightarrow> hash_input h = hash_input k"
    by (rule inj_on_eq_iff [OF assms(6)]) simp_all
  ultimately show ?thesis
    using assms(1-5) by (simp add: parent hash_input_inject signature_input_inject)
qed

section \<open>Properties\<close>

text \<open>
  C6: The hash that validators sign covers exactly the epoch, the subnet identifier, the timestamp,
  the parent hash and the state, agent and event roots, the byte strings of a length other than 32
  counting as zeros: without a collision between the two hashed strings, two headers have the same
  \<open>ComputeHash\<close> if and only if they agree on these, whatever their other fields.
\<close>

theorem ComputeHash_covers:
  assumes "sized h" "sized k" "inj_on H {hash_input h, hash_input k}"
  shows "ComputeHash H (Some h) = ComputeHash H (Some k) \<longleftrightarrow> same_signed_content h k"
  using assms hash_input_inject [of h k] by (auto simp: ComputeHash_def dest: inj_onD)

definition example_header :: CheckpointHeader where
  "example_header =
     \<lparr>h_SubnetId = ''s'', h_Epoch = 7, h_ParentCpHash = [], h_Timestamp = 5, h_Version = 1, h_ParamsHash = [],
      h_Roots = None, h_DaCommitments = [], h_ValidatorSetId = [], h_Stats = [], h_AuxHash = [],
      h_EpochSlot = None, h_AssignmentsRoot = [], h_ValidationCommitment = [], h_PolicyRoot = [],
      h_Signatures = None\<rparr>"

theorem ComputeHash_covers_witness:
  "ComputeHash id (Some example_header) = ComputeHash id (Some (example_header\<lparr>h_Version := 2, h_Stats := [1]\<rparr>))
   \<and> ComputeHash id (Some example_header) \<noteq> ComputeHash id (Some (example_header\<lparr>h_Epoch := 8\<rparr>))"
  using ComputeHash_covers [of example_header "example_header\<lparr>h_Version := 2, h_Stats := [1]\<rparr>" id]
    ComputeHash_covers [of example_header "example_header\<lparr>h_Epoch := 8\<rparr>" id]
  by (simp add: example_header_def sized_def same_signed_content_def hashed_parent_def hashed_root_def)

text \<open>
  The parent link binds the parent's signatures as well: for signatures of one length, and
  without a collision among the strings hashed, two headers have the same parent hash if and only if they agree on the
  signed content, on the signatures up to their order, and on the signer bitmap (a missing one and an
  empty one differ).
\<close>

theorem ComputeParentHash_binding:
  assumes "sized h" "sized k" "sized_signatures l h" "sized_signatures l k" "\<And>x. length (H x) = 32"
    and "inj_on H {hash_input h, hash_input k, H (hash_input h) @ signature_input h, H (hash_input k) @ signature_input k}"
  shows "ComputeParentHash H (Some h) = ComputeParentHash H (Some k) \<longleftrightarrow>
    same_signed_content h k \<and> signature_content h = signature_content k"
  by (rule ComputeParentHash_inject [OF assms])

definition example_digest :: "bytes \<Rightarrow> bytes" where
  "example_digest x = replicate 31 0 @ [word_of_nat (length x)]"

definition example_signatures :: "bytes list \<Rightarrow> CheckpointSignatures" where
  "example_signatures sigs =
     \<lparr>cs_EcdsaSignatures = sigs, cs_SignersBitmap = Some [3], cs_SignatureCount = 0, cs_TotalWeight = 0\<rparr>"

theorem ComputeParentHash_binding_witness:
  "ComputeParentHash example_digest (Some (example_header\<lparr>h_Signatures := Some (example_signatures [[9], [4]])\<rparr>))
   = ComputeParentHash example_digest (Some (example_header\<lparr>h_Signatures := Some (example_signatures [[4], [9]])\<rparr>))
   \<and> ComputeParentHash example_digest (Some example_header)
     \<noteq> ComputeParentHash example_digest (Some (example_header\<lparr>h_Signatures := Some (example_signatures [[4], [9]])\<rparr>))"
proof -
  let ?a = "example_header\<lparr>h_Signatures := Some (example_signatures [[9], [4]])\<rparr>"
  let ?b = "example_header\<lparr>h_Signatures := Some (example_signatures [[4], [9]])\<rparr>"
  note defs = example_header_def sized_def sized_signatures_def same_signed_content_def hashed_parent_def
    hashed_root_def signature_content_def example_signatures_def
  have same: "hash_input ?b = hash_input example_header" "hash_input ?a = hash_input example_header"
      "signature_input ?a = signature_input ?b" "signature_input example_header = []"
    by (simp_all add: hash_input_eq hashed_parent_def hashed_root_def signature_input_def writeSignatures_def
        sortSignatures_def example_signatures_def example_header_def)
  have len: "length (example_digest x) = 32" for x by (simp add: example_digest_def)
  have digest: "example_digest x = example_digest y \<longleftrightarrow> (word_of_nat (length x) :: byte) = word_of_nat (length y)" for x y
    by (simp add: example_digest_def)
  have lengths: "length (hash_input example_header) = 153" "length (signature_input ?b) = 11"
    by (simp_all add: hash_input_eq writeLengthPrefixedBytes_def signature_input_def writeSignatures_def
        sortSignatures_def example_signatures_def example_header_def)
  have sep: "inj_on example_digest {hash_input example_header, example_digest (hash_input example_header),
      example_digest (hash_input example_header) @ signature_input ?b}"
    unfolding inj_on_def by (auto simp: digest lengths len)
  have sizes: "sized ?a" "sized ?b" "sized example_header" "sized_signatures 1 ?a" "sized_signatures 1 ?b"
      "sized_signatures 1 example_header"
    by (simp_all add: defs)
  have "ComputeParentHash example_digest (Some ?a) = ComputeParentHash example_digest (Some ?b) \<longleftrightarrow>
      same_signed_content ?a ?b \<and> signature_content ?a = signature_content ?b"
    by (rule ComputeParentHash_binding [OF sizes(1,2,4,5) len]) (rule inj_on_subset [OF sep], auto simp: same)
  moreover have "ComputeParentHash example_digest (Some example_header) = ComputeParentHash example_digest (Some ?b)
      \<longleftrightarrow> same_signed_content example_header ?b \<and> signature_content example_header = signature_content ?b"
    by (rule ComputeParentHash_binding [OF sizes(3,2,6,5) len]) (rule inj_on_subset [OF sep], auto simp: same)
  ultimately show ?thesis by (simp add: defs add_mset_commute)
qed

text \<open>
  \<open>CanonicalHash\<close> does not determine its fields: they are separated by a bar and
  not length-prefixed, so that a bar can move between neighbouring strings, and the data-availability commitments and
  the statistics are left out, whatever the hash function.
\<close>

theorem CanonicalHash_ambiguous:
  "CanonicalHash H (h\<lparr>th_ValidatorSetID := a @ ''|'' @ b, th_ParamsHash := c\<rparr>)
     = CanonicalHash H (h\<lparr>th_ValidatorSetID := a, th_ParamsHash := b @ ''|'' @ c, th_DACommitments := d, th_Stats := s\<rparr>)"
  by (simp add: CanonicalHash_def canonical_bytes_def bar_def bytes_of_def)

end
