(* ===== verification/Store.thy ===== *)
theory Store
  imports Checkpoint_Hash Interfaces
begin

text \<open>
  The persistence layer \<open>src/internal/storage\<close>: the in-memory store and the LevelDB store behind
  one Go interface. The LevelDB database is a record of the three functions of the goleveldb package
  that the code calls; \<open>leveldb_contract\<close> states what that package documents of them. The JSON codec
  of a header or a record is a pair of functions, an argument of the operations that use it.
\<close>

section \<open>Model\<close>

datatype db_error = ErrNotFound | DbFailure

datatype store_error =
    KeyNotFound
  | HeaderNotFound u64
  | ReportNotFound string
  | RecordIdRequired
  | MarshalError
  | UnmarshalError
  | ScanError
  | DbError db_error

record DoubleSignItem =
  ds_Epoch :: u64
  ds_ValidatorID :: string
  ds_Evidence :: bytes

text \<open>A \<open>float64\<close> is its bit pattern, it is only copied; \<open>'m\<close> is the type of the metadata values.\<close>

record 'm VerificationRecord =
  vr_RecordID :: string
  vr_IntentID :: string
  vr_AssignmentID :: string
  vr_AgentID :: string
  vr_ReportID :: string
  vr_PolicyID :: string
  vr_ValidatorID :: string
  vr_Verdict :: string
  vr_Confidence :: u64
  vr_Reason :: string
  vr_EvidenceChecked :: "string list"
  vr_Timestamp :: int
  vr_ValidatorSignature :: bytes
  vr_Metadata :: "string \<rightharpoonup> 'm"

subsection \<open>InMemory\<close>

record 'm InMemory =
  im_hdrs :: "CheckpointHeader_types list"
  im_bitmaps :: "u64 \<rightharpoonup> bytes"
  im_anchorHash :: string
  im_anchorEpoch :: u64
  im_reports :: "string \<rightharpoonup> unit"
  im_dse :: "DoubleSignItem list"
  im_winners :: "string \<rightharpoonup> string \<times> int"
  im_records :: "'m VerificationRecord list"
  im_kvStore :: "bytes \<rightharpoonup> bytes"
  im_execReports :: "string \<rightharpoonup> bytes"
  im_reportsByIntent :: "string \<rightharpoonup> string list"

definition NewInMemory :: "'m InMemory" where
  "NewInMemory =
     \<lparr>im_hdrs = [], im_bitmaps = Map.empty, im_anchorHash = [], im_anchorEpoch = 0, im_reports = Map.empty,
      im_dse = [], im_winners = Map.empty, im_records = [], im_kvStore = Map.empty,
      im_execReports = Map.empty, im_reportsByIntent = Map.empty\<rparr>"

definition Get_im :: "'m InMemory \<Rightarrow> bytes \<Rightarrow> store_error + bytes" where
  "Get_im s key = (case im_kvStore s key of None \<Rightarrow> Inl KeyNotFound | Some val \<Rightarrow> Inr val)"

definition Put_im :: "'m InMemory \<Rightarrow> bytes \<Rightarrow> bytes \<Rightarrow> 'm InMemory" where
  "Put_im s key val = s\<lparr>im_kvStore := (im_kvStore s)(key \<mapsto> val)\<rparr>"

definition SaveHeader_im :: "'m InMemory \<Rightarrow> CheckpointHeader_types \<Rightarrow> 'm InMemory" where
  "SaveHeader_im s h = s\<lparr>im_hdrs := im_hdrs s @ [h]\<rparr>"

definition GetHeader_im :: "'m InMemory \<Rightarrow> u64 \<Rightarrow> store_error + CheckpointHeader_types" where
  "GetHeader_im s epoch =
     (case find (\<lambda>h. th_Epoch h = epoch) (im_hdrs s) of None \<Rightarrow> Inl (HeaderNotFound epoch) | Some h \<Rightarrow> Inr h)"

definition LoadLatestHeader_im :: "'m InMemory \<Rightarrow> CheckpointHeader_types option" where
  "LoadLatestHeader_im s = (if length (im_hdrs s) = 0 then None else Some (im_hdrs s ! (length (im_hdrs s) - 1)))"

definition ListHeaders_im :: "'m InMemory \<Rightarrow> CheckpointHeader_types list" where
  "ListHeaders_im s = im_hdrs s"

definition SaveSignersBitmap_im :: "'m InMemory \<Rightarrow> u64 \<Rightarrow> bytes \<Rightarrow> 'm InMemory" where
  "SaveSignersBitmap_im s epoch bitmap = s\<lparr>im_bitmaps := (im_bitmaps s)(epoch \<mapsto> bitmap)\<rparr>"

definition LoadSignersBitmap_im :: "'m InMemory \<Rightarrow> u64 \<Rightarrow> bytes option" where
  "LoadSignersBitmap_im s epoch = im_bitmaps s epoch"

definition SaveAnchor_im :: "'m InMemory \<Rightarrow> string \<Rightarrow> u64 \<Rightarrow> 'm InMemory" where
  "SaveAnchor_im s h epoch = s\<lparr>im_anchorHash := h, im_anchorEpoch := epoch\<rparr>"

definition LoadLatestAnchor_im :: "'m InMemory \<Rightarrow> string \<times> u64" where
  "LoadLatestAnchor_im s = (im_anchorHash s, im_anchorEpoch s)"

definition SaveReportKey_im :: "'m InMemory \<Rightarrow> string \<Rightarrow> 'm InMemory" where
  "SaveReportKey_im s key = s\<lparr>im_reports := (im_reports s)(key \<mapsto> ())\<rparr>"

definition HasReportKey_im :: "'m InMemory \<Rightarrow> string \<Rightarrow> bool" where
  "HasReportKey_im s key \<longleftrightarrow> im_reports s key \<noteq> None"

definition SaveDoubleSignEvidence_im :: "'m InMemory \<Rightarrow> u64 \<Rightarrow> string \<Rightarrow> bytes \<Rightarrow> 'm InMemory" where
  "SaveDoubleSignEvidence_im s epoch vid evidence =
     s\<lparr>im_dse := im_dse s @ [\<lparr>ds_Epoch = epoch, ds_ValidatorID = vid, ds_Evidence = evidence\<rparr>]\<rparr>"

text \<open>A scan that stops once \<open>limit\<close> items are collected; a limit of zero or less is no limit.\<close>

definition limited :: "int \<Rightarrow> 'a list \<Rightarrow> 'a list" where
  "limited limit xs = (if limit > 0 then take (nat limit) xs else xs)"

definition ds_matches :: "string \<Rightarrow> u64 option \<Rightarrow> DoubleSignItem \<Rightarrow> bool" where
  "ds_matches vid epoch it \<longleftrightarrow>
     \<not> (vid \<noteq> [] \<and> ds_ValidatorID it \<noteq> vid) \<and> (case epoch of None \<Rightarrow> True | Some e \<Rightarrow> ds_Epoch it = e)"

definition ListDoubleSignEvidence_im :: "'m InMemory \<Rightarrow> string \<Rightarrow> u64 option \<Rightarrow> int \<Rightarrow> DoubleSignItem list" where
  "ListDoubleSignEvidence_im s vid epoch limit = limited limit (filter (ds_matches vid epoch) (im_dse s))"

definition SaveIntentWinner_im :: "'m InMemory \<Rightarrow> string \<Rightarrow> string \<Rightarrow> int \<Rightarrow> 'm InMemory" where
  "SaveIntentWinner_im s intentID agent ts =
     (case im_winners s intentID of
        Some _ \<Rightarrow> s
      | None \<Rightarrow> s\<lparr>im_winners := (im_winners s)(intentID \<mapsto> (agent, ts))\<rparr>)"

definition GetIntentWinner_im :: "'m InMemory \<Rightarrow> string \<Rightarrow> string \<times> int \<times> bool" where
  "GetIntentWinner_im s intentID =
     (case im_winners s intentID of Some (agent, ts) \<Rightarrow> (agent, ts, True) | None \<Rightarrow> ([], 0, False))"

definition SaveVerificationRecord_im :: "'m InMemory \<Rightarrow> 'm VerificationRecord \<Rightarrow> 'm InMemory" where
  "SaveVerificationRecord_im s rec = s\<lparr>im_records := im_records s @ [rec]\<rparr>"

definition ListVerificationRecords_im :: "'m InMemory \<Rightarrow> string \<Rightarrow> string \<Rightarrow> int \<Rightarrow> 'm VerificationRecord list" where
  "ListVerificationRecords_im s intentID agentID limit =
     limited limit
       (filter (\<lambda>r. \<not> (intentID \<noteq> [] \<and> vr_IntentID r \<noteq> intentID) \<and> \<not> (agentID \<noteq> [] \<and> vr_AgentID r \<noteq> agentID))
          (im_records s))"

definition SaveExecutionReport_im :: "'m InMemory \<Rightarrow> string \<Rightarrow> bytes \<Rightarrow> 'm InMemory" where
  "SaveExecutionReport_im s rid report = s\<lparr>im_execReports := (im_execReports s)(rid \<mapsto> report)\<rparr>"

definition GetExecutionReport_im :: "'m InMemory \<Rightarrow> string \<Rightarrow> store_error + bytes" where
  "GetExecutionReport_im s rid =
     (case im_execReports s rid of None \<Rightarrow> Inl (ReportNotFound rid) | Some r \<Rightarrow> Inr r)"

text \<open>\<open>ks\<close> is the visiting order of the map; both branches on the intent identifier do the same.\<close>

definition ListExecutionReports_im :: "'m InMemory \<Rightarrow> string \<Rightarrow> int \<Rightarrow> string list \<Rightarrow> (string \<rightharpoonup> bytes)" where
  "ListExecutionReports_im s intentID limit ks = im_execReports s |` set (limited limit ks)"

subsection \<open>LevelDB\<close>

record 'd LevelDB =
  db_Get :: "'d \<Rightarrow> bytes \<Rightarrow> db_error + bytes"
  db_Put :: "'d \<Rightarrow> bytes \<Rightarrow> bytes \<Rightarrow> 'd \<times> db_error option"
  db_Iter :: "'d \<Rightarrow> bytes \<Rightarrow> (bytes \<times> bytes) list \<times> db_error option"

text \<open>The \<open>%020d\<close> verb: zeros on the left up to twenty characters.\<close>

definition dec020 :: "nat \<Rightarrow> string" where
  "dec020 n = replicate (20 - length (dec n)) (CHR ''0'') @ dec n"

definition keyHeader :: "u64 \<Rightarrow> bytes" where
  "keyHeader epoch = bytes_of (''cp:epoch:'' @ dec020 (unat epoch))"

definition keyBitmap :: "u64 \<Rightarrow> bytes" where
  "keyBitmap epoch = bytes_of (''bm:epoch:'' @ dec020 (unat epoch))"

definition keyAnchor :: bytes where
  "keyAnchor = bytes_of ''anchor''"

definition keyDS :: "u64 \<Rightarrow> string \<Rightarrow> bytes" where
  "keyDS epoch vid = bytes_of (''ds:'' @ dec020 (unat epoch) @ '':'' @ vid)"

definition keyWinner :: "string \<Rightarrow> bytes" where
  "keyWinner intent = bytes_of (''iw:'' @ intent)"

definition keyVerificationRecord :: "string \<Rightarrow> string \<Rightarrow> string \<Rightarrow> bytes" where
  "keyVerificationRecord intent agent rec = bytes_of (''vr:'' @ intent @ '':'' @ agent @ '':'' @ rec)"

definition keyExecutionReport :: "string \<Rightarrow> bytes" where
  "keyExecutionReport rid = bytes_of (''er:'' @ rid)"

text \<open>
  The fragment of \<open>fmt.Sscanf\<close> that the store uses, on ASCII input: \<open>%d\<close> skips spaces and reads the
  longest run of digits (an optional sign for a signed argument), which must be in range,
  \<open>%s\<close> skips spaces and reads the longest run of non-spaces, which must not be empty, and any other
  character of the format must be the next character of the input.
\<close>

definition is_space :: "char \<Rightarrow> bool" where
  "is_space c \<longleftrightarrow> (of_char c :: nat) \<in> {9, 10, 11, 12, 13, 32}"

definition is_digit :: "char \<Rightarrow> bool" where
  "is_digit c \<longleftrightarrow> 48 \<le> (of_char c :: nat) \<and> (of_char c :: nat) \<le> 57"

definition scan_uint :: "string \<Rightarrow> (u64 \<times> string) option" where
  "scan_uint s =
     (let t = dropWhile is_space s; d = takeWhile is_digit t in
      if d = [] \<or> undec d \<ge> 2 ^ 64 then None else Some (word_of_nat (undec d), dropWhile is_digit t))"

definition scan_str :: "string \<Rightarrow> (string \<times> string) option" where
  "scan_str s =
     (let t = dropWhile is_space s; w = takeWhile (\<lambda>c. \<not> is_space c) t in
      if w = [] then None else Some (w, dropWhile (\<lambda>c. \<not> is_space c) t))"

definition scan_lit :: "char \<Rightarrow> string \<Rightarrow> string option" where
  "scan_lit c s = (case s of [] \<Rightarrow> None | d # t \<Rightarrow> if d = c then Some t else None)"

definition scan_int :: "string \<Rightarrow> (int \<times> string) option" where
  "scan_int s =
     (let t = dropWhile is_space s;
          neg = (t \<noteq> [] \<and> hd t = CHR ''-'');
          u = (if t \<noteq> [] \<and> (hd t = CHR ''-'' \<or> hd t = CHR ''+'') then tl t else t);
          d = takeWhile is_digit u;
          v = (if neg then - int (undec d) else int (undec d)) in
      if d = [] \<or> v < - (2 ^ 63) \<or> v \<ge> 2 ^ 63 then None else Some (v, dropWhile is_digit u))"

text \<open>The formats \<open>%d|%s\<close>, \<open>%s|%d\<close> and \<open>ds:%d:%s\<close>.\<close>

definition scan_anchor :: "string \<Rightarrow> (u64 \<times> string) option" where
  "scan_anchor s =
     (case scan_uint s of None \<Rightarrow> None | Some (e, r) \<Rightarrow>
      (case scan_lit (CHR ''|'') r of None \<Rightarrow> None | Some r' \<Rightarrow>
       (case scan_str r' of None \<Rightarrow> None | Some (h, _) \<Rightarrow> Some (e, h))))"

definition scan_winner :: "string \<Rightarrow> (string \<times> int) option" where
  "scan_winner s =
     (case scan_str s of None \<Rightarrow> None | Some (a, r) \<Rightarrow>
      (case scan_lit (CHR ''|'') r of None \<Rightarrow> None | Some r' \<Rightarrow>
       (case scan_int r' of None \<Rightarrow> None | Some (t, _) \<Rightarrow> Some (a, t))))"

definition scan_ds :: "string \<Rightarrow> (u64 \<times> string) option" where
  "scan_ds s =
     (if take 3 s \<noteq> ''ds:'' then None else
      (case scan_uint (drop 3 s) of None \<Rightarrow> None | Some (e, r) \<Rightarrow>
       (case scan_lit (CHR '':'') r of None \<Rightarrow> None | Some r' \<Rightarrow>
        (case scan_str r' of None \<Rightarrow> None | Some (v, _) \<Rightarrow> Some (e, v)))))"

definition string_of :: "bytes \<Rightarrow> string" where
  "string_of bs = map (\<lambda>b. char_of (unat b)) bs"

definition put_result :: "'d \<times> db_error option \<Rightarrow> 'd \<times> store_error option" where
  "put_result r = (fst r, map_option DbError (snd r))"

definition Get_ldb :: "'d LevelDB \<Rightarrow> 'd \<Rightarrow> bytes \<Rightarrow> store_error + bytes" where
  "Get_ldb db s key = (case db_Get db s key of Inl e \<Rightarrow> Inl (DbError e) | Inr v \<Rightarrow> Inr v)"

definition Put_ldb :: "'d LevelDB \<Rightarrow> 'd \<Rightarrow> bytes \<Rightarrow> bytes \<Rightarrow> 'd \<times> store_error option" where
  "Put_ldb db s key val = put_result (db_Put db s key val)"

definition SaveHeader_ldb ::
  "'d LevelDB \<Rightarrow> (CheckpointHeader_types \<Rightarrow> bytes option) \<Rightarrow> 'd \<Rightarrow> CheckpointHeader_types \<Rightarrow> 'd \<times> store_error option" where
  "SaveHeader_ldb db marshal s h =
     (case marshal h of
        None \<Rightarrow> (s, Some MarshalError)
      | Some b \<Rightarrow> put_result (db_Put db s (keyHeader (th_Epoch h)) b))"

definition GetHeader_ldb ::
  "'d LevelDB \<Rightarrow> (bytes \<Rightarrow> CheckpointHeader_types option) \<Rightarrow> 'd \<Rightarrow> u64 \<Rightarrow> store_error + CheckpointHeader_types" where
  "GetHeader_ldb db unmarshal s epoch =
     (case db_Get db s (keyHeader epoch) of
        Inl ErrNotFound \<Rightarrow> Inl (HeaderNotFound epoch)
      | Inl e \<Rightarrow> Inl (DbError e)
      | Inr data \<Rightarrow> (case unmarshal data of None \<Rightarrow> Inl UnmarshalError | Some h \<Rightarrow> Inr h))"

text \<open>The loop keeps the last value that decodes; the iterator's error is not read.\<close>

definition LoadLatestHeader_ldb ::
  "'d LevelDB \<Rightarrow> (bytes \<Rightarrow> CheckpointHeader_types option) \<Rightarrow> 'd \<Rightarrow> CheckpointHeader_types option" where
  "LoadLatestHeader_ldb db unmarshal s =
     foldl (\<lambda>latest (k, v). case unmarshal v of None \<Rightarrow> latest | Some h \<Rightarrow> Some h) None
       (fst (db_Iter db s (bytes_of ''cp:epoch:'')))"

definition ListHeaders_ldb ::
  "'d LevelDB \<Rightarrow> (bytes \<Rightarrow> CheckpointHeader_types option) \<Rightarrow> 'd \<Rightarrow> CheckpointHeader_types list \<times> db_error option" where
  "ListHeaders_ldb db unmarshal s =
     (case db_Iter db s (bytes_of ''cp:epoch:'') of
        (kvs, e) \<Rightarrow> (List.map_filter (\<lambda>(k, v). unmarshal v) kvs, e))"

definition SaveSignersBitmap_ldb :: "'d LevelDB \<Rightarrow> 'd \<Rightarrow> u64 \<Rightarrow> bytes \<Rightarrow> 'd \<times> store_error option" where
  "SaveSignersBitmap_ldb db s epoch bitmap = put_result (db_Put db s (keyBitmap epoch) bitmap)"

definition LoadSignersBitmap_ldb :: "'d LevelDB \<Rightarrow> 'd \<Rightarrow> u64 \<Rightarrow> store_error + bytes option" where
  "LoadSignersBitmap_ldb db s epoch =
     (case db_Get db s (keyBitmap epoch) of
        Inl ErrNotFound \<Rightarrow> Inr None
      | Inl e \<Rightarrow> Inl (DbError e)
      | Inr b \<Rightarrow> Inr (Some b))"

definition SaveAnchor_ldb :: "'d LevelDB \<Rightarrow> 'd \<Rightarrow> string \<Rightarrow> u64 \<Rightarrow> 'd \<times> store_error option" where
  "SaveAnchor_ldb db s h epoch = put_result (db_Put db s keyAnchor (bytes_of (dec020 (unat epoch) @ ''|'' @ h)))"

definition LoadLatestAnchor_ldb :: "'d LevelDB \<Rightarrow> 'd \<Rightarrow> store_error + string \<times> u64" where
  "LoadLatestAnchor_ldb db s =
     (case db_Get db s keyAnchor of
        Inl ErrNotFound \<Rightarrow> Inr ([], 0)
      | Inl e \<Rightarrow> Inl (DbError e)
      | Inr b \<Rightarrow> (case scan_anchor (string_of b) of None \<Rightarrow> Inl ScanError | Some (e, h) \<Rightarrow> Inr (h, e)))"

definition SaveReportKey_ldb :: "'d LevelDB \<Rightarrow> 'd \<Rightarrow> string \<Rightarrow> 'd \<times> store_error option" where
  "SaveReportKey_ldb db s key = put_result (db_Put db s (bytes_of (''rep:'' @ key)) [1])"

definition HasReportKey_ldb :: "'d LevelDB \<Rightarrow> 'd \<Rightarrow> string \<Rightarrow> store_error + bool" where
  "HasReportKey_ldb db s key =
     (case db_Get db s (bytes_of (''rep:'' @ key)) of
        Inl ErrNotFound \<Rightarrow> Inr False
      | Inl e \<Rightarrow> Inl (DbError e)
      | Inr _ \<Rightarrow> Inr True)"

definition SaveDoubleSignEvidence_ldb :: "'d LevelDB \<Rightarrow> 'd \<Rightarrow> u64 \<Rightarrow> string \<Rightarrow> bytes \<Rightarrow> 'd \<times> store_error option" where
  "SaveDoubleSignEvidence_ldb db s epoch vid evidence = put_result (db_Put db s (keyDS epoch vid) evidence)"

definition ListDoubleSignEvidence_ldb ::
  "'d LevelDB \<Rightarrow> 'd \<Rightarrow> string \<Rightarrow> u64 option \<Rightarrow> int \<Rightarrow> DoubleSignItem list \<times> db_error option" where
  "ListDoubleSignEvidence_ldb db s vid epoch limit =
     (case db_Iter db s (bytes_of ''ds:'') of
        (kvs, e) \<Rightarrow>
          (limited limit
             (filter (ds_matches vid epoch)
                (List.map_filter
                   (\<lambda>(k, v). map_option (\<lambda>(e, w). \<lparr>ds_Epoch = e, ds_ValidatorID = w, ds_Evidence = v\<rparr>)
                                (scan_ds (string_of k)))
                   kvs)),
           e))"

definition SaveIntentWinner_ldb :: "'d LevelDB \<Rightarrow> 'd \<Rightarrow> string \<Rightarrow> string \<Rightarrow> int \<Rightarrow> 'd \<times> store_error option" where
  "SaveIntentWinner_ldb db s intentID agent ts =
     (case db_Get db s (keyWinner intentID) of
        Inr _ \<Rightarrow> (s, None)
      | Inl _ \<Rightarrow> put_result (db_Put db s (keyWinner intentID) (bytes_of (agent @ ''|'' @ dec_int ts))))"

definition GetIntentWinner_ldb :: "'d LevelDB \<Rightarrow> 'd \<Rightarrow> string \<Rightarrow> store_error + string \<times> int \<times> bool" where
  "GetIntentWinner_ldb db s intentID =
     (case db_Get db s (keyWinner intentID) of
        Inl ErrNotFound \<Rightarrow> Inr ([], 0, False)
      | Inl e \<Rightarrow> Inl (DbError e)
      | Inr b \<Rightarrow> (case scan_winner (string_of b) of None \<Rightarrow> Inl ScanError | Some (a, t) \<Rightarrow> Inr (a, t, True)))"

definition SaveVerificationRecord_ldb ::
  "'d LevelDB \<Rightarrow> ('m VerificationRecord \<Rightarrow> bytes option) \<Rightarrow> 'd \<Rightarrow> 'm VerificationRecord \<Rightarrow> 'd \<times> store_error option" where
  "SaveVerificationRecord_ldb db marshal s r =
     (if vr_RecordID r = [] then (s, Some RecordIdRequired)
      else case marshal r of
             None \<Rightarrow> (s, Some MarshalError)
           | Some b \<Rightarrow>
               put_result (db_Put db s (keyVerificationRecord (vr_IntentID r) (vr_AgentID r) (vr_RecordID r)) b))"

text \<open>\<open>strings.SplitN(key, ":", n)\<close>: at most \<open>n\<close> fields, the last one unsplit.\<close>

fun SplitN_colon :: "string \<Rightarrow> nat \<Rightarrow> string list" where
  "SplitN_colon s 0 = []"
| "SplitN_colon s (Suc 0) = [s]"
| "SplitN_colon s (Suc (Suc n)) =
     (if CHR '':'' \<in> set s
      then takeWhile (\<lambda>c. c \<noteq> CHR '':'') s # SplitN_colon (tl (dropWhile (\<lambda>c. c \<noteq> CHR '':'') s)) (Suc n)
      else [s])"

definition ListVerificationRecords_ldb ::
  "'d LevelDB \<Rightarrow> (bytes \<Rightarrow> 'm VerificationRecord option) \<Rightarrow> 'd \<Rightarrow> string \<Rightarrow> string \<Rightarrow> int
     \<Rightarrow> store_error + 'm VerificationRecord list" where
  "ListVerificationRecords_ldb db unmarshal s intentID agentID limit =
     (case db_Iter db s (bytes_of (if intentID = [] then ''vr:'' else ''vr:'' @ intentID @ '':'')) of
        (kvs, Some e) \<Rightarrow> Inl (DbError e)
      | (kvs, None) \<Rightarrow>
          Inr (limited limit
                 (List.map_filter
                    (\<lambda>(k, v).
                       let parts = SplitN_colon (string_of k) 4 in
                       if agentID \<noteq> [] \<and> (length parts < 4 \<or> parts ! 2 \<noteq> agentID) then None else unmarshal v)
                    kvs)))"

definition SaveExecutionReport_ldb :: "'d LevelDB \<Rightarrow> 'd \<Rightarrow> string \<Rightarrow> bytes \<Rightarrow> 'd \<times> store_error option" where
  "SaveExecutionReport_ldb db s rid report = put_result (db_Put db s (keyExecutionReport rid) report)"

definition GetExecutionReport_ldb :: "'d LevelDB \<Rightarrow> 'd \<Rightarrow> string \<Rightarrow> store_error + bytes" where
  "GetExecutionReport_ldb db s rid =
     (case db_Get db s (keyExecutionReport rid) of
        Inl ErrNotFound \<Rightarrow> Inl (ReportNotFound rid)
      | Inl e \<Rightarrow> Inl (DbError e)
      | Inr d \<Rightarrow> Inr d)"

definition ListExecutionReports_ldb :: "'d LevelDB \<Rightarrow> 'd \<Rightarrow> string \<Rightarrow> int \<Rightarrow> store_error + (string \<rightharpoonup> bytes)" where
  "ListExecutionReports_ldb db s intentID limit =
     (case db_Iter db s (bytes_of ''er:'') of
        (kvs, Some e) \<Rightarrow> Inl (DbError e)
      | (kvs, None) \<Rightarrow>
          Inr (foldl (\<lambda>m (k, v). m(drop 3 (string_of k) \<mapsto> v)) Map.empty (limited limit kvs)))"

text \<open>
  What goleveldb documents, for a database without I/O failures: \<open>contents\<close> is the finite map it
  holds, and an iterator over a prefix visits the entries with that prefix in ascending key order.
\<close>

definition leveldb_contract :: "'d LevelDB \<Rightarrow> ('d \<Rightarrow> bytes \<rightharpoonup> bytes) \<Rightarrow> bool" where
  "leveldb_contract db contents \<longleftrightarrow>
     (\<forall>s. finite (dom (contents s)))
     \<and> (\<forall>s k. db_Get db s k = (case contents s k of None \<Rightarrow> Inl ErrNotFound | Some v \<Rightarrow> Inr v))
     \<and> (\<forall>s k v. contents (fst (db_Put db s k v)) = (contents s)(k \<mapsto> v) \<and> snd (db_Put db s k v) = None)
     \<and> (\<forall>s p. db_Iter db s p =
          (map (\<lambda>k. (k, the (contents s k))) (sorted_list_of_set {k \<in> dom (contents s). prefix p k}), None))"

lemma leveldb_contractD:
  assumes "leveldb_contract db contents"
  shows "finite (dom (contents s))"
    and "db_Get db s k = (case contents s k of None \<Rightarrow> Inl ErrNotFound | Some v \<Rightarrow> Inr v)"
    and "contents (fst (db_Put db s k v)) = (contents s)(k \<mapsto> v)" and "snd (db_Put db s k v) = None"
    and "db_Iter db s p =
      (map (\<lambda>k. (k, the (contents s k))) (sorted_list_of_set {k \<in> dom (contents s). prefix p k}), None)"
  using assms by (simp_all add: leveldb_contract_def)

text \<open>An association list with this behaviour.\<close>

definition alist_db :: "(bytes \<times> bytes) list LevelDB" where
  "alist_db =
     \<lparr>db_Get = (\<lambda>s k. case map_of s k of None \<Rightarrow> Inl ErrNotFound | Some v \<Rightarrow> Inr v),
      db_Put = (\<lambda>s k v. ((k, v) # s, None)),
      db_Iter = (\<lambda>s p. (map (\<lambda>k. (k, the (map_of s k))) (sort (remdups (filter (prefix p) (map fst s)))), None))\<rparr>"

lemma alist_db_contract: "leveldb_contract alist_db map_of"
proof -
  have "sort (remdups (filter (prefix p) (map fst s))) = sorted_list_of_set {k \<in> dom (map_of s). prefix p k}"
    for s :: "(bytes \<times> bytes) list" and p
  proof -
    have "{k \<in> dom (map_of s). prefix p k} = set (filter (prefix p) (map fst s))"
      by (auto simp: dom_map_of_conv_image_fst)
    then show ?thesis by (simp only: sorted_list_of_set_sort_remdups)
  qed
  then show ?thesis by (simp add: leveldb_contract_def alist_db_def finite_dom_map_of)
qed

section \<open>The in-memory store\<close>

interpretation im_kv: keyed_store "\<lambda>s k. case Get_im s k of Inl _ \<Rightarrow> None | Inr v \<Rightarrow> Some (k, v)" fst
    "\<lambda>s (k, v). Put_im s k v" "\<lambda>_. True"
  by unfold_locales (auto simp: Get_im_def Put_im_def split: option.splits if_splits)

interpretation im_exec: keyed_store "\<lambda>s k. case GetExecutionReport_im s k of Inl _ \<Rightarrow> None | Inr v \<Rightarrow> Some (k, v)" fst
    "\<lambda>s (k, v). SaveExecutionReport_im s k v" "\<lambda>_. True"
  by unfold_locales (auto simp: GetExecutionReport_im_def SaveExecutionReport_im_def split: option.splits if_splits)

interpretation im_bitmap: keyed_store "\<lambda>s k. map_option (Pair k) (LoadSignersBitmap_im s k)" fst
    "\<lambda>s (k, v). SaveSignersBitmap_im s k v" "\<lambda>_. True"
  by unfold_locales (auto simp: LoadSignersBitmap_im_def SaveSignersBitmap_im_def)

lemma im_hdrs_saves: "im_hdrs (foldl SaveHeader_im s hs) = im_hdrs s @ hs"
  by (induction hs arbitrary: s) (simp_all add: SaveHeader_im_def)

section \<open>Zero-padded keys\<close>

lemma undec_Cons: "undec (c # s) = (of_char c - 48) * 10 ^ length s + undec s"
proof -
  have "foldl (\<lambda>n c. n * 10 + (of_char c - 48)) a s = a * 10 ^ length s + foldl (\<lambda>n c. n * 10 + (of_char c - 48)) 0 s"
    for a :: nat
  proof (induction s arbitrary: a)
    case (Cons c s)
    show ?case
      using Cons [of "a * 10 + (of_char c - 48)"] Cons [of "of_char c - 48"] by (simp add: algebra_simps)
  qed simp
  from this [of "of_char c - 48"] show ?thesis by (simp add: undec_def)
qed

lemma undec_bound: "list_all is_digit s \<Longrightarrow> undec s < 10 ^ length s"
proof (induction s)
  case (Cons c s)
  from Cons.prems have "of_char c \<le> (57::nat)" by (simp add: is_digit_def)
  then have "of_char c - 48 \<le> (9::nat)" by linarith
  moreover have "undec s < 10 ^ length s" using Cons by simp
  ultimately have "(of_char c - 48) * 10 ^ length s + undec s < 9 * 10 ^ length s + 10 ^ length s"
    by (intro add_le_less_mono mult_right_mono) simp_all
  then show ?case by (simp add: undec_Cons)
qed (simp add: undec_def)

lemma byte_of_char_less: "(of_char c :: byte) < of_char d \<longleftrightarrow> (of_char c :: nat) < of_char d"
  by (simp add: word_less_nat_alt unat_of_char)

lemma positional_less:
  fixes c d :: nat
  assumes "48 \<le> c" "c < d" "s < p"
  shows "(c - 48) * p + s < (d - 48) * p + t"
proof -
  have "Suc (c - 48) * p \<le> (d - 48) * p" using assms by (intro mult_right_mono) simp_all
  with assms(3) show ?thesis by simp
qed

lemma lex_digits:
  "length s = length t \<Longrightarrow> list_all is_digit s \<Longrightarrow> list_all is_digit t \<Longrightarrow>
   bytes_of s < bytes_of t \<longleftrightarrow> undec s < undec t"
proof (induction s t rule: list_induct2)
  case (Cons c s d t)
  let ?c = "of_char c :: nat" and ?d = "of_char d :: nat" and ?p = "10 ^ length t :: nat"
  have dig: "48 \<le> ?c" "48 \<le> ?d" using Cons.prems by (simp_all add: is_digit_def)
  have bound: "undec s < ?p" "undec t < ?p"
    using undec_bound [of s] undec_bound [of t] Cons.prems Cons.hyps by simp_all
  have u: "undec (c # s) = (?c - 48) * ?p + undec s" "undec (d # t) = (?d - 48) * ?p + undec t"
    using Cons.hyps by (simp_all add: undec_Cons)
  have b: "bytes_of (c # s) < bytes_of (d # t) \<longleftrightarrow> ?c < ?d \<or> c = d \<and> bytes_of s < bytes_of t"
    by (simp add: bytes_of_def byte_of_char_less of_char_word_inj)
  consider "?c < ?d" | "c = d" | "?d < ?c" by (metis linorder_neqE_nat of_char_eq_iff)
  then show ?case
  proof cases
    case 1
    with positional_less [OF dig(1) 1 bound(1), of "undec t"] show ?thesis unfolding u b by simp
  next
    case 2
    with Cons show ?thesis unfolding u b by simp
  next
    case 3
    with positional_less [OF dig(2) 3 bound(2), of "undec s"] show ?thesis unfolding u b by auto
  qed
qed (simp add: undec_def)

lemma dec_digits: "list_all is_digit (dec n)"
  unfolding list_all_iff is_digit_def using dec_chars by blast

lemma length_dec: "n < 10 ^ Suc k \<Longrightarrow> length (dec n) \<le> Suc k"
proof (induction n arbitrary: k rule: dec.induct)
  case (1 n)
  show ?case
  proof (cases "n < 10")
    case False
    with 1(2) obtain j where k: "k = Suc j" by (cases k) auto
    have "n div 10 < 10 ^ Suc j" using 1(2) k by (simp add: div_less_iff_less_mult)
    with 1(1) [OF False] k False show ?thesis by (simp add: dec.simps [of n])
  qed (simp add: dec.simps [of n])
qed

lemma length_dec020 [simp]: "length (dec020 (unat (e :: u64))) = 20"
proof -
  have "unat e < 10 ^ 20" using unat_less [of e] by simp
  then show ?thesis using length_dec [of "unat e" 19] by (simp add: dec020_def)
qed

lemma undec_zeros: "undec (replicate k (CHR ''0'') @ s) = undec s"
  by (induction k) (simp_all add: undec_Cons)

lemma undec_dec020 [simp]: "undec (dec020 n) = n"
  by (simp add: dec020_def undec_zeros)

lemma dec020_digits: "list_all is_digit (dec020 n)"
  using dec_digits [of n] by (auto simp: dec020_def list_all_iff is_digit_def)

text \<open>The keys of the headers sort as their epochs do.\<close>

lemma append_less_iff: "(p @ s < p @ t) = (s < (t :: 'a::linorder list))"
  by (induction p) simp_all

lemma keyHeader_less: "keyHeader a < keyHeader b \<longleftrightarrow> a < b"
proof -
  have "bytes_of (dec020 (unat a)) < bytes_of (dec020 (unat b)) \<longleftrightarrow> unat a < unat b"
    by (subst lex_digits) (simp_all add: dec020_digits)
  moreover have "bytes_of (p @ s) = bytes_of p @ bytes_of s" for p s by (simp add: bytes_of_def)
  ultimately show ?thesis by (simp add: keyHeader_def append_less_iff word_less_nat_alt del: append.simps)
qed

lemma keyHeader_inject [simp]: "keyHeader a = keyHeader b \<longleftrightarrow> a = b"
  by (metis keyHeader_less less_irrefl linorder_neqE)

lemma keyHeader_strict_mono: "strict_mono_on A keyHeader"
  by (simp add: strict_mono_onI keyHeader_less)

lemma sorted_keyHeader:
  assumes "finite A"
  shows "sorted_list_of_set (keyHeader ` A) = map keyHeader (sorted_list_of_set A)"
proof -
  have "sorted_wrt (<) (map keyHeader (sorted_list_of_set A))"
    using strict_sorted_list_of_set [of A] by (simp add: sorted_wrt_map keyHeader_less)
  moreover have "set (map keyHeader (sorted_list_of_set A)) = keyHeader ` A" using assms by simp
  ultimately show ?thesis
    by (intro strict_sorted_equal) (use assms in simp_all)
qed

section \<open>The LevelDB store refines a map of headers\<close>

definition codec_ok :: "('a \<Rightarrow> bytes option) \<Rightarrow> (bytes \<Rightarrow> 'a option) \<Rightarrow> 'a \<Rightarrow> bool" where
  "codec_ok marshal unmarshal x \<longleftrightarrow> (\<exists>b. marshal x = Some b \<and> unmarshal b = Some x)"

abbreviation header_prefix :: bytes where
  "header_prefix \<equiv> bytes_of ''cp:epoch:''"

text \<open>The entries under the header prefix are the encodings of the headers of \<open>m\<close>.\<close>

definition header_entries ::
  "(CheckpointHeader_types \<Rightarrow> bytes option) \<Rightarrow> (bytes \<Rightarrow> CheckpointHeader_types option) \<Rightarrow> (bytes \<rightharpoonup> bytes)
     \<Rightarrow> (u64 \<rightharpoonup> CheckpointHeader_types) \<Rightarrow> bool" where
  "header_entries marshal unmarshal c m \<longleftrightarrow>
     (\<forall>e. c (keyHeader e) = Option.bind (m e) marshal)
     \<and> (\<forall>k. k \<in> dom c \<and> prefix header_prefix k \<longrightarrow> k \<in> range keyHeader)
     \<and> (\<forall>e h. m e = Some h \<longrightarrow> codec_ok marshal unmarshal h)"

lemma prefix_keyHeader: "prefix header_prefix (keyHeader e)"
  by (simp add: keyHeader_def bytes_of_def)

lemma header_entries_lookup:
  assumes "header_entries marshal unmarshal c m"
  shows "m e = None \<Longrightarrow> c (keyHeader e) = None"
    and "m e = Some h \<Longrightarrow> \<exists>b. c (keyHeader e) = Some b \<and> unmarshal b = Some h"
  using assms unfolding header_entries_def codec_ok_def by (metis bind.simps)+

lemma header_entries_keys:
  assumes "header_entries marshal unmarshal c m"
  shows "{k \<in> dom c. prefix header_prefix k} = keyHeader ` dom m"
proof
  show "{k \<in> dom c. prefix header_prefix k} \<subseteq> keyHeader ` dom m"
  proof clarify
    fix k v assume k: "c k = Some v" "prefix header_prefix k"
    then obtain e where "k = keyHeader e" using assms unfolding header_entries_def by blast
    with k header_entries_lookup(1) [OF assms, of e] show "k \<in> keyHeader ` dom m" by auto
  qed
  show "keyHeader ` dom m \<subseteq> {k \<in> dom c. prefix header_prefix k}"
    using header_entries_lookup(2) [OF assms] prefix_keyHeader by fastforce
qed

lemma header_entries_finite:
  assumes "header_entries marshal unmarshal c m" "finite (dom c)"
  shows "finite (dom m)"
proof -
  have "finite (keyHeader ` dom m)"
    using assms(2) by (simp flip: header_entries_keys [OF assms(1)])
  then show ?thesis by (rule finite_imageD) (simp add: inj_on_def)
qed

lemma SaveHeader_ldb_refines:
  assumes db: "leveldb_contract db contents" and rep: "header_entries marshal unmarshal (contents s) m"
    and h: "codec_ok marshal unmarshal h"
  shows "snd (SaveHeader_ldb db marshal s h) = None"
    and "header_entries marshal unmarshal (contents (fst (SaveHeader_ldb db marshal s h))) (m(th_Epoch h \<mapsto> h))"
proof -
  obtain b where b: "marshal h = Some b" "unmarshal b = Some h" using h by (auto simp: codec_ok_def)
  then show "snd (SaveHeader_ldb db marshal s h) = None"
    by (simp add: SaveHeader_ldb_def put_result_def leveldb_contractD [OF db])
  show "header_entries marshal unmarshal (contents (fst (SaveHeader_ldb db marshal s h))) (m(th_Epoch h \<mapsto> h))"
    using rep h b unfolding header_entries_def
    by (auto simp: SaveHeader_ldb_def put_result_def leveldb_contractD [OF db])
qed

lemma headers_iterated:
  assumes db: "leveldb_contract db contents" and rep: "header_entries marshal unmarshal (contents s) m"
  shows "db_Iter db s header_prefix =
    (map (\<lambda>e. (keyHeader e, the (contents s (keyHeader e)))) (sorted_list_of_set (dom m)), None)"
  by (simp add: leveldb_contractD [OF db] header_entries_keys [OF rep] sorted_keyHeader
      header_entries_finite [OF rep leveldb_contractD(1) [OF db]] comp_def)

lemma GetHeader_ldb_refines:
  assumes "leveldb_contract db contents" "header_entries marshal unmarshal (contents s) m"
  shows "GetHeader_ldb db unmarshal s e = (case m e of None \<Rightarrow> Inl (HeaderNotFound e) | Some h \<Rightarrow> Inr h)"
proof (cases "m e")
  case None
  then show ?thesis
    using header_entries_lookup(1) [OF assms(2), of e] by (simp add: GetHeader_ldb_def leveldb_contractD [OF assms(1)])
next
  case (Some h)
  then obtain b where "contents s (keyHeader e) = Some b" "unmarshal b = Some h"
    using header_entries_lookup(2) [OF assms(2)] by blast
  with Some show ?thesis by (simp add: GetHeader_ldb_def leveldb_contractD [OF assms(1)])
qed

lemma unmarshal_entry:
  assumes "header_entries marshal unmarshal c m" "e \<in> dom m"
  shows "unmarshal (the (c (keyHeader e))) = m e"
  using header_entries_lookup(2) [OF assms(1)] assms(2) by force

lemma ListHeaders_ldb_refines:
  assumes db: "leveldb_contract db contents" and rep: "header_entries marshal unmarshal (contents s) m"
  shows "ListHeaders_ldb db unmarshal s = (map (the \<circ> m) (sorted_list_of_set (dom m)), None)"
proof -
  have "List.map_filter (\<lambda>(k, v). unmarshal v) (map (\<lambda>e. (keyHeader e, the (contents s (keyHeader e)))) es)
      = map (the \<circ> m) es" if "set es \<subseteq> dom m" for es
    using that
  proof (induction es)
    case (Cons e es)
    then show ?case
      using unmarshal_entry [OF rep, of e] by (auto simp: map_filter_simps)
  qed (simp add: map_filter_simps)
  moreover have "set (sorted_list_of_set (dom m)) \<subseteq> dom m"
    using header_entries_finite [OF rep leveldb_contractD(1) [OF db]] by simp
  ultimately show ?thesis by (simp add: ListHeaders_ldb_def headers_iterated [OF db rep])
qed

lemma last_sorted_list_of_set: "finite A \<Longrightarrow> A \<noteq> {} \<Longrightarrow> last (sorted_list_of_set A) = Max (A :: 'a::linorder set)"
proof -
  assume A: "finite A" "A \<noteq> {}"
  let ?l = "sorted_list_of_set A"
  have ne: "?l \<noteq> []" using A by simp
  have "x \<le> last ?l" if "x \<in> A" for x
  proof -
    have "x \<in> set ?l" using that A by simp
    then obtain i where "i < length ?l" "?l ! i = x" unfolding in_set_conv_nth by blast
    with sorted_nth_mono [of ?l i "length ?l - 1"] ne show ?thesis by (simp add: last_conv_nth)
  qed
  moreover have "last ?l \<in> A" using last_in_set [OF ne] A by simp
  ultimately show ?thesis using A(1) by (intro Max_eqI [symmetric])
qed

lemma LoadLatestHeader_ldb_refines:
  assumes db: "leveldb_contract db contents" and rep: "header_entries marshal unmarshal (contents s) m"
  shows "LoadLatestHeader_ldb db unmarshal s = (if dom m = {} then None else m (Max (dom m)))"
proof -
  let ?f = "\<lambda>latest (k, v). case unmarshal v of None \<Rightarrow> latest | Some h \<Rightarrow> Some h"
  have scan: "foldl ?f None (map (\<lambda>e. (keyHeader e, the (contents s (keyHeader e)))) es)
      = (if es = [] then None else m (last es))" if "set es \<subseteq> dom m" for es
    using that
  proof (induction es rule: rev_induct)
    case (snoc e es)
    then show ?case using unmarshal_entry [OF rep, of e] by (auto simp: case_prod_beta)
  qed simp
  have fin: "finite (dom m)" using header_entries_finite [OF rep leveldb_contractD(1) [OF db]] .
  then show ?thesis
    using scan [of "sorted_list_of_set (dom m)"]
    by (simp add: LoadLatestHeader_ldb_def headers_iterated [OF db rep] last_sorted_list_of_set)
qed

lemma SaveHeaders_ldb_refines:
  assumes db: "leveldb_contract db contents" and rep: "header_entries marshal unmarshal (contents s) m"
    and hs: "list_all (codec_ok marshal unmarshal) hs"
  shows "header_entries marshal unmarshal (contents (foldl (\<lambda>s h. fst (SaveHeader_ldb db marshal s h)) s hs))
    (foldl (\<lambda>m h. m(th_Epoch h \<mapsto> h)) m hs)"
  using rep hs
  by (induction hs arbitrary: s m) (auto intro: SaveHeader_ldb_refines(2) [OF db])

lemma dom_epochs: "dom (foldl (\<lambda>m h. m(th_Epoch h \<mapsto> h)) m hs) = dom m \<union> th_Epoch ` set hs"
  by (induction hs arbitrary: m) auto

section \<open>Scanning\<close>

lemma string_of_bytes_of [simp]: "string_of (bytes_of s) = s"
  by (induction s) (simp_all add: string_of_def bytes_of_def unat_of_char)

lemma digit_not_space: "is_digit c \<Longrightarrow> \<not> is_space c"
  by (auto simp: is_digit_def is_space_def)

lemma takeWhile_stop: "list_all P a \<Longrightarrow> \<not> P c \<Longrightarrow> takeWhile P (a @ c # r) = a \<and> dropWhile P (a @ c # r) = c # r"
  by (simp add: list_all_iff takeWhile_append2)

lemma scan_uint_dec020:
  "\<not> is_digit c \<Longrightarrow> scan_uint (dec020 (unat (e :: u64)) @ c # r) = Some (e, c # r)"
proof -
  assume c: "\<not> is_digit c"
  have "dec020 (unat e) \<noteq> []" using length_dec020 [of e] by (metis list.size(3) zero_neq_numeral)
  then obtain d ds where d: "dec020 (unat e) = d # ds" by (cases "dec020 (unat e)") auto
  then have "\<not> is_space d" using dec020_digits [of "unat e"] by (simp add: digit_not_space)
  then have "dropWhile is_space (dec020 (unat e) @ c # r) = dec020 (unat e) @ c # r" by (simp add: d)
  with takeWhile_stop [OF dec020_digits c, of "unat e" r] d show ?thesis
    using unat_less [of e] undec_dec020 [of "unat e"] by (simp add: scan_uint_def Let_def)
qed

text \<open>What follows a scanned word is the end of the input or a space.\<close>

lemma scan_str_rest: "scan_str s = Some (w, r) \<Longrightarrow> r = [] \<or> is_space (hd r)"
  unfolding scan_str_def Let_def by (auto split: if_splits dest: hd_dropWhile)

lemma scan_winner_fails: "scan_winner s = None"
proof -
  have "scan_lit (CHR ''|'') r = None" if "scan_str s = Some (w, r)" for w r
    using scan_str_rest [OF that] by (cases r) (auto simp: scan_lit_def is_space_def)
  then show ?thesis by (auto simp: scan_winner_def split: option.splits)
qed

lemma scan_str_word: "h \<noteq> [] \<Longrightarrow> list_all (\<lambda>c. \<not> is_space c) h \<Longrightarrow> scan_str h = Some (h, [])"
proof -
  assume h: "h \<noteq> []" "list_all (\<lambda>c. \<not> is_space c) h"
  then have "dropWhile is_space h = h" by (cases h) simp_all
  moreover have "takeWhile (\<lambda>c. \<not> is_space c) h = h" "dropWhile (\<lambda>c. \<not> is_space c) h = []"
    using h(2) by (auto simp: list_all_iff)
  ultimately show ?thesis using h(1) by (simp add: scan_str_def Let_def del: takeWhile_eq_all_conv dropWhile_eq_Nil_conv)
qed

section \<open>Properties\<close>

text \<open>
  C11: The LevelDB store keeps one header per epoch, the last one saved, and the zero-padded keys make
  iteration follow the epochs: after any sequence of saves, \<open>GetHeader\<close> returns the last
  header saved for the epoch, \<open>ListHeaders\<close> lists the epochs in ascending order, and
  \<open>LoadLatestHeader\<close> returns the header of the greatest epoch, in whatever order they were saved.
\<close>

theorem LevelDB_headers:
  assumes db: "leveldb_contract db contents"
    and empty: "\<And>k. prefix (bytes_of ''cp:epoch:'') k \<Longrightarrow> contents s k = None"
    and codec: "list_all (codec_ok marshal unmarshal) hs"
  defines "m \<equiv> foldl (\<lambda>m h. m(th_Epoch h \<mapsto> h)) Map.empty hs"
    and "t \<equiv> foldl (\<lambda>s h. fst (SaveHeader_ldb db marshal s h)) s hs"
  shows "GetHeader_ldb db unmarshal t e = (case m e of None \<Rightarrow> Inl (HeaderNotFound e) | Some h \<Rightarrow> Inr h)
    \<and> ListHeaders_ldb db unmarshal t = (map (the \<circ> m) (sorted_list_of_set (th_Epoch ` set hs)), None)
    \<and> LoadLatestHeader_ldb db unmarshal t = (if hs = [] then None else m (Max (th_Epoch ` set hs)))"
proof -
  have "header_entries marshal unmarshal (contents s) Map.empty"
    using empty prefix_keyHeader by (auto simp: header_entries_def)
  then have rep: "header_entries marshal unmarshal (contents t) m"
    unfolding m_def t_def using SaveHeaders_ldb_refines [OF db] codec by blast
  have dom: "dom m = th_Epoch ` set hs" by (simp add: m_def dom_epochs)
  show ?thesis
    using GetHeader_ldb_refines [OF db rep] ListHeaders_ldb_refines [OF db rep]
      LoadLatestHeader_ldb_refines [OF db rep] by (auto simp: dom)
qed

definition example_roots_types :: CommitmentRoots_types where
  "example_roots_types =
     \<lparr>tr_AgentRoot = [], tr_AgentServiceRoot = [], tr_RankRoot = [], tr_MetricsRoot = [], tr_DataUsageRoot = [],
      tr_StateRoot = [], tr_EventRoot = [], tr_CrossSubnetRoot = []\<rparr>"

definition example_header_types :: "u64 \<Rightarrow> string \<Rightarrow> CheckpointHeader_types" where
  "example_header_types e parent =
     \<lparr>th_SubnetID = ''s'', th_Epoch = e, th_ParentCPHash = parent, th_Timestamp = 0, th_Version = 1,
      th_ParamsHash = [], th_Roots = example_roots_types, th_DACommitments = [], th_ValidatorSetID = [],
      th_Stats = [], th_AuxHash = [], th_EpochSlot = \<lparr>es_Epoch = 0, es_Slot = 0\<rparr>, th_AssignmentsRoot = [],
      th_ValidationCommitment = [], th_PolicyRoot = [], th_Signatures = None\<rparr>"

text \<open>A codec of the example headers: the epoch, then the parent hash.\<close>

definition example_marshal :: "CheckpointHeader_types \<Rightarrow> bytes option" where
  "example_marshal h = Some (ucast (th_Epoch h) # bytes_of (th_ParentCPHash h))"

definition example_unmarshal :: "bytes \<Rightarrow> CheckpointHeader_types option" where
  "example_unmarshal b = (case b of [] \<Rightarrow> None | e # p \<Rightarrow> Some (example_header_types (ucast e) (string_of p)))"

theorem LevelDB_headers_witness:
  "LoadLatestHeader_ldb alist_db example_unmarshal
     (foldl (\<lambda>s h. fst (SaveHeader_ldb alist_db example_marshal s h)) []
        [example_header_types 10 ''a'', example_header_types 9 ''b''])
   = Some (example_header_types 10 ''a'')"
proof -
  have "list_all (codec_ok example_marshal example_unmarshal) [example_header_types 10 ''a'', example_header_types 9 ''b'']"
    by (simp add: codec_ok_def example_marshal_def example_unmarshal_def example_header_types_def)
  from LevelDB_headers [OF alist_db_contract _ this, of "[]" 0]
  show ?thesis by (simp add: example_header_types_def)
qed

text \<open>
  The two stores behind the interface differ on a re-saved epoch: the in-memory store keeps
  returning the first header saved for an epoch, also after any later saves, where the LevelDB
  store returns the last one.
\<close>

theorem GetHeader_stores_differ:
  assumes "leveldb_contract db contents" "codec_ok marshal unmarshal h'" "th_Epoch h = th_Epoch h'"
    and "th_Epoch h \<notin> th_Epoch ` set (im_hdrs s)"
  shows "GetHeader_im (foldl SaveHeader_im (SaveHeader_im s h) (h' # hs)) (th_Epoch h) = Inr h
    \<and> GetHeader_ldb db unmarshal (fst (SaveHeader_ldb db marshal (fst (SaveHeader_ldb db marshal d h)) h')) (th_Epoch h) = Inr h'"
proof
  have "find (\<lambda>k. th_Epoch k = th_Epoch h) (im_hdrs s) = None" using assms(4) unfolding find_None_iff by (metis image_eqI)
  then show "GetHeader_im (foldl SaveHeader_im (SaveHeader_im s h) (h' # hs)) (th_Epoch h) = Inr h"
    by (simp add: GetHeader_im_def im_hdrs_saves find_append del: foldl.simps) (simp add: SaveHeader_im_def find_append)
  obtain b where "marshal h' = Some b" "unmarshal b = Some h'" using assms(2) by (auto simp: codec_ok_def)
  then show "GetHeader_ldb db unmarshal (fst (SaveHeader_ldb db marshal (fst (SaveHeader_ldb db marshal d h)) h')) (th_Epoch h) = Inr h'"
    by (simp add: GetHeader_ldb_def SaveHeader_ldb_def put_result_def assms(3) leveldb_contractD [OF assms(1)])
qed

theorem GetHeader_stores_differ_witness:
  "GetHeader_im (foldl SaveHeader_im (SaveHeader_im (NewInMemory :: nat InMemory) (example_header_types 3 ''a''))
      [example_header_types 3 ''b'']) 3 = Inr (example_header_types 3 ''a'')
   \<and> GetHeader_ldb alist_db example_unmarshal
       (fst (SaveHeader_ldb alist_db example_marshal
          (fst (SaveHeader_ldb alist_db example_marshal [] (example_header_types 3 ''a'')))
          (example_header_types 3 ''b''))) 3 = Inr (example_header_types 3 ''b'')"
proof -
  have "codec_ok example_marshal example_unmarshal (example_header_types 3 ''b'')"
    by (simp add: codec_ok_def example_marshal_def example_unmarshal_def example_header_types_def)
  from GetHeader_stores_differ [OF alist_db_contract this, of "example_header_types 3 ''a''" "NewInMemory :: nat InMemory" "[]" "[]"]
  show ?thesis by (simp add: example_header_types_def NewInMemory_def)
qed

text \<open>
  An anchor is read back as it was saved: the LevelDB store returns the hash and the epoch of
  the last \<open>SaveAnchor\<close> when the hash is not empty and has no spaces; an empty hash is written but
  cannot be read back.
\<close>

theorem anchor_round_trip:
  assumes db: "leveldb_contract db contents" and h: "list_all (\<lambda>c. \<not> is_space c) h"
  shows "LoadLatestAnchor_ldb db (fst (SaveAnchor_ldb db s h e)) = (if h = [] then Inl ScanError else Inr (h, e))"
proof -
  have "scan_uint (dec020 (unat e) @ ''|'' @ h) = Some (e, ''|'' @ h)"
    by (simp add: scan_uint_dec020 is_digit_def)
  then have "scan_anchor (dec020 (unat e) @ ''|'' @ h) = (if h = [] then None else Some (e, h))"
    using scan_str_word [OF _ h] by (simp add: scan_anchor_def scan_lit_def scan_str_def)
  then show ?thesis
    by (simp add: LoadLatestAnchor_ldb_def SaveAnchor_ldb_def put_result_def leveldb_contractD [OF db])
qed

theorem anchor_round_trip_witness:
  "LoadLatestAnchor_ldb alist_db (fst (SaveAnchor_ldb alist_db [] ''ab12'' 42)) = Inr (''ab12'', 42)"
  using anchor_round_trip [OF alist_db_contract, of "''ab12''" "[]" 42] by (simp add: is_space_def)

text \<open>
  The LevelDB store cannot return an intent winner that it has stored: whatever agent and
  time were saved, \<open>GetIntentWinner\<close> reports a scan error, because \<open>%s\<close> reads past the bar. The
  in-memory store returns the first winner saved.
\<close>

theorem intent_winner_unreadable:
  assumes "leveldb_contract db contents" "im_winners s i = None"
  shows "GetIntentWinner_ldb db (fst (SaveIntentWinner_ldb db d i agent ts)) i = Inl ScanError
    \<and> GetIntentWinner_im (SaveIntentWinner_im (SaveIntentWinner_im s i agent ts) i agent' ts') i = (agent, ts, True)"
  using assms(2)
  by (auto simp: GetIntentWinner_ldb_def SaveIntentWinner_ldb_def put_result_def leveldb_contractD [OF assms(1)]
      scan_winner_fails GetIntentWinner_im_def SaveIntentWinner_im_def split: option.splits)

theorem intent_winner_unreadable_witness:
  "GetIntentWinner_ldb alist_db (fst (SaveIntentWinner_ldb alist_db [] ''i'' ''agent'' 5)) ''i'' = Inl ScanError"
  using intent_winner_unreadable [OF alist_db_contract, of "NewInMemory :: nat InMemory" "''i''" "[]" "''agent''" 5]
  by (simp add: NewInMemory_def)

end
