(* ===== verification/Chain.thy ===== *)
theory Chain
  imports Store
begin

text \<open>
  The checkpoint chain: the list checks of \<open>src/internal/consensus/chain.go\<close> and the chain manager of
  \<open>src/internal/consensus/chain_manager.go\<close>. The storage backend of the manager is a record of the two
  operations of the store interface that it calls, with instances for both stores of \<open>Store\<close>.
  Headers are values: the manager's change of the caller's header is part of its result.
\<close>

section \<open>Model\<close>

subsection \<open>Continuity of a list of headers\<close>

datatype continuity_error =
    EpochBroken nat u64 u64
  | ParentMismatch u64 string string

fun verify_links :: "(bytes \<Rightarrow> bytes) \<Rightarrow> nat \<Rightarrow> CheckpointHeader_types list \<Rightarrow> continuity_error option" where
  "verify_links H i (parent # child # rest) =
     (if th_Epoch child \<noteq> th_Epoch parent + 1 then Some (EpochBroken i (th_Epoch parent) (th_Epoch child))
      else let expected = EncodeToString (CanonicalHash H parent) in
           if th_ParentCPHash child \<noteq> expected
           then Some (ParentMismatch (th_Epoch child) (th_ParentCPHash child) expected)
           else verify_links H (i + 1) (child # rest))"
| "verify_links H i _ = None"

definition VerifyChainContinuity :: "(bytes \<Rightarrow> bytes) \<Rightarrow> CheckpointHeader_types list \<Rightarrow> continuity_error option" where
  "VerifyChainContinuity H headers = (if length headers \<le> 1 then None else verify_links H 1 headers)"

fun anchor_from :: "(bytes \<Rightarrow> bytes) \<Rightarrow> string \<Rightarrow> int \<Rightarrow> CheckpointHeader_types list \<Rightarrow> int" where
  "anchor_from H a i [] = - 1"
| "anchor_from H a i (h # hs) = (if EncodeToString (CanonicalHash H h) = a then i else anchor_from H a (i + 1) hs)"

definition FindAnchorIndexByHash :: "(bytes \<Rightarrow> bytes) \<Rightarrow> CheckpointHeader_types list \<Rightarrow> string \<Rightarrow> int" where
  "FindAnchorIndexByHash H headers a = (if a = [] then - 1 else anchor_from H a 0 headers)"

fun discontinuity_from :: "(bytes \<Rightarrow> bytes) \<Rightarrow> int \<Rightarrow> CheckpointHeader_types list \<Rightarrow> int" where
  "discontinuity_from H i (parent # child # rest) =
     (if th_Epoch child \<noteq> th_Epoch parent + 1 then i
      else if EncodeToString (CanonicalHash H parent) \<noteq> th_ParentCPHash child then i
      else discontinuity_from H (i + 1) (child # rest))"
| "discontinuity_from H i _ = - 1"

definition FindFirstDiscontinuityIndex :: "(bytes \<Rightarrow> bytes) \<Rightarrow> CheckpointHeader_types list \<Rightarrow> int" where
  "FindFirstDiscontinuityIndex H headers = (if length headers \<le> 1 then - 1 else discontinuity_from H 1 headers)"

subsection \<open>The chain manager\<close>

record 's Store =
  st_SaveHeader :: "'s \<Rightarrow> CheckpointHeader_types \<Rightarrow> 's \<times> store_error option"
  st_GetHeader :: "'s \<Rightarrow> u64 \<Rightarrow> store_error + CheckpointHeader_types"

definition InMemory_Store :: "'m InMemory Store" where
  "InMemory_Store = \<lparr>st_SaveHeader = (\<lambda>s h. (SaveHeader_im s h, None)), st_GetHeader = GetHeader_im\<rparr>"

definition LevelDB_Store ::
  "'d LevelDB \<Rightarrow> (CheckpointHeader_types \<Rightarrow> bytes option) \<Rightarrow> (bytes \<Rightarrow> CheckpointHeader_types option) \<Rightarrow> 'd Store" where
  "LevelDB_Store db marshal unmarshal =
     \<lparr>st_SaveHeader = SaveHeader_ldb db marshal, st_GetHeader = GetHeader_ldb db unmarshal\<rparr>"

text \<open>\<open>ch_store\<close> is the state of the backend, if one is set.\<close>

record 's Chain =
  ch_store :: "'s option"
  ch_checkpoints :: "u64 \<rightharpoonup> CheckpointHeader"
  ch_latest :: "CheckpointHeader option"

datatype chain_error =
    InvalidEpoch u64 u64
  | InvalidParent bytes bytes
  | PersistFailed store_error
  | CheckpointNotFound u64
  | InvalidRange u64 u64

definition NewChain :: "'s Chain" where
  "NewChain = \<lparr>ch_store = None, ch_checkpoints = Map.empty, ch_latest = None\<rparr>"

definition SetStore :: "'s Chain \<Rightarrow> 's \<Rightarrow> 's Chain" where
  "SetStore c s = c\<lparr>ch_store := Some s\<rparr>"

text \<open>A non-nil header never panics here; the nil result is the empty byte string.\<close>

definition computeHeaderHash :: "(bytes \<Rightarrow> bytes) \<Rightarrow> CheckpointHeader option \<Rightarrow> bytes" where
  "computeHeaderHash H header =
     (case header of
        None \<Rightarrow> []
      | Some h \<Rightarrow> (case ComputeHashForVerification H (Some h) of Inl _ \<Rightarrow> [] | Inr d \<Rightarrow> d))"

definition empty_roots_types :: CommitmentRoots_types where
  "empty_roots_types =
     \<lparr>tr_AgentRoot = [], tr_AgentServiceRoot = [], tr_RankRoot = [], tr_MetricsRoot = [], tr_DataUsageRoot = [],
      tr_StateRoot = [], tr_EventRoot = [], tr_CrossSubnetRoot = []\<rparr>"

definition convertToTypesHeader :: "CheckpointHeader \<Rightarrow> CheckpointHeader_types" where
  "convertToTypesHeader h =
     \<lparr>th_SubnetID = h_SubnetId h, th_Epoch = h_Epoch h, th_ParentCPHash = EncodeToString (h_ParentCpHash h),
      th_Timestamp = h_Timestamp h, th_Version = 0, th_ParamsHash = [],
      th_Roots =
        (case h_Roots h of
           None \<Rightarrow> empty_roots_types
         | Some r \<Rightarrow> empty_roots_types\<lparr>tr_StateRoot := EncodeToString (cr_StateRoot r),
                       tr_AgentRoot := EncodeToString (cr_AgentRoot r),
                       tr_EventRoot := EncodeToString (cr_EventRoot r)\<rparr>),
      th_DACommitments = [], th_ValidatorSetID = [], th_Stats = [], th_AuxHash = [],
      th_EpochSlot = \<lparr>es_Epoch = 0, es_Slot = 0\<rparr>, th_AssignmentsRoot = [], th_ValidationCommitment = [],
      th_PolicyRoot = [],
      th_Signatures =
        (case h_Signatures h of
           None \<Rightarrow> None
         | Some s \<Rightarrow> Some \<lparr>cs_EcdsaSignatures = cs_EcdsaSignatures s, cs_SignersBitmap = cs_SignersBitmap s,
                             cs_SignatureCount = 0, cs_TotalWeight = cs_TotalWeight s\<rparr>)\<rparr>"

definition empty_roots :: CommitmentRoots where
  "empty_roots =
     \<lparr>cr_AgentRoot = [], cr_AgentServiceRoot = [], cr_RankRoot = [], cr_MetricsRoot = [], cr_DataUsageRoot = [],
      cr_StateRoot = [], cr_EventRoot = [], cr_CrossSubnetRoot = []\<rparr>"

definition convertFromTypesHeader :: "CheckpointHeader_types \<Rightarrow> CheckpointHeader" where
  "convertFromTypesHeader t =
     \<lparr>h_SubnetId = th_SubnetID t, h_Epoch = th_Epoch t, h_ParentCpHash = fst (DecodeString (th_ParentCPHash t)),
      h_Timestamp = th_Timestamp t, h_Version = 0, h_ParamsHash = [],
      h_Roots =
        (if tr_StateRoot (th_Roots t) \<noteq> [] \<or> tr_AgentRoot (th_Roots t) \<noteq> [] \<or> tr_EventRoot (th_Roots t) \<noteq> []
         then Some (empty_roots\<lparr>cr_StateRoot := fst (DecodeString (tr_StateRoot (th_Roots t))),
                      cr_AgentRoot := fst (DecodeString (tr_AgentRoot (th_Roots t))),
                      cr_EventRoot := fst (DecodeString (tr_EventRoot (th_Roots t)))\<rparr>)
         else None),
      h_DaCommitments = [], h_ValidatorSetId = [], h_Stats = [], h_AuxHash = [], h_EpochSlot = None,
      h_AssignmentsRoot = [], h_ValidationCommitment = [], h_PolicyRoot = [],
      h_Signatures =
        (case th_Signatures t of
           None \<Rightarrow> None
         | Some s \<Rightarrow> Some \<lparr>cs_EcdsaSignatures = cs_EcdsaSignatures s, cs_SignersBitmap = cs_SignersBitmap s,
                             cs_SignatureCount = 0, cs_TotalWeight = cs_TotalWeight s\<rparr>)\<rparr>"

text \<open>The checks of \<open>AddCheckpoint\<close> against the latest header, with the parent hash filled in if it is empty.\<close>

definition check_continuity ::
  "(bytes \<Rightarrow> bytes) \<Rightarrow> CheckpointHeader option \<Rightarrow> CheckpointHeader \<Rightarrow> chain_error + CheckpointHeader" where
  "check_continuity H latest header =
     (case latest of
        None \<Rightarrow> Inr header
      | Some l \<Rightarrow>
          if h_Epoch header \<le> h_Epoch l then Inl (InvalidEpoch (h_Epoch l) (h_Epoch header))
          else let latestHash = computeHeaderHash H latest in
               if h_ParentCpHash header \<noteq> [] then
                 if h_ParentCpHash header \<noteq> latestHash
                 then Inl (InvalidParent latestHash (h_ParentCpHash header))
                 else Inr header
               else Inr (header\<lparr>h_ParentCpHash := latestHash\<rparr>))"

definition AddCheckpoint ::
  "(bytes \<Rightarrow> bytes) \<Rightarrow> 's Store \<Rightarrow> 's Chain \<Rightarrow> CheckpointHeader \<Rightarrow> 's Chain \<times> CheckpointHeader \<times> chain_error option" where
  "AddCheckpoint H st c header =
     (case check_continuity H (ch_latest c) header of
        Inl e \<Rightarrow> (c, header, Some e)
      | Inr h \<Rightarrow>
          let c' = c\<lparr>ch_checkpoints := (ch_checkpoints c)(h_Epoch h \<mapsto> h), ch_latest := Some h\<rparr> in
          case ch_store c' of
            None \<Rightarrow> (c', h, None)
          | Some s \<Rightarrow>
              (case st_SaveHeader st s (convertToTypesHeader h) of
                 (s', e) \<Rightarrow> (c'\<lparr>ch_store := Some s'\<rparr>, h, map_option PersistFailed e)))"

definition GetCheckpoint :: "'s Store \<Rightarrow> 's Chain \<Rightarrow> u64 \<Rightarrow> 's Chain \<times> (chain_error + CheckpointHeader)" where
  "GetCheckpoint st c epoch =
     (case ch_checkpoints c epoch of
        Some cp \<Rightarrow> (c, Inr cp)
      | None \<Rightarrow>
          (case ch_store c of
             None \<Rightarrow> (c, Inl (CheckpointNotFound epoch))
           | Some s \<Rightarrow>
               (case st_GetHeader st s epoch of
                  Inl _ \<Rightarrow> (c, Inl (CheckpointNotFound epoch))
                | Inr t \<Rightarrow>
                    let h = convertFromTypesHeader t in
                    (c\<lparr>ch_checkpoints := (ch_checkpoints c)(epoch \<mapsto> h)\<rparr>, Inr h))))"

definition GetLatest :: "'s Chain \<Rightarrow> CheckpointHeader option" where
  "GetLatest c = ch_latest c"

definition GetHeight :: "'s Chain \<Rightarrow> u64" where
  "GetHeight c = (case ch_latest c of None \<Rightarrow> 0 | Some h \<Rightarrow> h_Epoch h)"

definition HasCheckpoint :: "'s Chain \<Rightarrow> u64 \<Rightarrow> bool" where
  "HasCheckpoint c epoch \<longleftrightarrow> ch_checkpoints c epoch \<noteq> None"

text \<open>The loop runs on \<open>uint64\<close> and may not end: \<open>None\<close> is a loop that does not return.\<close>

partial_function (option) segment_loop ::
  "(u64 \<rightharpoonup> CheckpointHeader) \<Rightarrow> u64 \<Rightarrow> u64 \<Rightarrow> CheckpointHeader list \<Rightarrow> CheckpointHeader list option" where
  "segment_loop m endEpoch epoch headers =
     (if epoch \<le> endEpoch
      then segment_loop m endEpoch (epoch + 1) (case m epoch of Some cp \<Rightarrow> headers @ [cp] | None \<Rightarrow> headers)
      else Some headers)"

definition GetChainSegment :: "'s Chain \<Rightarrow> u64 \<Rightarrow> u64 \<Rightarrow> (chain_error + CheckpointHeader list) option" where
  "GetChainSegment c startEpoch endEpoch =
     (if startEpoch > endEpoch then Some (Inl (InvalidRange startEpoch endEpoch))
      else map_option Inr (segment_loop (ch_checkpoints c) endEpoch startEpoch []))"

section \<open>Links\<close>

definition linked :: "(bytes \<Rightarrow> bytes) \<Rightarrow> CheckpointHeader_types \<Rightarrow> CheckpointHeader_types \<Rightarrow> bool" where
  "linked H parent child \<longleftrightarrow> th_Epoch child = th_Epoch parent + 1 \<and> IsChildOf H child parent"

lemma verify_links_None: "verify_links H i hs = None \<longleftrightarrow> successively (linked H) hs"
  by (induction H i hs rule: verify_links.induct) (auto simp: linked_def IsChildOf_def Let_def split: if_splits)

lemma discontinuity_from_bounds:
  "0 \<le> i \<Longrightarrow> discontinuity_from H i hs = - 1 \<or> i \<le> discontinuity_from H i hs"
  by (induction H i hs rule: discontinuity_from.induct) auto

lemma discontinuity_from_none:
  "0 \<le> i \<Longrightarrow> discontinuity_from H i hs = - 1 \<longleftrightarrow> successively (linked H) hs"
  by (induction H i hs rule: discontinuity_from.induct) (auto simp: linked_def IsChildOf_def)

lemma successively_short: "length hs \<le> 1 \<Longrightarrow> successively P hs"
  by (cases hs; cases "tl hs") auto

lemma discontinuity_from_first:
  "discontinuity_from H (int (Suc k)) hs = int (k + Suc j) \<Longrightarrow>
   Suc j < length hs \<and> \<not> linked H (hs ! j) (hs ! Suc j) \<and> successively (linked H) (take (Suc j) hs)"
proof (induction hs arbitrary: j k rule: induct_list012)
  case (3 a b hs)
  show ?case
  proof (cases "linked H a b")
    case False
    with 3(3) have "j = 0" by (auto simp: linked_def IsChildOf_def split: if_splits)
    with False show ?thesis by simp
  next
    case True
    then have eq: "discontinuity_from H (int (Suc (Suc k))) (b # hs) = int (k + Suc j)"
      using 3(3) by (simp add: linked_def IsChildOf_def algebra_simps)
    then have "int (Suc (Suc k)) \<le> int (k + Suc j)"
      using discontinuity_from_bounds [of "int (Suc (Suc k))" H "b # hs"] by linarith
    then obtain i where j: "j = Suc i" by (cases j) auto
    with eq have "discontinuity_from H (int (Suc (Suc k))) (b # hs) = int (Suc k + Suc i)" by simp
    from 3(2) [OF this] j True show ?thesis by (cases hs) simp_all
  qed
qed auto

section \<open>Invariant of the chain\<close>

text \<open>
  \<open>hs\<close> are the checkpoints of the chain, oldest first: the epochs ascend strictly, each header
  names the hash of the one before as its parent, and the cache and the latest pointer are theirs.
\<close>

definition follows :: "(bytes \<Rightarrow> bytes) \<Rightarrow> CheckpointHeader \<Rightarrow> CheckpointHeader \<Rightarrow> bool" where
  "follows H p h \<longleftrightarrow> h_Epoch p < h_Epoch h \<and> h_ParentCpHash h = computeHeaderHash H (Some p)"

definition chain_rep :: "(bytes \<Rightarrow> bytes) \<Rightarrow> 's Chain \<Rightarrow> CheckpointHeader list \<Rightarrow> bool" where
  "chain_rep H c hs \<longleftrightarrow>
     successively (follows H) hs
     \<and> ch_checkpoints c = map_of (map (\<lambda>h. (h_Epoch h, h)) (rev hs))
     \<and> ch_latest c = (if hs = [] then None else Some (last hs))"

lemma check_continuity_ok:
  "check_continuity H latest h = Inr k \<Longrightarrow>
     h_Epoch k = h_Epoch h \<and> (k = h \<or> h_ParentCpHash h = [] \<and> k = h\<lparr>h_ParentCpHash := h_ParentCpHash k\<rparr>)
     \<and> (case latest of None \<Rightarrow> k = h | Some l \<Rightarrow> follows H l k)"
  by (auto simp: check_continuity_def follows_def Let_def not_le split: option.splits if_splits)

lemma AddCheckpoint_rejects:
  "check_continuity H (ch_latest c) h = Inl e \<Longrightarrow> AddCheckpoint H st c h = (c, h, Some e)"
  by (simp add: AddCheckpoint_def)

lemma AddCheckpoint_accepts:
  assumes "check_continuity H (ch_latest c) h = Inr k" "chain_rep H c hs"
  shows "chain_rep H (fst (AddCheckpoint H st c h)) (hs @ [k])"
proof -
  have "successively (follows H) (hs @ [k])"
    using assms check_continuity_ok [OF assms(1)]
    by (auto simp: chain_rep_def successively_append_iff split: if_splits)
  then show ?thesis
    using assms by (simp add: AddCheckpoint_def chain_rep_def Let_def split: option.splits prod.splits)
qed

lemma AddCheckpoint_keeps: "chain_rep H c hs \<Longrightarrow> \<exists>ks. chain_rep H (fst (AddCheckpoint H st c h)) (hs @ ks)"
  using AddCheckpoint_rejects [of H c h _ st] AddCheckpoint_accepts [of H c h _ hs st]
  by (cases "check_continuity H (ch_latest c) h") (auto intro: exI [of _ "[]"])

definition AddCheckpoints :: "(bytes \<Rightarrow> bytes) \<Rightarrow> 's Store \<Rightarrow> 's Chain \<Rightarrow> CheckpointHeader list \<Rightarrow> 's Chain" where
  "AddCheckpoints H st c hs = foldl (\<lambda>c h. fst (AddCheckpoint H st c h)) c hs"

lemma AddCheckpoints_keeps: "chain_rep H c hs \<Longrightarrow> \<exists>ks. chain_rep H (AddCheckpoints H st c new) (hs @ ks)"
proof (induction new arbitrary: c hs)
  case (Cons h new)
  then show ?case
    using AddCheckpoint_keeps [OF Cons.prems, of st h] unfolding AddCheckpoints_def
    by (auto) (metis append_assoc)
qed (auto simp: AddCheckpoints_def intro: exI [of _ "[]"])

lemma chain_rep_new [simp]: "chain_rep H NewChain []" "chain_rep H (SetStore NewChain s) []"
  by (simp_all add: chain_rep_def NewChain_def SetStore_def)

lemma follows_epochs: "successively (follows H) hs \<Longrightarrow> sorted_wrt (\<lambda>a b. h_Epoch a < h_Epoch b) hs"
proof (induction hs rule: induct_list012)
  case (3 a b hs)
  then show ?case by (auto simp: follows_def intro: less_trans)
qed auto

lemma chain_rep_lookup:
  assumes "chain_rep H c hs" "h \<in> set hs"
  shows "ch_checkpoints c (h_Epoch h) = Some h"
proof -
  have "sorted_wrt (\<lambda>a b. h_Epoch a < h_Epoch b) hs" using assms(1) follows_epochs unfolding chain_rep_def by blast
  then have "distinct (map h_Epoch hs)"
    by (induction hs) auto
  then have "distinct (map fst (map (\<lambda>h. (h_Epoch h, h)) (rev hs)))" by (simp add: comp_def rev_map [symmetric])
  with assms show ?thesis by (simp add: chain_rep_def map_of_eq_Some_iff)
qed

section \<open>Segments\<close>

lemma segment_loop_diverges: "segment_loop m endEpoch epoch acc = Some r \<Longrightarrow> endEpoch \<noteq> - 1"
proof (rule segment_loop.raw_induct [of "\<lambda>m e ep acc r. e \<noteq> - 1", rotated])
  fix loop :: "(u64 \<rightharpoonup> CheckpointHeader) \<Rightarrow> u64 \<Rightarrow> u64 \<Rightarrow> CheckpointHeader list \<Rightarrow> CheckpointHeader list option"
    and m e ep acc r
  assume "\<And>m e ep acc r. loop m e ep acc = Some r \<Longrightarrow> e \<noteq> - 1"
    and "(if ep \<le> e then loop m e (ep + 1) (case m ep of Some cp \<Rightarrow> acc @ [cp] | None \<Rightarrow> acc) else Some acc) = Some r"
  then show "e \<noteq> - 1" by (cases "ep \<le> e") (auto simp: word_order.extremum)
qed

lemma segment_loop_result:
  assumes "endEpoch \<noteq> - 1"
  shows "segment_loop m endEpoch epoch acc =
    Some (acc @ List.map_filter m (map word_of_nat [unat epoch..<Suc (unat endEpoch)]))"
proof (induction "Suc (unat endEpoch) - unat epoch" arbitrary: epoch acc)
  case 0
  then have "\<not> epoch \<le> endEpoch" by (simp add: word_le_nat_alt)
  with 0 show ?case by (subst segment_loop.simps) (simp add: map_filter_simps)
next
  case (Suc n)
  then have le: "unat epoch \<le> unat endEpoch" by linarith
  have "unat endEpoch \<noteq> 2 ^ 64 - 1" using assms
    by (simp add: word_unat_eq_iff unsigned_minus_1_eq_mask mask_eq_exp_minus_1)
  then have step: "unat (epoch + 1) = Suc (unat epoch)"
    using le unat_less [of endEpoch] by (simp add: unat_word_ariths)
  have upt: "[unat epoch..<Suc (unat endEpoch)] = unat epoch # [Suc (unat epoch)..<Suc (unat endEpoch)]"
    using le by (simp add: upt_conv_Cons del: upt_Suc)
  have "segment_loop m endEpoch (epoch + 1) acc' =
      Some (acc' @ List.map_filter m (map word_of_nat [Suc (unat epoch)..<Suc (unat endEpoch)]))" for acc'
    using Suc(1) [of "epoch + 1" acc'] Suc(2) step by simp
  then show ?case
    using le by (subst segment_loop.simps) (simp add: upt map_filter_simps word_le_nat_alt del: upt_Suc split: option.splits)
qed

section \<open>Conversions\<close>

lemma hashed_parent_roundtrip:
  "hashed_parent (convertFromTypesHeader (convertToTypesHeader h)) = hashed_parent h"
  by (simp add: hashed_parent_def convertFromTypesHeader_def convertToTypesHeader_def)

lemma hashed_roots_roundtrip:
  assumes "f \<in> {cr_StateRoot, cr_AgentRoot, cr_EventRoot}"
  shows "hashed_root f (convertFromTypesHeader (convertToTypesHeader h)) = hashed_root f h"
  using assms
  by (cases "h_Roots h")
    (auto simp: hashed_root_def convertFromTypesHeader_def convertToTypesHeader_def empty_roots_def
      empty_roots_types_def writeFixedBytes_def zeros32_def)

lemma computeHeaderHash_Some: "computeHeaderHash H (Some h) = H (H (hash_input h) @ signature_input h)"
  by (simp add: computeHeaderHash_def ComputeHashForVerification_def ComputeHash_def signature_input_def)

lemma hash_input_roundtrip: "hash_input (convertFromTypesHeader (convertToTypesHeader h)) = hash_input h"
  by (simp add: hash_input_eq hashed_parent_roundtrip hashed_roots_roundtrip)
    (simp add: convertFromTypesHeader_def convertToTypesHeader_def)

lemma signature_input_roundtrip:
  "signature_input (convertFromTypesHeader (convertToTypesHeader h)) = signature_input h"
  by (simp add: signature_input_def convertFromTypesHeader_def convertToTypesHeader_def writeSignatures_def
      split: option.splits)

section \<open>Properties\<close>

text \<open>
  The two list checks agree with the definition of a chain: \<open>VerifyChainContinuity\<close> accepts
  exactly the lists in which every header is the child of the one before at the next epoch, and
  \<open>FindFirstDiscontinuityIndex\<close> returns -1 for exactly these.
\<close>

theorem continuity_checks_agree:
  "(VerifyChainContinuity H hs = None \<longleftrightarrow> successively (linked H) hs)
   \<and> (FindFirstDiscontinuityIndex H hs = - 1 \<longleftrightarrow> successively (linked H) hs)"
  by (simp add: VerifyChainContinuity_def FindFirstDiscontinuityIndex_def verify_links_None
      discontinuity_from_none successively_short)

text \<open>
  A reported discontinuity is the first one: the header at that index is not a valid child of its
  predecessor, and the headers before it form a chain.
\<close>

theorem first_discontinuity:
  assumes "FindFirstDiscontinuityIndex H hs = int i" 
  shows "0 < i \<and> i < length hs \<and> \<not> linked H (hs ! (i - 1)) (hs ! i) \<and> successively (linked H) (take i hs)"
proof -
  have eq: "discontinuity_from H 1 hs = int i"
    using assms by (simp add: FindFirstDiscontinuityIndex_def split: if_splits)
  then obtain j where j: "i = Suc j"
    using discontinuity_from_bounds [of 1 H hs] by (cases i) auto
  with eq discontinuity_from_first [of H 0 hs j] show ?thesis by simp
qed

theorem first_discontinuity_witness:
  "let hs = [example_header_types 3 [], example_header_types 4 ''ff'', example_header_types 9 []] in
   FindFirstDiscontinuityIndex (\<lambda>_. [255]) hs = 2 \<and> successively (linked (\<lambda>_. [255])) (take 2 hs)"
proof -
  let ?hs = "[example_header_types 3 [], example_header_types 4 ''ff'', example_header_types 9 []]"
  have "FindFirstDiscontinuityIndex (\<lambda>_. [255]) ?hs = int 2"
    by (simp add: FindFirstDiscontinuityIndex_def CanonicalHash_def example_header_types_def EncodeToString_def
        hex_of_byte_def hex_digit_def)
  from first_discontinuity [OF this] this show ?thesis by (simp add: Let_def)
qed

text \<open>
  C3: Whatever headers are offered to a new chain, in whatever order, the ones it keeps form a chain:
  strictly ascending epochs, each naming the hash of its predecessor as its parent, with
  the latest pointer at the last one and each of them found again under its epoch.
\<close>

theorem chain_stays_linked:
  "\<exists>kept. successively (follows H) kept
     \<and> GetLatest (AddCheckpoints H st NewChain offered) = (if kept = [] then None else Some (last kept))
     \<and> list_all (\<lambda>h. GetCheckpoint st (AddCheckpoints H st NewChain offered) (h_Epoch h)
                     = (AddCheckpoints H st NewChain offered, Inr h)) kept
     \<and> dom (ch_checkpoints (AddCheckpoints H st NewChain offered)) = h_Epoch ` set kept"
proof -
  obtain kept where rep: "chain_rep H (AddCheckpoints H st NewChain offered) kept"
    using AddCheckpoints_keeps [OF chain_rep_new(1), of H st offered] by auto
  then have "GetCheckpoint st (AddCheckpoints H st NewChain offered) (h_Epoch h)
      = (AddCheckpoints H st NewChain offered, Inr h)" if "h \<in> set kept" for h
    using chain_rep_lookup [OF rep that] by (simp add: GetCheckpoint_def)
  with rep show ?thesis
    by (intro exI [of _ kept]) (auto simp: chain_rep_def GetLatest_def list_all_iff dom_map_of_conv_image_fst image_image)
qed



text \<open>
  \<open>GetChainSegment\<close> returns the cached headers of the range in ascending order of their epochs
  when the range ends below the greatest \<open>uint64\<close>, and never returns when it ends there:
  the loop counter wraps around.
\<close>

theorem GetChainSegment_result:
  assumes "a \<le> b"
  shows "GetChainSegment c a b =
    (if b = - 1 then None
     else Some (Inr (List.map_filter (ch_checkpoints c) (map word_of_nat [unat a..<Suc (unat b)]))))"
proof (cases "b = - 1")
  case True
  then have "segment_loop (ch_checkpoints c) b a [] = None"
    using segment_loop_diverges [of "ch_checkpoints c" b a "[]"] by (cases "segment_loop (ch_checkpoints c) b a []") auto
  with True show ?thesis by (simp add: GetChainSegment_def)
next
  case False
  with assms show ?thesis by (simp add: GetChainSegment_def segment_loop_result not_less del: upt_Suc)
qed

theorem GetChainSegment_result_witness:
  "GetChainSegment \<lparr>ch_store = (None :: unit option), ch_checkpoints = [2 \<mapsto> example_header], ch_latest = Some example_header\<rparr> 1 3
     = Some (Inr [example_header])
   \<and> GetChainSegment \<lparr>ch_store = (None :: unit option), ch_checkpoints = Map.empty, ch_latest = None\<rparr> 1 (- 1) = None"
proof -
  have "[unat (1::u64)..<Suc (unat (3::u64))] = [1, 2, 3]" by (simp add: upt_rec)
  then show ?thesis
    using GetChainSegment_result [of 1 3 "\<lparr>ch_store = (None :: unit option), ch_checkpoints = [2 \<mapsto> example_header], ch_latest = Some example_header\<rparr>"]
      GetChainSegment_result [of 1 "- 1" "\<lparr>ch_store = (None :: unit option), ch_checkpoints = Map.empty, ch_latest = None\<rparr>"]
    by (simp add: map_filter_simps del: upt_Suc)
qed

text \<open>
  The stored form of a header drops most of its fields but none that is hashed: converting a
  header to the storage type and back keeps the hash that validators sign and the hash that
  links the next checkpoint to it.
\<close>

theorem conversion_keeps_hashes:
  "ComputeHash H (Some (convertFromTypesHeader (convertToTypesHeader h))) = ComputeHash H (Some h)
   \<and> computeHeaderHash H (Some (convertFromTypesHeader (convertToTypesHeader h))) = computeHeaderHash H (Some h)"
  by (simp add: ComputeHash_def computeHeaderHash_Some hash_input_roundtrip signature_input_roundtrip)

text \<open>
  An accepted checkpoint survives a restart: once \<open>AddCheckpoint\<close> has returned without an
  error over a LevelDB store, a new chain over the same database returns for its epoch a header with the same parent hash.
\<close>

theorem checkpoint_survives_restart:
  assumes db: "leveldb_contract db contents"
    and add: "AddCheckpoint H (LevelDB_Store db marshal unmarshal) c h = (c', k, None)" "ch_store c = Some s"
    and codec: "codec_ok marshal unmarshal (convertToTypesHeader k)"
  shows "\<exists>s' c'' k'. ch_store c' = Some s'
    \<and> GetCheckpoint (LevelDB_Store db marshal unmarshal) (SetStore NewChain s') (h_Epoch h) = (c'', Inr k')
    \<and> computeHeaderHash H (Some k') = computeHeaderHash H (Some k)"
proof -
  obtain s' where s': "ch_store c' = Some s'" "(s', None) = SaveHeader_ldb db marshal s (convertToTypesHeader k)"
    and chk: "check_continuity H (ch_latest c) h = Inr k"
    using add by (auto simp: AddCheckpoint_def LevelDB_Store_def Let_def split: sum.splits option.splits prod.splits)
  obtain b where b: "marshal (convertToTypesHeader k) = Some b" "unmarshal b = Some (convertToTypesHeader k)"
    using codec by (auto simp: codec_ok_def)
  have "contents s' = (contents s)(keyHeader (h_Epoch k) \<mapsto> b)"
    using s'(2) b leveldb_contractD(3) [OF db]
    by (auto simp: SaveHeader_ldb_def put_result_def convertToTypesHeader_def dest!: arg_cong [of _ _ fst])
  moreover have "h_Epoch k = h_Epoch h" using check_continuity_ok [OF chk] by simp
  ultimately have "GetHeader_ldb db unmarshal s' (h_Epoch h) = Inr (convertToTypesHeader k)"
    using b by (simp add: GetHeader_ldb_def leveldb_contractD(2) [OF db])
  then show ?thesis
    using s'(1) by (auto simp: GetCheckpoint_def SetStore_def NewChain_def LevelDB_Store_def Let_def
        computeHeaderHash_Some hash_input_roundtrip signature_input_roundtrip)
qed

definition example_codec :: "CheckpointHeader_types \<Rightarrow> bytes option" where
  "example_codec h = (if h = convertToTypesHeader example_header then Some [7] else None)"

definition example_decode :: "bytes \<Rightarrow> CheckpointHeader_types option" where
  "example_decode b = (if b = [7] then Some (convertToTypesHeader example_header) else None)"

theorem checkpoint_survives_restart_witness:
  "\<exists>s' c'' k'. ch_store (fst (AddCheckpoint example_digest (LevelDB_Store alist_db example_codec example_decode)
        (SetStore NewChain []) example_header)) = Some s'
    \<and> GetCheckpoint (LevelDB_Store alist_db example_codec example_decode) (SetStore NewChain s') 7 = (c'', Inr k')
    \<and> computeHeaderHash example_digest (Some k') = computeHeaderHash example_digest (Some example_header)"
proof -
  let ?st = "LevelDB_Store alist_db example_codec example_decode"
  let ?r = "AddCheckpoint example_digest ?st (SetStore NewChain []) example_header"
  have "?r = (fst ?r, example_header, None)"
    by (simp add: AddCheckpoint_def check_continuity_def SetStore_def NewChain_def LevelDB_Store_def SaveHeader_ldb_def
        example_codec_def put_result_def alist_db_def)
  moreover have "codec_ok example_codec example_decode (convertToTypesHeader example_header)"
    by (simp add: codec_ok_def example_codec_def example_decode_def)
  moreover have "ch_store (SetStore NewChain []) = Some []" by (simp add: SetStore_def)
  ultimately have "\<exists>s' c'' k'. ch_store (fst ?r) = Some s'
      \<and> GetCheckpoint ?st (SetStore NewChain s') (h_Epoch example_header) = (c'', Inr k')
      \<and> computeHeaderHash example_digest (Some k') = computeHeaderHash example_digest (Some example_header)"
    by (intro checkpoint_survives_restart [OF alist_db_contract])
  then show ?thesis by (simp add: example_header_def)
qed

end
