(* ===== verification/Bitmap.thy ===== *)
theory Bitmap
  imports Subnet_Prelude
begin

text \<open>
  The signer bitmaps of \<open>src/internal/consensus/checkpoint.go\<close>: setting, testing and counting
  bits of a byte slice that grows on demand. \<open>CountBits\<close> counts with Kernighan's loop
  (\<open>v &= v - 1\<close>); it is shown to be the cardinality of the set of positions that are set.
\<close>

unbundle bit_operations_syntax

section \<open>Model\<close>

text \<open>
  Go's \<open>/\<close> and \<open>%\<close> truncate towards zero, and a negative shift amount becomes a huge \<open>uint\<close>, for
  which the shifted byte is zero.
\<close>

definition bit_mask :: "int \<Rightarrow> byte" where
  "bit_mask r = (if 0 \<le> r then push_bit (nat r) 1 else 0)"

definition SetBit :: "bytes \<Rightarrow> int \<Rightarrow> go_panic + bytes" where
  "SetBit bitmap idx =
     (let byteIdx = idx sdiv 8; bitIdx = idx smod 8;
          bitmap = (if byteIdx \<ge> int (length bitmap)
                    then bitmap @ replicate (nat (byteIdx + 1) - length bitmap) 0 else bitmap)
      in if byteIdx < 0 then Inl IndexOutOfRange
         else Inr (bitmap[nat byteIdx := (bitmap ! nat byteIdx) OR bit_mask bitIdx]))"

definition BitIsSet :: "bytes \<Rightarrow> int \<Rightarrow> go_panic + bool" where
  "BitIsSet bitmap idx =
     (let byteIdx = idx sdiv 8; bitIdx = idx smod 8
      in if byteIdx \<ge> int (length bitmap) then Inr False
         else if byteIdx < 0 then Inl IndexOutOfRange
         else Inr (((bitmap ! nat byteIdx) AND bit_mask bitIdx) \<noteq> 0))"

lemma word_clear_lowest_less: "(v :: byte) \<noteq> 0 \<Longrightarrow> unat (v AND (v - 1)) < unat v"
proof -
  assume v: "v \<noteq> 0"
  have "unat (v AND (v - 1)) \<le> unat (v - 1)"
    using word_and_le2 [of v "v - 1"] word_and_le1 by (metis word_le_nat_alt and.commute)
  also have "\<dots> < unat v" using v by (simp add: unat_sub_if' word_le_nat_alt unat_gt_0 Suc_le_eq)
  finally show ?thesis .
qed

function kernighan :: "byte \<Rightarrow> nat \<Rightarrow> nat" where
  "kernighan v c = (if v \<noteq> 0 then kernighan (v AND (v - 1)) (c + 1) else c)"
  by pat_completeness auto
termination
  by (relation "measure (\<lambda>(v, c). unat v)") (simp_all add: word_clear_lowest_less)

declare kernighan.simps [simp del]

definition CountBits :: "bytes \<Rightarrow> nat" where
  "CountBits bitmap = foldl (\<lambda>c b. kernighan b c) 0 bitmap"

section \<open>The set of positions\<close>

definition byte_bits :: "byte \<Rightarrow> nat set" where
  "byte_bits v = {i. bit v i}"

definition bits :: "bytes \<Rightarrow> nat set" where
  "bits bm = {i. i div 8 < length bm \<and> bit (bm ! (i div 8)) (i mod 8)}"

lemma byte_bits_bound: "byte_bits v \<subseteq> {0..<8}"
  using bit_imp_le_length [of v] by (auto simp: byte_bits_def)

lemma finite_byte_bits [simp]: "finite (byte_bits v)"
  using byte_bits_bound by (rule finite_subset) simp

lemma byte_bits_unat: "byte_bits v = {i. bit (unat v) i}"
  by (auto simp: byte_bits_def bit_unsigned_iff dest: bit_imp_possible_bit)

text \<open>\<open>v AND (v - 1)\<close> clears exactly one set bit, by induction on the binary digits.\<close>

lemma bits_nat_double: "{i. bit (2 * n :: nat) i} = Suc ` {i. bit n i}"
proof -
  have "bit (2 * n) i \<longleftrightarrow> (\<exists>j. i = Suc j \<and> bit n j)" for i
    by (cases i) (simp_all add: bit_0 bit_Suc)
  then show ?thesis by auto
qed

lemma bits_nat_double_Suc: "{i. bit (Suc (2 * n)) i} = insert 0 (Suc ` {i. bit n i})"
proof -
  have "bit (Suc (2 * n)) i \<longleftrightarrow> i = 0 \<or> (\<exists>j. i = Suc j \<and> bit n j)" for i
    by (cases i) (simp_all add: bit_0 bit_Suc)
  then show ?thesis by auto
qed

lemma finite_bits_nat [simp]: "finite {i. bit (n :: nat) i}"
proof (induction n rule: less_induct)
  case (less n)
  show ?case
  proof (cases "n = 0")
    case False
    then have IH: "finite {i. bit (n div 2) i}" by (intro less) simp
    from bits_nat_double [of "n div 2"] bits_nat_double_Suc [of "n div 2"] IH
    show ?thesis by (cases "even n") (auto elim!: evenE oddE)
  qed simp
qed

lemma clear_lowest_nat:
  "0 < (v :: nat) \<Longrightarrow> Suc (card {i. bit (v AND (v - 1)) i}) = card {i. bit v i}"
proof (induction v rule: less_induct)
  case (less v)
  show ?case
  proof (cases "even v")
    case True
    then obtain k where v: "v = 2 * k" by blast
    with less.prems have k: "0 < k" "k < v" by simp_all
    have "v AND (v - 1) = 2 * (k AND (k - 1))"
    proof -
      have "(2 * k - 1) div 2 = k - 1" using k(1) by arith
      then show ?thesis by (subst and_rec) (simp add: v)
    qed
    with less.IH [OF k(2,1)] show ?thesis by (simp add: v bits_nat_double card_image)
  next
    case False
    then obtain k where v: "v = Suc (2 * k)" by (metis oddE Suc_eq_plus1)
    have "v AND (v - 1) = 2 * k" by (subst and_rec) (simp add: v)
    then show ?thesis by (simp add: v bits_nat_double bits_nat_double_Suc card_image)
  qed
qed

lemma card_clear_lowest: "v \<noteq> 0 \<Longrightarrow> Suc (card (byte_bits (v AND (v - 1)))) = card (byte_bits v)"
proof -
  assume v: "v \<noteq> 0"
  then have "unat (v - 1) = unat v - 1"
    by (simp add: unat_sub_if' word_le_nat_alt Suc_le_eq unat_gt_0)
  with v clear_lowest_nat [of "unat v"] show ?thesis
    by (simp add: byte_bits_unat unsigned_and_eq unat_gt_0)
qed

lemma kernighan_eq: "kernighan v c = c + card (byte_bits v)"
proof (induction v c rule: kernighan.induct)
  case (1 v c)
  show ?case
  proof (cases "v = 0")
    case True
    then show ?thesis by (simp add: kernighan.simps [of 0 c] byte_bits_def)
  next
    case False
    with 1 card_clear_lowest [of v] show ?thesis by (simp add: kernighan.simps [of v c])
  qed
qed

section \<open>Slices\<close>

lemma bits_Nil [simp]: "bits [] = {}"
  by (simp add: bits_def)

lemma shift8: "(j + 8) div 8 = Suc (j div 8)" "(j + 8) mod 8 = j mod (8::nat)"
  by presburger+

lemma bits_Cons: "bits (b # bm) = byte_bits b \<union> (\<lambda>i. i + 8) ` bits bm"
proof (intro set_eqI iffI)
  fix i assume i: "i \<in> bits (b # bm)"
  show "i \<in> byte_bits b \<union> (\<lambda>i. i + 8) ` bits bm"
  proof (cases "i < 8")
    case True
    with i show ?thesis by (simp add: bits_def byte_bits_def)
  next
    case False
    then obtain j where j: "i = j + 8" by (metis add.commute le_Suc_ex not_less)
    with i have "j \<in> bits bm" by (simp only: bits_def mem_Collect_eq shift8) simp
    with j show ?thesis by blast
  qed
next
  fix i assume "i \<in> byte_bits b \<union> (\<lambda>i. i + 8) ` bits bm"
  then show "i \<in> bits (b # bm)"
    using byte_bits_bound [of b] by (auto simp: bits_def byte_bits_def shift8 simp del: div_add_self2)
qed

lemma finite_bits [simp]: "finite (bits bm)"
  by (induction bm) (simp_all add: bits_Cons)

lemma foldl_kernighan: "foldl (\<lambda>c b. kernighan b c) c bm = c + card (bits bm)"
proof (induction bm arbitrary: c)
  case (Cons b bm)
  have "byte_bits b \<inter> (\<lambda>i. i + 8) ` bits bm = {}"
    using byte_bits_bound [of b] by auto
  then have "card (bits (b # bm)) = card (byte_bits b) + card (bits bm)"
    by (simp add: bits_Cons card_Un_disjoint card_image)
  with Cons show ?case by (simp add: kernighan_eq)
qed simp

lemma CountBits_eq [spec_simps]: "CountBits bm = card (bits bm)"
  by (simp add: CountBits_def foldl_kernighan)

lemma bits_grow [simp]: "bits (bm @ replicate k 0) = bits bm"
proof (intro set_eqI)
  fix i
  show "i \<in> bits (bm @ replicate k 0) \<longleftrightarrow> i \<in> bits bm"
  proof (cases "i div 8 < length bm")
    case False
    then have "\<not> bit ((bm @ replicate k 0) ! (i div 8)) (i mod 8)" if "i div 8 < length bm + k"
      using that by (simp add: nth_append nth_replicate less_diff_conv2)
    with False show ?thesis by (auto simp: bits_def)
  qed (simp add: bits_def nth_append)
qed

lemma bits_bound: "i \<in> bits bm \<Longrightarrow> i < 8 * length bm"
  by (auto simp: bits_def)

lemma bit_push_one: "r < 8 \<Longrightarrow> bit (push_bit r (1 :: byte)) m \<longleftrightarrow> m = r"
  by (auto simp: bit_simps simp del: push_bit_of_1)

lemma bits_set:
  assumes "i div 8 < length bm"
  shows "bits (bm[i div 8 := (bm ! (i div 8)) OR push_bit (i mod 8) 1]) = insert i (bits bm)"
proof (intro set_eqI)
  fix j
  have eq: "j div 8 = i div 8 \<Longrightarrow> j mod 8 = i mod 8 \<longleftrightarrow> j = i" by (metis div_mult_mod_eq)
  show "j \<in> bits (bm[i div 8 := (bm ! (i div 8)) OR push_bit (i mod 8) 1]) \<longleftrightarrow> j \<in> insert i (bits bm)"
    using assms eq
    by (cases "j div 8 = i div 8")
      (auto simp: bits_def bit_or_iff bit_push_one simp del: push_bit_of_1)
qed

lemma SetBit_nonneg:
  assumes "0 \<le> i"
  shows "\<exists>bm'. SetBit bm i = Inr bm' \<and> bits bm' = insert (nat i) (bits bm) \<and>
     length bm' = max (length bm) (Suc (nat i div 8))"
proof -
  define n where "n = nat i"
  have i: "i = int n" using assms by (simp add: n_def)
  have d: "i sdiv 8 = int (n div 8)" "i smod 8 = int (n mod 8)" by (simp_all add: i zdiv_int zmod_int)
  define bm1 where "bm1 = (if length bm \<le> n div 8 then bm @ replicate (Suc (n div 8) - length bm) 0 else bm)"
  have len: "n div 8 < length bm1" "length bm1 = max (length bm) (Suc (n div 8))"
    by (auto simp: bm1_def)
  have "nat (int (n div 8) + 1) = Suc (n div 8)" by simp
  then have "SetBit bm i = Inr (bm1[n div 8 := (bm1 ! (n div 8)) OR push_bit (n mod 8) 1])"
    by (simp add: SetBit_def Let_def d bm1_def bit_mask_def nat_int del: push_bit_of_1)
  moreover have "bits bm1 = bits bm" by (simp add: bm1_def)
  ultimately show ?thesis using bits_set [OF len(1)] len(2) by (simp add: n_def del: push_bit_of_1)
qed

lemma SetBit_negative: "SetBit bm i = Inl IndexOutOfRange \<longleftrightarrow> i \<le> - 8"
proof -
  have "i sdiv 8 < 0 \<longleftrightarrow> i \<le> - 8" by (auto simp: signed_divide_int_def sgn_if)
  then show ?thesis by (simp add: SetBit_def Let_def)
qed

lemma BitIsSet_nonneg: "0 \<le> i \<Longrightarrow> BitIsSet bm i = Inr (nat i \<in> bits bm)"
proof -
  assume "0 \<le> i"
  then obtain n where i: "i = int n" by (metis nonneg_int_cases)
  have d: "i sdiv 8 = int (n div 8)" "i smod 8 = int (n mod 8)" by (simp_all add: i zdiv_int zmod_int)
  have "(w AND push_bit (n mod 8) 1) \<noteq> 0 \<longleftrightarrow> bit w (n mod 8)" for w :: byte
    by (auto simp: bit_eq_iff [of "w AND push_bit (n mod 8) 1"] bit_and_iff bit_push_one
        simp del: push_bit_of_1)
  then have "BitIsSet bm i = Inr (n div 8 < length bm \<and> bit (bm ! (n div 8)) (n mod 8))"
    unfolding BitIsSet_def Let_def d bit_mask_def by (simp del: push_bit_of_1 of_nat_div)
  then show ?thesis by (simp add: bits_def i)
qed

section \<open>Properties\<close>

lemma BitIsSet_True: "BitIsSet bm (int i) = Inr True \<longleftrightarrow> i \<in> bits bm"
  by (simp add: BitIsSet_nonneg)

text \<open>
  \<open>CountBits\<close> counts the signers. Kernighan's loop over each byte returns the number of indices
  for which \<open>BitIsSet\<close> answers true.
\<close>

theorem CountBits_counts: "CountBits bm = card {i. BitIsSet bm (int i) = Inr True}"
  by (simp add: CountBits_eq BitIsSet_True)

text \<open>
  \<open>SetBit\<close> on a non-negative index grows the slice as needed, sets that bit and no other, and
  raises the count by one unless the bit was set already; on an index of \<open>-8\<close> or below it
  panics with an index out of range.
\<close>

theorem SetBit_spec:
  "(0 \<le> i \<longrightarrow> (\<exists>bm'. SetBit bm i = Inr bm' \<and>
      (\<forall>j \<ge> 0. BitIsSet bm' j = (if j = i then Inr True else BitIsSet bm j)) \<and>
      CountBits bm' = CountBits bm + (if BitIsSet bm i = Inr True then 0 else 1))) \<and>
   (i \<le> - 8 \<longrightarrow> SetBit bm i = Inl IndexOutOfRange)"
proof (intro conjI impI)
  assume i: "0 \<le> i"
  then obtain bm' where bm': "SetBit bm i = Inr bm'" "bits bm' = insert (nat i) (bits bm)"
    using SetBit_nonneg by blast
  then show "\<exists>bm'. SetBit bm i = Inr bm' \<and>
      (\<forall>j \<ge> 0. BitIsSet bm' j = (if j = i then Inr True else BitIsSet bm j)) \<and>
      CountBits bm' = CountBits bm + (if BitIsSet bm i = Inr True then 0 else 1)"
    using i by (intro exI [of _ bm']) (auto simp: BitIsSet_nonneg CountBits_eq nat_eq_iff insert_absorb)
qed (simp add: SetBit_negative)

theorem SetBit_spec_witness:
  "\<exists>bm'. SetBit [] 10 = Inr bm' \<and> BitIsSet bm' 10 = Inr True \<and> BitIsSet bm' 2 = Inr False \<and> CountBits bm' = 1"
proof -
  have "BitIsSet [] 10 = Inr False" "BitIsSet [] 2 = Inr False" "CountBits [] = 0"
    by (simp_all add: BitIsSet_nonneg CountBits_eq)
  with SetBit_spec [of 10 "[]"] show ?thesis by fastforce
qed

end
