(* ===== verification/Consensus_FSM.thy ===== *)
theory Consensus_FSM
  imports Validator_Set Bitmap Store
begin

text \<open>
  The consensus rounds: the states of \<open>src/internal/consensus/state.go\<close>, the collector of
  \<open>src/internal/consensus/fsm.go\<close> (signers by index) and the state machine of
  \<open>src/internal/consensus/state_machine.go\<close> (signers by identifier). Each method holds a mutex for
  its whole body, so an execution is a sequence of method calls; a method returns the changed
  object also when it panics half-way.
\<close>

section \<open>Model\<close>

datatype State = StateIdle | StateCollecting | StateFinalized

definition State_String :: "State \<Rightarrow> string" where
  "State_String s =
     (case s of StateIdle \<Rightarrow> ''idle'' | StateCollecting \<Rightarrow> ''collecting'' | StateFinalized \<Rightarrow> ''finalized'')"

subsection \<open>FSM\<close>

record FSM =
  f_state :: State
  f_header :: "CheckpointHeader_types option"
  f_bitmap :: bytes
  f_set :: "ValidatorSet option"
  f_proposeDeadline :: int
  f_collectDeadline :: int
  f_proposeTO :: int
  f_collectTO :: int
  f_thresholdAt :: int
  f_preFinalizedAt :: int

definition NewFSM :: "ValidatorSet option \<Rightarrow> int \<Rightarrow> int \<Rightarrow> FSM" where
  "NewFSM vset proposeTimeout collectTimeout =
     \<lparr>f_state = StateIdle, f_header = None, f_bitmap = [], f_set = vset, f_proposeDeadline = zero_time,
      f_collectDeadline = zero_time, f_proposeTO = proposeTimeout, f_collectTO = collectTimeout,
      f_thresholdAt = zero_time, f_preFinalizedAt = zero_time\<rparr>"

definition StartProposal :: "FSM \<Rightarrow> CheckpointHeader_types option \<Rightarrow> int \<Rightarrow> FSM" where
  "StartProposal f h now =
     f\<lparr>f_state := StateCollecting, f_header := h, f_bitmap := [], f_collectDeadline := now + f_collectTO f,
       f_thresholdAt := zero_time, f_preFinalizedAt := zero_time\<rparr>"

definition OnSignature :: "FSM \<Rightarrow> int \<Rightarrow> int \<Rightarrow> FSM \<times> (go_panic + bool \<times> nat \<times> int)" where
  "OnSignature f signerIdx now =
     (if f_state f = StateIdle \<or> f_header f = None then
        (f, case RequiredSigs (f_set f) of Inl p \<Rightarrow> Inl p | Inr r \<Rightarrow> Inr (False, CountBits (f_bitmap f), r))
      else
        case SetBit (f_bitmap f) signerIdx of
          Inl p \<Rightarrow> (f, Inl p)
        | Inr bm \<Rightarrow>
            let f' = f\<lparr>f_bitmap := bm\<rparr>; count = CountBits bm in
            case RequiredSigs (f_set f) of
              Inl p \<Rightarrow> (f', Inl p)
            | Inr required \<Rightarrow>
                if int count \<ge> required then (f'\<lparr>f_thresholdAt := now\<rparr>, Inr (True, count, required))
                else (f', Inr (False, count, required)))"

definition Tick :: "FSM \<Rightarrow> int \<Rightarrow> FSM \<times> bool \<times> State" where
  "Tick f now =
     (if f_state f = StateCollecting \<and> now > f_collectDeadline f
      then (f\<lparr>f_state := StateIdle\<rparr>, True, StateIdle)
      else (f, False, f_state f))"

definition MoveToFinalized :: "FSM \<Rightarrow> int \<Rightarrow> FSM" where
  "MoveToFinalized f now =
     (if f_state f = StateCollecting then f\<lparr>f_state := StateFinalized, f_preFinalizedAt := now\<rparr> else f)"

definition Reset_FSM :: "FSM \<Rightarrow> FSM" where
  "Reset_FSM f =
     f\<lparr>f_state := StateIdle, f_header := None, f_bitmap := [], f_proposeDeadline := zero_time,
       f_collectDeadline := zero_time, f_thresholdAt := zero_time, f_preFinalizedAt := zero_time\<rparr>"

subsection \<open>StateMachine\<close>

text \<open>
  \<open>sm_timeoutConfig\<close> is the collect timeout of the configuration, if there is one; the signer of
  the struct is read by no method.
\<close>

record StateMachine =
  sm_state :: State
  sm_validatorSet :: ValidatorSet
  sm_timeoutConfig :: "int option"
  sm_currentHeader :: "CheckpointHeader option"
  sm_signatures :: "string \<rightharpoonup> Signature"
  sm_signersBitmap :: bytes
  sm_startTime :: int
  sm_proposeDeadline :: int
  sm_collectDeadline :: int
  sm_thresholdTime :: int

datatype sm_error =
    CannotPropose State
  | CannotAddSignature State
  | CannotFinalize State

definition NewStateMachineWithConfig :: "ValidatorSet \<Rightarrow> int option \<Rightarrow> StateMachine" where
  "NewStateMachineWithConfig vs cfg =
     \<lparr>sm_state = StateIdle, sm_validatorSet = vs, sm_timeoutConfig = cfg, sm_currentHeader = None,
      sm_signatures = Map.empty, sm_signersBitmap = [], sm_startTime = zero_time,
      sm_proposeDeadline = zero_time, sm_collectDeadline = zero_time, sm_thresholdTime = zero_time\<rparr>"

definition NewStateMachine :: "ValidatorSet \<Rightarrow> StateMachine" where
  "NewStateMachine vs = NewStateMachineWithConfig vs None"

definition ProposeHeader :: "StateMachine \<Rightarrow> CheckpointHeader \<Rightarrow> int \<Rightarrow> StateMachine \<times> sm_error option" where
  "ProposeHeader sm header now =
     (if sm_state sm \<noteq> StateIdle then (sm, Some (CannotPropose (sm_state sm)))
      else
        let collectTimeout = (case sm_timeoutConfig sm of None \<Rightarrow> 15 * second | Some t \<Rightarrow> t) in
        (sm\<lparr>sm_currentHeader := Some header, sm_signatures := Map.empty,
            sm_signersBitmap := replicate ((length (vs_Validators (sm_validatorSet sm)) + 7) div 8) 0,
            sm_state := StateCollecting, sm_startTime := now, sm_collectDeadline := now + collectTimeout\<rparr>, None))"

definition checkThreshold :: "StateMachine \<Rightarrow> go_panic + bool" where
  "checkThreshold sm =
     (case RequiredSignatures (sm_validatorSet sm) of
        Inl p \<Rightarrow> Inl p
      | Inr required \<Rightarrow> Inr (int (card (dom (sm_signatures sm))) \<ge> required))"

text \<open>The bitmap is indexed without growing it.\<close>

definition mark_signer :: "bytes \<Rightarrow> int \<Rightarrow> go_panic + bytes" where
  "mark_signer bitmap idx =
     (if idx < 0 then Inr bitmap
      else let byteIdx = nat (idx div 8) in
           if byteIdx \<ge> length bitmap then Inl IndexOutOfRange
           else Inr (bitmap[byteIdx := (bitmap ! byteIdx) OR bit_mask (idx mod 8)]))"

definition AddSignature :: "StateMachine \<Rightarrow> Signature \<Rightarrow> int \<Rightarrow> StateMachine \<times> (go_panic + sm_error option)" where
  "AddSignature sm sig now =
     (if sm_state sm \<noteq> StateCollecting then (sm, Inr (Some (CannotAddSignature (sm_state sm))))
      else
        let sm1 = sm\<lparr>sm_signatures := (sm_signatures sm)(sg_SignerId sig \<mapsto> sig)\<rparr> in
        case mark_signer (sm_signersBitmap sm1) (IndexByID (sm_validatorSet sm1) (sg_SignerId sig)) of
          Inl p \<Rightarrow> (sm1, Inl p)
        | Inr bm \<Rightarrow>
            let sm2 = sm1\<lparr>sm_signersBitmap := bm\<rparr> in
            case checkThreshold sm2 of
              Inl p \<Rightarrow> (sm2, Inl p)
            | Inr thresholdMet \<Rightarrow>
                (if thresholdMet then sm2\<lparr>sm_thresholdTime := now\<rparr> else sm2, Inr None))"

definition HasThreshold :: "StateMachine \<Rightarrow> go_panic + bool" where
  "HasThreshold sm = checkThreshold sm"

definition GetSignatures :: "StateMachine \<Rightarrow> (string \<rightharpoonup> Signature)" where
  "GetSignatures sm = sm_signatures sm"

definition GetSignersBitmap :: "StateMachine \<Rightarrow> bytes" where
  "GetSignersBitmap sm = sm_signersBitmap sm"

definition Finalize :: "StateMachine \<Rightarrow> StateMachine \<times> sm_error option" where
  "Finalize sm =
     (if sm_state sm \<noteq> StateCollecting then (sm, Some (CannotFinalize (sm_state sm)))
      else (sm\<lparr>sm_state := StateFinalized\<rparr>, None))"

definition Reset :: "StateMachine \<Rightarrow> StateMachine" where
  "Reset sm =
     sm\<lparr>sm_state := StateIdle, sm_currentHeader := None, sm_signatures := Map.empty, sm_signersBitmap := [],
        sm_startTime := zero_time\<rparr>"

definition IsTimedOut :: "StateMachine \<Rightarrow> int \<Rightarrow> bool" where
  "IsTimedOut sm now \<longleftrightarrow>
     (if sm_state sm = StateIdle then False
      else if sm_state sm = StateCollecting then now > sm_collectDeadline sm
      else False)"

subsection \<open>Executions\<close>

datatype sm_call =
    CallPropose CheckpointHeader
  | CallAddSignature Signature
  | CallFinalize
  | CallReset

inductive sm_step :: "StateMachine \<Rightarrow> sm_call \<Rightarrow> StateMachine \<Rightarrow> bool" where
  propose: "ProposeHeader sm h now = (sm', r) \<Longrightarrow> sm_step sm (CallPropose h) sm'"
| add: "AddSignature sm sig now = (sm', r) \<Longrightarrow> sm_step sm (CallAddSignature sig) sm'"
| finalize: "Finalize sm = (sm', r) \<Longrightarrow> sm_step sm CallFinalize sm'"
| reset: "sm_step sm CallReset (Reset sm)"

inductive_cases sm_step_cases: "sm_step sm c sm'"

inductive sm_reachable :: "ValidatorSet \<Rightarrow> StateMachine \<Rightarrow> bool" for vs where
  new: "sm_reachable vs (NewStateMachineWithConfig vs cfg)"
| step: "sm_reachable vs sm \<Longrightarrow> sm_step sm c sm' \<Longrightarrow> sm_reachable vs sm'"

lemmas sm_defs = ProposeHeader_def AddSignature_def Finalize_def Reset_def NewStateMachineWithConfig_def

section \<open>The bitmap of the state machine\<close>

lemma IndexByID_nonneg: "0 \<le> IndexByID vs k \<longleftrightarrow> k \<in> vset_ids vs"
  using IndexByID_range [of vs k] IndexByID_missing [of vs k] by auto

lemma mark_signer_member:
  assumes "k \<in> vset_ids vs" "length bm = (length (vs_Validators vs) + 7) div 8"
  shows "\<exists>bm'. mark_signer bm (IndexByID vs k) = Inr bm' \<and> bits bm' = insert (nat (IndexByID vs k)) (bits bm)
    \<and> length bm' = length bm"
proof -
  define n where "n = nat (IndexByID vs k)"
  have nonneg: "0 \<le> IndexByID vs k" using assms(1) by (simp add: IndexByID_nonneg)
  then have n: "IndexByID vs k = int n" "n < length (vs_Validators vs)"
    using IndexByID_nth [OF nonneg] by (simp_all add: n_def)
  then have len: "n div 8 < length bm" using assms(2) by auto
  moreover have "nat (int n div 8) = n div 8" "int n mod 8 = int (n mod 8)"
    by (simp_all add: nat_div_distrib zmod_int)
  ultimately have "mark_signer bm (IndexByID vs k) = Inr (bm[n div 8 := (bm ! (n div 8)) OR push_bit (n mod 8) 1])"
    by (simp add: mark_signer_def n(1) Let_def bit_mask_def nat_int del: push_bit_of_1)
  with bits_set [OF len] show ?thesis by (simp add: n(1) del: push_bit_of_1)
qed

lemma mark_signer_stranger: "k \<notin> vset_ids vs \<Longrightarrow> mark_signer bm (IndexByID vs k) = Inr bm"
  using IndexByID_nonneg [of vs k] by (simp add: mark_signer_def)

text \<open>Positions of the members among the signers.\<close>

definition signer_positions :: "ValidatorSet \<Rightarrow> string set \<Rightarrow> nat set" where
  "signer_positions vs ks = (\<lambda>k. nat (IndexByID vs k)) ` (ks \<inter> vset_ids vs)"

lemma signer_positions_insert:
  "signer_positions vs (insert k ks) =
     (if k \<in> vset_ids vs then insert (nat (IndexByID vs k)) (signer_positions vs ks) else signer_positions vs ks)"
  by (auto simp: signer_positions_def)

lemma inj_on_positions: "inj_on (\<lambda>k. nat (IndexByID vs k)) (vset_ids vs)"
  by (rule inj_onI) (metis IndexByID_inj IndexByID_nonneg nat_eq_iff2 int_nat_eq)

lemma card_signer_positions: "card (signer_positions vs ks) = card (ks \<inter> vset_ids vs)"
  unfolding signer_positions_def by (rule card_image) (rule inj_on_subset [OF inj_on_positions], blast)

definition sm_inv :: "ValidatorSet \<Rightarrow> StateMachine \<Rightarrow> bool" where
  "sm_inv vs sm \<longleftrightarrow>
     sm_validatorSet sm = vs \<and> finite (dom (sm_signatures sm))
     \<and> (\<forall>k s. sm_signatures sm k = Some s \<longrightarrow> sg_SignerId s = k)
     \<and> bits (sm_signersBitmap sm) = signer_positions vs (dom (sm_signatures sm))
     \<and> (sm_state sm = StateIdle \<longrightarrow> sm_currentHeader sm = None \<and> sm_signatures sm = Map.empty \<and> sm_signersBitmap sm = [])
     \<and> (sm_state sm \<noteq> StateIdle \<longrightarrow> sm_currentHeader sm \<noteq> None
          \<and> length (sm_signersBitmap sm) = (length (vs_Validators vs) + 7) div 8)"

lemma bits_zeros [simp]: "bits (replicate n 0) = {}"
  using bits_grow [of "[]" n] by simp

lemma signer_positions_empty [simp]: "signer_positions vs {} = {}"
  by (simp add: signer_positions_def)

lemma checkThreshold_result: "checkThreshold sm = Inl p \<Longrightarrow> p = DivideByZero"
  by (auto simp: checkThreshold_def RequiredSignatures_def Let_def split: sum.splits if_splits)

lemma AddSignature_inv:
  assumes inv: "sm_inv vs sm" and add: "AddSignature sm sig now = (sm', r)"
  shows "sm_inv vs sm'"
proof (cases "sm_state sm = StateCollecting")
  case False
  with add inv show ?thesis by (simp add: AddSignature_def)
next
  case True
  let ?k = "sg_SignerId sig"
  have "\<exists>bm. mark_signer (sm_signersBitmap sm) (IndexByID vs ?k) = Inr bm
      \<and> bits bm = signer_positions vs (insert ?k (dom (sm_signatures sm))) \<and> length bm = length (sm_signersBitmap sm)"
    using inv True mark_signer_member [of ?k vs "sm_signersBitmap sm"] mark_signer_stranger [of ?k vs]
    by (cases "?k \<in> vset_ids vs") (auto simp: sm_inv_def signer_positions_insert)
  then obtain bm where bm: "mark_signer (sm_signersBitmap sm) (IndexByID vs ?k) = Inr bm"
      "bits bm = signer_positions vs (insert ?k (dom (sm_signatures sm)))" "length bm = length (sm_signersBitmap sm)"
    by blast
  define sm2 where "sm2 = sm\<lparr>sm_signatures := (sm_signatures sm)(?k \<mapsto> sig), sm_signersBitmap := bm\<rparr>"
  have "sm_inv vs sm2" using inv True bm by (simp add: sm_inv_def sm2_def)
  moreover have "sm' = sm2 \<or> sm' = sm2\<lparr>sm_thresholdTime := now\<rparr>"
    using add True bm(1) inv by (auto simp: AddSignature_def Let_def sm_inv_def sm2_def split: sum.splits)
  ultimately show ?thesis by (auto simp: sm_inv_def)
qed

lemma sm_step_inv: "sm_step sm c sm' \<Longrightarrow> sm_inv vs sm \<Longrightarrow> sm_inv vs sm'"
proof (induction rule: sm_step.induct)
  case (add sm sig now sm' r)
  then show ?case using AddSignature_inv by blast
qed (auto simp: sm_inv_def ProposeHeader_def Finalize_def Reset_def Let_def split: if_splits)

lemma sm_reachable_inv: "sm_reachable vs sm \<Longrightarrow> sm_inv vs sm"
proof (induction rule: sm_reachable.induct)
  case (new cfg)
  show ?case by (simp add: sm_inv_def NewStateMachineWithConfig_def)
next
  case (step sm c sm')
  then show ?case by (blast intro: sm_step_inv)
qed

section \<open>The collector\<close>

lemma OnSignature_collect:
  assumes "f_state f \<noteq> StateIdle" "f_header f \<noteq> None" "0 \<le> i" "RequiredSigs (f_set f) = Inr r"
  shows "bits (f_bitmap (fst (OnSignature f i now))) = insert (nat i) (bits (f_bitmap f))"
    and "f_state (fst (OnSignature f i now)) = f_state f" "f_header (fst (OnSignature f i now)) = f_header f"
    and "f_set (fst (OnSignature f i now)) = f_set f"
    and "snd (OnSignature f i now) =
      (let n = card (insert (nat i) (bits (f_bitmap f))) in Inr (int n \<ge> r, n, r))"
proof -
  obtain bm where bm: "SetBit (f_bitmap f) i = Inr bm" "bits bm = insert (nat i) (bits (f_bitmap f))"
    using SetBit_nonneg [OF assms(3), of "f_bitmap f"] by blast
  have "OnSignature f i now =
      (if int (CountBits bm) \<ge> r then (f\<lparr>f_bitmap := bm, f_thresholdAt := now\<rparr>, Inr (True, CountBits bm, r))
       else (f\<lparr>f_bitmap := bm\<rparr>, Inr (False, CountBits bm, r)))"
    using assms bm(1) by (auto simp: OnSignature_def Let_def)
  then show "bits (f_bitmap (fst (OnSignature f i now))) = insert (nat i) (bits (f_bitmap f))"
    and "f_state (fst (OnSignature f i now)) = f_state f" "f_header (fst (OnSignature f i now)) = f_header f"
    and "f_set (fst (OnSignature f i now)) = f_set f"
    and "snd (OnSignature f i now) =
      (let n = card (insert (nat i) (bits (f_bitmap f))) in Inr (int n \<ge> r, n, r))"
    by (simp_all add: bm(2) CountBits_eq Let_def)
qed

definition collect :: "FSM \<Rightarrow> (int \<times> int) list \<Rightarrow> FSM" where
  "collect f sigs = foldl (\<lambda>f (i, now). fst (OnSignature f i now)) f sigs"

lemma collect_bits:
  assumes "f_state f \<noteq> StateIdle" "f_header f \<noteq> None" "\<forall>(i, now) \<in> set sigs. 0 \<le> i" "RequiredSigs (f_set f) = Inr r"
  shows "bits (f_bitmap (collect f sigs)) = bits (f_bitmap f) \<union> (nat \<circ> fst) ` set sigs
    \<and> f_state (collect f sigs) = f_state f \<and> f_header (collect f sigs) = f_header f \<and> f_set (collect f sigs) = f_set f"
  using assms
proof (induction sigs arbitrary: f)
  case (Cons s sigs)
  obtain i now where s: "s = (i, now)" by (cases s)
  let ?f = "fst (OnSignature f i now)"
  have i: "0 \<le> i" using Cons.prems(3) s by auto
  note one = OnSignature_collect [OF Cons.prems(1,2) i Cons.prems(4), of now]
  have "collect f (s # sigs) = collect ?f sigs" by (simp add: collect_def s)
  with Cons.IH [of ?f] Cons.prems s one show ?case by auto
qed (simp add: collect_def)

section \<open>Properties\<close>

text \<open>
  C7: In every reachable state of the state machine the signer bitmap agrees with the signatures: a
  validator's bit is set exactly when a signature with its identifier was accepted in this round,
  and the number of bits is the number of signers that are members of the validator set.
\<close>

theorem signers_bitmap_exact:
  assumes "sm_reachable vs sm" "k \<in> vset_ids vs"
  shows "(BitIsSet (GetSignersBitmap sm) (IndexByID vs k) = Inr True \<longleftrightarrow> GetSignatures sm k \<noteq> None)
    \<and> CountBits (GetSignersBitmap sm) = card (dom (GetSignatures sm) \<inter> vset_ids vs)"
proof -
  have bits: "bits (sm_signersBitmap sm) = signer_positions vs (dom (sm_signatures sm))"
    using sm_reachable_inv [OF assms(1)] by (simp add: sm_inv_def)
  have "nat (IndexByID vs k) \<in> signer_positions vs (dom (sm_signatures sm)) \<longleftrightarrow> k \<in> dom (sm_signatures sm)"
    using assms(2) inj_on_positions [of vs] by (auto simp: signer_positions_def dest: inj_onD)
  moreover have "0 \<le> IndexByID vs k" using assms(2) by (simp add: IndexByID_nonneg)
  ultimately show ?thesis
    by (simp add: GetSignersBitmap_def GetSignatures_def BitIsSet_nonneg bits CountBits_eq card_signer_positions domIff)
qed

definition example_signature :: "string \<Rightarrow> Signature" where
  "example_signature k = \<lparr>sg_Algo = [], sg_Der = [], sg_Pubkey = [], sg_MsgHash = [], sg_SignerId = k\<rparr>"

definition example_round :: StateMachine where
  "example_round = fst (AddSignature (fst (ProposeHeader (NewStateMachine example_set) example_header 1))
     (example_signature ''v1'') 2)"

lemma example_round_reachable: "sm_reachable example_set example_round"
  unfolding example_round_def NewStateMachine_def
  by (rule sm_reachable.step, rule sm_reachable.step, rule sm_reachable.new, rule sm_step.propose, rule prod.collapse [symmetric],
      rule sm_step.add, rule prod.collapse [symmetric])

theorem signers_bitmap_exact_witness:
  "BitIsSet (GetSignersBitmap example_round) (IndexByID example_set ''v1'') = Inr True"
proof -
  have "''v1'' \<in> vset_ids example_set" by (simp add: example_set_simps)
  from signers_bitmap_exact [OF example_round_reachable this]
  show ?thesis
    by (simp add: example_round_def example_signature_def ProposeHeader_def NewStateMachine_def sm_defs
        GetSignatures_def Let_def split: sum.splits)
qed

text \<open>
  C16: The rounds are disciplined: a call changes the state only from idle to collecting (a proposal),
  from collecting to finalized, or to idle (a reset); the header of a round is replaced by a reset only;
  outside a collecting state no signature is added or lost but by a reset, and a rejected
  proposal leaves the machine as it was.
\<close>

theorem round_discipline:
  assumes "sm_reachable vs sm" "sm_step sm c sm'" "c \<noteq> CallReset"
  shows "(sm_state sm, sm_state sm') \<in> {(StateIdle, StateCollecting), (StateCollecting, StateFinalized)} \<union> Id
    \<and> (sm_state sm \<noteq> StateIdle \<longrightarrow> sm_currentHeader sm' = sm_currentHeader sm)
    \<and> (sm_state sm \<noteq> StateCollecting \<longrightarrow> sm' = sm \<or> c = CallPropose (the (sm_currentHeader sm')) \<and> sm_state sm = StateIdle)
    \<and> dom (sm_signatures sm) \<subseteq> dom (sm_signatures sm')"
  using assms(2)
proof cases
  case (add sig now r)
  have "sm' = sm \<or> sm_state sm = StateCollecting \<and> sm_state sm' = StateCollecting
      \<and> sm_currentHeader sm' = sm_currentHeader sm \<and> dom (sm_signatures sm') = insert (sg_SignerId sig) (dom (sm_signatures sm))"
    using add by (auto simp: AddSignature_def Let_def split: if_splits sum.splits)
  then show ?thesis by auto
next
  case (propose h now r)
  then show ?thesis
    using sm_reachable_inv [OF assms(1)] by (auto simp: ProposeHeader_def sm_inv_def Let_def split: if_splits)
next
  case (finalize r)
  then show ?thesis by (auto simp: Finalize_def split: if_splits)
qed (use assms(3) in simp)

theorem round_discipline_witness:
  "dom (sm_signatures example_round) \<subseteq> dom (sm_signatures (fst (Finalize example_round)))"
  using round_discipline [OF example_round_reachable sm_step.finalize, of "fst (Finalize example_round)" "snd (Finalize example_round)"]
  by simp

text \<open>
  The threshold test counts identifiers, not members: signatures of strangers to the validator set
  meet the threshold of any valid set while its bitmap stays empty.
\<close>

theorem threshold_counts_strangers:
  assumes "Validate vs = Inr ()" "fits_int vs" "distinct ks" "set ks \<inter> vset_ids vs = {}"
    and "length ks \<ge> length (vs_Validators vs)" "ks \<noteq> []"
  defines "sm \<equiv> foldl (\<lambda>sm k. fst (AddSignature sm (example_signature k) 0))
     (fst (ProposeHeader (NewStateMachine vs) example_header 0)) ks"
  shows "HasThreshold sm = Inr True \<and> CountBits (GetSignersBitmap sm) = 0"
proof -
  let ?sm0 = "fst (ProposeHeader (NewStateMachine vs) example_header 0)"
  have fold: "sm_reachable vs (foldl (\<lambda>sm k. fst (AddSignature sm (example_signature k) 0)) s js)
      \<and> sm_state (foldl (\<lambda>sm k. fst (AddSignature sm (example_signature k) 0)) s js) = StateCollecting
      \<and> dom (sm_signatures (foldl (\<lambda>sm k. fst (AddSignature sm (example_signature k) 0)) s js)) = dom (sm_signatures s) \<union> set js"
    if "sm_reachable vs s" "sm_state s = StateCollecting" for s js
    using that
  proof (induction js arbitrary: s)
    case (Cons k js)
    let ?s = "fst (AddSignature s (example_signature k) 0)"
    have "sm_reachable vs ?s"
      using Cons.prems(1) by (rule sm_reachable.step) (rule sm_step.add, rule prod.collapse [symmetric])
    moreover have "sm_state ?s = StateCollecting" "dom (sm_signatures ?s) = insert k (dom (sm_signatures s))"
      using Cons.prems(2) by (auto simp: AddSignature_def Let_def example_signature_def split: sum.splits)
    ultimately show ?case using Cons.IH [of ?s] by simp
  qed simp
  have "sm_reachable vs ?sm0"
    unfolding NewStateMachine_def
    by (rule sm_reachable.step, rule sm_reachable.new, rule sm_step.propose, rule prod.collapse [symmetric])
  moreover have "sm_state ?sm0 = StateCollecting" "dom (sm_signatures ?sm0) = {}"
    by (simp_all add: ProposeHeader_def NewStateMachine_def NewStateMachineWithConfig_def Let_def)
  ultimately have sm: "sm_reachable vs sm" "dom (sm_signatures sm) = set ks"
    using fold [of ?sm0 ks] by (simp_all add: sm_def)
  note inv = sm_reachable_inv [OF sm(1), unfolded sm_inv_def]
  have "CountBits (GetSignersBitmap sm) = 0"
    using inv sm(2) assms(4) by (simp add: GetSignersBitmap_def CountBits_eq card_signer_positions)
  moreover have "Validator_Set.CheckThreshold vs (int (length ks)) = Inr True"
  proof -
    have num: "0 < vs_ThresholdNum vs" "vs_ThresholdNum vs \<le> vs_ThresholdDenom vs"
      using assms(1) by (auto simp: spec_simps)
    have "int (length (vs_Validators vs)) * vs_ThresholdNum vs \<le> int (length ks) * vs_ThresholdDenom vs"
      using assms(5) num by (intro mult_mono) simp_all
    moreover have "1 \<le> int (length ks)" using assms(6) by (cases ks) simp_all
    ultimately show ?thesis by (simp add: CheckThreshold_fraction [OF assms(1,2)])
  qed
  ultimately show ?thesis
    using inv sm(2) distinct_card [OF assms(3)]
    by (auto simp: HasThreshold_def checkThreshold_def Validator_Set.CheckThreshold_def split: sum.splits)
qed

theorem threshold_counts_strangers_witness:
  "HasThreshold (foldl (\<lambda>sm k. fst (AddSignature sm (example_signature k) 0))
     (fst (ProposeHeader (NewStateMachine example_set) example_header 0)) [''x1'', ''x2'', ''x3'', ''x4'']) = Inr True"
  using threshold_counts_strangers [of example_set "[''x1'', ''x2'', ''x3'', ''x4'']"]
  by (simp add: example_set_simps Validate_Inr fits_int_def)

text \<open>
  The collector counts each signer once: after a proposal and any sequence of signatures of
  members, in any order and with any repetitions, the next signature reports the number of
  distinct signers and that the threshold is reached exactly when that number meets it.
\<close>

theorem collector_counts_signers:
  fixes i t :: int
  assumes "list_all (\<lambda>(i, t). 0 \<le> i) sigs" "0 \<le> i" "RequiredSigs (f_set f) = Inr r"
  defines "n \<equiv> card (fst ` set (sigs @ [(i, t)]))"
  shows "snd (OnSignature (collect (StartProposal f (Some h) now) sigs) i t) = Inr (int n \<ge> r, n, r)"
proof -
  let ?f = "StartProposal f (Some h) now"
  have f: "f_state ?f \<noteq> StateIdle" "f_header ?f \<noteq> None" "bits (f_bitmap ?f) = {}" "f_set ?f = f_set f"
    by (simp_all add: StartProposal_def)
  have sigs: "\<forall>(i, now) \<in> set sigs. 0 \<le> i" using assms(1) by (auto simp: list_all_iff)
  note c = collect_bits [OF f(1,2) sigs assms(3) [folded f(4)]]
  have "insert (nat i) (bits (f_bitmap (collect ?f sigs))) = nat ` fst ` set (sigs @ [(i, t)])"
    using c f(3) by (auto simp: image_comp)
  moreover have "inj_on nat (fst ` set (sigs @ [(i, t)]))"
    by (rule inj_on_subset [of nat "{0..}"]) (use sigs assms(2) in \<open>auto simp: inj_on_def\<close>)
  ultimately have "card (insert (nat i) (bits (f_bitmap (collect ?f sigs)))) = n"
    unfolding n_def by (simp only: card_image)
  with OnSignature_collect(5) [of "collect ?f sigs" i r t] c f assms(2,3) show ?thesis by (simp add: Let_def)
qed

theorem collector_counts_signers_witness:
  "snd (OnSignature (collect (StartProposal (NewFSM (Some example_set) 1 1) (Some (example_header_types 1 [])) 0) [(2, 5), (0, 6), (2, 7)]) 0 8)
     = Inr (False, 2, 3)"
  using collector_counts_signers [where sigs = "[(2, 5), (0, 6), (2, 7)]" and i = 0 and f = "NewFSM (Some example_set) 1 1"
      and r = 3 and t = 8 and h = "example_header_types 1 []" and now = 0]
  by (simp add: NewFSM_def RequiredSigs_def RequiredSignatures_def example_set_simps Let_def insert_commute)

end
