(* ===== verification/Matching.thy ===== *)
theory Matching
  imports Store
begin

text \<open>
  What the matcher is built on: the messages of \<open>src/proto/subnet/bid.pb.go\<close>,
  \<open>src/proto/subnet/matcher.pb.go\<close> and \<open>src/proto/rootlayer\<close> that it handles, the bid strategy of
  \<open>src/internal/matcher/bid_strategy.go\<close> and the helpers of \<open>src/internal/matcher/server.go\<close>
  that do not touch the server's state.
\<close>

section \<open>Model\<close>

type_synonym BidStatus = int

definition BID_STATUS_UNSPECIFIED :: BidStatus where "BID_STATUS_UNSPECIFIED = 0"
definition BID_STATUS_SUBMITTED :: BidStatus where "BID_STATUS_SUBMITTED = 1"
definition BID_STATUS_ACCEPTED :: BidStatus where "BID_STATUS_ACCEPTED = 2"
definition BID_STATUS_REJECTED :: BidStatus where "BID_STATUS_REJECTED = 3"
definition BID_STATUS_WINNER :: BidStatus where "BID_STATUS_WINNER = 4"

lemmas bid_status_defs = BID_STATUS_UNSPECIFIED_def BID_STATUS_SUBMITTED_def BID_STATUS_ACCEPTED_def
  BID_STATUS_REJECTED_def BID_STATUS_WINNER_def

record Bid =
  b_BidId :: string
  b_IntentId :: string
  b_AgentId :: string
  b_Price :: u64
  b_Token :: string
  b_SettleChain :: string
  b_SubmittedAt :: int
  b_Nonce :: string
  b_Signature :: bytes
  b_Status :: BidStatus
  b_Metadata :: "string \<rightharpoonup> string"

record IntentParams =
  ip_IntentRaw :: bytes
  ip_Metadata :: bytes

record Intent =
  in_IntentId :: string
  in_SubnetId :: string
  in_Requester :: string
  in_SettleChain :: string
  in_IntentType :: string
  in_Params :: "IntentParams option"
  in_ParamsHash :: bytes
  in_TipsToken :: string
  in_Tips :: string
  in_BudgetToken :: string
  in_Budget :: string
  in_Deadline :: int
  in_IntentExpiration :: int
  in_Status :: int
  in_CreatedAt :: int
  in_Signature :: bytes
  in_PendingConfirmed :: bool
  in_ProcessingConfirmed :: bool
  in_ValidationConfirmed :: bool

record Assignment =
  as_AssignmentId :: string
  as_IntentId :: string
  as_AgentId :: string
  as_BidId :: string
  as_Status :: int
  as_MatcherId :: string
  as_Signature :: bytes

definition ASSIGNMENT_ACTIVE :: int where "ASSIGNMENT_ACTIVE = 1"

record MatchingResult =
  mr_MatcherId :: string
  mr_IntentId :: string
  mr_WinningBidId :: string
  mr_WinningAgentId :: string
  mr_RunnerUpBidIds :: "string list"
  mr_MatchedAt :: int
  mr_MatchingReason :: string
  mr_ResultHash :: bytes
  mr_MatcherSignature :: bytes

record BidSubmissionAck =
  ack_BidId :: string
  ack_Accepted :: bool
  ack_Reason :: string
  ack_Status :: BidStatus
  ack_RecordedAt :: int

record TaskResponse =
  tr_TaskId :: string
  tr_AgentId :: string
  tr_Accepted :: bool
  tr_Reason :: string

subsection \<open>Strategy\<close>

text \<open>
  Bids are pointers, here of any type \<open>'b\<close>. \<open>sort.Slice\<close> returns some ascending permutation, not a particular
  one when prices are equal, so the sorting function is an argument of which \<open>price_sort\<close>
  states what the library promises.
\<close>

definition price_sort :: "('b \<Rightarrow> u64) \<Rightarrow> ('b list \<Rightarrow> 'b list) \<Rightarrow> bool" where
  "price_sort price srt \<longleftrightarrow> (\<forall>bs. mset (srt bs) = mset bs \<and> sorted (map price (srt bs)))"

definition SelectWinner :: "('b list \<Rightarrow> 'b list) \<Rightarrow> 'b list \<Rightarrow> ('b \<times> 'b list) option" where
  "SelectWinner srt bids =
     (if length bids = 0 then None
      else let sortedBids = srt bids in Some (sortedBids ! 0, take 2 (drop 1 sortedBids)))"

subsection \<open>Helpers\<close>

text \<open>\<open>strings.TrimSpace\<close> on ASCII text.\<close>

definition TrimSpace :: "string \<Rightarrow> string" where
  "TrimSpace s = rev (dropWhile is_space (rev (dropWhile is_space s)))"

definition extractChainAddressFromBid :: "Bid option \<Rightarrow> string" where
  "extractChainAddressFromBid bid =
     (case bid of
        None \<Rightarrow> []
      | Some b \<Rightarrow>
          (case b_Metadata b ''chain_address'' of
             Some addr \<Rightarrow> if TrimSpace addr \<noteq> [] then TrimSpace addr else TrimSpace (b_AgentId b)
           | None \<Rightarrow> TrimSpace (b_AgentId b)))"

definition intentExpired :: "Intent option \<Rightarrow> int \<Rightarrow> bool" where
  "intentExpired intent now =
     (case intent of
        None \<Rightarrow> False
      | Some i \<Rightarrow>
          if in_IntentExpiration i > 0 \<and> now \<ge> in_IntentExpiration i then True
          else if in_Deadline i > 0 \<and> now \<ge> in_Deadline i then True
          else False)"

text \<open>A 32-byte array, or the error of the decoder.\<close>

definition hexStringTo32Bytes :: "string \<Rightarrow> hex_error + bytes" where
  "hexStringTo32Bytes s0 =
     (let s = (if length s0 \<ge> 2 \<and> take 2 s0 = ''0x'' then drop 2 s0 else s0);
          s = (if length s < 64 then replicate (64 - length s) (CHR ''0'') @ s else s) in
      case DecodeString s of
        (bytes, Some e) \<Rightarrow> Inl e
      | (bytes, None) \<Rightarrow>
          let bytes = (if length bytes > 32 then drop (length bytes - 32) bytes else bytes) in
          Inr (take 32 (bytes @ replicate 32 0)))"

section \<open>The strategy\<close>

lemma SelectWinner_Some:
  assumes "price_sort price srt" "SelectWinner srt bids = Some (w, rs)"
  shows "w \<in> set bids" and "b \<in> set bids \<Longrightarrow> price w \<le> price b" and "set rs \<subseteq> set bids"
proof -
  obtain ys where srt: "srt bids = w # ys" "rs = take 2 ys" "bids \<noteq> []"
    using assms(2) assms(1) by (cases "srt bids") (auto simp: SelectWinner_def price_sort_def Let_def split: if_splits
        dest: spec [of _ bids])
  have p: "mset (w # ys) = mset bids" "sorted (map price (w # ys))"
    using assms(1) srt(1) unfolding price_sort_def by metis+
  have "set bids = set (w # ys)" using p(1) by (metis set_mset_mset)
  then show "w \<in> set bids" and "b \<in> set bids \<Longrightarrow> price w \<le> price b" and "set rs \<subseteq> set bids"
    using p(2) srt(2) set_take_subset [of 2 ys] by auto
qed

lemma SelectWinner_None: "SelectWinner srt bids = None \<longleftrightarrow> bids = []"
  by (simp add: SelectWinner_def Let_def)

lemma price_sort_sort_key: "price_sort price (sort_key price)"
  by (simp add: price_sort_def)

section \<open>Hexadecimal identifiers\<close>

lemma DecodeString_append_even:
  "DecodeString s = (a, None) \<Longrightarrow> DecodeString (s @ t) = (case DecodeString t of (b, e) \<Rightarrow> (a @ b, e))"
  by (induction s arbitrary: a rule: DecodeString.induct) (auto split: option.splits prod.splits)

lemma hexStringTo32Bytes_EncodeToString:
  assumes "length bs \<ge> 32"
  shows "hexStringTo32Bytes (''0x'' @ EncodeToString bs) = Inr (drop (length bs - 32) bs)"
  using assms by (auto simp: hexStringTo32Bytes_def Let_def)

section \<open>Properties\<close>

text \<open>
  The lowest-price strategy is correct for every way the library may order equal prices: it fails
  only without bids; otherwise the winner is one of the bids and no bid is cheaper, the runner-ups
  are at most two other entries, the cheapest of the rest, in ascending order of price.
\<close>

theorem SelectWinner_lowest:
  assumes "price_sort price srt" "bids \<noteq> []"
  shows "\<exists>w rs rest. SelectWinner srt bids = Some (w, rs) \<and> mset bids = mset (w # rs @ rest)
    \<and> list_all (\<lambda>b. price w \<le> price b) bids
    \<and> length rs = min 2 (length bids - 1) \<and> sorted (map price rs)
    \<and> list_all (\<lambda>b. list_all (\<lambda>r. price r \<le> price b) rs) rest"
proof -
  have p: "mset (srt bids) = mset bids" "sorted (map price (srt bids))"
    using assms(1) by (simp_all add: price_sort_def)
  then obtain w ys where srt: "srt bids = w # ys" using assms(2) by (cases "srt bids") auto
  have set: "set bids = set (w # ys)" using p(1) srt by (metis set_mset_mset)
  have len: "length bids = Suc (length ys)" using arg_cong [OF p(1), of size] srt by simp
  have rest: "price r \<le> price b" if "r \<in> set (take 2 ys)" "b \<in> set (drop 2 ys)" for r b
  proof -
    have "sorted (map price (take 2 ys @ drop 2 ys))" using p(2) srt by simp
    with that show ?thesis by (simp only: map_append sorted_append set_map) blast
  qed
  have "SelectWinner srt bids = Some (w, take 2 ys)" using assms(2) srt by (simp add: SelectWinner_def Let_def)
  moreover have "mset bids = mset (w # take 2 ys @ drop 2 ys)" using p(1) srt by simp
  moreover have "list_all (\<lambda>b. price w \<le> price b) bids" using p(2) srt set by (auto simp: list_all_iff)
  moreover have "sorted (map price (take 2 ys))" using p(2) srt by (simp add: sorted_wrt_take take_map [symmetric])
  moreover have "list_all (\<lambda>b. list_all (\<lambda>r. price r \<le> price b) (take 2 ys)) (drop 2 ys)"
    using rest by (auto simp: list_all_iff)
  moreover have "length (take 2 ys) = min 2 (length bids - 1)" using len by simp
  ultimately show ?thesis by blast
qed

theorem SelectWinner_lowest_witness:
  "\<exists>w rs rest. SelectWinner (sort_key (\<lambda>p. p)) [30, 10, 20, 40 :: u64] = Some (w, rs)
    \<and> mset [30, 10, 20, 40] = mset (w # rs @ rest) \<and> list_all (\<lambda>b. w \<le> b) [30, 10, 20, 40] \<and> length rs = 2"
  using SelectWinner_lowest [OF price_sort_sort_key [of "\<lambda>p :: u64. p"], of "[30, 10, 20, 40]"] by auto

text \<open>
  An identifier of 32 bytes is read back from its hexadecimal form, with the prefix or without, but
  a longer one is accepted as well and only its last 32 bytes count.
\<close>

theorem hexStringTo32Bytes_round_trip:
  assumes "length bs \<ge> 32"
  shows "hexStringTo32Bytes (''0x'' @ EncodeToString bs) = Inr (drop (length bs - 32) bs)"
  using assms by (rule hexStringTo32Bytes_EncodeToString)

theorem hexStringTo32Bytes_round_trip_witness:
  "hexStringTo32Bytes (''0x'' @ EncodeToString (9 # replicate 32 7)) = hexStringTo32Bytes (''0x'' @ EncodeToString (replicate 32 7))"
  using hexStringTo32Bytes_round_trip [of "9 # replicate 32 7"] hexStringTo32Bytes_round_trip [of "replicate 32 7"] by simp

end
