(* ===== verification/Matcher_Server.thy ===== *)
theory Matcher_Server
  imports Matching
begin

text \<open>
  The matcher service of \<open>src/internal/matcher/server.go\<close>: intents with bidding windows, bids,
  matching, assignments and their confirmation, runner-ups and the task channels. Bids are shared
  pointers that the code changes in place, so they live in a heap (\<open>srv_heap\<close>, never freed) and lists of
  bids are lists of references; channels live in heaps too, because several maps share one.

  An environment (\<open>env\<close>) is what a handler sees of the outside while it runs: the clock, SHA-256,
  the signing key, the chain SDK, the root layer client and the on-chain verifier. A handler runs under
  the server's mutex; what a rejected task starts in the background is a job, of which each critical
  section is one step.
\<close>

section \<open>Model\<close>

subsection \<open>Environment\<close>

record AssignmentData =
  ad_AssignmentID :: bytes
  ad_IntentID :: bytes
  ad_BidID :: bytes
  ad_Agent :: bytes
  ad_Matcher :: bytes

text \<open>\<open>sdk_Submit\<close> returns the transaction hash, \<open>None\<close> an error.\<close>

record sdk =
  sdk_SignAssignment :: "AssignmentData \<Rightarrow> bytes option"
  sdk_Submit :: "AssignmentData \<Rightarrow> bytes \<Rightarrow> string option"

text \<open>
  \<open>e_verifier\<close>: no verifier, or what \<open>VerifyAgent\<close> answers (\<open>None\<close> an error). \<open>e_rootlayer\<close>: no client, or
  whether \<open>SubmitAssignment\<close> succeeds.
\<close>

record env =
  e_now :: int
  e_nanos :: int
  e_sha256 :: "bytes \<Rightarrow> bytes"
  e_HashMessage :: "bytes \<Rightarrow> bytes"
  e_Sign :: "bytes \<Rightarrow> bytes option"
  e_GetAddress :: string
  e_HexToAddress :: "string \<Rightarrow> bytes"
  e_sdk :: "sdk option"
  e_rootlayer :: "(Assignment \<Rightarrow> bool) option"
  e_verifier :: "(string \<Rightarrow> bool option) option"

subsection \<open>Channels\<close>

record 'a chan =
  chn_buf :: "'a list"
  chn_cap :: nat
  chn_closed :: bool

text \<open>The \<open>select\<close> with a \<open>default\<close>: a full channel drops the value, a closed one panics.\<close>

definition chan_send :: "'a chan \<Rightarrow> 'a \<Rightarrow> go_panic + 'a chan" where
  "chan_send ch x =
     (if chn_closed ch then Inl SendOnClosedChannel
      else if length (chn_buf ch) < chn_cap ch then Inr (ch\<lparr>chn_buf := chn_buf ch @ [x]\<rparr>)
      else Inr ch)"

definition chan_close :: "'a chan \<Rightarrow> go_panic + 'a chan" where
  "chan_close ch = (if chn_closed ch then Inl CloseOfClosedChannel else Inr (ch\<lparr>chn_closed := True\<rparr>))"

subsection \<open>State\<close>

record IntentWithWindow =
  iw_Intent :: Intent
  iw_BiddingStartTime :: int
  iw_BiddingEndTime :: int
  iw_WindowClosed :: bool
  iw_Matched :: bool

record PendingAssignment =
  pa_Assignment :: Assignment
  pa_CreatedAt :: int
  pa_Intent :: Intent

record MatcherIntentUpdate =
  up_IntentId :: string
  up_UpdateType :: string
  up_Timestamp :: int

text \<open>The configuration fields that the handlers read come first; \<open>srv_panic\<close> records a run-time panic.\<close>

record Server =
  srv_MatcherID :: string
  srv_BiddingWindowSec :: int
  srv_EnableChainSubmit :: bool
  srv_allowUnverified :: bool
  srv_intents :: "string \<rightharpoonup> IntentWithWindow"
  srv_heap :: "Bid list"
  srv_bidsByIntent :: "string \<rightharpoonup> nat list"
  srv_matchingResults :: "string \<rightharpoonup> MatchingResult"
  srv_assignments :: "string \<rightharpoonup> Assignment"
  srv_pendingAssignments :: "string \<rightharpoonup> PendingAssignment"
  srv_assignmentAgents :: "string \<rightharpoonup> string"
  srv_intentChans :: "MatcherIntentUpdate chan list"
  srv_intentStreams :: "string \<rightharpoonup> nat"
  srv_taskChans :: "ExecutionTask chan list"
  srv_agentTasks :: "string \<rightharpoonup> nat"
  srv_taskStreams :: "string \<rightharpoonup> nat"
  srv_nextStreamID :: nat
  srv_panic :: "go_panic option"

definition NewServer :: "string \<Rightarrow> int \<Rightarrow> bool \<Rightarrow> bool \<Rightarrow> Server" where
  "NewServer matcherID windowSec chainSubmit allowUnverified =
     \<lparr>srv_MatcherID = matcherID, srv_BiddingWindowSec = windowSec, srv_EnableChainSubmit = chainSubmit,
      srv_allowUnverified = allowUnverified, srv_intents = Map.empty, srv_heap = [], srv_bidsByIntent = Map.empty,
      srv_matchingResults = Map.empty, srv_assignments = Map.empty, srv_pendingAssignments = Map.empty,
      srv_assignmentAgents = Map.empty, srv_intentChans = [], srv_intentStreams = Map.empty, srv_taskChans = [],
      srv_agentTasks = Map.empty, srv_taskStreams = Map.empty, srv_nextStreamID = 0, srv_panic = None\<rparr>"

subsection \<open>Streams and tasks\<close>

definition broadcast_one :: "MatcherIntentUpdate \<Rightarrow> Server \<Rightarrow> string \<Rightarrow> Server" where
  "broadcast_one u s sid =
     (case srv_intentStreams s sid of
        None \<Rightarrow> s
      | Some c \<Rightarrow>
          (case chan_send (srv_intentChans s ! c) u of
             Inl p \<Rightarrow> s\<lparr>srv_panic := Some p\<rparr>
           | Inr ch \<Rightarrow> s\<lparr>srv_intentChans := (srv_intentChans s)[c := ch]\<rparr>))"

text \<open>The streams have channels of their own, so the order of the loop over them does not matter.\<close>

definition broadcastIntentUpdateLocked :: "env \<Rightarrow> Server \<Rightarrow> string \<Rightarrow> string \<Rightarrow> Server" where
  "broadcastIntentUpdateLocked e s intentID updateType =
     foldl (broadcast_one \<lparr>up_IntentId = intentID, up_UpdateType = updateType, up_Timestamp = e_now e\<rparr>) s
       (sorted_list_of_set (dom (srv_intentStreams s)))"

definition sendTaskToAgent :: "Server \<Rightarrow> string \<Rightarrow> ExecutionTask \<Rightarrow> Server" where
  "sendTaskToAgent s agentID task =
     (case srv_agentTasks s agentID of
        None \<Rightarrow> s
      | Some c \<Rightarrow>
          (case chan_send (srv_taskChans s ! c) task of
             Inl p \<Rightarrow> s\<lparr>srv_panic := Some p\<rparr>
           | Inr ch \<Rightarrow> s\<lparr>srv_taskChans := (srv_taskChans s)[c := ch]\<rparr>))"

definition RegisterAgentForTasks :: "Server \<Rightarrow> string \<Rightarrow> Server \<times> nat" where
  "RegisterAgentForTasks s agentID =
     (case srv_agentTasks s agentID of
        Some c \<Rightarrow> (s, c)
      | None \<Rightarrow>
          (s\<lparr>srv_taskChans := srv_taskChans s @ [\<lparr>chn_buf = [], chn_cap = 10, chn_closed = False\<rparr>],
             srv_agentTasks := (srv_agentTasks s)(agentID \<mapsto> length (srv_taskChans s))\<rparr>,
           length (srv_taskChans s)))"

definition close_task_chan :: "Server \<Rightarrow> nat \<Rightarrow> Server" where
  "close_task_chan s c =
     (case chan_close (srv_taskChans s ! c) of
        Inl p \<Rightarrow> s\<lparr>srv_panic := Some p\<rparr>
      | Inr ch \<Rightarrow> s\<lparr>srv_taskChans := (srv_taskChans s)[c := ch]\<rparr>)"

definition UnregisterAgentForTasks :: "Server \<Rightarrow> string \<Rightarrow> Server" where
  "UnregisterAgentForTasks s agentID =
     (case srv_agentTasks s agentID of
        None \<Rightarrow> s
      | Some c \<Rightarrow>
          (case chan_close (srv_taskChans s ! c) of
             Inl p \<Rightarrow> s\<lparr>srv_panic := Some p\<rparr>
           | Inr ch \<Rightarrow> s\<lparr>srv_taskChans := (srv_taskChans s)[c := ch],
                          srv_agentTasks := (srv_agentTasks s)(agentID := None)\<rparr>))"

text \<open>\<open>StreamTasks\<close> until its loop starts, and its deferred clean-up when the loop has ended.\<close>

definition StreamTasks_open :: "Server \<Rightarrow> string \<Rightarrow> Server \<times> string \<times> nat" where
  "StreamTasks_open s agentID =
     (let streamID = ''task-stream-'' @ dec (srv_nextStreamID s); c = length (srv_taskChans s) in
      (s\<lparr>srv_nextStreamID := srv_nextStreamID s + 1,
         srv_taskChans := srv_taskChans s @ [\<lparr>chn_buf = [], chn_cap = 100, chn_closed = False\<rparr>],
         srv_taskStreams := (srv_taskStreams s)(streamID \<mapsto> c),
         srv_agentTasks := (case srv_agentTasks s agentID of
              None \<Rightarrow> (srv_agentTasks s)(agentID \<mapsto> c) | Some _ \<Rightarrow> srv_agentTasks s)\<rparr>,
       streamID, c))"

definition StreamTasks_exit :: "Server \<Rightarrow> string \<Rightarrow> string \<Rightarrow> nat \<Rightarrow> Server" where
  "StreamTasks_exit s agentID streamID c =
     close_task_chan
       (s\<lparr>srv_taskStreams := (srv_taskStreams s)(streamID := None),
          srv_agentTasks := (if srv_agentTasks s agentID = Some c then (srv_agentTasks s)(agentID := None)
                             else srv_agentTasks s)\<rparr>) c"

subsection \<open>Intents and bids\<close>

datatype srv_error = MissingIntentId | IntentExists string | BidRequired | BidsRequired | IntentIdRequired | InvalidRequest

definition AddIntent :: "env \<Rightarrow> Server \<Rightarrow> Intent option \<Rightarrow> Server \<times> srv_error option" where
  "AddIntent e s intent =
     (case intent of
        None \<Rightarrow> (s, Some MissingIntentId)
      | Some i \<Rightarrow>
          if in_IntentId i = [] then (s, Some MissingIntentId)
          else if srv_intents s (in_IntentId i) \<noteq> None then (s, Some (IntentExists (in_IntentId i)))
          else if intentExpired (Some i) (e_now e) then (s, None)
          else
            let w = \<lparr>iw_Intent = i, iw_BiddingStartTime = e_now e,
                     iw_BiddingEndTime = e_now e + srv_BiddingWindowSec s, iw_WindowClosed = False, iw_Matched = False\<rparr>;
                s1 = s\<lparr>srv_intents := (srv_intents s)(in_IntentId i \<mapsto> w),
                       srv_bidsByIntent := (srv_bidsByIntent s)(in_IntentId i \<mapsto> [])\<rparr> in
            (broadcastIntentUpdateLocked e s1 (in_IntentId i) ''NEW_INTENT'', None))"

definition reject_ack :: "string \<Rightarrow> string \<Rightarrow> BidSubmissionAck" where
  "reject_ack bidId reason =
     \<lparr>ack_BidId = bidId, ack_Accepted = False, ack_Reason = reason, ack_Status = BID_STATUS_REJECTED, ack_RecordedAt = 0\<rparr>"

text \<open>The verdict of the on-chain verifier: a reason to reject, if any.\<close>

definition verify_agent :: "env \<Rightarrow> Server \<Rightarrow> Bid \<Rightarrow> string option" where
  "verify_agent e s bid =
     (case e_verifier e of
        None \<Rightarrow> None
      | Some v \<Rightarrow>
          (case v (extractChainAddressFromBid (Some bid)) of
             None \<Rightarrow> if srv_allowUnverified s then None else Some ''agent verification failed''
           | Some verified \<Rightarrow>
               if \<not> verified \<and> \<not> srv_allowUnverified s then Some ''agent not registered on-chain'' else None))"

definition processSingleBid :: "env \<Rightarrow> Server \<Rightarrow> Bid option \<Rightarrow> Server \<times> BidSubmissionAck" where
  "processSingleBid e s bid =
     (case bid of
        None \<Rightarrow> (s, reject_ack [] ''Bid is nil'')
      | Some b \<Rightarrow>
          (case verify_agent e s b of
             Some reason \<Rightarrow> (s, reject_ack (b_BidId b) reason)
           | None \<Rightarrow>
               (case srv_intents s (b_IntentId b) of
                  None \<Rightarrow> (s, reject_ack (b_BidId b) ''Intent not found'')
                | Some w \<Rightarrow>
                    if iw_WindowClosed w then (s, reject_ack (b_BidId b) ''Bidding window closed'')
                    else
                      (s\<lparr>srv_heap := srv_heap s @ [b],
                         srv_bidsByIntent := (srv_bidsByIntent s)(b_IntentId b \<mapsto>
                           (case srv_bidsByIntent s (b_IntentId b) of None \<Rightarrow> [] | Some rs \<Rightarrow> rs) @ [length (srv_heap s)])\<rparr>,
                       \<lparr>ack_BidId = b_BidId b, ack_Accepted = True, ack_Reason = [],
                        ack_Status = BID_STATUS_ACCEPTED, ack_RecordedAt = e_now e\<rparr>))))"

definition SubmitBid :: "env \<Rightarrow> Server \<Rightarrow> Bid option \<Rightarrow> Server \<times> (srv_error + BidSubmissionAck)" where
  "SubmitBid e s bid =
     (case bid of
        None \<Rightarrow> (s, Inl BidRequired)
      | Some b \<Rightarrow> (case processSingleBid e s (Some b) of (s', ack) \<Rightarrow> (s', Inr ack)))"

text \<open>
  The loop of \<open>SubmitBidBatch\<close>, one environment per bid. After the first failure without
  \<open>partial_ok\<close> the rest is rejected unseen; a nil bid there is dereferenced.
\<close>

definition stopped_reason :: string where
  "stopped_reason = ''Batch processing stopped due to previous failure''"

fun batch_loop :: "bool \<Rightarrow> Server \<Rightarrow> (env \<times> Bid option) list \<Rightarrow> Server \<times> BidSubmissionAck list" where
  "batch_loop partialOk s [] = (s, [])"
| "batch_loop partialOk s ((e, bid) # rest) =
     (case processSingleBid e s bid of
        (s1, ack) \<Rightarrow>
          if ack_Accepted ack \<or> partialOk then
            (case batch_loop partialOk s1 rest of (s2, acks) \<Rightarrow> (s2, ack # acks))
          else if list_all (\<lambda>(_, b). b \<noteq> None) rest then
            (s1, ack # map (\<lambda>(_, b). reject_ack (b_BidId (the b)) stopped_reason) rest)
          else (s1\<lparr>srv_panic := Some NilDereference\<rparr>, []))"

definition SubmitBidBatch ::
  "Server \<Rightarrow> bool \<Rightarrow> (env \<times> Bid option) list \<Rightarrow> Server \<times> (srv_error + BidSubmissionAck list \<times> nat \<times> nat)" where
  "SubmitBidBatch s partialOk bids =
     (if bids = [] then (s, Inl BidsRequired)
      else case batch_loop partialOk s bids of
             (s', acks) \<Rightarrow>
               (s', Inr (acks, length (filter ack_Accepted acks), length (filter (\<lambda>a. \<not> ack_Accepted a) acks))))"

record IntentBidSnapshot =
  sn_IntentId :: string
  sn_Bids :: "nat list"
  sn_BiddingStartTime :: int
  sn_BiddingEndTime :: int
  sn_BiddingClosed :: bool

definition GetIntentSnapshot :: "Server \<Rightarrow> string \<Rightarrow> bool \<Rightarrow> srv_error + IntentBidSnapshot option" where
  "GetIntentSnapshot s intentID includeClosed =
     (if intentID = [] then Inl IntentIdRequired
      else case srv_intents s intentID of
             None \<Rightarrow> Inr None
           | Some w \<Rightarrow>
               if \<not> includeClosed \<and> iw_WindowClosed w then Inr None
               else Inr (Some \<lparr>sn_IntentId = intentID,
                      sn_Bids = (case srv_bidsByIntent s intentID of None \<Rightarrow> [] | Some rs \<Rightarrow> rs),
                      sn_BiddingStartTime = iw_BiddingStartTime w, sn_BiddingEndTime = iw_BiddingEndTime w,
                      sn_BiddingClosed = iw_WindowClosed w\<rparr>))"

subsection \<open>Assignments\<close>

definition dropIntentLocked :: "Server \<Rightarrow> string \<Rightarrow> Server" where
  "dropIntentLocked s intentID =
     s\<lparr>srv_intents := (srv_intents s)(intentID := None), srv_bidsByIntent := (srv_bidsByIntent s)(intentID := None),
       srv_matchingResults := (srv_matchingResults s)(intentID := None)\<rparr>"

definition resetIntentWindowLocked :: "env \<Rightarrow> Server \<Rightarrow> string \<Rightarrow> Server" where
  "resetIntentWindowLocked e s intentID =
     (case srv_intents s intentID of
        None \<Rightarrow> s
      | Some w \<Rightarrow>
          s\<lparr>srv_intents := (srv_intents s)(intentID \<mapsto>
              w\<lparr>iw_WindowClosed := False, iw_Matched := False, iw_BiddingStartTime := e_now e,
                iw_BiddingEndTime := e_now e + srv_BiddingWindowSec s\<rparr>),
            srv_matchingResults := (srv_matchingResults s)(intentID := None)\<rparr>)"

definition cleanupPendingAssignmentLocked :: "Server \<Rightarrow> string \<Rightarrow> Server" where
  "cleanupPendingAssignmentLocked s assignmentID =
     s\<lparr>srv_pendingAssignments := (srv_pendingAssignments s)(assignmentID := None),
       srv_assignmentAgents := (srv_assignmentAgents s)(assignmentID := None)\<rparr>"

definition handleAssignmentFailureLocked :: "env \<Rightarrow> Server \<Rightarrow> string \<Rightarrow> string \<Rightarrow> Server" where
  "handleAssignmentFailureLocked e s intentID assignmentID =
     cleanupPendingAssignmentLocked
       (case srv_intents s intentID of
          None \<Rightarrow> s
        | Some w \<Rightarrow> if intentExpired (Some (iw_Intent w)) (e_now e) then dropIntentLocked s intentID
                    else resetIntentWindowLocked e s intentID)
       assignmentID"

definition assignment_data :: "env \<Rightarrow> string \<Rightarrow> string \<Rightarrow> string \<Rightarrow> string \<Rightarrow> AssignmentData option" where
  "assignment_data e assignmentID intentID bidID agentID =
     (case (hexStringTo32Bytes assignmentID, hexStringTo32Bytes intentID, hexStringTo32Bytes bidID) of
        (Inr a, Inr i, Inr b) \<Rightarrow>
          Some \<lparr>ad_AssignmentID = a, ad_IntentID = i, ad_BidID = b, ad_Agent = e_HexToAddress e agentID,
                ad_Matcher = e_HexToAddress e (e_GetAddress e)\<rparr>
      | _ \<Rightarrow> None)"

definition submitAssignmentToChainSync ::
  "env \<Rightarrow> string \<Rightarrow> string \<Rightarrow> string \<Rightarrow> string \<Rightarrow> bytes \<Rightarrow> string option" where
  "submitAssignmentToChainSync e assignmentID intentID bidID agentID signature =
     (case e_sdk e of
        None \<Rightarrow> None
      | Some k \<Rightarrow>
          (case assignment_data e assignmentID intentID bidID agentID of
             None \<Rightarrow> None
           | Some d \<Rightarrow> sdk_Submit k d signature))"

definition signAssignment :: "env \<Rightarrow> Server \<Rightarrow> string \<Rightarrow> string \<Rightarrow> string \<Rightarrow> string \<Rightarrow> bytes option" where
  "signAssignment e s assignmentID intentID bidID agentID =
     (case e_sdk e of
        Some k \<Rightarrow>
          (case assignment_data e assignmentID intentID bidID agentID of
             None \<Rightarrow> None
           | Some d \<Rightarrow> sdk_SignAssignment k d)
      | None \<Rightarrow>
          e_Sign e (e_HashMessage e (bytes_of
            (srv_MatcherID s @ '':'' @ assignmentID @ '':'' @ intentID @ '':'' @ bidID @ '':'' @ agentID @ '':''
             @ dec_int (e_now e)))))"

definition signMatchingResult :: "env \<Rightarrow> Server \<Rightarrow> string \<Rightarrow> string \<Rightarrow> string \<Rightarrow> bytes option" where
  "signMatchingResult e s intentID bidID agentID =
     e_Sign e (e_HashMessage e (bytes_of
       (srv_MatcherID s @ '':'' @ intentID @ '':'' @ bidID @ '':'' @ agentID @ '':'' @ dec_int (e_now e))))"

definition computeResultHash :: "env \<Rightarrow> string \<Rightarrow> string \<Rightarrow> bytes" where
  "computeResultHash e bidID agentID = e_sha256 e (bytes_of (bidID @ '':'' @ agentID @ '':'' @ dec_int (e_nanos e)))"

definition new_assignment_id :: "env \<Rightarrow> string \<Rightarrow> string \<Rightarrow> string" where
  "new_assignment_id e intentID bidID =
     ''0x'' @ EncodeToString (e_sha256 e (bytes_of (intentID @ '':'' @ bidID @ '':'' @ dec_int (e_nanos e))))"

text \<open>The pending assignment and the task that \<open>createAssignment\<close> builds from a bid.\<close>

definition pending_assignment :: "env \<Rightarrow> Server \<Rightarrow> string \<Rightarrow> Bid \<Rightarrow> IntentWithWindow \<Rightarrow> PendingAssignment" where
  "pending_assignment e s intentID bid w =
     (let assignmentID = new_assignment_id e intentID (b_BidId bid);
          agentChainAddress = extractChainAddressFromBid (Some bid) in
      \<lparr>pa_Assignment =
         \<lparr>as_AssignmentId = assignmentID, as_IntentId = intentID, as_AgentId = agentChainAddress,
          as_BidId = b_BidId bid, as_Status = ASSIGNMENT_ACTIVE, as_MatcherId = e_GetAddress e,
          as_Signature = (case signAssignment e s assignmentID intentID (b_BidId bid) agentChainAddress of
                            None \<Rightarrow> [] | Some g \<Rightarrow> g)\<rparr>,
       pa_CreatedAt = e_now e, pa_Intent = iw_Intent w\<rparr>)"

definition execution_task :: "env \<Rightarrow> string \<Rightarrow> Bid \<Rightarrow> IntentWithWindow \<Rightarrow> ExecutionTask" where
  "execution_task e intentID bid w =
     \<lparr>t_TaskId = new_assignment_id e intentID (b_BidId bid), t_IntentId = intentID, t_AgentId = b_AgentId bid,
      t_BidId = b_BidId bid, t_CreatedAt = e_now e, t_Deadline = in_Deadline (iw_Intent w),
      t_IntentData = (case in_Params (iw_Intent w) of None \<Rightarrow> [] | Some p \<Rightarrow> ip_IntentRaw p),
      t_IntentType = in_IntentType (iw_Intent w)\<rparr>"

text \<open>First the chain, if enabled, then the root layer: every failure aborts the assignment.\<close>

definition submit_ok :: "env \<Rightarrow> Server \<Rightarrow> Assignment \<Rightarrow> bool" where
  "submit_ok e s a \<longleftrightarrow>
     (if srv_EnableChainSubmit s \<and> e_sdk e \<noteq> None
         \<and> submitAssignmentToChainSync e (as_AssignmentId a) (as_IntentId a) (as_BidId a) (as_AgentId a) (as_Signature a) = None
      then False
      else case e_rootlayer e of None \<Rightarrow> False | Some submit \<Rightarrow> submit a)"

definition createAssignment :: "env \<Rightarrow> Server \<Rightarrow> string \<Rightarrow> nat \<Rightarrow> Server" where
  "createAssignment e s intentID ref =
     (let bid = srv_heap s ! ref; assignmentID = new_assignment_id e intentID (b_BidId bid) in
      case srv_intents s intentID of
        None \<Rightarrow> s
      | Some w \<Rightarrow>
          let agentChainAddress = extractChainAddressFromBid (Some bid) in
          if agentChainAddress = [] \<or> \<not> prefix ''0x'' agentChainAddress then s
          else
            let pa = pending_assignment e s intentID bid w;
                s1 = s\<lparr>srv_pendingAssignments := (srv_pendingAssignments s)(assignmentID \<mapsto> pa),
                       srv_assignmentAgents := (srv_assignmentAgents s)(assignmentID \<mapsto> b_AgentId bid)\<rparr> in
            if submit_ok e s (pa_Assignment pa) then sendTaskToAgent s1 (b_AgentId bid) (execution_task e intentID bid w)
            else handleAssignmentFailureLocked e s1 intentID assignmentID)"

subsection \<open>Matching\<close>

definition set_matched :: "Server \<Rightarrow> string \<Rightarrow> Server" where
  "set_matched s intentID =
     s\<lparr>srv_intents := (srv_intents s)(intentID := map_option (\<lambda>w. w\<lparr>iw_Matched := True\<rparr>) (srv_intents s intentID))\<rparr>"

definition performMatching :: "env \<Rightarrow> (nat list \<Rightarrow> nat list) \<Rightarrow> Server \<Rightarrow> string \<Rightarrow> Server" where
  "performMatching e srt s intentID =
     (case SelectWinner srt (case srv_bidsByIntent s intentID of None \<Rightarrow> [] | Some rs \<Rightarrow> rs) of
        None \<Rightarrow> set_matched s intentID
      | Some (winner, runnerUps) \<Rightarrow>
          let wb = srv_heap s ! winner;
              result =
                \<lparr>mr_MatcherId = srv_MatcherID s, mr_IntentId = intentID, mr_WinningBidId = b_BidId wb,
                 mr_WinningAgentId = b_AgentId wb, mr_RunnerUpBidIds = map (\<lambda>r. b_BidId (srv_heap s ! r)) runnerUps,
                 mr_MatchedAt = e_now e, mr_MatchingReason = ''Lowest price'',
                 mr_ResultHash = computeResultHash e (b_BidId wb) (b_AgentId wb),
                 mr_MatcherSignature =
                   (case signMatchingResult e s intentID (b_BidId wb) (b_AgentId wb) of None \<Rightarrow> [] | Some g \<Rightarrow> g)\<rparr>;
              s1 = set_matched (s\<lparr>srv_matchingResults := (srv_matchingResults s)(intentID \<mapsto> result)\<rparr>) intentID in
          broadcastIntentUpdateLocked e (createAssignment e s1 intentID winner) intentID ''MATCHED'')"

definition close_window :: "env \<Rightarrow> (nat list \<Rightarrow> nat list) \<Rightarrow> Server \<Rightarrow> string \<Rightarrow> Server" where
  "close_window e srt s intentID =
     (case srv_intents s intentID of
        None \<Rightarrow> s
      | Some w \<Rightarrow>
          if iw_WindowClosed w \<or> iw_Matched w then s
          else if e_now e \<ge> iw_BiddingEndTime w then
            broadcastIntentUpdateLocked e
              (performMatching e srt
                 (s\<lparr>srv_intents := (srv_intents s)(intentID \<mapsto> w\<lparr>iw_WindowClosed := True\<rparr>)\<rparr>) intentID)
              intentID ''WINDOW_CLOSED''
          else s)"

text \<open>\<open>ks\<close> is the visiting order of the intents, with the environment of each turn.\<close>

definition checkAndCloseWindows :: "(nat list \<Rightarrow> nat list) \<Rightarrow> Server \<Rightarrow> (env \<times> string) list \<Rightarrow> Server" where
  "checkAndCloseWindows srt s ks = foldl (\<lambda>s (e, i). close_window e srt s i) s ks"

subsection \<open>Responses and runner-ups\<close>

datatype job =
    RunnerUpPick Intent string
  | RunnerUpMark string nat
  | RunnerUpAssign string nat

definition RespondToTask ::
  "Server \<Rightarrow> TaskResponse option \<Rightarrow> Server \<times> job list \<times> (srv_error + bool \<times> string)" where
  "RespondToTask s resp =
     (case resp of
        None \<Rightarrow> (s, [], Inl InvalidRequest)
      | Some r \<Rightarrow>
          (case srv_pendingAssignments s (tr_TaskId r) of
             None \<Rightarrow> (s, [], Inr (False, ''Task not found or already confirmed''))
           | Some p \<Rightarrow>
               if tr_Accepted r then
                 (s\<lparr>srv_assignments := (srv_assignments s)(tr_TaskId r \<mapsto> pa_Assignment p),
                    srv_pendingAssignments := (srv_pendingAssignments s)(tr_TaskId r := None)\<rparr>,
                  [], Inr (True, ''Task accepted''))
               else
                 (s\<lparr>srv_pendingAssignments := (srv_pendingAssignments s)(tr_TaskId r := None)\<rparr>,
                  [RunnerUpPick (pa_Intent p) (tr_AgentId r)],
                  Inr (True, ''Task rejection recorded, attempting reassignment: '' @ tr_Reason r))))"

text \<open>The scan of \<open>tryAssignToRunnerUp\<close>.\<close>

definition better_bid :: "Server \<Rightarrow> string \<Rightarrow> nat option \<Rightarrow> nat \<Rightarrow> nat option" where
  "better_bid s excludeAgentID best r =
     (let b = srv_heap s ! r in
      if b_AgentId b = excludeAgentID then best
      else if b_Status b \<noteq> BID_STATUS_SUBMITTED then best
      else case best of
             None \<Rightarrow> Some r
           | Some m \<Rightarrow> if b_Price b < b_Price (srv_heap s ! m) then Some r else Some m)"

definition next_best :: "Server \<Rightarrow> string \<Rightarrow> string \<Rightarrow> nat option" where
  "next_best s intentID excludeAgentID =
     foldl (better_bid s excludeAgentID) None (case srv_bidsByIntent s intentID of None \<Rightarrow> [] | Some rs \<Rightarrow> rs)"

definition mark_winner :: "Server \<Rightarrow> nat \<Rightarrow> Server" where
  "mark_winner s r = s\<lparr>srv_heap := (srv_heap s)[r := (srv_heap s ! r)\<lparr>b_Status := BID_STATUS_WINNER\<rparr>]\<rparr>"

text \<open>The three stages of \<open>tryAssignToRunnerUp\<close>: a stage returns the next one.\<close>

definition tryAssignToRunnerUp :: "env \<Rightarrow> Server \<Rightarrow> job \<Rightarrow> Server \<times> job list" where
  "tryAssignToRunnerUp e s j =
     (case j of
        RunnerUpPick intent excludeAgentID \<Rightarrow>
          (s, case next_best s (in_IntentId intent) excludeAgentID of
                None \<Rightarrow> [] | Some r \<Rightarrow> [RunnerUpMark (in_IntentId intent) r])
      | RunnerUpMark intentID r \<Rightarrow>
          (mark_winner s r, if srv_intents s intentID \<noteq> None then [RunnerUpAssign intentID r] else [])
      | RunnerUpAssign intentID r \<Rightarrow> (createAssignment e s intentID r, []))"

definition GetMatchingResult :: "Server \<Rightarrow> string \<Rightarrow> MatchingResult option" where
  "GetMatchingResult s intentID = srv_matchingResults s intentID"

text \<open>\<open>ks\<close> and \<open>ps\<close> are the visiting orders of the confirmed and of the pending assignments.\<close>

definition GetAssignment :: "Server \<Rightarrow> string \<Rightarrow> string list \<Rightarrow> string list \<Rightarrow> Assignment option" where
  "GetAssignment s intentID ks ps =
     (case find (\<lambda>a. as_IntentId a = intentID) (List.map_filter (srv_assignments s) ks) of
        Some a \<Rightarrow> Some a
      | None \<Rightarrow>
          find (\<lambda>a. as_IntentId a = intentID)
            (List.map_filter (\<lambda>k. map_option pa_Assignment (srv_pendingAssignments s k)) ps))"

subsection \<open>Executions\<close>

inductive srv_step :: "Server \<times> job multiset \<Rightarrow> Server \<times> job multiset \<Rightarrow> bool" where
  intent: "srv_step (s, js) (fst (AddIntent e s i), js)"
| bid: "srv_step (s, js) (fst (SubmitBid e s b), js)"
| batch: "srv_step (s, js) (fst (SubmitBidBatch s p bs), js)"
| windows: "srv_step (s, js) (checkAndCloseWindows srt s ks, js)"
| respond: "RespondToTask s r = (s', new, resp) \<Longrightarrow> srv_step (s, js) (s', js + mset new)"
| run: "j \<in># js \<Longrightarrow> tryAssignToRunnerUp e s j = (s', new) \<Longrightarrow> srv_step (s, js) (s', js - {#j#} + mset new)"
| register: "srv_step (s, js) (fst (RegisterAgentForTasks s a), js)"
| unregister: "srv_step (s, js) (UnregisterAgentForTasks s a, js)"
| stream: "srv_step (s, js) (fst (StreamTasks_open s a), js)"
| unstream: "srv_step (s, js) (StreamTasks_exit s a sid c, js)"

inductive srv_reachable :: "Server \<times> job multiset \<Rightarrow> bool" where
  new: "srv_reachable (NewServer m w c a, {#})"
| step: "srv_reachable x \<Longrightarrow> srv_step x y \<Longrightarrow> srv_reachable y"

section \<open>What the operations leave alone\<close>

text \<open>The part of the state that assignments depend on.\<close>

definition core :: "Server \<Rightarrow> (string \<rightharpoonup> IntentWithWindow) \<times> (string \<rightharpoonup> Assignment) \<times> (string \<rightharpoonup> PendingAssignment)" where
  "core s = (srv_intents s, srv_assignments s, srv_pendingAssignments s)"

lemma core_broadcast [simp]: "core (broadcastIntentUpdateLocked e s i u) = core s"
proof -
  have "core (broadcast_one u s sid) = core s" for u s sid
    by (auto simp: broadcast_one_def core_def split: option.splits sum.splits)
  then have "core (foldl (broadcast_one u) s sids) = core s" for u sids
    by (induction sids arbitrary: s) simp_all
  then show ?thesis by (simp add: broadcastIntentUpdateLocked_def)
qed

lemma core_sendTask [simp]: "core (sendTaskToAgent s a t) = core s"
  by (auto simp: sendTaskToAgent_def core_def split: option.splits sum.splits)

lemma core_processSingleBid [simp]: "core (fst (processSingleBid e s b)) = core s"
  by (auto simp: processSingleBid_def core_def split: option.splits)

lemma core_batch_loop [simp]: "core (fst (batch_loop p s bs)) = core s"
proof (induction p s bs rule: batch_loop.induct)
  case (2 p s e b rest)
  obtain s1 ack where s1: "processSingleBid e s b = (s1, ack)" by (cases "processSingleBid e s b")
  then have "core s1 = core s" using core_processSingleBid [of e s b] by simp
  with 2 s1 show ?case by (auto simp: core_def split: prod.splits)
qed simp

lemma core_streams [simp]:
  "core (fst (RegisterAgentForTasks s a)) = core s" "core (UnregisterAgentForTasks s a) = core s"
  "core (fst (StreamTasks_open s a)) = core s" "core (StreamTasks_exit s a sid c) = core s"
  "core (fst (SubmitBid e s b)) = core s" "core (fst (SubmitBidBatch s p bs)) = core s"
  "core (mark_winner s r) = core s"
  using core_processSingleBid [of e s b] core_batch_loop [of p s bs]
  by (auto simp: RegisterAgentForTasks_def UnregisterAgentForTasks_def StreamTasks_open_def StreamTasks_exit_def
      close_task_chan_def SubmitBid_def SubmitBidBatch_def mark_winner_def core_def Let_def
      split: option.splits sum.splits prod.splits)

section \<open>At most one assignment per intent\<close>

fun job_intent :: "job \<Rightarrow> string" where
  "job_intent (RunnerUpPick i x) = in_IntentId i"
| "job_intent (RunnerUpMark i r) = i"
| "job_intent (RunnerUpAssign i r) = i"

definition pending_of :: "Server \<Rightarrow> string \<Rightarrow> string set" where
  "pending_of s i = {a. \<exists>p. srv_pendingAssignments s a = Some p \<and> as_IntentId (pa_Assignment p) = i}"

definition confirmed_of :: "Server \<Rightarrow> string \<Rightarrow> string set" where
  "confirmed_of s i = {a. \<exists>x. srv_assignments s a = Some x \<and> as_IntentId x = i}"

text \<open>Pending and confirmed assignments of an intent and background jobs for it.\<close>

definition live :: "Server \<Rightarrow> job multiset \<Rightarrow> string \<Rightarrow> nat" where
  "live s js i = card (pending_of s i) + card (confirmed_of s i) + size (filter_mset (\<lambda>j. job_intent j = i) js)"

definition settled :: "Server \<Rightarrow> string \<Rightarrow> bool" where
  "settled s i \<longleftrightarrow> (\<exists>w. srv_intents s i = Some w \<and> iw_WindowClosed w \<and> iw_Matched w)"

definition srv_wf :: "Server \<Rightarrow> bool" where
  "srv_wf s \<longleftrightarrow> finite (dom (srv_pendingAssignments s)) \<and> finite (dom (srv_assignments s))
     \<and> (\<forall>i w. srv_intents s i = Some w \<longrightarrow> in_IntentId (iw_Intent w) = i)
     \<and> (\<forall>a p. srv_pendingAssignments s a = Some p \<longrightarrow> in_IntentId (pa_Intent p) = as_IntentId (pa_Assignment p))"

definition srv_inv :: "Server \<Rightarrow> job multiset \<Rightarrow> bool" where
  "srv_inv s js \<longleftrightarrow> srv_wf s \<and> (\<forall>i. live s js i \<le> 1 \<and> (live s js i \<noteq> 0 \<longrightarrow> settled s i))"

lemmas inv_defs = srv_inv_def live_def settled_def srv_wf_def pending_of_def confirmed_of_def

lemma srv_inv_core: "core s = core t \<Longrightarrow> srv_inv s js = srv_inv t js"
  by (simp add: core_def srv_inv_def live_def srv_wf_def settled_def pending_of_def confirmed_of_def)

lemma pending_of_finite: "srv_wf s \<Longrightarrow> finite (pending_of s i)"
  unfolding srv_wf_def pending_of_def by (elim conjE) (rule finite_subset [of _ "dom (srv_pendingAssignments s)"], auto)

lemma confirmed_of_finite: "srv_wf s \<Longrightarrow> finite (confirmed_of s i)"
  unfolding srv_wf_def confirmed_of_def by (elim conjE) (rule finite_subset [of _ "dom (srv_assignments s)"], auto)

text \<open>A change confined to intent \<open>i\<close> keeps the invariant when it does for \<open>i\<close>.\<close>

lemma srv_inv_local:
  assumes inv: "srv_inv s js" and wf: "srv_wf s'"
    and others: "\<And>j. j \<noteq> i \<Longrightarrow> live s' js' j \<le> live s js j \<and> srv_intents s' j = srv_intents s j"
    and here: "live s' js' i \<le> 1" "live s' js' i \<noteq> 0 \<Longrightarrow> settled s' i"
  shows "srv_inv s' js'"
proof -
  have "live s' js' j \<le> 1 \<and> (live s' js' j \<noteq> 0 \<longrightarrow> settled s' j)" for j
  proof (cases "j = i")
    case False
    have "live s js j \<le> 1" "live s js j \<noteq> 0 \<longrightarrow> settled s j" using inv by (simp_all add: srv_inv_def)
    with others [OF False] show ?thesis by (auto simp: settled_def)
  qed (use here in simp)
  with wf show ?thesis by (simp add: srv_inv_def)
qed

lemma live_le:
  assumes "srv_wf s" "pending_of s' j \<subseteq> pending_of s j" "confirmed_of s' j \<subseteq> confirmed_of s j"
  shows "live s' js j \<le> live s js j"
  unfolding live_def
  using card_mono [OF pending_of_finite [OF assms(1)] assms(2)] card_mono [OF confirmed_of_finite [OF assms(1)] assms(3)]
  by simp

section \<open>Creating an assignment\<close>

text \<open>What \<open>createAssignment\<close> can do to the core: nothing, fail, or add one pending assignment.\<close>

definition bad_address :: "Bid \<Rightarrow> bool" where
  "bad_address bid \<longleftrightarrow>
     extractChainAddressFromBid (Some bid) = [] \<or> \<not> prefix ''0x'' (extractChainAddressFromBid (Some bid))"

lemma createAssignment_eq:
  assumes "srv_intents s i = Some w"
  shows "createAssignment e s i r =
    (let bid = srv_heap s ! r; aid = new_assignment_id e i (b_BidId bid); pa = pending_assignment e s i bid w;
         s1 = s\<lparr>srv_pendingAssignments := (srv_pendingAssignments s)(aid \<mapsto> pa),
                srv_assignmentAgents := (srv_assignmentAgents s)(aid \<mapsto> b_AgentId bid)\<rparr> in
     if bad_address bid then s
     else if submit_ok e s (pa_Assignment pa) then sendTaskToAgent s1 (b_AgentId bid) (execution_task e i bid w)
     else handleAssignmentFailureLocked e s1 i aid)"
  unfolding createAssignment_def Let_def assms option.case bad_address_def by (rule refl)

lemma core_handleFailure:
  assumes "srv_intents s i = Some w"
  shows "\<exists>w'. map_option iw_Intent w' \<in> {None, Some (iw_Intent w)} \<and> core (handleAssignmentFailureLocked e s i a) =
    core (s\<lparr>srv_intents := (srv_intents s)(i := w'), srv_pendingAssignments := (srv_pendingAssignments s)(a := None)\<rparr>)"
proof (cases "intentExpired (Some (iw_Intent w)) (e_now e)")
  case True
  with assms show ?thesis
    by (intro exI [of _ None])
      (simp add: handleAssignmentFailureLocked_def cleanupPendingAssignmentLocked_def dropIntentLocked_def core_def)
next
  case False
  with assms show ?thesis
    by (intro exI [of _ "Some (w\<lparr>iw_WindowClosed := False, iw_Matched := False, iw_BiddingStartTime := e_now e,
          iw_BiddingEndTime := e_now e + srv_BiddingWindowSec s\<rparr>)"])
      (simp add: handleAssignmentFailureLocked_def cleanupPendingAssignmentLocked_def resetIntentWindowLocked_def core_def)
qed

lemma core_createAssignment:
  "core (createAssignment e s i r) = core s \<or>
   (\<exists>a p w. srv_intents s i = Some w \<and> as_IntentId (pa_Assignment p) = i \<and> pa_Intent p = iw_Intent w
      \<and> core (createAssignment e s i r) = core (s\<lparr>srv_pendingAssignments := (srv_pendingAssignments s)(a \<mapsto> p)\<rparr>)) \<or>
   (\<exists>a w w'. srv_intents s i = Some w \<and> map_option iw_Intent w' \<in> {None, Some (iw_Intent w)}
      \<and> core (createAssignment e s i r) =
         core (s\<lparr>srv_intents := (srv_intents s)(i := w'), srv_pendingAssignments := (srv_pendingAssignments s)(a := None)\<rparr>))"
proof (cases "srv_intents s i")
  case None
  then show ?thesis by (simp add: createAssignment_def Let_def)
next
  case (Some w)
  define bid where "bid = srv_heap s ! r"
  define aid where "aid = new_assignment_id e i (b_BidId bid)"
  define pa where "pa = pending_assignment e s i bid w"
  define s1 where "s1 = s\<lparr>srv_pendingAssignments := (srv_pendingAssignments s)(aid \<mapsto> pa),
    srv_assignmentAgents := (srv_assignmentAgents s)(aid \<mapsto> b_AgentId bid)\<rparr>"
  have pa: "as_IntentId (pa_Assignment pa) = i" "pa_Intent pa = iw_Intent w"
    by (simp_all add: pa_def pending_assignment_def Let_def)
  consider "createAssignment e s i r = s"
    | "createAssignment e s i r = sendTaskToAgent s1 (b_AgentId bid) (execution_task e i bid w)"
    | "createAssignment e s i r = handleAssignmentFailureLocked e s1 i aid"
    using createAssignment_eq [OF Some, of e r] unfolding Let_def bid_def aid_def pa_def s1_def by metis
  then show ?thesis
  proof cases
    case 2
    then have "core (createAssignment e s i r) = core (s\<lparr>srv_pendingAssignments := (srv_pendingAssignments s)(aid \<mapsto> pa)\<rparr>)"
      by (simp only: core_sendTask) (simp add: s1_def core_def)
    with Some pa show ?thesis by (intro disjI2 disjI1 exI [of _ aid] exI [of _ pa] exI [of _ w] conjI) simp_all
  next
    case 3
    have "srv_intents s1 i = Some w" using Some by (simp add: s1_def)
    from core_handleFailure [OF this, of e aid] 3 obtain w' where
      "map_option iw_Intent w' \<in> {None, Some (iw_Intent w)}" "core (createAssignment e s i r) =
        core (s1\<lparr>srv_intents := (srv_intents s1)(i := w'), srv_pendingAssignments := (srv_pendingAssignments s1)(aid := None)\<rparr>)"
      by metis
    then have f: "map_option iw_Intent w' \<in> {None, Some (iw_Intent w)}" "core (createAssignment e s i r) =
        core (s\<lparr>srv_intents := (srv_intents s)(i := w'), srv_pendingAssignments := (srv_pendingAssignments s)(aid := None)\<rparr>)"
      by (simp_all add: s1_def core_def)
    show ?thesis by (rule disjI2, rule disjI2, rule exI, rule exI, rule exI, intro conjI) (rule Some, rule f, rule f)
  qed simp
qed

lemma createAssignment_inv:
  assumes inv: "srv_inv s js" and free: "live s js i = 0" and closed: "settled s i"
  shows "srv_inv (createAssignment e s i r) js"
proof -
  have wf: "srv_wf s" using inv by (simp add: srv_inv_def)
  have none: "pending_of s i = {}" "confirmed_of s i = {}" "size (filter_mset (\<lambda>j. job_intent j = i) js) = 0"
    using free pending_of_finite [OF wf] confirmed_of_finite [OF wf] by (simp_all add: live_def)
  from core_createAssignment [of e s i r] show ?thesis
  proof (elim disjE exE conjE)
    assume "core (createAssignment e s i r) = core s"
    with inv show ?thesis using srv_inv_core by metis
  next
    fix a p w
    assume w: "srv_intents s i = Some w" and p: "as_IntentId (pa_Assignment p) = i" "pa_Intent p = iw_Intent w"
      and core: "core (createAssignment e s i r) = core (s\<lparr>srv_pendingAssignments := (srv_pendingAssignments s)(a \<mapsto> p)\<rparr>)"
    let ?t = "s\<lparr>srv_pendingAssignments := (srv_pendingAssignments s)(a \<mapsto> p)\<rparr>"
    have "srv_inv ?t js"
    proof (rule srv_inv_local [OF inv, of _ i])
      show "srv_wf ?t" using wf w p by (auto simp: srv_wf_def)
      have "pending_of ?t i = {a}" "confirmed_of ?t i = {}" using none p(1) by (auto simp: pending_of_def confirmed_of_def)
      then show "live ?t js i \<le> 1" using none(3) by (simp add: live_def)
      show "settled ?t i" using closed by (simp add: settled_def)
      show "live ?t js j \<le> live s js j \<and> srv_intents ?t j = srv_intents s j" if "j \<noteq> i" for j
      proof
        show "live ?t js j \<le> live s js j"
          by (rule live_le [OF wf]) (use that p(1) in \<open>auto simp: pending_of_def confirmed_of_def split: if_splits\<close>)
      qed simp
    qed
    with srv_inv_core [OF core, of js] show ?thesis by simp
  next
    fix a w w'
    assume w: "srv_intents s i = Some w" "map_option iw_Intent w' \<in> {None, Some (iw_Intent w)}"
      and core: "core (createAssignment e s i r) =
        core (s\<lparr>srv_intents := (srv_intents s)(i := w'), srv_pendingAssignments := (srv_pendingAssignments s)(a := None)\<rparr>)"
    let ?t = "s\<lparr>srv_intents := (srv_intents s)(i := w'), srv_pendingAssignments := (srv_pendingAssignments s)(a := None)\<rparr>"
    have le: "live ?t js j \<le> live s js j" for j
      by (rule live_le [OF wf]) (auto simp: pending_of_def confirmed_of_def split: if_splits)
    have "srv_inv ?t js"
    proof (rule srv_inv_local [OF inv, of _ i])
      show "srv_wf ?t" using wf w by (auto simp: srv_wf_def split: if_splits)
      show "live ?t js i \<le> 1" "live ?t js i \<noteq> 0 \<Longrightarrow> settled ?t i" using le [of i] free by simp_all
    qed (use le in simp)
    with srv_inv_core [OF core, of js] show ?thesis by simp
  qed
qed

section \<open>Steps keep the invariant\<close>

lemma live_intents [simp]: "live (s\<lparr>srv_intents := m\<rparr>) js i = live s js i"
  by (simp add: live_def pending_of_def confirmed_of_def)

text \<open>Changing the window of an intent that has nothing live, but not its intent.\<close>

lemma srv_inv_window:
  assumes "srv_inv s js" "live s js i = 0" "in_IntentId (iw_Intent w) = i"
  shows "srv_inv (s\<lparr>srv_intents := (srv_intents s)(i \<mapsto> w)\<rparr>) js"
proof (rule srv_inv_local [OF assms(1), of _ i])
  show "srv_wf (s\<lparr>srv_intents := (srv_intents s)(i \<mapsto> w)\<rparr>)"
    using assms(1,3) by (simp add: srv_inv_def srv_wf_def)
qed (use assms(2) in simp_all)

lemma AddIntent_inv:
  assumes "srv_inv s js"
  shows "srv_inv (fst (AddIntent e s x)) js"
proof (cases x)
  case None
  with assms show ?thesis by (simp add: AddIntent_def)
next
  case (Some i)
  show ?thesis
  proof (cases "srv_intents s (in_IntentId i)")
    case None
    let ?w = "\<lparr>iw_Intent = i, iw_BiddingStartTime = e_now e, iw_BiddingEndTime = e_now e + srv_BiddingWindowSec s,
      iw_WindowClosed = False, iw_Matched = False\<rparr>"
    let ?s = "s\<lparr>srv_intents := (srv_intents s)(in_IntentId i \<mapsto> ?w)\<rparr>"
    have "live s js (in_IntentId i) = 0" using assms None by (auto simp: srv_inv_def settled_def)
    then have "srv_inv ?s js" by (intro srv_inv_window [OF assms]) simp_all
    moreover have "core (fst (AddIntent e s x)) \<in> {core s, core ?s}"
      using Some None by (simp add: AddIntent_def Let_def) (simp add: core_def)
    ultimately show ?thesis using assms srv_inv_core by blast
  qed (use assms Some in \<open>simp add: AddIntent_def\<close>)
qed

lemma performMatching_inv:
  assumes inv: "srv_inv s js" and w: "srv_intents s i = Some w" "iw_WindowClosed w" and free: "live s js i = 0"
  shows "srv_inv (performMatching e srt s i) js"
proof -
  let ?m = "s\<lparr>srv_intents := (srv_intents s)(i \<mapsto> w\<lparr>iw_Matched := True\<rparr>)\<rparr>"
  have id: "in_IntentId (iw_Intent w) = i" using inv w(1) by (simp add: srv_inv_def srv_wf_def)
  have m: "srv_inv ?m js" by (rule srv_inv_window [OF inv free]) (simp add: id)
  show ?thesis
  proof (cases "SelectWinner srt (case srv_bidsByIntent s i of None \<Rightarrow> [] | Some rs \<Rightarrow> rs)")
    case None
    then have "core (performMatching e srt s i) = core ?m" using w by (simp add: performMatching_def set_matched_def core_def)
    with m show ?thesis using srv_inv_core by blast
  next
    case (Some wr)
    obtain win ups where wr: "wr = (win, ups)" by (cases wr)
    obtain res where pm: "performMatching e srt s i = broadcastIntentUpdateLocked e (createAssignment e
        (set_matched (s\<lparr>srv_matchingResults := (srv_matchingResults s)(i \<mapsto> res)\<rparr>) i) i win) i ''MATCHED''"
      using Some wr by (simp add: performMatching_def Let_def)
    let ?s1 = "set_matched (s\<lparr>srv_matchingResults := (srv_matchingResults s)(i \<mapsto> res)\<rparr>) i"
    have core: "core ?s1 = core ?m" using w by (simp add: set_matched_def core_def)
    then have "srv_inv ?s1 js" using m srv_inv_core by blast
    moreover have "live ?s1 js i = 0" using free by (simp add: set_matched_def live_def pending_of_def confirmed_of_def)
    moreover have "settled ?s1 i" using w by (simp add: set_matched_def settled_def)
    ultimately have "srv_inv (createAssignment e ?s1 i win) js" by (rule createAssignment_inv)
    with pm show ?thesis using srv_inv_core [OF core_broadcast] by metis
  qed
qed

lemma close_window_inv:
  assumes inv: "srv_inv s js"
  shows "srv_inv (close_window e srt s i) js"
proof (cases "srv_intents s i")
  case None
  with inv show ?thesis by (simp add: close_window_def)
next
  case (Some w)
  let ?s = "s\<lparr>srv_intents := (srv_intents s)(i \<mapsto> w\<lparr>iw_WindowClosed := True\<rparr>)\<rparr>"
  have id: "in_IntentId (iw_Intent w) = i" using inv Some by (simp add: srv_inv_def srv_wf_def)
  show ?thesis
  proof (cases "iw_WindowClosed w \<or> iw_Matched w \<or> \<not> e_now e \<ge> iw_BiddingEndTime w")
    case True
    with inv Some show ?thesis by (auto simp: close_window_def)
  next
    case False
    then have free: "live s js i = 0" using inv Some by (auto simp: srv_inv_def settled_def)
    then have "srv_inv ?s js" by (intro srv_inv_window [OF inv]) (simp_all add: id)
    then have "srv_inv (performMatching e srt ?s i) js"
      by (rule performMatching_inv [where w = "w\<lparr>iw_WindowClosed := True\<rparr>"]) (use free in simp_all)
    moreover have "close_window e srt s i =
        broadcastIntentUpdateLocked e (performMatching e srt ?s i) i ''WINDOW_CLOSED''"
      using False Some by (simp add: close_window_def)
    ultimately show ?thesis using srv_inv_core [OF core_broadcast] by metis
  qed
qed

lemma checkAndCloseWindows_inv: "srv_inv s js \<Longrightarrow> srv_inv (checkAndCloseWindows srt s ks) js"
  unfolding checkAndCloseWindows_def
  by (induction ks arbitrary: s) (auto intro: close_window_inv)

lemma RespondToTask_inv:
  assumes inv: "srv_inv s js" and resp: "RespondToTask s x = (s', new, r)"
  shows "srv_inv s' (js + mset new)"
proof (cases "\<exists>t p. x = Some t \<and> srv_pendingAssignments s (tr_TaskId t) = Some p")
  case False
  with inv resp show ?thesis by (auto simp: RespondToTask_def split: option.splits)
next
  case True
  then obtain t p where t: "x = Some t" "srv_pendingAssignments s (tr_TaskId t) = Some p" by blast
  define i where "i = as_IntentId (pa_Assignment p)"
  have wf: "srv_wf s" and id: "in_IntentId (pa_Intent p) = i" using inv t(2) by (simp_all add: srv_inv_def srv_wf_def i_def)
  have mem: "tr_TaskId t \<in> pending_of s i" using t(2) by (simp add: pending_of_def i_def)
  then have pos: "card (pending_of s i) = Suc (card (pending_of s i - {tr_TaskId t}))"
    using pending_of_finite [OF wf] by (metis card.remove)
  have live1: "live s js i \<le> 1" and "live s js i \<noteq> 0 \<longrightarrow> settled s i" using inv by (simp_all add: srv_inv_def)
  moreover have "live s js i \<noteq> 0" using pos by (simp add: live_def)
  ultimately have set: "settled s i" by blast
  have s': "s' = s\<lparr>srv_pendingAssignments := (srv_pendingAssignments s)(tr_TaskId t := None)\<rparr> \<and> new = [RunnerUpPick (pa_Intent p) (tr_AgentId t)]
     \<or> s' = s\<lparr>srv_assignments := (srv_assignments s)(tr_TaskId t \<mapsto> pa_Assignment p),
              srv_pendingAssignments := (srv_pendingAssignments s)(tr_TaskId t := None)\<rparr> \<and> new = []"
    using resp t by (auto simp: RespondToTask_def split: if_splits)
  have pend: "pending_of s' j = pending_of s j - {tr_TaskId t}" for j
    using s' by (auto simp: pending_of_def split: if_splits)
  have conf: "confirmed_of s' j \<subseteq> (if new = [] \<and> j = i then insert (tr_TaskId t) (confirmed_of s j) else confirmed_of s j)" for j
    using s' by (auto simp: confirmed_of_def i_def split: if_splits)
  have sz: "size (filter_mset (\<lambda>k. job_intent k = j) (js + mset new)) =
      size (filter_mset (\<lambda>k. job_intent k = j) js) + (if new \<noteq> [] \<and> j = i then 1 else 0)" for j
    using s' id by auto
  have cc: "card (confirmed_of s' j) \<le> card (confirmed_of s j) + (if new = [] \<and> j = i then 1 else 0)" for j
    using card_mono [OF _ conf [of j]] card_insert_le_m1 confirmed_of_finite [OF wf, of j]
    by (auto simp: card_insert_if split: if_splits)
  have ints: "srv_intents s' = srv_intents s" using s' by auto
  show ?thesis
  proof (rule srv_inv_local [OF inv, of _ i])
    show "srv_wf s'" using s' wf by (auto simp: srv_wf_def split: if_splits)
    have "Suc (card (pending_of s' i)) = card (pending_of s i)" unfolding pend by (rule pos [symmetric])
    then have "live s' (js + mset new) i \<le> live s js i"
      unfolding live_def using cc [of i] sz [of i] by (cases "new = []") simp_all
    then show "live s' (js + mset new) i \<le> 1" using live1 by simp
    show "settled s' i" using set ints by (simp add: settled_def)
    show "live s' (js + mset new) j \<le> live s js j \<and> srv_intents s' j = srv_intents s j" if "j \<noteq> i" for j
    proof
      have "card (pending_of s' j) \<le> card (pending_of s j)"
        unfolding pend by (rule card_mono [OF pending_of_finite [OF wf]]) blast
      then show "live s' (js + mset new) j \<le> live s js j"
        unfolding live_def sz using cc [of j] that by simp
    qed (simp add: ints)
  qed
qed

lemma live_job: "j \<in># js \<Longrightarrow> live s js (job_intent j) = Suc (live s (js - {#j#}) (job_intent j))"
  by (auto simp: live_def dest!: multi_member_split)

lemma live_job_other: "i \<noteq> job_intent j \<Longrightarrow> live s (js - {#j#}) i = live s js i"
proof -
  assume "i \<noteq> job_intent j"
  then have "filter_mset (\<lambda>k. job_intent k = i) (js - {#j#}) = filter_mset (\<lambda>k. job_intent k = i) js" by auto
  then show ?thesis by (simp add: live_def)
qed

lemma srv_inv_job:
  assumes "srv_inv s js" "j \<in># js"
  shows "srv_inv s (js - {#j#})" "live s (js - {#j#}) (job_intent j) = 0" "settled s (job_intent j)"
proof -
  have "live s js (job_intent j) \<le> 1" "live s js (job_intent j) \<noteq> 0 \<longrightarrow> settled s (job_intent j)"
    using assms(1) by (simp_all add: srv_inv_def)
  with live_job [OF assms(2), of s] show zero: "live s (js - {#j#}) (job_intent j) = 0" and "settled s (job_intent j)"
    by simp_all
  show "srv_inv s (js - {#j#})"
    by (rule srv_inv_local [OF assms(1), of _ "job_intent j"])
      (use assms(1) zero live_job_other in \<open>simp_all add: srv_inv_def\<close>)
qed

lemma srv_inv_add_job:
  assumes "srv_inv s js" "live s js (job_intent j) = 0" "settled s (job_intent j)"
  shows "srv_inv s (js + {#j#})"
proof -
  have "live s (js + {#j#}) i = live s js i + (if i = job_intent j then 1 else 0)" for i by (simp add: live_def)
  with assms show ?thesis by (simp add: srv_inv_def)
qed

lemma run_job_inv:
  assumes inv: "srv_inv s js" and j: "j \<in># js" and run: "tryAssignToRunnerUp e s j = (s', new)"
  shows "srv_inv s' (js - {#j#} + mset new)"
proof (cases j)
  case (RunnerUpPick i x)
  with run have "s' = s" "new = [] \<or> (\<exists>r. new = [RunnerUpMark (in_IntentId i) r])"
    by (auto simp: tryAssignToRunnerUp_def split: option.splits)
  with srv_inv_job [OF inv j] RunnerUpPick show ?thesis by (auto dest: srv_inv_add_job [of _ _ "RunnerUpMark _ _", simplified])
next
  case (RunnerUpMark i r)
  with run have s': "s' = mark_winner s r" "new = [] \<or> new = [RunnerUpAssign i r]"
    by (auto simp: tryAssignToRunnerUp_def split: if_splits)
  have "srv_inv s (js - {#j#} + mset new)"
    using srv_inv_job [OF inv j] RunnerUpMark s'(2) by (auto dest: srv_inv_add_job [of _ _ "RunnerUpAssign _ _", simplified])
  with s'(1) show ?thesis using srv_inv_core [OF core_streams(7)] by metis
next
  case (RunnerUpAssign i r)
  with run have "s' = createAssignment e s i r" "new = []" by (simp_all add: tryAssignToRunnerUp_def)
  with srv_inv_job [OF inv j] RunnerUpAssign show ?thesis by (simp add: createAssignment_inv)
qed

lemma srv_step_inv: "srv_step x y \<Longrightarrow> srv_inv (fst x) (snd x) \<Longrightarrow> srv_inv (fst y) (snd y)"
proof (induction rule: srv_step.induct)
  case (respond s r s' new resp js)
  then show ?case using RespondToTask_inv by simp
next
  case (run j js e s s' new)
  then show ?case using run_job_inv by simp
qed (simp_all add: AddIntent_inv checkAndCloseWindows_inv srv_inv_core [OF core_streams(1)] srv_inv_core [OF core_streams(2)]
    srv_inv_core [OF core_streams(3)] srv_inv_core [OF core_streams(4)] srv_inv_core [OF core_streams(5)]
    srv_inv_core [OF core_streams(6)])

lemma srv_reachable_inv: "srv_reachable x \<Longrightarrow> srv_inv (fst x) (snd x)"
proof (induction rule: srv_reachable.induct)
  case (new m w c a)
  show ?case by (simp add: NewServer_def srv_inv_def srv_wf_def live_def pending_of_def confirmed_of_def)
next
  case (step x y)
  then show ?case using srv_step_inv by blast
qed

section \<open>Bids\<close>

lemma batch_loop_acks:
  "list_all (\<lambda>(e, b). b \<noteq> None) bs \<Longrightarrow>
   map ack_BidId (snd (batch_loop p s bs)) = map (\<lambda>(e, b). b_BidId (the b)) bs"
proof (induction p s bs rule: batch_loop.induct)
  case (2 p s e b rest)
  obtain s1 ack where s1: "processSingleBid e s b = (s1, ack)" by (cases "processSingleBid e s b")
  have id: "ack_BidId ack = b_BidId (the b)"
    using s1 2(2) by (auto simp: processSingleBid_def reject_ack_def split: option.splits if_splits)
  have rest: "list_all (\<lambda>(e, b). b \<noteq> None) rest" using 2(2) by simp
  have heads: "map ack_BidId (map (\<lambda>(_, b). reject_ack (b_BidId (the b)) stopped_reason) rest)
      = map (\<lambda>(e, b). b_BidId (the b)) rest"
    by (simp add: reject_ack_def case_prod_beta comp_def)
  show ?case
  proof (cases "ack_Accepted ack \<or> p")
    case True
    then show ?thesis using 2(1) [OF s1 [symmetric] True rest] s1 id by (cases "batch_loop p s1 rest") simp
  next
    case False
    then show ?thesis using s1 id rest heads by simp
  qed
qed simp

text \<open>The references that a run of bids appends to the lists of an intent.\<close>

definition bids_of :: "Server \<Rightarrow> string \<Rightarrow> Bid list" where
  "bids_of s i = map ((!) (srv_heap s)) (case srv_bidsByIntent s i of None \<Rightarrow> [] | Some rs \<Rightarrow> rs)"

definition refs_ok :: "Server \<Rightarrow> bool" where
  "refs_ok s \<longleftrightarrow> (\<forall>i rs. srv_bidsByIntent s i = Some rs \<longrightarrow> list_all (\<lambda>r. r < length (srv_heap s)) rs)"

lemma processSingleBid_bids:
  assumes "refs_ok s" "processSingleBid e s b = (s1, ack)"
  shows "refs_ok s1 \<and> bids_of s1 i =
    bids_of s i @ (if ack_Accepted ack \<and> b_IntentId (the b) = i then [the b] else [])"
proof (cases "s1 = s")
  case True
  with assms show ?thesis
    by (auto simp: processSingleBid_def reject_ack_def split: option.splits if_splits dest: arg_cong [of _ _ srv_heap])
next
  case False
  then obtain b' where b: "b = Some b'" and acc: "ack_Accepted ack" and s1: "s1 =
      s\<lparr>srv_heap := srv_heap s @ [b'], srv_bidsByIntent := (srv_bidsByIntent s)(b_IntentId b' \<mapsto>
        (case srv_bidsByIntent s (b_IntentId b') of None \<Rightarrow> [] | Some rs \<Rightarrow> rs) @ [length (srv_heap s)])\<rparr>"
    using assms(2) by (auto simp: processSingleBid_def split: option.splits if_splits)
  have old: "map ((!) (srv_heap s @ [b'])) rs = map ((!) (srv_heap s)) rs" if "srv_bidsByIntent s j = Some rs" for j rs
    using assms(1) that by (auto simp: refs_ok_def list_all_iff nth_append)
  have "list_all (\<lambda>r. r < Suc (length (srv_heap s))) rs" if "srv_bidsByIntent s j = Some rs" for j rs
    using assms(1) that by (auto simp: refs_ok_def list_all_iff less_Suc_eq)
  then have "refs_ok s1" by (auto simp: refs_ok_def s1 split: option.splits if_splits)
  moreover have "bids_of s1 i = bids_of s i @ (if b_IntentId b' = i then [b'] else [])"
    using old [of i] by (cases "srv_bidsByIntent s i") (auto simp: bids_of_def s1)
  ultimately show ?thesis using b acc by simp
qed

lemma batch_loop_bids:
  assumes "refs_ok s" "list_all (\<lambda>(e, b). b \<noteq> None) bs"
  shows "refs_ok (fst (batch_loop p s bs)) \<and> bids_of (fst (batch_loop p s bs)) i = bids_of s i @
    map (the \<circ> snd \<circ> fst)
      (filter (\<lambda>((e, b), a). ack_Accepted a \<and> b_IntentId (the b) = i) (zip bs (snd (batch_loop p s bs))))"
  using assms
proof (induction p s bs rule: batch_loop.induct)
  case (2 p s e b rest)
  obtain s1 ack where s1: "processSingleBid e s b = (s1, ack)" by (cases "processSingleBid e s b")
  have rest: "list_all (\<lambda>(e, b). b \<noteq> None) rest" using 2(3) by simp
  note one = processSingleBid_bids [OF 2(2) s1, of i]
  have rejected: "filter (\<lambda>((e, b), a). ack_Accepted a \<and> b_IntentId (the b) = i)
      (zip rest (map (\<lambda>(_, b). reject_ack (b_BidId (the b)) stopped_reason) rest)) = []"
    by (auto simp: filter_empty_conv set_zip reject_ack_def case_prod_beta)
  show ?case
  proof (cases "ack_Accepted ack \<or> p")
    case True
    obtain s2 acks where s2: "batch_loop p s1 rest = (s2, acks)" by (cases "batch_loop p s1 rest")
    have "batch_loop p s ((e, b) # rest) = (s2, ack # acks)" using True s1 s2 by simp
    with 2(1) [OF s1 [symmetric] True _ rest] one s2 show ?thesis by auto
  next
    case False
    then have "batch_loop p s ((e, b) # rest) =
        (s1, ack # map (\<lambda>(_, b). reject_ack (b_BidId (the b)) stopped_reason) rest)"
      using s1 rest by simp
    with one False rejected show ?thesis by simp
  qed
qed simp

section \<open>Properties\<close>


definition example_env :: "int \<Rightarrow> env" where
  "example_env t =
     \<lparr>e_now = t, e_nanos = t, e_sha256 = (\<lambda>x. [1]), e_HashMessage = (\<lambda>x. x), e_Sign = (\<lambda>x. Some x),
      e_GetAddress = ''0xaa'', e_HexToAddress = bytes_of, e_sdk = None, e_rootlayer = Some (\<lambda>_. True), e_verifier = None\<rparr>"

definition example_intent :: Intent where
  "example_intent =
     \<lparr>in_IntentId = ''i1'', in_SubnetId = [], in_Requester = [], in_SettleChain = [], in_IntentType = [], in_Params = None,
      in_ParamsHash = [], in_TipsToken = [], in_Tips = [], in_BudgetToken = [], in_Budget = [], in_Deadline = 0,
      in_IntentExpiration = 0, in_Status = 0, in_CreatedAt = 0, in_Signature = [], in_PendingConfirmed = False,
      in_ProcessingConfirmed = False, in_ValidationConfirmed = False\<rparr>"

definition example_bid :: "string \<Rightarrow> u64 \<Rightarrow> string \<Rightarrow> Bid" where
  "example_bid k price agent =
     \<lparr>b_BidId = k, b_IntentId = ''i1'', b_AgentId = agent, b_Price = price, b_Token = [], b_SettleChain = [],
      b_SubmittedAt = 0, b_Nonce = [], b_Signature = [], b_Status = BID_STATUS_SUBMITTED, b_Metadata = Map.empty\<rparr>"

definition example_server :: Server where
  "example_server =
     fst (SubmitBid (example_env 1) (fst (AddIntent (example_env 0) (NewServer ''m'' 10 False False) (Some example_intent)))
       (Some (example_bid ''b1'' 5 ''0x01'')))"

definition example_matched :: Server where
  "example_matched = checkAndCloseWindows id example_server [(example_env 20, ''i1'')]"

lemma example_matched_reachable: "srv_reachable (example_matched, {#})"
  unfolding example_matched_def example_server_def
  by (rule srv_reachable.step, rule srv_reachable.step, rule srv_reachable.step, rule srv_reachable.new,
      rule srv_step.intent, rule srv_step.bid, rule srv_step.windows)

lemmas env_simps = example_env_def example_intent_def example_bid_def intentExpired_def verify_agent_def
  broadcastIntentUpdateLocked_def

lemma example_server_eq:
  "example_server = (NewServer ''m'' 10 False False)
     \<lparr>srv_intents := [''i1'' \<mapsto> \<lparr>iw_Intent = example_intent, iw_BiddingStartTime = 0, iw_BiddingEndTime = 10,
                               iw_WindowClosed = False, iw_Matched = False\<rparr>],
      srv_heap := [example_bid ''b1'' 5 ''0x01''], srv_bidsByIntent := [''i1'' \<mapsto> [0]]\<rparr>"
  by (simp add: example_server_def NewServer_def AddIntent_def SubmitBid_def processSingleBid_def env_simps Let_def)

lemma example_address: "\<not> bad_address (example_bid ''b1'' 5 ''0x01'')"
  by (simp add: bad_address_def extractChainAddressFromBid_def example_bid_def TrimSpace_def is_space_def)

lemma example_perform:
  "srv_intents s ''i1'' = Some w \<Longrightarrow> srv_bidsByIntent s ''i1'' = Some [0] \<Longrightarrow> srv_heap s = [example_bid ''b1'' 5 ''0x01''] \<Longrightarrow>
   srv_intentStreams s = Map.empty \<Longrightarrow> srv_agentTasks s = Map.empty \<Longrightarrow>
   srv_EnableChainSubmit s = False \<Longrightarrow>
   \<exists>pa m. srv_pendingAssignments (performMatching (example_env 20) srt s ''i1'') = (srv_pendingAssignments s)(''0x01'' \<mapsto> pa)
     \<and> as_IntentId (pa_Assignment pa) = ''i1''
     \<and> srv_matchingResults (performMatching (example_env 20) srt s ''i1'') = (srv_matchingResults s)(''i1'' \<mapsto> m)"
  if "srt [0] = [0]" for srt s w
proof -
  assume s: "srv_intents s ''i1'' = Some w" "srv_bidsByIntent s ''i1'' = Some [0]"
    "srv_heap s = [example_bid ''b1'' 5 ''0x01'']" "srv_intentStreams s = Map.empty" "srv_agentTasks s = Map.empty"
    "srv_EnableChainSubmit s = False"
  have aid: "new_assignment_id (example_env 20) ''i1'' x = ''0x01''" for x
    by (simp add: new_assignment_id_def example_env_def EncodeToString_def hex_of_byte_def hex_digit_def)
  have ok: "submit_ok (example_env 20) t a" if "srv_EnableChainSubmit t = False" for t a
    using that by (simp add: submit_ok_def example_env_def)
  have eq: "createAssignment (example_env 20) t ''i1'' 0 = sendTaskToAgent
      (t\<lparr>srv_pendingAssignments := (srv_pendingAssignments t)(''0x01'' \<mapsto> pending_assignment (example_env 20) t ''i1'' (srv_heap t ! 0) v),
         srv_assignmentAgents := (srv_assignmentAgents t)(''0x01'' \<mapsto> b_AgentId (srv_heap t ! 0))\<rparr>)
      (b_AgentId (srv_heap t ! 0)) (execution_task (example_env 20) ''i1'' (srv_heap t ! 0) v)"
    if "srv_intents t ''i1'' = Some v" "srv_heap t = [example_bid ''b1'' 5 ''0x01'']" "srv_EnableChainSubmit t = False" for t v
    using that example_address by (simp add: createAssignment_eq [OF that(1)] Let_def aid ok)
  show ?thesis
    using s that
    by (simp add: performMatching_def SelectWinner_def set_matched_def Let_def eq sendTaskToAgent_def
        broadcastIntentUpdateLocked_def pending_assignment_def)
      (rule exI, rule conjI, rule refl, rule conjI, simp, rule exI, rule refl)
qed


text \<open>
  Closing a window records the cheapest bid as the winner: for every ordering that the sorting may
  give to equal prices, the bid recorded in the matching result, if one is recorded, is among the
  bids of the intent and none of them has a lower price.
\<close>

theorem performMatching_lowest:
  assumes "price_sort (\<lambda>r. b_Price (srv_heap s ! r)) srt" "srv_bidsByIntent s i = Some rs"
    and "srv_matchingResults s i = None" "GetMatchingResult (performMatching e srt s i) i = Some m"
  shows "\<exists>w \<in> set rs. mr_WinningBidId m = b_BidId (srv_heap s ! w) \<and> mr_WinningAgentId m = b_AgentId (srv_heap s ! w)
    \<and> list_all (\<lambda>r. b_Price (srv_heap s ! w) \<le> b_Price (srv_heap s ! r)) rs"
proof (cases "SelectWinner srt rs")
  case None
  with assms(2-4) show ?thesis by (simp add: performMatching_def set_matched_def GetMatchingResult_def)
next
  case (Some wr)
  obtain w ups where wr: "wr = (w, ups)" by (cases wr)
  note sel = SelectWinner_Some [OF assms(1) Some [unfolded wr]]
  have results: "srv_matchingResults (broadcastIntentUpdateLocked e t j u) = srv_matchingResults t"
      "srv_matchingResults (sendTaskToAgent t a k) = srv_matchingResults t" for t j u a k e
  proof -
    have one: "srv_matchingResults (broadcast_one v t sid) = srv_matchingResults t" for v t sid
      by (auto simp: broadcast_one_def split: option.splits sum.splits)
    have "srv_matchingResults (foldl (broadcast_one v) t sids) = srv_matchingResults t" for v sids
      by (induction sids arbitrary: t) (simp_all add: one)
    then show "srv_matchingResults (broadcastIntentUpdateLocked e t j u) = srv_matchingResults t"
      by (simp add: broadcastIntentUpdateLocked_def)
    show "srv_matchingResults (sendTaskToAgent t a k) = srv_matchingResults t"
      by (auto simp: sendTaskToAgent_def split: option.splits sum.splits)
  qed
  have keep: "srv_matchingResults (createAssignment e t i w) i \<in> {None, srv_matchingResults t i}" for t
  proof (cases "srv_intents t i")
    case None
    then show ?thesis by (simp add: createAssignment_def Let_def)
  next
    case (Some v)
    have "srv_matchingResults (handleAssignmentFailureLocked e u i a) i \<in> {None, srv_matchingResults u i}" for u a
      by (auto simp: handleAssignmentFailureLocked_def cleanupPendingAssignmentLocked_def dropIntentLocked_def
          resetIntentWindowLocked_def split: option.splits)
    from this [of "t\<lparr>srv_pendingAssignments := _, srv_assignmentAgents := _\<rparr>"]
    show ?thesis by (simp add: createAssignment_eq [OF Some] Let_def results)
  qed
  obtain res where res: "performMatching e srt s i = broadcastIntentUpdateLocked e (createAssignment e
        (set_matched (s\<lparr>srv_matchingResults := (srv_matchingResults s)(i \<mapsto> res)\<rparr>) i) i w) i ''MATCHED''"
    and "mr_WinningBidId res = b_BidId (srv_heap s ! w)" "mr_WinningAgentId res = b_AgentId (srv_heap s ! w)"
    using Some wr assms(2) by (simp add: performMatching_def Let_def)
  moreover have "m = res"
    using assms(4) res keep [of "set_matched (s\<lparr>srv_matchingResults := (srv_matchingResults s)(i \<mapsto> res)\<rparr>) i"]
    by (auto simp: GetMatchingResult_def results set_matched_def)
  ultimately show ?thesis using sel by (auto simp: list_all_iff)
qed

theorem performMatching_lowest_witness:
  "\<exists>w \<in> set [0]. \<exists>m. GetMatchingResult (performMatching (example_env 20)
       (sort_key (\<lambda>r. b_Price (srv_heap example_server ! r))) example_server ''i1'') ''i1'' = Some m
     \<and> mr_WinningBidId m = b_BidId (srv_heap example_server ! w)"
proof -
  let ?srt = "sort_key (\<lambda>r. b_Price (srv_heap example_server ! r))"
  have s: "srv_bidsByIntent example_server ''i1'' = Some [0]" "srv_matchingResults example_server ''i1'' = None"
    by (simp_all add: example_server_eq NewServer_def)
  obtain m where m: "GetMatchingResult (performMatching (example_env 20) ?srt example_server ''i1'') ''i1'' = Some m"
    using example_perform [of ?srt example_server] by (auto simp: example_server_eq NewServer_def GetMatchingResult_def)
  from performMatching_lowest [OF price_sort_sort_key s m] m show ?thesis by auto
qed

text \<open>
  A batch is accounted for bid by bid: there is one acknowledgement per bid, in order, the two
  counters add up to the number of bids, and the bids of every intent grow by exactly the accepted
  ones, in order. This holds without \<open>partial_ok\<close> too: the bids before the first failure stay.
\<close>

theorem batch_accounting:
  assumes "refs_ok s" "bs \<noteq> []" "list_all (\<lambda>(e, b). b \<noteq> None) bs"
  shows "\<exists>s' acks ok bad. SubmitBidBatch s p bs = (s', Inr (acks, ok, bad))
    \<and> map ack_BidId acks = map (\<lambda>(e, b). b_BidId (the b)) bs \<and> ok + bad = length bs
    \<and> bids_of s' i = bids_of s i @ map (the \<circ> snd \<circ> fst)
        (filter (\<lambda>((e, b), a). ack_Accepted a \<and> b_IntentId (the b) = i) (zip bs acks))"
proof -
  obtain s' acks where b: "batch_loop p s bs = (s', acks)" by (cases "batch_loop p s bs")
  have ids: "map ack_BidId acks = map (\<lambda>(e, b). b_BidId (the b)) bs" using batch_loop_acks [OF assms(3), of p s] b by simp
  have "length acks = length bs" using arg_cong [OF ids, of length] by simp
  then have "length (filter ack_Accepted acks) + length (filter (\<lambda>a. \<not> ack_Accepted a) acks) = length bs"
    by (simp add: sum_length_filter_compl)
  moreover have "SubmitBidBatch s p bs = (s', Inr (acks, length (filter ack_Accepted acks), length (filter (\<lambda>a. \<not> ack_Accepted a) acks)))"
    using assms(2) b by (simp add: SubmitBidBatch_def)
  ultimately show ?thesis using ids batch_loop_bids [OF assms(1,3), of p i] b by auto
qed

theorem batch_accounting_witness:
  "\<exists>s' acks ok bad. SubmitBidBatch example_server False
       [(example_env 2, Some (example_bid ''b2'' 4 ''0x02'')), (example_env 2, Some ((example_bid ''b3'' 3 ''0x03'')\<lparr>b_IntentId := ''none''\<rparr>))]
     = (s', Inr (acks, ok, bad)) \<and> map ack_BidId acks = [''b2'', ''b3''] \<and> ok + bad = 2"
proof -
  have "refs_ok example_server" by (simp add: refs_ok_def example_server_eq NewServer_def)
  from batch_accounting [OF this, of "[(example_env 2, Some (example_bid ''b2'' 4 ''0x02'')),
      (example_env 2, Some ((example_bid ''b3'' 3 ''0x03'')\<lparr>b_IntentId := ''none''\<rparr>))]" False "''i1''"]
  show ?thesis by (auto simp: example_bid_def)
qed

text \<open>
  Responses are not authenticated: what a response does to the server's state and what is answered
  do not depend on the agent it names, so that any caller who knows a task's identifier confirms
  or rejects it in the place of the agent it was assigned to.
\<close>

theorem response_ignores_agent:
  "fst (RespondToTask s (Some (r\<lparr>tr_AgentId := x\<rparr>))) = fst (RespondToTask s (Some r))
   \<and> snd (snd (RespondToTask s (Some (r\<lparr>tr_AgentId := x\<rparr>)))) = snd (snd (RespondToTask s (Some r)))"
  by (auto simp: RespondToTask_def split: option.splits)

text \<open>
  A winner without a chain address leaves the intent stuck: the window is closed, the intent is marked
  as matched and the result is announced, but no assignment is created, and no later window
  check takes the intent up again.
\<close>

theorem matched_without_assignment:
  fixes e :: env
  assumes "srv_intents s i = Some w" "iw_WindowClosed w" "srv_bidsByIntent s i = Some rs"
    and "SelectWinner srt rs = Some (win, ups)" "bad_address (srv_heap s ! win)"
  defines "t \<equiv> performMatching e srt s i"
  shows "settled t i \<and> srv_pendingAssignments t = srv_pendingAssignments s \<and> srv_assignments t = srv_assignments s
    \<and> close_window e' srt' t i = t"
proof -
  obtain res where t: "t = broadcastIntentUpdateLocked e (createAssignment e
      (set_matched (s\<lparr>srv_matchingResults := (srv_matchingResults s)(i \<mapsto> res)\<rparr>) i) i win) i ''MATCHED''"
    using assms(3,4) by (simp add: t_def performMatching_def Let_def)
  let ?s1 = "set_matched (s\<lparr>srv_matchingResults := (srv_matchingResults s)(i \<mapsto> res)\<rparr>) i"
  have w1: "srv_intents ?s1 i = Some (w\<lparr>iw_Matched := True\<rparr>)" using assms(1) by (simp add: set_matched_def)
  have "bad_address (srv_heap ?s1 ! win)" using assms(5) by (simp add: set_matched_def)
  then have "createAssignment e ?s1 i win = ?s1" unfolding createAssignment_eq [OF w1] Let_def by (simp only: if_True)
  then have "core t = core ?s1" using t by simp
  then have core: "srv_intents t = srv_intents ?s1" "srv_pendingAssignments t = srv_pendingAssignments s"
      "srv_assignments t = srv_assignments s"
    by (simp_all add: core_def set_matched_def)
  moreover have "settled t i" using core(1) w1 assms(2) by (simp add: settled_def)
  moreover have "close_window e' srt' t i = t" using core(1) w1 assms(2) by (simp add: close_window_def)
  ultimately show ?thesis by blast
qed

theorem matched_without_assignment_witness:
  "let s = (NewServer ''m'' 10 False False)\<lparr>srv_intents := [''i1'' \<mapsto> \<lparr>iw_Intent = example_intent, iw_BiddingStartTime = 0,
       iw_BiddingEndTime = 10, iw_WindowClosed = True, iw_Matched = False\<rparr>],
       srv_heap := [example_bid ''b1'' 5 ''agent''], srv_bidsByIntent := [''i1'' \<mapsto> [0]]\<rparr> in
   settled (performMatching (example_env 20) id s ''i1'') ''i1''
   \<and> srv_pendingAssignments (performMatching (example_env 20) id s ''i1'') = Map.empty"
proof -
  let ?s = "(NewServer ''m'' 10 False False)\<lparr>srv_intents := [''i1'' \<mapsto> \<lparr>iw_Intent = example_intent, iw_BiddingStartTime = 0,
       iw_BiddingEndTime = 10, iw_WindowClosed = True, iw_Matched = False\<rparr>],
       srv_heap := [example_bid ''b1'' 5 ''agent''], srv_bidsByIntent := [''i1'' \<mapsto> [0]]\<rparr>"
  have "bad_address (srv_heap ?s ! 0)"
    by (simp add: bad_address_def extractChainAddressFromBid_def example_bid_def TrimSpace_def is_space_def)
  then show ?thesis
    using matched_without_assignment [of ?s "''i1''" "\<lparr>iw_Intent = example_intent, iw_BiddingStartTime = 0,
       iw_BiddingEndTime = 10, iw_WindowClosed = True, iw_Matched = False\<rparr>" "[0]" id 0 "[]" "example_env 20"]
    by (simp add: SelectWinner_def NewServer_def Let_def)
qed

text \<open>
  Unregistering an agent whose task stream is open crashes the matcher: the channel that the stream
  registered is closed by the unregistration and again by the stream's clean-up, and closing a
  closed channel panics.
\<close>

theorem unregister_crashes_stream:
  assumes "srv_agentTasks s a = None" "StreamTasks_open s a = (s1, sid, c)"
  shows "srv_panic (StreamTasks_exit (UnregisterAgentForTasks s1 a) a sid c) = Some CloseOfClosedChannel"
proof -
  have "srv_agentTasks s1 a = Some c" "c = length (srv_taskChans s)"
      "srv_taskChans s1 = srv_taskChans s @ [\<lparr>chn_buf = [], chn_cap = 100, chn_closed = False\<rparr>]"
    using assms by (auto simp: StreamTasks_open_def Let_def)
  then show ?thesis
    by (simp add: UnregisterAgentForTasks_def StreamTasks_exit_def close_task_chan_def chan_close_def nth_append)
qed

theorem unregister_crashes_stream_witness:
  "srv_panic (StreamTasks_exit (UnregisterAgentForTasks (fst (StreamTasks_open (NewServer ''m'' 10 False False) ''a'')) ''a'')
     ''a'' ''task-stream-0'' 0) = Some CloseOfClosedChannel"
proof -
  have "digit 0 = CHR ''0''"
    using of_char_digit [of 0] by (subst of_char_eq_iff [where 'a = nat, symmetric]) simp
  then have "StreamTasks_open (NewServer ''m'' 10 False False) ''a'' =
      (fst (StreamTasks_open (NewServer ''m'' 10 False False) ''a''), ''task-stream-0'', 0)"
    by (simp add: StreamTasks_open_def NewServer_def Let_def dec.simps)
  from unregister_crashes_stream [OF _ this] show ?thesis by (simp add: NewServer_def)
qed

end
