(* ===== verification/Intent_Stream.thy ===== *)
theory Intent_Stream
  imports Matcher_Server
begin

text \<open>
  The intent streams of the matcher service, its start and stop, and the loop that pulls intents from the root layer
  (\<open>src/internal/matcher/server.go\<close>). A stream is a handler of its own: \<open>StreamIntents_open\<close> is its first critical section,
  \<open>StreamIntents_existing\<close> the second, \<open>StreamIntents_turn\<close> one turn of its loop and \<open>StreamIntents_exit\<close> the deferred clean-up.
  The pulling loop is a state machine over the answers of the root layer and the ticks of its timers.
\<close>

section \<open>Model\<close>

subsection \<open>Intent streams\<close>

definition stream_id :: "nat \<Rightarrow> string" where
  "stream_id k = ''stream-'' @ dec k"

definition StreamIntents_open :: "Server \<Rightarrow> Server \<times> string \<times> nat" where
  "StreamIntents_open s =
     (let streamID = stream_id (srv_nextStreamID s); ch = length (srv_intentChans s) in
      (s\<lparr>srv_nextStreamID := srv_nextStreamID s + 1,
         srv_intentChans := srv_intentChans s @ [\<lparr>chn_buf = [], chn_cap = 100, chn_closed = False\<rparr>],
         srv_intentStreams := (srv_intentStreams s)(streamID \<mapsto> ch)\<rparr>,
       streamID, ch))"

definition existing_one :: "int \<Rightarrow> nat \<Rightarrow> Server \<Rightarrow> string \<Rightarrow> Server" where
  "existing_one now ch s intentID =
     (case srv_intents s intentID of
        None \<Rightarrow> s
      | Some window \<Rightarrow>
          if \<not> iw_WindowClosed window then
            (case chan_send (srv_intentChans s ! ch)
                    \<lparr>up_IntentId = intentID, up_UpdateType = ''EXISTING_INTENT'', up_Timestamp = now\<rparr> of
               Inl p \<Rightarrow> s\<lparr>srv_panic := Some p\<rparr>
             | Inr c \<Rightarrow> s\<lparr>srv_intentChans := (srv_intentChans s)[ch := c]\<rparr>)
          else s)"

text \<open>\<open>order\<close> is the order in which the runtime visits the intents.\<close>

definition StreamIntents_existing :: "int \<Rightarrow> string list \<Rightarrow> nat \<Rightarrow> Server \<Rightarrow> Server" where
  "StreamIntents_existing now order ch s = foldl (existing_one now ch) s order"

text \<open>The receive does not ask whether the channel is closed: a closed and drained one gives nil, which is sent.\<close>

datatype intent_turn = StreamWaits | StreamSends "MatcherIntentUpdate option"

definition StreamIntents_turn :: "nat \<Rightarrow> Server \<Rightarrow> Server \<times> intent_turn" where
  "StreamIntents_turn ch s =
     (case chn_buf (srv_intentChans s ! ch) of
        u # us \<Rightarrow> (s\<lparr>srv_intentChans := (srv_intentChans s)[ch := (srv_intentChans s ! ch)\<lparr>chn_buf := us\<rparr>]\<rparr>, StreamSends (Some u))
      | [] \<Rightarrow> (s, if chn_closed (srv_intentChans s ! ch) then StreamSends None else StreamWaits))"

definition StreamIntents_exit :: "string \<Rightarrow> nat \<Rightarrow> Server \<Rightarrow> Server" where
  "StreamIntents_exit streamID ch s =
     (let s = s\<lparr>srv_intentStreams := (srv_intentStreams s)(streamID := None)\<rparr> in
      case chan_close (srv_intentChans s ! ch) of
        Inl p \<Rightarrow> s\<lparr>srv_panic := Some p\<rparr>
      | Inr c \<Rightarrow> s\<lparr>srv_intentChans := (srv_intentChans s)[ch := c]\<rparr>)"

text \<open>One turn of the loop of \<open>StreamTasks\<close>, which does ask: a closed and drained channel ends the stream.\<close>

datatype task_turn = TaskWaits | TaskEnds | TaskSends ExecutionTask

definition StreamTasks_turn :: "nat \<Rightarrow> Server \<Rightarrow> Server \<times> task_turn" where
  "StreamTasks_turn ch s =
     (case chn_buf (srv_taskChans s ! ch) of
        t # ts \<Rightarrow> (s\<lparr>srv_taskChans := (srv_taskChans s)[ch := (srv_taskChans s ! ch)\<lparr>chn_buf := ts\<rparr>]\<rparr>, TaskSends t)
      | [] \<Rightarrow> (s, if chn_closed (srv_taskChans s ! ch) then TaskEnds else TaskWaits))"

definition PublishMatchingResult :: "int \<Rightarrow> MatchingResult \<Rightarrow> BidSubmissionAck" where
  "PublishMatchingResult now req =
     \<lparr>ack_BidId = mr_WinningBidId req, ack_Accepted = True, ack_Reason = [], ack_Status = BID_STATUS_WINNER, ack_RecordedAt = now\<rparr>"

subsection \<open>Start and stop\<close>

text \<open>\<open>sv_streams\<close> are the running handlers of intent streams, with the identifier and the channel of each.\<close>

record MatcherService =
  sv_server :: Server
  sv_jobs :: "job multiset"
  sv_started :: bool
  sv_streams :: "(string \<times> nat) list"

datatype start_error = AlreadyStarted | ConnectFailed

text \<open>\<open>reachable\<close>: whether \<open>Connect\<close> succeeds. A start also spawns the two loops.\<close>

definition Start_matcher :: "bool \<Rightarrow> MatcherService \<Rightarrow> MatcherService \<times> start_error option" where
  "Start_matcher reachable v =
     (if sv_started v then (v, Some AlreadyStarted)
      else if \<not> reachable then (v, Some ConnectFailed)
      else (v\<lparr>sv_started := True\<rparr>, None))"

primrec close_chans :: "nat list \<Rightarrow> 'a chan list \<Rightarrow> go_panic + 'a chan list" where
  "close_chans [] chans = Inr chans"
| "close_chans (ch # chs) chans =
     (case chan_close (chans ! ch) of Inl p \<Rightarrow> Inl p | Inr c \<Rightarrow> close_chans chs (chans[ch := c]))"

text \<open>\<open>order\<close> and \<open>torder\<close> are the orders in which the runtime visits the streams and the agents.\<close>

definition Stop_matcher :: "string list \<Rightarrow> string list \<Rightarrow> MatcherService \<Rightarrow> MatcherService" where
  "Stop_matcher order torder v =
     (if \<not> sv_started v then v
      else let s = sv_server v in
        case close_chans (List.map_filter (srv_intentStreams s) order) (srv_intentChans s) of
          Inl p \<Rightarrow> v\<lparr>sv_server := s\<lparr>srv_panic := Some p\<rparr>\<rparr>
        | Inr intentChans \<Rightarrow>
            (case close_chans (List.map_filter (srv_agentTasks s) torder) (srv_taskChans s) of
               Inl p \<Rightarrow> v\<lparr>sv_server := s\<lparr>srv_panic := Some p\<rparr>\<rparr>
             | Inr taskChans \<Rightarrow>
                 v\<lparr>sv_server := s\<lparr>srv_intentChans := intentChans, srv_intentStreams := Map.empty,
                                  srv_taskChans := taskChans, srv_agentTasks := Map.empty\<rparr>,
                   sv_started := False\<rparr>))"

subsection \<open>Pulling intents\<close>

datatype pull_phase = PullTop | PullStream | PullPoll | PullReturned

record Puller =
  pl_retryDelay :: int
  pl_streamingMode :: bool
  pl_phase :: pull_phase

text \<open>Durations are in nanoseconds. Without a subnet the loop is never entered.\<close>

definition pull_start :: "string \<Rightarrow> Puller" where
  "pull_start subnetID =
     \<lparr>pl_retryDelay = 5000000000, pl_streamingMode = True, pl_phase = (if subnetID = [] then PullReturned else PullTop)\<rparr>"

datatype pull_event =
    ContextDone
  | StreamFailed
  | StreamOpened
  | StreamIntent env "Intent option"
  | StreamEnded
  | PollFailed
  | PollAnswered "(env \<times> Intent option) list"
  | RestoreTick

definition add_intent :: "Server \<Rightarrow> env \<times> Intent option \<Rightarrow> Server" where
  "add_intent s = (\<lambda>(e, intent). fst (AddIntent e s intent))"

text \<open>One turn of the innermost loop; \<open>None\<close> when the loop cannot see the event where it is.\<close>

definition pull_step :: "Server \<times> Puller \<Rightarrow> pull_event \<Rightarrow> (Server \<times> Puller) option" where
  "pull_step st ev =
     (case st of (s, p) \<Rightarrow>
      (case pl_phase p of
         PullTop \<Rightarrow>
           (case ev of
              ContextDone \<Rightarrow> Some (s, p\<lparr>pl_phase := PullReturned\<rparr>)
            | StreamFailed \<Rightarrow> Some (s, p\<lparr>pl_retryDelay := min (pl_retryDelay p * 2) 60000000000\<rparr>)
            | StreamOpened \<Rightarrow> Some (s, p\<lparr>pl_retryDelay := 5000000000, pl_phase := PullStream\<rparr>)
            | _ \<Rightarrow> None)
       | PullStream \<Rightarrow>
           (case ev of
              ContextDone \<Rightarrow> Some (s, p\<lparr>pl_phase := PullReturned\<rparr>)
            | StreamIntent e intent \<Rightarrow> Some (add_intent s (e, intent), p)
            | StreamEnded \<Rightarrow> Some (s, p\<lparr>pl_streamingMode := False, pl_phase := PullPoll\<rparr>)
            | _ \<Rightarrow> None)
       | PullPoll \<Rightarrow>
           (case ev of
              ContextDone \<Rightarrow> Some (s, p\<lparr>pl_phase := PullReturned\<rparr>)
            | PollFailed \<Rightarrow> Some (s, p)
            | PollAnswered intents \<Rightarrow> Some (foldl add_intent s intents, p)
            | RestoreTick \<Rightarrow> Some (s, p\<lparr>pl_streamingMode := True, pl_phase := PullTop\<rparr>)
            | _ \<Rightarrow> None)
       | PullReturned \<Rightarrow> None))"

primrec pullIntentsFromRootLayer :: "Server \<times> Puller \<Rightarrow> pull_event list \<Rightarrow> (Server \<times> Puller) option" where
  "pullIntentsFromRootLayer st [] = Some st"
| "pullIntentsFromRootLayer st (ev # evs) =
     (case pull_step st ev of None \<Rightarrow> None | Some st \<Rightarrow> pullIntentsFromRootLayer st evs)"

text \<open>The intents that an event brings.\<close>

fun delivered :: "pull_event \<Rightarrow> (env \<times> Intent option) list" where
  "delivered (StreamIntent e intent) = [(e, intent)]"
| "delivered (PollAnswered intents) = intents"
| "delivered _ = []"

subsection \<open>Executions\<close>

text \<open>A panic ends the process, so that it has no further steps.\<close>

inductive service_step :: "MatcherService \<Rightarrow> MatcherService \<Rightarrow> bool" where
  serve: "srv_step (sv_server v, sv_jobs v) (s, js) \<Longrightarrow> service_step v (v\<lparr>sv_server := s, sv_jobs := js\<rparr>)"
| open_stream: "StreamIntents_open (sv_server v) = (s, sid, ch) \<Longrightarrow>
    service_step v (v\<lparr>sv_server := s, sv_streams := (sid, ch) # sv_streams v\<rparr>)"
| existing: "(sid, ch) \<in> set (sv_streams v) \<Longrightarrow> range_order (srv_intents (sv_server v)) order \<Longrightarrow>
    service_step v (v\<lparr>sv_server := StreamIntents_existing now order ch (sv_server v)\<rparr>)"
| turn: "(sid, ch) \<in> set (sv_streams v) \<Longrightarrow>
    service_step v (v\<lparr>sv_server := fst (StreamIntents_turn ch (sv_server v))\<rparr>)"
| task_turn: "service_step v (v\<lparr>sv_server := fst (StreamTasks_turn ch (sv_server v))\<rparr>)"
| leave: "(sid, ch) \<in> set (sv_streams v) \<Longrightarrow>
    service_step v (v\<lparr>sv_server := StreamIntents_exit sid ch (sv_server v), sv_streams := remove1 (sid, ch) (sv_streams v)\<rparr>)"
| start: "service_step v (fst (Start_matcher reachable v))"
| stop: "range_order (srv_intentStreams (sv_server v)) order \<Longrightarrow> range_order (srv_agentTasks (sv_server v)) torder \<Longrightarrow>
    service_step v (Stop_matcher order torder v)"

inductive service_reachable :: "MatcherService \<Rightarrow> bool" where
  new: "service_reachable \<lparr>sv_server = NewServer m w c a, sv_jobs = {#}, sv_started = False, sv_streams = []\<rparr>"
| step: "service_reachable v \<Longrightarrow> srv_panic (sv_server v) = None \<Longrightarrow> service_step v v' \<Longrightarrow> service_reachable v'"

section \<open>What the operations do to the streams\<close>

text \<open>The registered streams, the capacity and state of every channel, not its contents, and the next identifier.\<close>

definition shape :: "'a chan \<Rightarrow> nat \<times> bool" where
  "shape c = (chn_cap c, chn_closed c)"

definition streams_view :: "Server \<Rightarrow> (string \<rightharpoonup> nat) \<times> (nat \<times> bool) list \<times> nat" where
  "streams_view s = (srv_intentStreams s, map shape (srv_intentChans s), srv_nextStreamID s)"

lemma chan_send_shape: "chan_send c x = Inr c' \<Longrightarrow> shape c' = shape c"
  by (auto simp: chan_send_def shape_def split: if_splits)

lemma same_shapes: "shape c = shape (cs ! i) \<Longrightarrow> map shape (cs[i := c]) = map shape cs"
  by (metis list_update_id map_update)

lemma view_broadcast_one: "streams_view (broadcast_one u s sid) = streams_view s"
  by (auto simp: broadcast_one_def streams_view_def same_shapes chan_send_shape split: option.splits sum.splits)

lemma view_broadcast [simp]: "streams_view (broadcastIntentUpdateLocked e s i u) = streams_view s"
proof -
  have "streams_view (foldl (broadcast_one u) s sids) = streams_view s" for u sids
    by (induction sids arbitrary: s) (simp_all add: view_broadcast_one)
  then show ?thesis by (simp add: broadcastIntentUpdateLocked_def)
qed

lemma streams_view_fields:
  "streams_view (s\<lparr>srv_intents := a\<rparr>) = streams_view s" "streams_view (s\<lparr>srv_heap := b\<rparr>) = streams_view s"
  "streams_view (s\<lparr>srv_bidsByIntent := c\<rparr>) = streams_view s" "streams_view (s\<lparr>srv_matchingResults := d\<rparr>) = streams_view s"
  "streams_view (s\<lparr>srv_assignments := f\<rparr>) = streams_view s" "streams_view (s\<lparr>srv_pendingAssignments := g\<rparr>) = streams_view s"
  "streams_view (s\<lparr>srv_assignmentAgents := h\<rparr>) = streams_view s" "streams_view (s\<lparr>srv_taskChans := i\<rparr>) = streams_view s"
  "streams_view (s\<lparr>srv_agentTasks := j\<rparr>) = streams_view s" "streams_view (s\<lparr>srv_taskStreams := k\<rparr>) = streams_view s"
  "streams_view (s\<lparr>srv_panic := l\<rparr>) = streams_view s"
  by (simp_all add: streams_view_def)

lemma view_assignment [simp]:
  "streams_view (sendTaskToAgent s a t) = streams_view s"
  "streams_view (handleAssignmentFailureLocked e s i aid) = streams_view s"
  "streams_view (set_matched s i) = streams_view s"
  by (auto simp: sendTaskToAgent_def handleAssignmentFailureLocked_def cleanupPendingAssignmentLocked_def dropIntentLocked_def
      resetIntentWindowLocked_def set_matched_def streams_view_fields split: option.splits sum.splits)

lemma view_createAssignment [simp]: "streams_view (createAssignment e s i r) = streams_view s"
  by (cases "srv_intents s i") (simp_all add: createAssignment_eq Let_def streams_view_fields, simp add: createAssignment_def Let_def)

lemma view_AddIntent [simp]: "streams_view (fst (AddIntent e s i)) = streams_view s"
  by (auto simp: AddIntent_def Let_def streams_view_fields split: option.splits)

lemma view_processSingleBid: "streams_view (fst (processSingleBid e s b)) = streams_view s"
  by (auto simp: processSingleBid_def streams_view_fields split: option.splits)

lemma view_batch_loop: "streams_view (fst (batch_loop p s bs)) = streams_view s"
proof (induction p s bs rule: batch_loop.induct)
  case (2 p s e b rest)
  obtain s1 ack where s1: "processSingleBid e s b = (s1, ack)" by (cases "processSingleBid e s b")
  then have "streams_view s1 = streams_view s" using view_processSingleBid [of e s b] by simp
  with 2 s1 show ?case by (auto simp: streams_view_fields split: prod.splits)
qed simp

lemma view_bids [simp]:
  "streams_view (fst (SubmitBid e s b)) = streams_view s" "streams_view (fst (SubmitBidBatch s p bs)) = streams_view s"
  using view_processSingleBid [of e s b] view_batch_loop [of p s bs]
  by (auto simp: SubmitBid_def SubmitBidBatch_def split: option.splits prod.splits)

lemma view_performMatching [simp]: "streams_view (performMatching e srt s i) = streams_view s"
  by (auto simp: performMatching_def Let_def streams_view_fields split: option.splits)

lemma view_checkAndCloseWindows [simp]: "streams_view (checkAndCloseWindows srt s ks) = streams_view s"
proof -
  have "streams_view (close_window e srt s i) = streams_view s" for e s i
    by (auto simp: close_window_def streams_view_fields split: option.splits)
  then show ?thesis by (induction ks arbitrary: s) (auto simp: checkAndCloseWindows_def)
qed

lemma view_tasks [simp]:
  "streams_view (fst (RegisterAgentForTasks s a)) = streams_view s" "streams_view (UnregisterAgentForTasks s a) = streams_view s"
  "streams_view (StreamTasks_exit s a sid c) = streams_view s" "streams_view (fst (RespondToTask s r)) = streams_view s"
  "streams_view (fst (tryAssignToRunnerUp e s j)) = streams_view s"
  by (auto simp: RegisterAgentForTasks_def UnregisterAgentForTasks_def StreamTasks_exit_def close_task_chan_def RespondToTask_def
      tryAssignToRunnerUp_def mark_winner_def streams_view_fields Let_def split: option.splits sum.splits job.splits)

lemma srv_step_view:
  assumes "srv_step (s, js) (s', js')"
  shows "srv_intentStreams s' = srv_intentStreams s" "map shape (srv_intentChans s') = map shape (srv_intentChans s)"
    "srv_nextStreamID s \<le> srv_nextStreamID s'"
proof -
  have "streams_view s' = streams_view s \<or> streams_view s' = (srv_intentStreams s, map shape (srv_intentChans s), srv_nextStreamID s + 1)"
    using assms
  proof (cases rule: srv_step.cases)
    case (respond r new resp)
    then show ?thesis using view_tasks(4) [of s r] by simp
  next
    case (run j e new)
    then show ?thesis using view_tasks(5) [of e s j] by simp
  next
    case (stream a)
    then show ?thesis by (simp add: StreamTasks_open_def Let_def streams_view_def)
  qed simp_all
  then show "srv_intentStreams s' = srv_intentStreams s" "map shape (srv_intentChans s') = map shape (srv_intentChans s)"
    "srv_nextStreamID s \<le> srv_nextStreamID s'"
    by (auto simp: streams_view_def)
qed

section \<open>Registered streams are open\<close>

text \<open>Every handler has a channel of its own; it is open exactly as long as the handler is registered.\<close>

definition handler_ok :: "Server \<Rightarrow> string \<Rightarrow> nat \<Rightarrow> bool" where
  "handler_ok s sid ch \<longleftrightarrow> ch < length (srv_intentChans s) \<and> (\<exists>k < srv_nextStreamID s. sid = stream_id k)
     \<and> chn_cap (srv_intentChans s ! ch) = 100
     \<and> (chn_closed (srv_intentChans s ! ch) \<longleftrightarrow> srv_intentStreams s sid = None)"

definition streams_ok :: "Server \<Rightarrow> (string \<times> nat) list \<Rightarrow> bool" where
  "streams_ok s hs \<longleftrightarrow> distinct (map fst hs) \<and> distinct (map snd hs)
     \<and> (\<forall>sid ch. (sid, ch) \<in> set hs \<longrightarrow> handler_ok s sid ch)
     \<and> (\<forall>sid ch. srv_intentStreams s sid = Some ch \<longrightarrow> (sid, ch) \<in> set hs)"

lemma handler_okD:
  assumes "handler_ok s sid ch"
  shows "ch < length (srv_intentChans s)" "\<exists>k < srv_nextStreamID s. sid = stream_id k" "chn_cap (srv_intentChans s ! ch) = 100"
    "chn_closed (srv_intentChans s ! ch) \<longleftrightarrow> srv_intentStreams s sid = None"
  using assms by (simp_all add: handler_ok_def)

lemma streams_okD:
  assumes "streams_ok s hs"
  shows "distinct (map fst hs)" "distinct (map snd hs)" "(sid, ch) \<in> set hs \<Longrightarrow> handler_ok s sid ch"
    "srv_intentStreams s sid = Some ch \<Longrightarrow> (sid, ch) \<in> set hs"
  using assms by (simp_all add: streams_ok_def)

lemma streams_okI:
  assumes "distinct (map fst hs)" "distinct (map snd hs)" "\<And>sid ch. (sid, ch) \<in> set hs \<Longrightarrow> handler_ok s sid ch"
    "\<And>sid ch. srv_intentStreams s sid = Some ch \<Longrightarrow> (sid, ch) \<in> set hs"
  shows "streams_ok s hs"
  using assms by (simp add: streams_ok_def)

lemma nth_shape:
  assumes "map shape cs = map shape ds"
  shows "length cs = length ds" "i < length ds \<Longrightarrow> chn_cap (cs ! i) = chn_cap (ds ! i)"
    "i < length ds \<Longrightarrow> chn_closed (cs ! i) = chn_closed (ds ! i)"
proof -
  show len: "length cs = length ds" using arg_cong [OF assms, of length] by simp
  have "shape (cs ! i) = shape (ds ! i)" if "i < length ds" using that assms len by (metis nth_map)
  then show "i < length ds \<Longrightarrow> chn_cap (cs ! i) = chn_cap (ds ! i)" "i < length ds \<Longrightarrow> chn_closed (cs ! i) = chn_closed (ds ! i)"
    by (simp_all add: shape_def)
qed

lemma streams_ok_view:
  assumes "streams_ok s hs" "srv_intentStreams s' = srv_intentStreams s"
    "map shape (srv_intentChans s') = map shape (srv_intentChans s)" "srv_nextStreamID s \<le> srv_nextStreamID s'"
  shows "streams_ok s' hs"
proof (rule streams_okI)
  fix sid ch assume "(sid, ch) \<in> set hs"
  note h = handler_okD [OF streams_okD(3) [OF assms(1) this]]
  obtain k where "k < srv_nextStreamID s" "sid = stream_id k" using h(2) by blast
  with assms(4) have "\<exists>k < srv_nextStreamID s'. sid = stream_id k" by (intro exI [of _ k]) simp
  moreover have "ch < length (srv_intentChans s')" "chn_cap (srv_intentChans s' ! ch) = 100"
      "chn_closed (srv_intentChans s' ! ch) \<longleftrightarrow> srv_intentStreams s' sid = None"
    using h(1,3,4) nth_shape [OF assms(3)] assms(2) by simp_all
  ultimately show "handler_ok s' sid ch" unfolding handler_ok_def by blast
next
  fix sid ch assume "srv_intentStreams s' sid = Some ch"
  then show "(sid, ch) \<in> set hs" using streams_okD(4) [OF assms(1)] assms(2) by simp
qed (use streams_okD(1,2) [OF assms(1)] in simp_all)

lemma registered_open:
  assumes "streams_ok s hs" "srv_intentStreams s sid = Some ch"
  shows "ch < length (srv_intentChans s)" "\<not> chn_closed (srv_intentChans s ! ch)" "chn_cap (srv_intentChans s ! ch) = 100"
  using handler_okD [OF streams_okD(3) [OF assms(1) streams_okD(4) [OF assms]]] assms(2) by simp_all

lemma other_channel:
  assumes "streams_ok s hs" "(sid, ch) \<in> set hs" "(sid', ch') \<in> set hs" "sid' \<noteq> sid"
  shows "ch' \<noteq> ch"
proof
  assume "ch' = ch"
  moreover have "inj_on snd (set hs)" using streams_okD(2) [OF assms(1)] by (simp add: distinct_map)
  ultimately show False using assms(2-4) inj_onD [of snd "set hs" "(sid, ch)" "(sid', ch')"] by simp
qed

lemma finite_streams:
  assumes "streams_ok s hs"
  shows "finite (dom (srv_intentStreams s))"
proof (rule finite_subset)
  show "dom (srv_intentStreams s) \<subseteq> fst ` set hs"
    using streams_okD(4) [OF assms] by (metis domD fst_conv image_eqI subsetI)
qed simp

lemma stream_id_inject [simp]: "stream_id a = stream_id b \<longleftrightarrow> a = b"
  by (simp add: stream_id_def dec_inject)

lemma open_ok:
  assumes ok: "streams_ok s hs" and "StreamIntents_open s = (s', sid, ch)"
  shows "streams_ok s' ((sid, ch) # hs)"
proof -
  have sid: "sid = stream_id (srv_nextStreamID s)" and ch: "ch = length (srv_intentChans s)"
    and next_id: "srv_nextStreamID s' = srv_nextStreamID s + 1" and streams: "srv_intentStreams s' = (srv_intentStreams s)(sid \<mapsto> ch)"
    and chans: "srv_intentChans s' = srv_intentChans s @ [\<lparr>chn_buf = [], chn_cap = 100, chn_closed = False\<rparr>]"
    using assms(2) by (auto simp: StreamIntents_open_def Let_def)
  have old: "c < ch" "a \<noteq> sid" if "(a, c) \<in> set hs" for a c
    using handler_okD(1,2) [OF streams_okD(3) [OF ok that]] by (auto simp: sid ch)
  show ?thesis
  proof (rule streams_okI)
    fix a c assume "(a, c) \<in> set ((sid, ch) # hs)"
    then consider "a = sid" "c = ch" | "(a, c) \<in> set hs" by auto
    then show "handler_ok s' a c"
    proof cases
      case 2
      note h = handler_okD [OF streams_okD(3) [OF ok 2]]
      obtain k where "k < srv_nextStreamID s" "a = stream_id k" using h(2) by blast
      then have "\<exists>k < srv_nextStreamID s'. a = stream_id k" using next_id by (intro exI [of _ k]) simp
      then show ?thesis using h old [OF 2] by (simp add: handler_ok_def chans streams nth_append)
    qed (simp add: handler_ok_def chans streams ch sid next_id nth_append)
  next
    fix a c assume "srv_intentStreams s' a = Some c"
    then show "(a, c) \<in> set ((sid, ch) # hs)"
      using streams_okD(4) [OF ok, of a c] by (auto simp: streams split: if_splits)
  qed (use streams_okD(1,2) [OF ok] old in force)+
qed

lemma existing_view: "streams_view (StreamIntents_existing now order ch s) = streams_view s"
proof -
  have "streams_view (existing_one now ch s i) = streams_view s" for s i
    by (auto simp: existing_one_def streams_view_def same_shapes chan_send_shape split: option.splits sum.splits)
  then show ?thesis by (induction order arbitrary: s) (simp_all add: StreamIntents_existing_def)
qed

lemma task_turn_view: "streams_view (fst (StreamTasks_turn ch s)) = streams_view s"
  by (simp add: StreamTasks_turn_def streams_view_fields split: list.split)

lemma turn_view: "streams_view (fst (StreamIntents_turn ch s)) = streams_view s"
  by (auto simp: StreamIntents_turn_def streams_view_def intro!: same_shapes split: list.splits) (simp add: shape_def)

lemma view_ok: "streams_ok s hs \<Longrightarrow> streams_view s' = streams_view s \<Longrightarrow> streams_ok s' hs"
  by (rule streams_ok_view [where s = s]) (simp_all add: streams_view_def)

lemma exit_fields:
  "srv_intentStreams (StreamIntents_exit sid ch s) = (srv_intentStreams s)(sid := None)"
  "srv_nextStreamID (StreamIntents_exit sid ch s) = srv_nextStreamID s"
  "srv_intentChans (StreamIntents_exit sid ch s) =
     (if chn_closed (srv_intentChans s ! ch) then srv_intentChans s
      else (srv_intentChans s)[ch := (srv_intentChans s ! ch)\<lparr>chn_closed := True\<rparr>])"
  "srv_panic (StreamIntents_exit sid ch s) =
     (if chn_closed (srv_intentChans s ! ch) then Some CloseOfClosedChannel else srv_panic s)"
  by (simp_all add: StreamIntents_exit_def chan_close_def Let_def)

lemma distinct_map_remove1: "distinct (map f xs) \<Longrightarrow> distinct (map f (remove1 x xs))"
  unfolding distinct_map by (meson distinct_remove1 inj_on_subset set_remove1_subset)

lemma exit_ok:
  assumes ok: "streams_ok s hs" and mem: "(sid, ch) \<in> set hs"
  shows "streams_ok (StreamIntents_exit sid ch s) (remove1 (sid, ch) hs)"
proof -
  have "distinct hs" using streams_okD(1) [OF ok] by (simp add: distinct_map)
  then have set: "set (remove1 (sid, ch) hs) = set hs - {(sid, ch)}" by (rule set_remove1_eq)
  have inj: "inj_on fst (set hs)" "inj_on snd (set hs)" using streams_okD(1,2) [OF ok] by (simp_all add: distinct_map)
  have other: "a \<noteq> sid" "c \<noteq> ch" if "(a, c) \<in> set hs - {(sid, ch)}" for a c
  proof -
    have ac: "(a, c) \<in> set hs" "(a, c) \<noteq> (sid, ch)" using that by simp_all
    show "a \<noteq> sid" using inj_onD [OF inj(1) _ ac(1) mem] ac(2) by simp
    show "c \<noteq> ch" using inj_onD [OF inj(2) _ ac(1) mem] ac(2) by auto
  qed
  show ?thesis
  proof (rule streams_okI)
    fix a c assume "(a, c) \<in> set (remove1 (sid, ch) hs)"
    then have ac: "(a, c) \<in> set hs - {(sid, ch)}" by (simp add: set)
    then have "handler_ok s a c" using streams_okD(3) [OF ok] by blast
    then show "handler_ok (StreamIntents_exit sid ch s) a c"
      using other [OF ac] unfolding handler_ok_def by (simp add: exit_fields)
  next
    fix a c assume "srv_intentStreams (StreamIntents_exit sid ch s) a = Some c"
    then have "a \<noteq> sid" "srv_intentStreams s a = Some c" by (auto simp: exit_fields split: if_splits)
    then show "(a, c) \<in> set (remove1 (sid, ch) hs)" using streams_okD(4) [OF ok] by (simp add: set)
  qed (rule distinct_map_remove1, rule streams_okD [OF ok])+
qed

lemma close_chans_all:
  assumes "distinct chs" "\<And>ch. ch \<in> set chs \<Longrightarrow> ch < length chans \<and> \<not> chn_closed (chans ! ch)"
  shows "\<exists>chans'. close_chans chs chans = Inr chans' \<and> length chans' = length chans
    \<and> (\<forall>i < length chans. chans' ! i = (if i \<in> set chs then (chans ! i)\<lparr>chn_closed := True\<rparr> else chans ! i))"
  using assms
proof (induction chs arbitrary: chans)
  case (Cons ch chs)
  let ?chans = "chans[ch := (chans ! ch)\<lparr>chn_closed := True\<rparr>]"
  have "c < length ?chans \<and> \<not> chn_closed (?chans ! c)" if "c \<in> set chs" for c using that Cons.prems by (auto simp: nth_list_update)
  from Cons.IH [OF _ this] Cons.prems(1) obtain chans' where "close_chans chs ?chans = Inr chans'" "length chans' = length chans"
      "\<forall>i < length chans. chans' ! i = (if i \<in> set chs then (?chans ! i)\<lparr>chn_closed := True\<rparr> else ?chans ! i)"
    by auto
  with Cons.prems show ?case by (auto simp: chan_close_def nth_list_update)
qed simp

lemma stop_streams:
  assumes ok: "streams_ok s hs" and order: "range_order (srv_intentStreams s) order"
  shows "\<exists>chans. close_chans (List.map_filter (srv_intentStreams s) order) (srv_intentChans s) = Inr chans
    \<and> streams_ok (s\<lparr>srv_intentChans := chans, srv_intentStreams := Map.empty, srv_taskChans := tcs, srv_agentTasks := Map.empty\<rparr>) hs"
proof -
  let ?chs = "List.map_filter (srv_intentStreams s) order"
  have set: "set ?chs = {ch. \<exists>sid. srv_intentStreams s sid = Some ch}"
    using order by (force simp: List.map_filter_def range_order_def dom_def)
  have "inj_on (srv_intentStreams s) (dom (srv_intentStreams s))"
    using other_channel [OF ok] streams_okD(4) [OF ok] by (fastforce simp: inj_on_def)
  then have "distinct ?chs" using order by (auto simp: List.map_filter_def range_order_def distinct_map inj_on_def dom_def)
  then obtain chans where chans: "close_chans ?chs (srv_intentChans s) = Inr chans" "length chans = length (srv_intentChans s)"
      "\<And>i. i < length (srv_intentChans s) \<Longrightarrow>
         chans ! i = (if i \<in> set ?chs then (srv_intentChans s ! i)\<lparr>chn_closed := True\<rparr> else srv_intentChans s ! i)"
  proof -
    have "ch < length (srv_intentChans s) \<and> \<not> chn_closed (srv_intentChans s ! ch)" if "ch \<in> set ?chs" for ch
      using that set registered_open(1,2) [OF ok] by blast
    from close_chans_all [OF \<open>distinct ?chs\<close> this] that show thesis by blast
  qed
  have "handler_ok (s\<lparr>srv_intentChans := chans, srv_intentStreams := Map.empty, srv_taskChans := tcs, srv_agentTasks := Map.empty\<rparr>) a c"
    if "(a, c) \<in> set hs" for a c
  proof -
    note h = handler_okD [OF streams_okD(3) [OF ok that]]
    have "chn_closed (chans ! c)" "chn_cap (chans ! c) = 100"
    proof -
      show "chn_cap (chans ! c) = 100" using h chans(3) by simp
      show "chn_closed (chans ! c)"
      proof (cases "srv_intentStreams s a")
        case (Some d)
        then have "d = c" using streams_okD(1,4) [OF ok] that by (metis eq_key_imp_eq_value)
        with Some h(1) chans(3) set show ?thesis by auto
      qed (use h chans(3) in simp)
    qed
    with h chans(2) show ?thesis by (simp add: handler_ok_def)
  qed
  with chans(1) streams_okD(1,2) [OF ok] show ?thesis by (auto intro!: streams_okI)
qed

lemma stop_ok:
  assumes "streams_ok (sv_server v) (sv_streams v)" "range_order (srv_intentStreams (sv_server v)) order"
  shows "streams_ok (sv_server (Stop_matcher order torder v)) (sv_streams (Stop_matcher order torder v))"
proof -
  let ?s = "sv_server v"
  obtain chans where chans: "close_chans (List.map_filter (srv_intentStreams ?s) order) (srv_intentChans ?s) = Inr chans"
    using stop_streams [OF assms] by blast
  show ?thesis
  proof (cases "close_chans (List.map_filter (srv_agentTasks ?s) torder) (srv_taskChans ?s)")
    case (Inl p)
    have "streams_ok (?s\<lparr>srv_panic := Some p\<rparr>) (sv_streams v)" using view_ok [OF assms(1) streams_view_fields(11)] .
    with Inl chans assms(1) show ?thesis by (simp add: Stop_matcher_def Let_def)
  next
    case (Inr tcs)
    with chans assms(1) stop_streams [OF assms, of tcs] show ?thesis by (simp add: Stop_matcher_def Let_def)
  qed
qed

lemma service_step_ok:
  assumes "service_step v v'" "streams_ok (sv_server v) (sv_streams v)"
  shows "streams_ok (sv_server v') (sv_streams v')"
  using assms(1)
proof (cases rule: service_step.cases)
  case (serve s js)
  with srv_step_view [OF serve(2)] assms(2) show ?thesis by (simp add: streams_ok_view)
next
  case (stop order torder)
  with stop_ok [OF assms(2)] show ?thesis by blast
qed (use assms(2) in \<open>auto simp: Start_matcher_def intro: open_ok exit_ok view_ok existing_view turn_view task_turn_view\<close>)

lemma service_reachable_ok: "service_reachable v \<Longrightarrow> streams_ok (sv_server v) (sv_streams v)"
proof (induction rule: service_reachable.induct)
  case (new m w c a)
  then show ?case by (simp add: streams_ok_def NewServer_def)
qed (rule service_step_ok)

section \<open>What a registered stream receives\<close>

definition pushed :: "'a \<Rightarrow> 'a chan \<Rightarrow> 'a chan" where
  "pushed u c = (if length (chn_buf c) < chn_cap c then c\<lparr>chn_buf := chn_buf c @ [u]\<rparr> else c)"

lemma send_open: "\<not> chn_closed c \<Longrightarrow> chan_send c u = Inr (pushed u c)"
  by (simp add: chan_send_def pushed_def)

lemma broadcast_one_pushes:
  assumes "streams_ok s hs" "srv_intentStreams s sid = Some ch"
  shows "broadcast_one u s sid = s\<lparr>srv_intentChans := (srv_intentChans s)[ch := pushed u (srv_intentChans s ! ch)]\<rparr>"
  using assms registered_open [OF assms] by (simp add: broadcast_one_def send_open)

lemma fold_broadcast:
  assumes "streams_ok s hs" "srv_intentStreams s sid = Some ch" "distinct sids" "set sids \<subseteq> dom (srv_intentStreams s)"
  shows "srv_intentChans (foldl (broadcast_one u) s sids) ! ch =
      (if sid \<in> set sids then pushed u (srv_intentChans s ! ch) else srv_intentChans s ! ch)
    \<and> srv_panic (foldl (broadcast_one u) s sids) = srv_panic s"
  using assms
proof (induction sids arbitrary: s)
  case (Cons a sids)
  then obtain c where c: "srv_intentStreams s a = Some c" by auto
  let ?t = "broadcast_one u s a"
  note t = broadcast_one_pushes [OF Cons.prems(1) c, of u]
  have "streams_ok ?t hs" using view_ok [OF Cons.prems(1) view_broadcast_one] .
  then have IH: "srv_intentChans (foldl (broadcast_one u) ?t sids) ! ch =
      (if sid \<in> set sids then pushed u (srv_intentChans ?t ! ch) else srv_intentChans ?t ! ch)
    \<and> srv_panic (foldl (broadcast_one u) ?t sids) = srv_panic ?t"
    using Cons.prems by (intro Cons.IH) (simp_all add: t)
  show ?case
  proof (cases "a = sid")
    case True
    with c Cons.prems(2) have "c = ch" by simp
    with IH True t Cons.prems(3) registered_open(1) [OF Cons.prems(1,2)] show ?thesis by simp
  next
    case False
    have "c \<noteq> ch"
      using other_channel [OF Cons.prems(1) streams_okD(4) [OF Cons.prems(1,2)] streams_okD(4) [OF Cons.prems(1) c]] False by simp
    with IH False show ?thesis by (simp add: t)
  qed
qed simp

lemma broadcast_reaches:
  assumes "streams_ok s hs" "srv_intentStreams s sid = Some ch"
  shows "srv_intentChans (broadcastIntentUpdateLocked e s i ty) ! ch =
      pushed \<lparr>up_IntentId = i, up_UpdateType = ty, up_Timestamp = e_now e\<rparr> (srv_intentChans s ! ch)"
    and "srv_panic (broadcastIntentUpdateLocked e s i ty) = srv_panic s"
  using fold_broadcast [OF assms, of "sorted_list_of_set (dom (srv_intentStreams s))"] finite_streams [OF assms(1)] assms(2)
  by (auto simp: broadcastIntentUpdateLocked_def domI)

text \<open>The updates that wait in a stream's channel.\<close>

definition waiting :: "Server \<Rightarrow> nat \<Rightarrow> MatcherIntentUpdate list" where
  "waiting s ch = chn_buf (srv_intentChans s ! ch)"

definition announced :: "Server \<Rightarrow> nat \<Rightarrow> string \<Rightarrow> bool" where
  "announced s ch i \<longleftrightarrow> i \<in> up_IntentId ` set (waiting s ch)"

lemma add_intent_waiting:
  assumes ok: "streams_ok s hs" and reg: "srv_intentStreams s sid = Some ch" and room: "length (waiting s ch) < 100"
  shows "set (waiting s ch) \<subseteq> set (waiting (add_intent s x) ch)" "length (waiting (add_intent s x) ch) \<le> Suc (length (waiting s ch))"
    "srv_intents (add_intent s x) i = Some w \<Longrightarrow> srv_intents s i = Some w \<or> announced (add_intent s x) ch i"
proof -
  obtain e intent where x: "x = (e, intent)" by (cases x)
  have "add_intent s x = s \<or> (\<exists>j u m b. add_intent s x = broadcastIntentUpdateLocked e (s\<lparr>srv_intents := (srv_intents s)(j \<mapsto> m), srv_bidsByIntent := b\<rparr>) j u)"
    by (auto simp: x add_intent_def AddIntent_def Let_def split: option.split)
  moreover have "set (waiting s ch) \<subseteq> set (waiting t ch) \<and> length (waiting t ch) \<le> Suc (length (waiting s ch))
      \<and> (srv_intents t i = Some w \<longrightarrow> srv_intents s i = Some w \<or> announced t ch i)"
    if t: "t = broadcastIntentUpdateLocked e (s\<lparr>srv_intents := (srv_intents s)(j \<mapsto> m), srv_bidsByIntent := b\<rparr>) j u" for t j u m b
  proof -
    let ?s = "s\<lparr>srv_intents := (srv_intents s)(j \<mapsto> m), srv_bidsByIntent := b\<rparr>"
    have ok': "streams_ok ?s hs" by (rule view_ok [OF ok]) (simp add: streams_view_def)
    have "srv_intentStreams ?s sid = Some ch" using reg by simp
    from broadcast_reaches(1) [OF ok' this, of e j u] registered_open(3) [OF ok reg] room
    have "waiting t ch = waiting s ch @ [\<lparr>up_IntentId = j, up_UpdateType = u, up_Timestamp = e_now e\<rparr>]"
      by (simp add: t waiting_def pushed_def)
    moreover have "srv_intents t = (srv_intents s)(j \<mapsto> m)" using core_broadcast [of e ?s j u] by (simp add: t core_def)
    ultimately show ?thesis by (auto simp: announced_def split: if_splits)
  qed
  ultimately have "set (waiting s ch) \<subseteq> set (waiting (add_intent s x) ch) \<and> length (waiting (add_intent s x) ch) \<le> Suc (length (waiting s ch))
      \<and> (srv_intents (add_intent s x) i = Some w \<longrightarrow> srv_intents s i = Some w \<or> announced (add_intent s x) ch i)"
    by (elim disjE exE) simp_all
  then show "set (waiting s ch) \<subseteq> set (waiting (add_intent s x) ch)" "length (waiting (add_intent s x) ch) \<le> Suc (length (waiting s ch))"
    "srv_intents (add_intent s x) i = Some w \<Longrightarrow> srv_intents s i = Some w \<or> announced (add_intent s x) ch i"
    by blast+
qed

lemma add_intent_view: "streams_view (add_intent s x) = streams_view s"
  by (simp add: add_intent_def split: prod.split)

lemma registered_view: "streams_view s' = streams_view s \<Longrightarrow> srv_intentStreams s' = srv_intentStreams s"
  by (simp add: streams_view_def)

lemma add_intents_waiting:
  assumes "streams_ok s hs" "srv_intentStreams s sid = Some ch" "length (waiting s ch) + length xs \<le> 100"
  shows "streams_view (foldl add_intent s xs) = streams_view s \<and> set (waiting s ch) \<subseteq> set (waiting (foldl add_intent s xs) ch)
    \<and> length (waiting (foldl add_intent s xs) ch) \<le> length (waiting s ch) + length xs
    \<and> (srv_intents (foldl add_intent s xs) i = Some w \<longrightarrow> srv_intents s i = Some w \<or> announced (foldl add_intent s xs) ch i)"
  using assms
proof (induction xs arbitrary: s)
  case (Cons x xs)
  let ?t = "add_intent s x"
  have room: "length (waiting s ch) < 100" using Cons.prems(3) by simp
  note one = add_intent_waiting [OF Cons.prems(1,2) room, of x]
  have "streams_ok ?t hs" using view_ok [OF Cons.prems(1) add_intent_view] .
  moreover have "srv_intentStreams ?t sid = Some ch" using Cons.prems(2) registered_view [OF add_intent_view] by simp
  moreover have "length (waiting ?t ch) + length xs \<le> 100" using one(2) Cons.prems(3) by simp
  ultimately have IH: "streams_view (foldl add_intent ?t xs) = streams_view ?t \<and> set (waiting ?t ch) \<subseteq> set (waiting (foldl add_intent ?t xs) ch)
    \<and> length (waiting (foldl add_intent ?t xs) ch) \<le> length (waiting ?t ch) + length xs
    \<and> (srv_intents (foldl add_intent ?t xs) i = Some w \<longrightarrow> srv_intents ?t i = Some w \<or> announced (foldl add_intent ?t xs) ch i)"
    by (rule Cons.IH)
  have "announced (foldl add_intent ?t xs) ch i" if "announced ?t ch i" using that IH by (auto simp: announced_def)
  then show ?case using IH one add_intent_view [of s x] by auto
qed simp

lemma existing_waiting:
  assumes "ch < length (srv_intentChans s)" "\<not> chn_closed (srv_intentChans s ! ch)" "chn_cap (srv_intentChans s ! ch) = 100"
    and "length (waiting s ch) + length order \<le> 100"
  shows "waiting (StreamIntents_existing now order ch s) ch = waiting s ch @
      map (\<lambda>i. \<lparr>up_IntentId = i, up_UpdateType = ''EXISTING_INTENT'', up_Timestamp = now\<rparr>)
        (filter (\<lambda>i. \<exists>w. srv_intents s i = Some w \<and> \<not> iw_WindowClosed w) order)
    \<and> srv_intents (StreamIntents_existing now order ch s) = srv_intents s"
  using assms
proof (induction order arbitrary: s)
  case Nil
  then show ?case by (simp add: StreamIntents_existing_def)
next
  case (Cons i order)
  let ?t = "existing_one now ch s i" and ?u = "\<lparr>up_IntentId = i, up_UpdateType = ''EXISTING_INTENT'', up_Timestamp = now\<rparr>"
  have t: "?t = (if \<exists>w. srv_intents s i = Some w \<and> \<not> iw_WindowClosed w
      then s\<lparr>srv_intentChans := (srv_intentChans s)[ch := (srv_intentChans s ! ch)\<lparr>chn_buf := waiting s ch @ [?u]\<rparr>]\<rparr> else s)"
    using Cons.prems by (auto simp: existing_one_def send_open pushed_def waiting_def split: option.split)
  have "StreamIntents_existing now (i # order) ch s = StreamIntents_existing now order ch ?t"
    by (simp add: StreamIntents_existing_def)
  moreover have "ch < length (srv_intentChans ?t)" "\<not> chn_closed (srv_intentChans ?t ! ch)" "chn_cap (srv_intentChans ?t ! ch) = 100"
      "length (waiting ?t ch) + length order \<le> 100" "srv_intents ?t = srv_intents s"
      "waiting ?t ch = waiting s ch @ (if \<exists>w. srv_intents s i = Some w \<and> \<not> iw_WindowClosed w then [?u] else [])"
    using Cons.prems by (simp_all add: t waiting_def)
  ultimately show ?case using Cons.IH [of ?t] by simp
qed

section \<open>Failed assignments\<close>

lemma failed_createAssignment:
  assumes "srv_intents s i = Some w" "\<not> bad_address (srv_heap s ! r)" "e_rootlayer e = Some (\<lambda>_. False)"
    and "\<not> intentExpired (Some (iw_Intent w)) (e_now e)"
  shows "srv_intents (createAssignment e s i r) i = Some (w\<lparr>iw_WindowClosed := False, iw_Matched := False,
      iw_BiddingStartTime := e_now e, iw_BiddingEndTime := e_now e + srv_BiddingWindowSec s\<rparr>)"
    and "srv_bidsByIntent (createAssignment e s i r) = srv_bidsByIntent s" "srv_heap (createAssignment e s i r) = srv_heap s"
    and "srv_intentChans (createAssignment e s i r) = srv_intentChans s"
proof -
  have "\<not> submit_ok e s a" for a using assms(3) by (simp add: submit_ok_def)
  then show "srv_intents (createAssignment e s i r) i = Some (w\<lparr>iw_WindowClosed := False, iw_Matched := False,
      iw_BiddingStartTime := e_now e, iw_BiddingEndTime := e_now e + srv_BiddingWindowSec s\<rparr>)"
    "srv_bidsByIntent (createAssignment e s i r) = srv_bidsByIntent s" "srv_heap (createAssignment e s i r) = srv_heap s"
    "srv_intentChans (createAssignment e s i r) = srv_intentChans s"
    using assms by (simp_all add: createAssignment_eq Let_def handleAssignmentFailureLocked_def cleanupPendingAssignmentLocked_def
        resetIntentWindowLocked_def)
qed

lemma heap_broadcast:
  "srv_heap (broadcastIntentUpdateLocked e s i u) = srv_heap s"
  "srv_bidsByIntent (broadcastIntentUpdateLocked e s i u) = srv_bidsByIntent s"
proof -
  have "srv_heap (broadcast_one u s sid) = srv_heap s \<and> srv_bidsByIntent (broadcast_one u s sid) = srv_bidsByIntent s" for u s sid
    by (auto simp: broadcast_one_def split: option.splits sum.splits)
  then have "srv_heap (foldl (broadcast_one u) s sids) = srv_heap s \<and> srv_bidsByIntent (foldl (broadcast_one u) s sids) = srv_bidsByIntent s"
    for u sids by (induction sids arbitrary: s) simp_all
  then show "srv_heap (broadcastIntentUpdateLocked e s i u) = srv_heap s"
      "srv_bidsByIntent (broadcastIntentUpdateLocked e s i u) = srv_bidsByIntent s"
    by (simp_all add: broadcastIntentUpdateLocked_def)
qed

lemma intents_broadcast: "srv_intents (broadcastIntentUpdateLocked e s i u) = srv_intents s"
  using core_broadcast [of e s i u] by (simp add: core_def)

definition update_kind :: "MatcherIntentUpdate \<Rightarrow> string \<times> string" where
  "update_kind u = (up_IntentId u, up_UpdateType u)"

lemma broadcast_waiting:
  assumes "streams_ok s hs" "srv_intentStreams s sid = Some ch" "length (waiting s ch) < 100"
  shows "map update_kind (waiting (broadcastIntentUpdateLocked e s i u) ch) = map update_kind (waiting s ch) @ [(i, u)]"
  using broadcast_reaches(1) [OF assms(1,2), of e i u] registered_open(3) [OF assms(1,2)] assms(3)
  by (simp add: waiting_def pushed_def update_kind_def)

section \<open>The pulling loop\<close>

text \<open>The failed attempts at the end of a history.\<close>

definition failures :: "pull_event list \<Rightarrow> nat" where
  "failures evs = length (takeWhile (\<lambda>ev. ev = StreamFailed) (rev evs))"

lemma failures_snoc: "failures (evs @ [ev]) = (if ev = StreamFailed then Suc (failures evs) else 0)"
  by (simp add: failures_def)

lemma pull_snoc:
  "pullIntentsFromRootLayer st (evs @ [ev]) =
     (case pullIntentsFromRootLayer st evs of None \<Rightarrow> None | Some st \<Rightarrow> pull_step st ev)"
  by (induction evs arbitrary: st) (simp_all split: option.split)

text \<open>The delay after \<open>k\<close> failed attempts in a row.\<close>

definition retry_delay :: "nat \<Rightarrow> int" where
  "retry_delay k = min (5000000000 * 2 ^ k) 60000000000"

lemma retry_delay_0: "retry_delay 0 = 5000000000"
  by (simp add: retry_delay_def)

lemma retry_delay_Suc: "retry_delay (Suc k) = min (retry_delay k * 2) 60000000000"
  by (simp add: retry_delay_def min_def)

text \<open>What the loop has done after a history: the delay, the mode and the intents it has added.\<close>

definition pulled :: "Server \<Rightarrow> pull_event list \<Rightarrow> Server \<times> Puller \<Rightarrow> bool" where
  "pulled s evs st \<longleftrightarrow> fst st = foldl add_intent s (concat (map delivered evs))
     \<and> (pl_phase (snd st) = PullTop \<longrightarrow> pl_retryDelay (snd st) = retry_delay (failures evs))
     \<and> (pl_phase (snd st) \<in> {PullStream, PullPoll} \<longrightarrow> pl_retryDelay (snd st) = 5000000000)
     \<and> (pl_phase (snd st) \<noteq> PullReturned \<longrightarrow> (pl_streamingMode (snd st) \<longleftrightarrow> pl_phase (snd st) \<noteq> PullPoll))"

lemma pull_step_pulled:
  assumes "pulled s evs st" "pull_step st ev = Some st'"
  shows "pulled s (evs @ [ev]) st'"
proof -
  obtain t p where st: "st = (t, p)" by (cases st)
  show ?thesis
    using assms unfolding st
    by (cases "pl_phase p"; cases ev)
      (auto simp: pulled_def pull_step_def failures_snoc retry_delay_0 retry_delay_Suc)
qed

lemma pull_pulled:
  assumes "pullIntentsFromRootLayer (s, pull_start subnet) evs = Some st"
  shows "pulled s evs st"
  using assms
proof (induction evs arbitrary: st rule: rev_induct)
  case Nil
  then have "st = (s, pull_start subnet)" by simp
  then show ?case by (simp add: pulled_def pull_start_def failures_def retry_delay_0)
next
  case (snoc ev evs)
  then obtain st0 where "pullIntentsFromRootLayer (s, pull_start subnet) evs = Some st0" "pull_step st0 ev = Some st"
    by (auto simp: pull_snoc split: option.splits)
  with snoc.IH show ?case by (blast intro: pull_step_pulled)
qed

lemma add_intents_reachable:
  assumes "srv_reachable (s, js)"
  shows "srv_reachable (foldl add_intent s xs, js)"
  using assms
proof (induction xs arbitrary: s)
  case (Cons x xs)
  have "srv_step (s, js) (add_intent s x, js)" by (cases x) (simp add: add_intent_def srv_step.intent)
  with Cons.prems have "srv_reachable (add_intent s x, js)" by (rule srv_reachable.step)
  from Cons.IH [OF this] show ?case by simp
qed simp

section \<open>Assignments in the whole service\<close>

lemma core_streams_ops:
  "core (fst (StreamIntents_open s)) = core s" "core (StreamIntents_existing now order ch s) = core s"
  "core (fst (StreamIntents_turn ch s)) = core s" "core (StreamIntents_exit sid ch s) = core s"
  "core (sv_server (Stop_matcher o1 o2 v)) = core (sv_server v)" "core (fst (StreamTasks_turn ch s)) = core s"
proof -
  have "core (existing_one now ch s i) = core s" for s i
    by (auto simp: existing_one_def core_def split: option.splits sum.splits)
  then show "core (StreamIntents_existing now order ch s) = core s"
    by (induction order arbitrary: s) (simp_all add: StreamIntents_existing_def)
  show "core (fst (StreamIntents_open s)) = core s" by (simp add: StreamIntents_open_def core_def Let_def)
  show "core (fst (StreamIntents_turn ch s)) = core s" by (simp add: StreamIntents_turn_def core_def split: list.split)
  show "core (fst (StreamTasks_turn ch s)) = core s" by (simp add: StreamTasks_turn_def core_def split: list.split)
  show "core (StreamIntents_exit sid ch s) = core s" by (simp add: StreamIntents_exit_def core_def Let_def split: sum.split)
  show "core (sv_server (Stop_matcher o1 o2 v)) = core (sv_server v)"
    by (simp add: Stop_matcher_def core_def Let_def split: sum.split)
qed

lemma service_step_inv:
  assumes "service_step v v'" "srv_inv (sv_server v) (sv_jobs v)"
  shows "srv_inv (sv_server v') (sv_jobs v')"
  using assms(1)
proof (cases rule: service_step.cases)
  case (serve s js)
  with srv_step_inv [OF serve(2)] assms(2) show ?thesis by simp
next
  case (open_stream s sid ch)
  then have "core s = core (sv_server v)" using core_streams_ops(1) [of "sv_server v"] by simp
  from srv_inv_core [OF this] open_stream(1) assms(2) show ?thesis by simp
next
  case (existing sid ch order now)
  then show ?thesis using assms(2) srv_inv_core [OF core_streams_ops(2)] by simp
next
  case (turn sid ch)
  then show ?thesis using assms(2) srv_inv_core [OF core_streams_ops(3)] by simp
next
  case (task_turn ch)
  then show ?thesis using assms(2) srv_inv_core [OF core_streams_ops(6)] by simp
next
  case (leave sid ch)
  then show ?thesis using assms(2) srv_inv_core [OF core_streams_ops(4)] by simp
next
  case (stop order torder)
  moreover have "sv_jobs (Stop_matcher order torder v) = sv_jobs v"
    by (simp add: Stop_matcher_def Let_def split: sum.split)
  ultimately show ?thesis using assms(2) srv_inv_core [OF core_streams_ops(5)] by simp
qed (use assms(2) in \<open>simp add: Start_matcher_def\<close>)

lemma service_reachable_inv: "service_reachable v \<Longrightarrow> srv_inv (sv_server v) (sv_jobs v)"
proof (induction rule: service_reachable.induct)
  case (new m w c a)
  show ?case using srv_reachable_inv [OF srv_reachable.new] by simp
qed (rule service_step_inv)

text \<open>So the guarantee of \<open>no_double_assignment\<close> holds for the whole service, with its streams, stops and starts.\<close>

lemma service_assigns_once:
  assumes "service_reachable v"
  shows "card (pending_of (sv_server v) i) + card (confirmed_of (sv_server v) i) \<le> 1"
proof -
  have "live (sv_server v) (sv_jobs v) i \<le> 1" using service_reachable_inv [OF assms] by (simp add: srv_inv_def)
  then show ?thesis by (simp add: live_def)
qed

section \<open>Properties\<close>

text \<open>
  C39: A stream that is opened misses no intent. Its channel is registered before the existing intents are listed, so whatever intents
  arrive before and after the listing, every intent with an open window at the end is announced on the channel, as long as the intents
  listed and arrived are at most 100, the capacity of the channel.
\<close>

theorem stream_misses_no_intent:
  assumes "service_reachable v" "StreamIntents_open (sv_server v) = (s0, sid, ch)"
    and "s1 = foldl add_intent s0 before" "range_order (srv_intents s1) order"
    and "s2 = foldl add_intent (StreamIntents_existing now order ch s1) after"
    and "length before + length order + length after \<le> 100"
    and "srv_intents s2 i = Some w" "\<not> iw_WindowClosed w"
  shows "announced s2 ch i"
proof -
  let ?hs = "(sid, ch) # sv_streams v" and ?e = "StreamIntents_existing now order ch s1"
  have ok0: "streams_ok s0 ?hs" using open_ok [OF service_reachable_ok [OF assms(1)] assms(2)] .
  have reg0: "srv_intentStreams s0 sid = Some ch" and empty: "waiting s0 ch = []"
    using assms(2) by (auto simp: StreamIntents_open_def Let_def waiting_def nth_append)
  have w1: "streams_view s1 = streams_view s0" "length (waiting s1 ch) \<le> length before"
    using add_intents_waiting [OF ok0 reg0, of before] assms(3,6) empty by simp_all
  have ok1: "streams_ok s1 ?hs" and reg1: "srv_intentStreams s1 sid = Some ch"
    using view_ok [OF ok0 w1(1)] registered_view [OF w1(1)] reg0 by simp_all
  have existing: "waiting ?e ch = waiting s1 ch @
      map (\<lambda>i. \<lparr>up_IntentId = i, up_UpdateType = ''EXISTING_INTENT'', up_Timestamp = now\<rparr>)
        (filter (\<lambda>i. \<exists>w. srv_intents s1 i = Some w \<and> \<not> iw_WindowClosed w) order)" "srv_intents ?e = srv_intents s1"
    using existing_waiting [OF registered_open [OF ok1 reg1], of order now] w1(2) assms(6) by simp_all
  have oke: "streams_ok ?e ?hs" and rege: "srv_intentStreams ?e sid = Some ch"
    using view_ok [OF ok1 existing_view] registered_view [OF existing_view] reg1 by simp_all
  have "length (waiting ?e ch) \<le> length before + length order"
    using existing(1) w1(2) le_trans [OF length_filter_le] by (simp add: add_le_mono)
  then have after: "set (waiting ?e ch) \<subseteq> set (waiting s2 ch)" "srv_intents ?e i = Some w \<or> announced s2 ch i"
    using add_intents_waiting [OF oke rege, of after i w] assms(5-7) by simp_all
  show ?thesis
  proof (cases "announced s2 ch i")
    case False
    with after(2) existing(2) have "srv_intents s1 i = Some w" by simp
    moreover from this assms(4) have "i \<in> set order" by (auto simp: range_order_def)
    ultimately have "\<lparr>up_IntentId = i, up_UpdateType = ''EXISTING_INTENT'', up_Timestamp = now\<rparr> \<in> set (waiting ?e ch)"
      using assms(8) by (simp add: existing(1))
    with after(1) show ?thesis unfolding announced_def by (intro image_eqI) auto
  qed
qed

theorem stream_misses_no_intent_witness:
  "announced (StreamIntents_existing 1 [''i1''] 0
     (add_intent (fst (StreamIntents_open (NewServer ''m'' 10 False False))) (example_env 0, Some example_intent))) 0 ''i1''"
proof -
  let ?s0 = "fst (StreamIntents_open (NewServer ''m'' 10 False False))"
  let ?s1 = "add_intent ?s0 (example_env 0, Some example_intent)"
  let ?e = "StreamIntents_existing 1 [''i1''] 0 ?s1"
  have reach: "service_reachable \<lparr>sv_server = NewServer ''m'' 10 False False, sv_jobs = {#}, sv_started = False, sv_streams = []\<rparr>"
    by (rule service_reachable.new)
  have "StreamIntents_open (NewServer ''m'' 10 False False) = (?s0, stream_id 0, 0)"
    by (simp add: StreamIntents_open_def NewServer_def Let_def)
  then have s0: "StreamIntents_open (sv_server \<lparr>sv_server = NewServer ''m'' 10 False False, sv_jobs = {#}, sv_started = False, sv_streams = []\<rparr>)
      = (?s0, stream_id 0, 0)" by simp
  have intents: "srv_intents ?s1 = [''i1'' \<mapsto> \<lparr>iw_Intent = example_intent, iw_BiddingStartTime = 0, iw_BiddingEndTime = 10,
      iw_WindowClosed = False, iw_Matched = False\<rparr>]"
    by (simp add: add_intent_def AddIntent_def Let_def intents_broadcast StreamIntents_open_def NewServer_def)
      (simp add: example_env_def example_intent_def intentExpired_def)
  have "srv_intents ?e ''i1'' = srv_intents ?s1 ''i1''"
    by (simp add: StreamIntents_existing_def existing_one_def split: option.split sum.split)
  with intents have "srv_intents ?e ''i1'' = Some \<lparr>iw_Intent = example_intent, iw_BiddingStartTime = 0, iw_BiddingEndTime = 10,
      iw_WindowClosed = False, iw_Matched = False\<rparr>" by simp
  moreover have "range_order (srv_intents ?s1) [''i1'']" by (simp add: intents range_order_def)
  ultimately show ?thesis
    by (intro stream_misses_no_intent [OF reach s0, where before = "[(example_env 0, Some example_intent)]" and after = "[]"
          and order = "[''i1'']" and now = 1 and w = "\<lparr>iw_Intent = example_intent, iw_BiddingStartTime = 0, iw_BiddingEndTime = 10,
            iw_WindowClosed = False, iw_Matched = False\<rparr>"]) simp_all
qed

text \<open>
  C40: A winner whose assignment cannot be submitted is announced as matched. When the window of an intent is due, a winner with a chain
  address is selected and the root layer refuses the assignment, the window is open again afterwards, with the same bids, so that the
  same winner is selected at the next turn and no runner-up is tried; but every stream is told that the intent is matched and then that
  its window is closed, and nothing announces that it takes bids again.
\<close>

theorem failed_assignment_is_announced_as_matched:
  assumes "service_reachable v" "s = sv_server v" "srv_intents s i = Some w" "\<not> iw_WindowClosed w" "\<not> iw_Matched w"
    and "e_now e \<ge> iw_BiddingEndTime w" "SelectWinner srt (the (srv_bidsByIntent s i)) = Some (win, ups)" "srv_bidsByIntent s i \<noteq> None"
    and "\<not> bad_address (srv_heap s ! win)" "e_rootlayer e = Some (\<lambda>_. False)" "\<not> intentExpired (Some (iw_Intent w)) (e_now e)"
    and "srv_intentStreams s sid = Some ch" "length (waiting s ch) + 2 \<le> 100" "t = close_window e srt s i"
  shows "(\<exists>w'. srv_intents t i = Some w' \<and> \<not> iw_WindowClosed w' \<and> \<not> iw_Matched w')
    \<and> srv_bidsByIntent t = srv_bidsByIntent s \<and> srv_heap t = srv_heap s
    \<and> map update_kind (waiting t ch) = map update_kind (waiting s ch) @ [(i, ''MATCHED''), (i, ''WINDOW_CLOSED'')]"
proof -
  obtain rs where rs: "srv_bidsByIntent s i = Some rs" using assms(8) by blast
  let ?s1 = "s\<lparr>srv_intents := (srv_intents s)(i \<mapsto> w\<lparr>iw_WindowClosed := True\<rparr>)\<rparr>"
  obtain res where t: "t = broadcastIntentUpdateLocked e (broadcastIntentUpdateLocked e (createAssignment e
      (set_matched (?s1\<lparr>srv_matchingResults := (srv_matchingResults ?s1)(i \<mapsto> res)\<rparr>) i) i win) i ''MATCHED'') i ''WINDOW_CLOSED''"
    using assms(3-7,14) rs by (simp add: close_window_def performMatching_def Let_def)
  let ?s2 = "set_matched (?s1\<lparr>srv_matchingResults := (srv_matchingResults ?s1)(i \<mapsto> res)\<rparr>) i"
  have s2: "srv_intents ?s2 i = Some (w\<lparr>iw_WindowClosed := True, iw_Matched := True\<rparr>)" "srv_heap ?s2 = srv_heap s"
      "srv_bidsByIntent ?s2 = srv_bidsByIntent s" "srv_intentChans ?s2 = srv_intentChans s"
    by (simp_all add: set_matched_def)
  let ?s3 = "createAssignment e ?s2 i win"
  have "\<not> bad_address (srv_heap ?s2 ! win)" "\<not> intentExpired (Some (iw_Intent (w\<lparr>iw_WindowClosed := True, iw_Matched := True\<rparr>))) (e_now e)"
    using assms(9,11) s2 by simp_all
  note s3 = failed_createAssignment [OF s2(1) this(1) assms(10) this(2)]
  have view: "streams_view ?s3 = streams_view s" by (simp add: streams_view_fields)
  have ok: "streams_ok ?s3 (sv_streams v)" and reg: "srv_intentStreams ?s3 sid = Some ch"
    using view_ok [OF _ view] service_reachable_ok [OF assms(1)] registered_view [OF view] assms(2,12) by simp_all
  have waits: "waiting ?s3 ch = waiting s ch" using s3(4) s2(4) by (simp add: waiting_def)
  let ?s4 = "broadcastIntentUpdateLocked e ?s3 i ''MATCHED''"
  have m4: "map update_kind (waiting ?s4 ch) = map update_kind (waiting s ch) @ [(i, ''MATCHED'')]"
    using broadcast_waiting [OF ok reg] waits assms(13) by simp
  have "length (waiting ?s4 ch) = Suc (length (waiting s ch))" using arg_cong [OF m4, of length] by simp
  then have "length (waiting ?s4 ch) < 100" using assms(13) by linarith
  moreover have "streams_ok ?s4 (sv_streams v)" "srv_intentStreams ?s4 sid = Some ch"
    using view_ok [OF ok view_broadcast] registered_view [OF view_broadcast] reg by simp_all
  ultimately have "map update_kind (waiting t ch) = map update_kind (waiting s ch) @ [(i, ''MATCHED''), (i, ''WINDOW_CLOSED'')]"
    using broadcast_waiting [of ?s4 "sv_streams v" sid ch e i "''WINDOW_CLOSED''"] m4 t by simp
  moreover have "srv_intents t i = srv_intents ?s3 i" "srv_bidsByIntent t = srv_bidsByIntent s" "srv_heap t = srv_heap s"
    unfolding t using s2 s3(2,3) by (simp_all add: heap_broadcast intents_broadcast)
  ultimately show ?thesis using s3(1) by simp
qed

text \<open>A service that has taken an intent and a bid and then opens a stream.\<close>

definition example_matcher :: MatcherService where
  "example_matcher = \<lparr>sv_server = fst (StreamIntents_open example_server), sv_jobs = {#}, sv_started = False,
     sv_streams = [(stream_id 0, 0)]\<rparr>"

lemma example_matcher_reachable: "service_reachable example_matcher"
proof -
  let ?v = "\<lambda>s. \<lparr>sv_server = s, sv_jobs = {#}, sv_started = False, sv_streams = []\<rparr>"
  let ?s0 = "NewServer ''m'' 10 False False"
  let ?s1 = "fst (AddIntent (example_env 0) ?s0 (Some example_intent))"
  have panic: "srv_panic ?s0 = None" "srv_panic example_server = None" by (simp_all add: NewServer_def example_server_eq)
  have "service_reachable (?v ?s0)" by (rule service_reachable.new)
  moreover have "service_step (?v ?s0) (?v ?s1)"
    using service_step.serve [of "?v ?s0" ?s1 "{#}"] srv_step.intent by simp
  ultimately have "service_reachable (?v ?s1)" using panic by (simp add: service_reachable.step)
  moreover have "srv_panic ?s1 = None"
    by (simp add: AddIntent_def broadcastIntentUpdateLocked_def NewServer_def Let_def)
  moreover have "service_step (?v ?s1) (?v example_server)"
    using service_step.serve [of "?v ?s1" example_server "{#}"] srv_step.bid [of ?s1 "{#}"] by (simp add: example_server_def)
  ultimately have "service_reachable (?v example_server)" using service_reachable.step by fastforce
  moreover have "service_step (?v example_server) example_matcher"
    using service_step.open_stream [of "?v example_server" "fst (StreamIntents_open example_server)" "stream_id 0" 0]
    by (simp add: example_matcher_def StreamIntents_open_def example_server_eq NewServer_def Let_def)
  ultimately show ?thesis using service_reachable.step panic(2) by fastforce
qed

theorem failed_assignment_is_announced_as_matched_witness:
  "map update_kind (waiting (close_window ((example_env 20)\<lparr>e_rootlayer := Some (\<lambda>_. False)\<rparr>) id (sv_server example_matcher) ''i1'') 0)
   = [(''i1'', ''MATCHED''), (''i1'', ''WINDOW_CLOSED'')]"
proof -
  let ?s = "sv_server example_matcher" and ?e = "(example_env 20)\<lparr>e_rootlayer := Some (\<lambda>_. False)\<rparr>"
  let ?w = "\<lparr>iw_Intent = example_intent, iw_BiddingStartTime = 0, iw_BiddingEndTime = 10, iw_WindowClosed = False, iw_Matched = False\<rparr>"
  have s: "srv_intents ?s ''i1'' = Some ?w" "srv_bidsByIntent ?s ''i1'' = Some [0]" "srv_heap ?s = [example_bid ''b1'' 5 ''0x01'']"
      "srv_intentStreams ?s (stream_id 0) = Some 0" "waiting ?s 0 = []"
    by (simp_all add: example_matcher_def StreamIntents_open_def example_server_eq NewServer_def Let_def waiting_def)
  have e: "e_now ?e = 20" "e_rootlayer ?e = Some (\<lambda>_. False)" by (simp_all add: example_env_def)
  have "\<not> intentExpired (Some (iw_Intent ?w)) (e_now ?e)" by (simp add: example_intent_def intentExpired_def)
  moreover have "SelectWinner id (the (srv_bidsByIntent ?s ''i1'')) = Some (0, [])" by (simp add: s SelectWinner_def)
  moreover have "\<not> bad_address (srv_heap ?s ! 0)" using example_address by (simp add: s)
  ultimately have "map update_kind (waiting (close_window ?e id ?s ''i1'') 0)
      = map update_kind (waiting ?s 0) @ [(''i1'', ''MATCHED''), (''i1'', ''WINDOW_CLOSED'')]"
    using failed_assignment_is_announced_as_matched [OF example_matcher_reachable refl s(1), where e = ?e and srt = id and win = 0 and ups = "[]"
        and sid = "stream_id 0" and ch = 0 and t = "close_window ?e id ?s ''i1''"] s e by simp
  with s(5) show ?thesis by simp
qed

text \<open>
  Stopping the service crashes the streams that run. Until the service is stopped the clean-up of a stream closes its channel in good
  order; after a stop that found the stream running the same clean-up closes a closed channel and panics, and until the stream ends its
  loop, once it has sent what waited, sends nil updates without ever waiting.
\<close>

theorem stop_crashes_running_streams:
  assumes "service_reachable v" "sv_started v" "srv_panic (sv_server v) = None"
    and "range_order (srv_intentStreams (sv_server v)) order" "srv_intentStreams (sv_server v) sid = Some ch"
    and "s' = sv_server (Stop_matcher order torder v)" "srv_panic s' = None"
  shows "srv_panic (StreamIntents_exit sid ch (sv_server v)) = None
    \<and> srv_panic (StreamIntents_exit sid ch s') = Some CloseOfClosedChannel
    \<and> (waiting s' ch = [] \<longrightarrow> snd (StreamIntents_turn ch s') = StreamSends None)"
proof -
  note ok = service_reachable_ok [OF assms(1)]
  have "srv_panic (StreamIntents_exit sid ch (sv_server v)) = None"
    using registered_open(2) [OF ok assms(5)] assms(3) by (simp add: exit_fields)
  moreover have "srv_intentStreams s' = Map.empty"
    using assms(2,6,7) by (auto simp: Stop_matcher_def Let_def split: sum.splits)
  moreover have "sv_streams (Stop_matcher order torder v) = sv_streams v"
    by (simp add: Stop_matcher_def Let_def split: sum.split)
  then have "streams_ok s' (sv_streams v)" using stop_ok [OF ok assms(4), of torder] assms(6) by simp
  then have "handler_ok s' sid ch" using streams_okD(3) streams_okD(4) [OF ok assms(5)] by blast
  ultimately show ?thesis
    by (auto simp: exit_fields StreamIntents_turn_def waiting_def dest: handler_okD(4))
qed

theorem stop_crashes_running_streams_witness:
  "srv_panic (StreamIntents_exit (stream_id 0) 0 (sv_server (Stop_matcher [stream_id 0] [] (example_matcher\<lparr>sv_started := True\<rparr>))))
   = Some CloseOfClosedChannel"
proof -
  let ?v = "example_matcher\<lparr>sv_started := True\<rparr>"
  have "service_step example_matcher (fst (Start_matcher True example_matcher))" by (rule service_step.start)
  moreover have panic: "srv_panic (sv_server example_matcher) = None"
    by (simp add: example_matcher_def StreamIntents_open_def example_server_eq NewServer_def Let_def)
  ultimately have "service_reachable (fst (Start_matcher True example_matcher))"
    using service_reachable.step [OF example_matcher_reachable] by blast
  then have reach: "service_reachable ?v" by (simp add: Start_matcher_def example_matcher_def)
  have streams: "srv_intentStreams (sv_server ?v) = [stream_id 0 \<mapsto> 0]" "srv_panic (sv_server ?v) = None"
    and "srv_agentTasks (sv_server ?v) = Map.empty"
    and chans: "srv_intentChans (sv_server ?v) = [\<lparr>chn_buf = [], chn_cap = 100, chn_closed = False\<rparr>]"
    by (simp_all add: example_matcher_def StreamIntents_open_def example_server_eq NewServer_def Let_def)
  then have "srv_panic (sv_server (Stop_matcher [stream_id 0] [] ?v)) = None"
    by (simp add: Stop_matcher_def Let_def List.map_filter_def chan_close_def)
  from stop_crashes_running_streams [OF reach _ streams(2) _ _ refl this, of "stream_id 0" 0] streams
  show ?thesis by (simp add: range_order_def)
qed

text \<open>
  Whatever the root layer answers, the pulling loop does to the service exactly what adding the received intents one by one in the
  order of their arrival does, and nothing else; in particular the server stays reachable, so that the guarantees of the service hold. While
  the loop tries to connect, the delay before the next attempt is 5 seconds doubled for every failed attempt in a row, at most 60 seconds.
\<close>

theorem pull_loop_adds_what_it_receives:
  assumes "srv_reachable (s, js)" "pullIntentsFromRootLayer (s, pull_start subnet) evs = Some (s', p)"
  shows "s' = foldl add_intent s (concat (map delivered evs)) \<and> srv_reachable (s', js)
    \<and> (pl_phase p = PullTop \<longrightarrow> pl_retryDelay p = min (5000000000 * 2 ^ failures evs) 60000000000)
    \<and> (subnet = [] \<longrightarrow> evs = [])"
proof -
  have "pulled s evs (s', p)" using pull_pulled [OF assms(2)] .
  moreover have "subnet = [] \<Longrightarrow> evs = []"
    using assms(2) by (cases evs) (simp_all add: pull_start_def pull_step_def)
  ultimately show ?thesis using add_intents_reachable [OF assms(1)] by (simp add: pulled_def retry_delay_def)
qed

theorem pull_loop_adds_what_it_receives_witness:
  "\<exists>s p. pullIntentsFromRootLayer (NewServer ''m'' 10 False False, pull_start ''subnet'')
       [StreamFailed, StreamOpened, StreamIntent (example_env 0) None, StreamEnded, PollAnswered [(example_env 0, None)], RestoreTick,
        StreamFailed, StreamFailed] = Some (s, p)
     \<and> pl_retryDelay p = 20000000000"
proof -
  obtain s p where run: "pullIntentsFromRootLayer (NewServer ''m'' 10 False False, pull_start ''subnet'')
       [StreamFailed, StreamOpened, StreamIntent (example_env 0) None, StreamEnded, PollAnswered [(example_env 0, None)], RestoreTick,
        StreamFailed, StreamFailed] = Some (s, p)" and "pl_phase p = PullTop"
    by (simp add: pull_start_def pull_step_def)
  with pull_loop_adds_what_it_receives [OF srv_reachable.new this(1)] show ?thesis by (simp add: failures_def)
qed

end
