(* ===== verification/Raft_FSM.thy ===== *)
theory Raft_FSM
  imports Validator_Set Store
begin

text \<open>
  The Raft engine: the log entries (\<open>src/internal/consensus/raft/raft_log.go\<close>), the replicated state
  machine (\<open>raft_fsm.go\<close>), its wrapper around the Raft library (\<open>raft_consensus.go\<close>), the gossip
  delegate that spreads signatures (\<open>gossip_delegate.go\<close>) and the engine that joins them
  (\<open>consensus.go\<close>). The JSON and protobuf codecs are the fields of a record, the Raft library is the
  function that submits a payload. Callbacks that the code runs are returned as events, in the order of
  the calls; those of the state machine run in goroutines of their own.
\<close>

section \<open>Model\<close>

subsection \<open>Log entries\<close>

type_synonym RaftEntryType = byte

definition RaftEntryCheckpoint :: RaftEntryType where "RaftEntryCheckpoint = 0"
definition RaftEntryExecutionReport :: RaftEntryType where "RaftEntryExecutionReport = 1"

record RaftLogEntry =
  le_Type :: RaftEntryType
  le_Data :: bytes
  le_Timestamp :: int
  le_ProposerID :: string

record raftSnapshot =
  sn_CurrentEpoch :: u64
  sn_Checkpoints :: "u64 \<rightharpoonup> CheckpointHeader"
  sn_Reports :: "string \<rightharpoonup> ExecutionReport"

record Raft_Codec =
  rc_entry_marshal :: "RaftLogEntry \<Rightarrow> bytes option"
  rc_entry_unmarshal :: "bytes \<Rightarrow> RaftLogEntry option"
  rc_header_marshal :: "CheckpointHeader \<Rightarrow> bytes option"
  rc_header_unmarshal :: "bytes \<Rightarrow> CheckpointHeader option"
  rc_report_marshal :: "ExecutionReport \<Rightarrow> bytes option"
  rc_report_unmarshal :: "bytes \<Rightarrow> ExecutionReport option"
  rc_snapshot_marshal :: "raftSnapshot \<Rightarrow> bytes option"
  rc_snapshot_unmarshal :: "bytes \<Rightarrow> raftSnapshot option"

text \<open>The clock of \<open>time.Now()\<close> is read in whole seconds.\<close>

definition NewCheckpointEntry :: "bytes \<Rightarrow> string \<Rightarrow> int \<Rightarrow> RaftLogEntry" where
  "NewCheckpointEntry raw proposerID now =
     \<lparr>le_Type = RaftEntryCheckpoint, le_Data = raw, le_Timestamp = now div second, le_ProposerID = proposerID\<rparr>"

definition NewExecutionReportEntry :: "bytes \<Rightarrow> string \<Rightarrow> int \<Rightarrow> RaftLogEntry" where
  "NewExecutionReportEntry raw proposerID now =
     \<lparr>le_Type = RaftEntryExecutionReport, le_Data = raw, le_Timestamp = now div second, le_ProposerID = proposerID\<rparr>"

datatype fsm_error =
    EmptyEntry
  | DecodeEntry
  | DecodeCheckpoint
  | DecodeReport
  | UnknownEntryType byte
  | RestoreSnapshot

definition UnmarshalRaftLogEntry :: "Raft_Codec \<Rightarrow> bytes \<Rightarrow> fsm_error + RaftLogEntry" where
  "UnmarshalRaftLogEntry cd data =
     (if length data = 0 then Inl EmptyEntry
      else case rc_entry_unmarshal cd data of None \<Rightarrow> Inl DecodeEntry | Some entry \<Rightarrow> Inr entry)"

subsection \<open>The replicated state machine\<close>

datatype fsm_event =
    CheckpointCommitted CheckpointHeader
  | ExecutionReportCommitted ExecutionReport string

text \<open>\<open>f_handler\<close> says whether a handler is set.\<close>

record RaftFSM =
  f_handler :: bool
  f_checkpoints :: "u64 \<rightharpoonup> CheckpointHeader"
  f_pendingReports :: "string \<rightharpoonup> ExecutionReport"
  f_currentEpoch :: u64

definition NewRaftFSM :: "bool \<Rightarrow> RaftFSM" where
  "NewRaftFSM handler =
     \<lparr>f_handler = handler, f_checkpoints = Map.empty, f_pendingReports = Map.empty, f_currentEpoch = 0\<rparr>"

definition makeReportKey :: "ExecutionReport \<Rightarrow> string" where
  "makeReportKey report =
     er_IntentId report @ CHR '':'' # er_AssignmentId report @ CHR '':'' # er_AgentId report
       @ CHR '':'' # dec_int (er_Timestamp report)"

definition applyCheckpoint ::
  "Raft_Codec \<Rightarrow> RaftFSM \<Rightarrow> bytes \<Rightarrow> RaftFSM \<times> fsm_event list \<times> fsm_error option" where
  "applyCheckpoint cd f raw =
     (case rc_header_unmarshal cd raw of
        None \<Rightarrow> (f, [], Some DecodeCheckpoint)
      | Some header \<Rightarrow>
          (f\<lparr>f_checkpoints := (f_checkpoints f)(h_Epoch header \<mapsto> header), f_currentEpoch := h_Epoch header\<rparr>,
           (if f_handler f then [CheckpointCommitted header] else []), None))"

definition applyExecutionReport ::
  "Raft_Codec \<Rightarrow> RaftFSM \<Rightarrow> bytes \<Rightarrow> RaftFSM \<times> fsm_event list \<times> fsm_error option" where
  "applyExecutionReport cd f raw =
     (case rc_report_unmarshal cd raw of
        None \<Rightarrow> (f, [], Some DecodeReport)
      | Some report \<Rightarrow>
          let key = makeReportKey report in
          (f\<lparr>f_pendingReports := (f_pendingReports f)(key \<mapsto> report)\<rparr>,
           (if f_handler f then [ExecutionReportCommitted report key] else []), None))"

definition Apply :: "Raft_Codec \<Rightarrow> RaftFSM \<Rightarrow> bytes \<Rightarrow> RaftFSM \<times> fsm_event list \<times> fsm_error option" where
  "Apply cd f data =
     (case UnmarshalRaftLogEntry cd data of
        Inl err \<Rightarrow> (f, [], Some err)
      | Inr entry \<Rightarrow>
          if le_Type entry = RaftEntryCheckpoint then applyCheckpoint cd f (le_Data entry)
          else if le_Type entry = RaftEntryExecutionReport then applyExecutionReport cd f (le_Data entry)
          else (f, [], Some (UnknownEntryType (le_Type entry))))"

definition Snapshot :: "RaftFSM \<Rightarrow> raftSnapshot" where
  "Snapshot f =
     \<lparr>sn_CurrentEpoch = f_currentEpoch f, sn_Checkpoints = f_checkpoints f, sn_Reports = f_pendingReports f\<rparr>"

text \<open>What \<open>Persist\<close> writes to the sink; \<open>None\<close> is an encoding error, after which the sink is cancelled.\<close>

definition Persist :: "Raft_Codec \<Rightarrow> raftSnapshot \<Rightarrow> bytes option" where
  "Persist cd s = rc_snapshot_marshal cd s"

definition Restore :: "Raft_Codec \<Rightarrow> RaftFSM \<Rightarrow> bytes \<Rightarrow> RaftFSM \<times> fsm_error option" where
  "Restore cd f rc =
     (case rc_snapshot_unmarshal cd rc of
        None \<Rightarrow> (f, Some RestoreSnapshot)
      | Some snap \<Rightarrow>
          (f\<lparr>f_currentEpoch := sn_CurrentEpoch snap, f_checkpoints := sn_Checkpoints snap,
             f_pendingReports := sn_Reports snap\<rparr>, None))"

definition LatestCheckpoint :: "RaftFSM \<Rightarrow> CheckpointHeader option" where
  "LatestCheckpoint f = f_checkpoints f (f_currentEpoch f)"

definition PendingReports :: "RaftFSM \<Rightarrow> (string \<rightharpoonup> ExecutionReport)" where
  "PendingReports f = f_pendingReports f"

definition ClearPending :: "RaftFSM \<Rightarrow> string list \<Rightarrow> RaftFSM" where
  "ClearPending f keys = f\<lparr>f_pendingReports := foldl (\<lambda>m k. m(k := None)) (f_pendingReports f) keys\<rparr>"

subsection \<open>Proposing through the Raft library\<close>

text \<open>
  \<open>raftApply\<close> stands for \<open>raft.Apply(payload, timeout)\<close> and \<open>future.Error()\<close>: it changes the state
  \<open>'r\<close> of the library and returns the error of the future, which is not the response of the state machine.
\<close>

datatype 'e raft_error = MarshalCheckpoint | MarshalReport | MarshalEntry | FutureError 'e | NotReady

definition applyEntry ::
  "Raft_Codec \<Rightarrow> ('r \<Rightarrow> bytes \<Rightarrow> 'r \<times> 'e option) \<Rightarrow> 'r \<Rightarrow> RaftLogEntry \<Rightarrow> 'r \<times> 'e raft_error option" where
  "applyEntry cd raftApply r entry =
     (case rc_entry_marshal cd entry of
        None \<Rightarrow> (r, Some MarshalEntry)
      | Some payload \<Rightarrow> (case raftApply r payload of (r', e) \<Rightarrow> (r', map_option FutureError e)))"

definition ApplyCheckpoint ::
  "Raft_Codec \<Rightarrow> ('r \<Rightarrow> bytes \<Rightarrow> 'r \<times> 'e option) \<Rightarrow> 'r \<Rightarrow> CheckpointHeader \<Rightarrow> string \<Rightarrow> int \<Rightarrow>
     'r \<times> 'e raft_error option" where
  "ApplyCheckpoint cd raftApply r header proposerID now =
     (case rc_header_marshal cd header of
        None \<Rightarrow> (r, Some MarshalCheckpoint)
      | Some raw \<Rightarrow> applyEntry cd raftApply r (NewCheckpointEntry raw proposerID now))"

definition ApplyExecutionReport ::
  "Raft_Codec \<Rightarrow> ('r \<Rightarrow> bytes \<Rightarrow> 'r \<times> 'e option) \<Rightarrow> 'r \<Rightarrow> ExecutionReport \<Rightarrow> string \<Rightarrow> int \<Rightarrow>
     'r \<times> 'e raft_error option" where
  "ApplyExecutionReport cd raftApply r report proposerID now =
     (case rc_report_marshal cd report of
        None \<Rightarrow> (r, Some MarshalReport)
      | Some raw \<Rightarrow> applyEntry cd raftApply r (NewExecutionReportEntry raw proposerID now))"

subsection \<open>The gossip delegate\<close>

record CheckpointSignature =
  gs_Epoch :: u64
  gs_ValidatorId :: string
  gs_SignatureDer :: bytes
  gs_Timestamp :: int
  gs_CheckpointHash :: bytes

text \<open>The \<open>oneof\<close> of a gossip message; a message from a newer peer can have none of the two payloads.\<close>

datatype GossipMessage =
    GossipMessage_Signature CheckpointSignature
  | GossipMessage_ValidationBundleSignature ValidationBundleSignature
  | NoPayload

record SignatureGossipDelegate =
  d_broadcasts :: "bytes list"
  d_nodeID :: string
  d_validationBundleSigHandler :: bool

datatype gossip_call =
    SignatureHandler Signature bytes
  | VBSignatureHandler ValidationBundleSignature

definition NewSignatureGossipDelegate :: "string \<Rightarrow> SignatureGossipDelegate" where
  "NewSignatureGossipDelegate nodeID =
     \<lparr>d_broadcasts = [], d_nodeID = nodeID, d_validationBundleSigHandler = False\<rparr>"

text \<open>The handlers that \<open>NotifyMsg\<close> calls; the engine always sets the signature handler.\<close>

definition NotifyMsg ::
  "(bytes \<Rightarrow> GossipMessage option) \<Rightarrow> SignatureGossipDelegate \<Rightarrow> bytes \<Rightarrow> gossip_call list" where
  "NotifyMsg unmarshal d data =
     (case unmarshal data of
        None \<Rightarrow> []
      | Some (GossipMessage_Signature sig) \<Rightarrow>
          if gs_ValidatorId sig = d_nodeID d then []
          else [SignatureHandler
                  \<lparr>sg_Algo = [], sg_Der = gs_SignatureDer sig, sg_Pubkey = [], sg_MsgHash = [],
                   sg_SignerId = gs_ValidatorId sig\<rparr> (gs_CheckpointHash sig)]
      | Some (GossipMessage_ValidationBundleSignature vbSig) \<Rightarrow>
          if d_validationBundleSigHandler d then [VBSignatureHandler vbSig] else []
      | Some NoPayload \<Rightarrow> [])"

definition GetBroadcasts :: "SignatureGossipDelegate \<Rightarrow> SignatureGossipDelegate \<times> bytes list" where
  "GetBroadcasts d =
     (if length (d_broadcasts d) = 0 then (d, []) else (d\<lparr>d_broadcasts := []\<rparr>, d_broadcasts d))"

definition NodeMeta :: "SignatureGossipDelegate \<Rightarrow> nat \<Rightarrow> bytes" where
  "NodeMeta d limit =
     (let meta = bytes_of (d_nodeID d) in if length meta > limit then take limit meta else meta)"

definition BroadcastSignature_delegate ::
  "(GossipMessage \<Rightarrow> bytes option) \<Rightarrow> SignatureGossipDelegate \<Rightarrow> Signature \<Rightarrow> u64 \<Rightarrow> bytes \<Rightarrow>
     SignatureGossipDelegate \<times> bool" where
  "BroadcastSignature_delegate marshal d sig epoch checkpointHash =
     (case marshal (GossipMessage_Signature
        \<lparr>gs_Epoch = epoch, gs_ValidatorId = sg_SignerId sig, gs_SignatureDer = sg_Der sig, gs_Timestamp = 0,
         gs_CheckpointHash = checkpointHash\<rparr>) of
        None \<Rightarrow> (d, False)
      | Some data \<Rightarrow> (d\<lparr>d_broadcasts := d_broadcasts d @ [data]\<rparr>, True))"

definition BroadcastValidationBundleSignature ::
  "(GossipMessage \<Rightarrow> bytes option) \<Rightarrow> SignatureGossipDelegate \<Rightarrow> ValidationBundleSignature \<Rightarrow>
     SignatureGossipDelegate \<times> bool" where
  "BroadcastValidationBundleSignature marshal d vbSig =
     (case marshal (GossipMessage_ValidationBundleSignature vbSig) of
        None \<Rightarrow> (d, False)
      | Some data \<Rightarrow> (d\<lparr>d_broadcasts := d_broadcasts d @ [data]\<rparr>, True))"

definition SetValidationBundleSignatureHandler ::
  "SignatureGossipDelegate \<Rightarrow> bool \<Rightarrow> SignatureGossipDelegate" where
  "SetValidationBundleSignatureHandler d handler = d\<lparr>d_validationBundleSigHandler := handler\<rparr>"

subsection \<open>The engine\<close>

text \<open>
  The engine of one node, with the state of its own state machine and gossip delegate; \<open>c_onSignature\<close> says
  whether \<open>OnSignatureReceived\<close> is set. \<open>Some m\<close> in the outer map is the inner map of an epoch.
\<close>

record Consensus =
  c_ready :: bool
  c_nodeID :: string
  c_validatorID :: string
  c_onSignature :: bool
  c_signatures :: "u64 \<rightharpoonup> (string \<rightharpoonup> Signature)"
  c_fsm :: RaftFSM
  c_gossip :: SignatureGossipDelegate

definition NewConsensus :: "string \<Rightarrow> string \<Rightarrow> bool \<Rightarrow> Consensus" where
  "NewConsensus raftNodeID gossipNodeName onSignature =
     \<lparr>c_ready = False, c_nodeID = raftNodeID, c_validatorID = gossipNodeName, c_onSignature = onSignature,
      c_signatures = Map.empty, c_fsm = NewRaftFSM True,
      c_gossip = NewSignatureGossipDelegate gossipNodeName\<rparr>"

definition Start :: "Consensus \<Rightarrow> Consensus" where
  "Start c = (if c_ready c then c else c\<lparr>c_ready := True\<rparr>)"

definition Stop :: "Consensus \<Rightarrow> Consensus" where
  "Stop c = (if \<not> c_ready c then c else c\<lparr>c_ready := False\<rparr>)"

definition GetLatestCheckpoint :: "Consensus \<Rightarrow> CheckpointHeader option" where
  "GetLatestCheckpoint c = LatestCheckpoint (c_fsm c)"

definition GetCurrentEpoch :: "Consensus \<Rightarrow> u64" where
  "GetCurrentEpoch c = (case GetLatestCheckpoint c of None \<Rightarrow> 0 | Some header \<Rightarrow> h_Epoch header)"

definition ProposeCheckpoint ::
  "Raft_Codec \<Rightarrow> ('r \<Rightarrow> bytes \<Rightarrow> 'r \<times> 'e option) \<Rightarrow> Consensus \<Rightarrow> 'r \<Rightarrow> CheckpointHeader \<Rightarrow> int \<Rightarrow>
     'r \<times> 'e raft_error option" where
  "ProposeCheckpoint cd raftApply c r header now =
     (if \<not> c_ready c then (r, Some NotReady)
      else ApplyCheckpoint cd raftApply r header (c_validatorID c) now)"

text \<open>The argument \<open>reportKey\<close> of the source is not used there.\<close>

definition ProposeExecutionReport ::
  "Raft_Codec \<Rightarrow> ('r \<Rightarrow> bytes \<Rightarrow> 'r \<times> 'e option) \<Rightarrow> Consensus \<Rightarrow> 'r \<Rightarrow> ExecutionReport \<Rightarrow> string \<Rightarrow> int \<Rightarrow>
     'r \<times> 'e raft_error option" where
  "ProposeExecutionReport cd raftApply c r report reportKey now =
     (if \<not> c_ready c then (r, Some NotReady)
      else ApplyExecutionReport cd raftApply r report (c_validatorID c) now)"

definition ClearPendingReports :: "Consensus \<Rightarrow> string list \<Rightarrow> Consensus" where
  "ClearPendingReports c keys = c\<lparr>c_fsm := ClearPending (c_fsm c) keys\<rparr>"

definition storeSignature :: "Consensus \<Rightarrow> Signature \<Rightarrow> u64 \<Rightarrow> Consensus" where
  "storeSignature c sig epoch =
     (let inner = (case c_signatures c epoch of None \<Rightarrow> Map.empty | Some m \<Rightarrow> m) in
      c\<lparr>c_signatures := (c_signatures c)(epoch \<mapsto> inner(sg_SignerId sig \<mapsto> sig))\<rparr>)"

text \<open>The signatures that \<open>OnSignatureReceived\<close> is called with are the second result.\<close>

definition handleSignature :: "Consensus \<Rightarrow> Signature \<Rightarrow> u64 \<Rightarrow> Consensus \<times> Signature list" where
  "handleSignature c sig epoch = (storeSignature c sig epoch, if c_onSignature c then [sig] else [])"

definition signatureHandler :: "Consensus \<Rightarrow> Signature \<Rightarrow> bytes \<Rightarrow> Consensus \<times> Signature list" where
  "signatureHandler c sig checkpointHash =
     (let epoch = (case GetLatestCheckpoint c of None \<Rightarrow> 0 | Some header \<Rightarrow> h_Epoch header) in
      handleSignature c sig epoch)"

definition BroadcastSignature ::
  "(GossipMessage \<Rightarrow> bytes option) \<Rightarrow> Consensus \<Rightarrow> Signature \<Rightarrow> u64 \<Rightarrow> bytes \<Rightarrow> Consensus \<times> bool" where
  "BroadcastSignature marshal c sig epoch checkpointHash =
     (if \<not> c_ready c then (c, False)
      else let c1 = storeSignature c sig epoch in
           case BroadcastSignature_delegate marshal (c_gossip c1) sig epoch checkpointHash of
             (g, ok) \<Rightarrow> (c1\<lparr>c_gossip := g\<rparr>, ok))"

text \<open>\<open>ids\<close> is the order in which the loop visits the inner map of the epoch.\<close>

definition GetSignatures_raft :: "Consensus \<Rightarrow> u64 \<Rightarrow> string list \<Rightarrow> Signature list" where
  "GetSignatures_raft c epoch ids =
     (case c_signatures c epoch of None \<Rightarrow> [] | Some m \<Rightarrow> map (\<lambda>k. the (m k)) ids)"

definition CheckThreshold_raft :: "Consensus \<Rightarrow> u64 \<Rightarrow> bool" where
  "CheckThreshold_raft c epoch =
     (case c_signatures c epoch of None \<Rightarrow> False | Some sigs \<Rightarrow> 3 \<le> card (dom sigs))"

text \<open>
  What the engine does when the gossip layer hands a message to the delegate: the delegate calls the signature
  handler. A validation-bundle signature goes to the node's own handler and leaves the engine as it is.
\<close>

definition run_call :: "Consensus \<Rightarrow> gossip_call \<Rightarrow> Consensus" where
  "run_call c call = (case call of SignatureHandler sig h \<Rightarrow> fst (signatureHandler c sig h) | VBSignatureHandler _ \<Rightarrow> c)"

definition receive :: "(bytes \<Rightarrow> GossipMessage option) \<Rightarrow> Consensus \<Rightarrow> bytes \<Rightarrow> Consensus" where
  "receive unmarshal c data = foldl run_call c (NotifyMsg unmarshal (c_gossip c) data)"

section \<open>The state machine as a log machine\<close>

definition fsm_step :: "Raft_Codec \<Rightarrow> RaftFSM \<Rightarrow> bytes \<Rightarrow> RaftFSM" where
  "fsm_step cd f data = fst (Apply cd f data)"

definition fsm_saves :: "Raft_Codec \<Rightarrow> RaftFSM \<Rightarrow> bool" where
  "fsm_saves cd f \<longleftrightarrow> codec_ok (rc_snapshot_marshal cd) (rc_snapshot_unmarshal cd) (Snapshot f)"

text \<open>The snapshot of \<open>f\<close>, written to a sink and restored at \<open>g\<close>.\<close>

definition transfer_snapshot :: "Raft_Codec \<Rightarrow> RaftFSM \<Rightarrow> RaftFSM \<Rightarrow> RaftFSM" where
  "transfer_snapshot cd g f =
     (case Persist cd (Snapshot f) of None \<Rightarrow> g | Some sink \<Rightarrow> fst (Restore cd g sink))"

text \<open>What a log entry carries, for a machine that can read it.\<close>

datatype payload = Checkpoint CheckpointHeader | Report ExecutionReport | Unreadable

definition read_entry :: "Raft_Codec \<Rightarrow> bytes \<Rightarrow> payload" where
  "read_entry cd data =
     (case UnmarshalRaftLogEntry cd data of
        Inl _ \<Rightarrow> Unreadable
      | Inr entry \<Rightarrow>
          if le_Type entry = RaftEntryCheckpoint
          then (case rc_header_unmarshal cd (le_Data entry) of None \<Rightarrow> Unreadable | Some h \<Rightarrow> Checkpoint h)
          else if le_Type entry = RaftEntryExecutionReport
          then (case rc_report_unmarshal cd (le_Data entry) of None \<Rightarrow> Unreadable | Some r \<Rightarrow> Report r)
          else Unreadable)"

definition put_checkpoint :: "RaftFSM \<Rightarrow> CheckpointHeader \<Rightarrow> RaftFSM" where
  "put_checkpoint f h = f\<lparr>f_checkpoints := (f_checkpoints f)(h_Epoch h \<mapsto> h), f_currentEpoch := h_Epoch h\<rparr>"

definition put_report :: "RaftFSM \<Rightarrow> ExecutionReport \<Rightarrow> RaftFSM" where
  "put_report f r = f\<lparr>f_pendingReports := (f_pendingReports f)(makeReportKey r \<mapsto> r)\<rparr>"

lemma fsm_step_read:
  "fsm_step cd f data =
     (case read_entry cd data of Checkpoint h \<Rightarrow> put_checkpoint f h | Report r \<Rightarrow> put_report f r | Unreadable \<Rightarrow> f)"
  by (simp add: fsm_step_def read_entry_def Apply_def applyCheckpoint_def applyExecutionReport_def
      put_checkpoint_def put_report_def Let_def split: sum.split option.split)

lemma Snapshot_eq:
  "Snapshot f = Snapshot g \<longleftrightarrow>
     f_currentEpoch f = f_currentEpoch g \<and> f_checkpoints f = f_checkpoints g
     \<and> f_pendingReports f = f_pendingReports g"
  by (simp add: Snapshot_def)

lemma Snapshot_step: "Snapshot f = Snapshot g \<Longrightarrow> Snapshot (fsm_step cd f data) = Snapshot (fsm_step cd g data)"
  unfolding Snapshot_eq fsm_step_read
  by (simp add: put_checkpoint_def put_report_def split: payload.split)

lemma Snapshot_transfer: "fsm_saves cd f \<Longrightarrow> Snapshot (transfer_snapshot cd g f) = Snapshot f"
  by (auto simp: fsm_saves_def codec_ok_def transfer_snapshot_def Persist_def Restore_def Snapshot_def)

interpretation raft_log: log_machine "fsm_step cd" Snapshot "fsm_saves cd" "transfer_snapshot cd" for cd
  by unfold_locales (fact Snapshot_step, fact Snapshot_transfer)

interpretation raft_checkpoints: keyed_store f_checkpoints h_Epoch put_checkpoint "\<lambda>_. True"
  by unfold_locales (simp_all add: put_checkpoint_def)

definition clear_one :: "RaftFSM \<Rightarrow> string \<Rightarrow> RaftFSM" where
  "clear_one f k = ClearPending f [k]"

interpretation raft_reports: deletable_store f_pendingReports makeReportKey put_report "\<lambda>_. True" clear_one
  by unfold_locales (simp_all add: put_report_def clear_one_def ClearPending_def)

lemma put_sels [simp]:
  "f_checkpoints (put_checkpoint f h) = (f_checkpoints f)(h_Epoch h \<mapsto> h)"
  "f_currentEpoch (put_checkpoint f h) = h_Epoch h"
  "f_pendingReports (put_checkpoint f h) = f_pendingReports f"
  "f_checkpoints (put_report f r) = f_checkpoints f"
  "f_currentEpoch (put_report f r) = f_currentEpoch f"
  "f_pendingReports (put_report f r) = (f_pendingReports f)(makeReportKey r \<mapsto> r)"
  by (simp_all add: put_checkpoint_def put_report_def)

lemma pending_clear: "f_pendingReports (ClearPending f ks) = f_pendingReports f |` (- set ks)"
proof -
  have "foldl (\<lambda>m k. m(k := None)) m ks = m |` (- set ks)" for m :: "string \<rightharpoonup> ExecutionReport"
    by (induction ks rule: rev_induct) (auto simp: restrict_map_def fun_eq_iff)
  then show ?thesis by (simp add: ClearPending_def)
qed

interpretation raft_engine: consensus_engine put_checkpoint put_report ClearPending LatestCheckpoint PendingReports
  makeReportKey
  by unfold_locales (simp_all add: LatestCheckpoint_def PendingReports_def pending_clear, simp add: ClearPending_def)

definition headers_of :: "Raft_Codec \<Rightarrow> bytes list \<Rightarrow> CheckpointHeader list" where
  "headers_of cd log = concat (map (\<lambda>d. case read_entry cd d of Checkpoint h \<Rightarrow> [h] | _ \<Rightarrow> []) log)"

definition reports_of :: "Raft_Codec \<Rightarrow> bytes list \<Rightarrow> ExecutionReport list" where
  "reports_of cd log = concat (map (\<lambda>d. case read_entry cd d of Report r \<Rightarrow> [r] | _ \<Rightarrow> []) log)"

abbreviation replay :: "Raft_Codec \<Rightarrow> RaftFSM \<Rightarrow> bytes list \<Rightarrow> RaftFSM" where
  "replay cd \<equiv> foldl (fsm_step cd)"

lemma replay_split:
  "f_checkpoints (replay cd f log) = f_checkpoints (foldl put_checkpoint f (headers_of cd log))
   \<and> f_currentEpoch (replay cd f log) = f_currentEpoch (foldl put_checkpoint f (headers_of cd log))
   \<and> f_pendingReports (replay cd f log) = f_pendingReports (foldl put_report f (reports_of cd log))"
  by (induction log rule: rev_induct)
    (simp_all add: fsm_step_read headers_of_def reports_of_def split: payload.split)

lemma currentEpoch_puts: "f_currentEpoch (foldl put_checkpoint f (hs @ [h])) = h_Epoch h"
  by simp

lemma LatestCheckpoint_replay:
  "LatestCheckpoint (replay cd (NewRaftFSM b) log) =
     (if headers_of cd log = [] then None else Some (last (headers_of cd log)))"
proof (cases "headers_of cd log" rule: rev_cases)
  case Nil
  then show ?thesis using replay_split [of cd "NewRaftFSM b" log] by (simp add: LatestCheckpoint_def NewRaftFSM_def)
next
  case (snoc hs h)
  then show ?thesis using replay_split [of cd "NewRaftFSM b" log] by (simp add: LatestCheckpoint_def)
qed

lemma PendingReports_replay:
  "PendingReports (replay cd (NewRaftFSM b) log) =
     map_of (rev (map (\<lambda>r. (makeReportKey r, r)) (reports_of cd log)))"
proof -
  have "f_pendingReports (foldl put_report f rs) =
      f_pendingReports f ++ map_of (rev (map (\<lambda>r. (makeReportKey r, r)) rs))" for f rs
    by (induction rs rule: rev_induct) (auto simp: fun_eq_iff map_add_def)
  then show ?thesis using replay_split [of cd "NewRaftFSM b" log] by (simp add: PendingReports_def NewRaftFSM_def)
qed

section \<open>Properties\<close>

text \<open>
  C8: A node that restores a snapshot and applies the rest of the log reaches the state of a node that
  applied the whole log: the same epoch, checkpoints and pending reports, whatever the restoring node held
  before.
\<close>

theorem snapshot_replay:
  fixes g :: RaftFSM
  assumes "fsm_saves cd (replay cd (NewRaftFSM b) es)"
  defines "restored \<equiv> transfer_snapshot cd g (replay cd (NewRaftFSM b) es)"
  shows "LatestCheckpoint (replay cd restored fs) = LatestCheckpoint (replay cd (NewRaftFSM b) (es @ fs))
    \<and> PendingReports (replay cd restored fs) = PendingReports (replay cd (NewRaftFSM b) (es @ fs))
    \<and> Snapshot (replay cd restored fs) = Snapshot (replay cd (NewRaftFSM b) (es @ fs))"
  using raft_log.replay_from_snapshot [OF assms(1), of g fs]
  unfolding restored_def LatestCheckpoint_def PendingReports_def Snapshot_eq by simp

text \<open>A codec over a fixed header, for the examples.\<close>

definition example_proto_header :: "u64 \<Rightarrow> CheckpointHeader" where
  "example_proto_header e =
     \<lparr>h_SubnetId = ''s'', h_Epoch = e, h_ParentCpHash = [], h_Timestamp = 5, h_Version = 1, h_ParamsHash = [],
      h_Roots = None, h_DaCommitments = [], h_ValidatorSetId = ''v'', h_Stats = [], h_AuxHash = [],
      h_EpochSlot = None, h_AssignmentsRoot = [], h_ValidationCommitment = [], h_PolicyRoot = [],
      h_Signatures = None\<rparr>"

definition example_report :: "string \<Rightarrow> ExecutionReport" where
  "example_report i =
     \<lparr>er_ReportId = [], er_AssignmentId = ''a'', er_IntentId = i, er_AgentId = ''g'', er_Status = SUCCESS,
      er_ResultData = [], er_Evidence = None, er_Error = None, er_Timestamp = 7, er_Signature = [],
      er_RootRef = None\<rparr>"

definition example_codec :: Raft_Codec where
  "example_codec =
     \<lparr>rc_entry_marshal = (\<lambda>e. Some (le_Type e # le_Data e)),
      rc_entry_unmarshal = (\<lambda>d. Some \<lparr>le_Type = hd d, le_Data = tl d, le_Timestamp = 0, le_ProposerID = ''v1''\<rparr>),
      rc_header_marshal = (\<lambda>h. Some (PutUint64 (h_Epoch h))),
      rc_header_unmarshal = (\<lambda>d. Some (example_proto_header (word_of_nat (unat (last d))))),
      rc_report_marshal = (\<lambda>r. Some (bytes_of (er_IntentId r))),
      rc_report_unmarshal = (\<lambda>d. Some (example_report (string_of d))),
      rc_snapshot_marshal = (\<lambda>s. Some [word_of_nat (unat (sn_CurrentEpoch s))]),
      rc_snapshot_unmarshal = (\<lambda>d. Some \<lparr>sn_CurrentEpoch = word_of_nat (unat (hd d)),
         sn_Checkpoints = (let e = word_of_nat (unat (hd d)) in [e \<mapsto> example_proto_header e]),
         sn_Reports = Map.empty\<rparr>)\<rparr>"

lemmas example_codec_simps = example_codec_def fsm_step_def Apply_def UnmarshalRaftLogEntry_def applyCheckpoint_def
  applyExecutionReport_def RaftEntryCheckpoint_def RaftEntryExecutionReport_def NewRaftFSM_def
  example_proto_header_def

theorem snapshot_replay_witness:
  "LatestCheckpoint (replay example_codec
      (transfer_snapshot example_codec (NewRaftFSM True) (replay example_codec (NewRaftFSM True) [[0, 4]])) [[1, 65]])
    = Some (example_proto_header 4)"
proof -
  have "fsm_saves example_codec (replay example_codec (NewRaftFSM True) [[0, 4]])"
    by (simp add: fsm_saves_def codec_ok_def Snapshot_def example_codec_simps)
  then have "LatestCheckpoint (replay example_codec
      (transfer_snapshot example_codec (NewRaftFSM True) (replay example_codec (NewRaftFSM True) [[0, 4]])) [[1, 65]])
    = LatestCheckpoint (replay example_codec (NewRaftFSM True) ([[0, 4]] @ [[1, 65]]))"
    by (rule snapshot_replay [THEN conjunct1])
  also have "\<dots> = Some (example_proto_header 4)"
    by (simp add: LatestCheckpoint_def example_codec_simps Let_def)
  finally show ?thesis .
qed

text \<open>
  After any log the latest checkpoint is the last checkpoint entry of the log, whatever its epoch (a
  later entry with a smaller epoch moves the node back), and the pending reports are the report entries, the
  last one under each report key; entries that do not decode change nothing.
\<close>

theorem committed_state:
  "LatestCheckpoint (replay cd (NewRaftFSM b) log) =
     (if headers_of cd log = [] then None else Some (last (headers_of cd log)))
   \<and> PendingReports (replay cd (NewRaftFSM b) log) =
       map_of (rev (map (\<lambda>r. (makeReportKey r, r)) (reports_of cd log)))
   \<and> (\<forall>data. snd (snd (Apply cd (replay cd (NewRaftFSM b) log) data)) \<noteq> None \<longrightarrow>
        replay cd (NewRaftFSM b) (log @ [data]) = replay cd (NewRaftFSM b) log)"
  using LatestCheckpoint_replay PendingReports_replay
  by (auto simp: fsm_step_def Apply_def applyCheckpoint_def applyExecutionReport_def Let_def
      split: sum.splits option.splits if_splits)

theorem committed_state_witness:
  "replay example_codec (NewRaftFSM True) [[0, 4], [9]] = replay example_codec (NewRaftFSM True) [[0, 4]]"
proof -
  have "snd (snd (Apply example_codec (replay example_codec (NewRaftFSM True) [[0, 4]]) [9])) \<noteq> None"
    by (simp add: example_codec_simps)
  then have "replay example_codec (NewRaftFSM True) ([[0, 4]] @ [[9]]) = replay example_codec (NewRaftFSM True) [[0, 4]]"
    by (rule committed_state [THEN conjunct2, THEN conjunct2, rule_format])
  then show ?thesis by simp
qed

definition raft_contract :: "('r \<Rightarrow> bytes \<Rightarrow> 'r \<times> 'e option) \<Rightarrow> ('r \<Rightarrow> bytes list) \<Rightarrow> bool" where
  "raft_contract raftApply log \<longleftrightarrow> (\<forall>r p r'. raftApply r p = (r', None) \<longrightarrow> log r' = log r @ [p])"

definition entry_codec_ok :: "Raft_Codec \<Rightarrow> RaftLogEntry \<Rightarrow> bool" where
  "entry_codec_ok cd entry \<longleftrightarrow>
     (\<exists>p. rc_entry_marshal cd entry = Some p \<and> p \<noteq> [] \<and> rc_entry_unmarshal cd p = Some entry)"

lemma applyEntry_committed:
  assumes "raft_contract raftApply log" "entry_codec_ok cd entry" "applyEntry cd raftApply r entry = (r', None)"
  obtains p where "log r' = log r @ [p]" "UnmarshalRaftLogEntry cd p = Inr entry"
  using assms unfolding raft_contract_def entry_codec_ok_def
  by (fastforce simp: applyEntry_def UnmarshalRaftLogEntry_def split: prod.splits)

lemma read_checkpoint_entry:
  assumes "UnmarshalRaftLogEntry cd p = Inr (NewCheckpointEntry raw i now)" "rc_header_unmarshal cd raw = Some h"
  shows "read_entry cd p = Checkpoint h"
  using assms by (simp add: read_entry_def NewCheckpointEntry_def)

text \<open>
  A checkpoint proposed without an error is the latest checkpoint of every state machine that has applied
  the log up to then. Assumed of the Raft library: a future without an error means that the payload is
  committed at the end of the log; of the codecs: what was encoded is decoded again.
\<close>

theorem proposed_checkpoint_is_latest:
  assumes "raft_contract raftApply log"
    and "codec_ok (rc_header_marshal cd) (rc_header_unmarshal cd) header"
    and "\<And>raw. entry_codec_ok cd (NewCheckpointEntry raw (c_validatorID c) now)"
    and "ProposeCheckpoint cd raftApply c r header now = (r', None)"
  shows "c_ready c \<and> LatestCheckpoint (replay cd (NewRaftFSM b) (log r')) = Some header"
proof -
  obtain raw where raw: "rc_header_marshal cd header = Some raw" "rc_header_unmarshal cd raw = Some header"
    using assms(2) by (auto simp: codec_ok_def)
  have ready: "c_ready c" and
    app: "applyEntry cd raftApply r (NewCheckpointEntry raw (c_validatorID c) now) = (r', None)"
    using assms(4) raw(1) by (auto simp: ProposeCheckpoint_def ApplyCheckpoint_def split: if_splits)
  from applyEntry_committed [OF assms(1,3) app] obtain p where
    p: "log r' = log r @ [p]" "UnmarshalRaftLogEntry cd p = Inr (NewCheckpointEntry raw (c_validatorID c) now)" .
  then have "headers_of cd (log r') = headers_of cd (log r) @ [header]"
    by (simp add: headers_of_def read_checkpoint_entry [OF _ raw(2)])
  with ready show ?thesis by (simp add: LatestCheckpoint_replay)
qed

text \<open>A library that commits every payload.\<close>

definition append_log :: "bytes list \<Rightarrow> bytes \<Rightarrow> bytes list \<times> unit option" where
  "append_log l p = (l @ [p], None)"

theorem proposed_checkpoint_is_latest_witness:
  "LatestCheckpoint (replay example_codec (NewRaftFSM True) (fst (ProposeCheckpoint example_codec append_log
      (Start (NewConsensus ''n1'' ''v1'' True)) [] (example_proto_header 4) 0))) = Some (example_proto_header 4)"
proof -
  define c where "c = Start (NewConsensus ''n1'' ''v1'' True)"
  have c: "c_ready c" "c_validatorID c = ''v1''" by (simp_all add: c_def Start_def NewConsensus_def)
  have contract: "raft_contract append_log (\<lambda>l. l)" by (simp add: raft_contract_def append_log_def)
  have header: "codec_ok (rc_header_marshal example_codec) (rc_header_unmarshal example_codec) (example_proto_header 4)"
    by (simp add: codec_ok_def example_codec_simps PutUint64_def be_def upt_rec)
  have entry: "entry_codec_ok example_codec (NewCheckpointEntry raw (c_validatorID c) 0)" for raw
    by (simp add: entry_codec_ok_def example_codec_def NewCheckpointEntry_def c second_def)
  have "\<exists>l. ProposeCheckpoint example_codec append_log c [] (example_proto_header 4) 0 = (l, None)"
    by (simp add: ProposeCheckpoint_def ApplyCheckpoint_def applyEntry_def append_log_def c example_codec_def)
  then obtain l where l: "ProposeCheckpoint example_codec append_log c [] (example_proto_header 4) 0 = (l, None)" ..
  show ?thesis
    using proposed_checkpoint_is_latest [OF contract header entry l, of True] unfolding c_def [symmetric] l by simp
qed

text \<open>
  Clearing pending reports is not an entry of the log, so it makes replicas differ: of two nodes that
  applied the same log, one of which cleared a report in between, only the other one still has it after any
  further entries that do not carry that report again.
\<close>

theorem cleared_reports_diverge:
  assumes "PendingReports (replay cd (NewRaftFSM b) es) k = Some r" "k \<in> set ks"
    and "k \<notin> makeReportKey ` set (reports_of cd fs)"
  shows "PendingReports (replay cd (ClearPending (replay cd (NewRaftFSM b) es) ks) fs) k = None
    \<and> PendingReports (replay cd (NewRaftFSM b) (es @ fs)) k = Some r"
proof -
  have cleared: "f_pendingReports (ClearPending f ks) k = None" for f
    using assms(2) by (simp add: pending_clear)
  have frame: "f_pendingReports (replay cd f fs) k = f_pendingReports f k" for f
    using replay_split [of cd f fs] raft_reports.lookup_puts_notin [OF _ assms(3), of f] by simp
  show ?thesis using assms(1) cleared frame by (simp add: PendingReports_def)
qed

theorem cleared_reports_diverge_witness:
  "PendingReports (replay example_codec
      (ClearPending (replay example_codec (NewRaftFSM True) [[1, 65]]) [''A:a:g:7'']) [[0, 4]]) ''A:a:g:7'' = None
   \<and> PendingReports (replay example_codec (NewRaftFSM True) ([[1, 65]] @ [[0, 4]])) ''A:a:g:7''
       = Some (example_report ''A'')"
proof (rule cleared_reports_diverge)
  have key: "makeReportKey (example_report ''A'') = ''A:a:g:7''"
    by (simp add: makeReportKey_def example_report_def dec_int_def dec.simps digit_def, code_simp)
  have "string_of [65] = ''A''" by (simp add: string_of_def, code_simp)
  with key show "PendingReports (replay example_codec (NewRaftFSM True) [[1, 65]]) ''A:a:g:7'' = Some (example_report ''A'')"
    by (simp add: PendingReports_def example_codec_simps Let_def)
  show "''A:a:g:7'' \<in> set [''A:a:g:7'']" by simp
  show "''A:a:g:7'' \<notin> makeReportKey ` set (reports_of example_codec [[0, 4]])"
    by (simp add: reports_of_def read_entry_def example_codec_simps)
qed

definition sigs_at :: "Consensus \<Rightarrow> u64 \<Rightarrow> (string \<rightharpoonup> Signature)" where
  "sigs_at c epoch = (case c_signatures c epoch of None \<Rightarrow> Map.empty | Some m \<Rightarrow> m)"

lemma sigs_at_store:
  "sigs_at (storeSignature c sig e) e' = (if e' = e then (sigs_at c e)(sg_SignerId sig \<mapsto> sig) else sigs_at c e')"
  by (simp add: sigs_at_def storeSignature_def Let_def)

definition gossip_of :: "Signature \<Rightarrow> u64 \<Rightarrow> bytes \<Rightarrow> GossipMessage" where
  "gossip_of sig epoch h = GossipMessage_Signature
     \<lparr>gs_Epoch = epoch, gs_ValidatorId = sg_SignerId sig, gs_SignatureDer = sg_Der sig, gs_Timestamp = 0,
      gs_CheckpointHash = h\<rparr>"

definition stripped :: "Signature \<Rightarrow> Signature" where
  "stripped sig = \<lparr>sg_Algo = [], sg_Der = sg_Der sig, sg_Pubkey = [], sg_MsgHash = [], sg_SignerId = sg_SignerId sig\<rparr>"

lemma receive_gossip:
  assumes "unmarshal data = Some (gossip_of sig epoch h)" "sg_SignerId sig \<noteq> d_nodeID (c_gossip c)"
  shows "receive unmarshal c data = storeSignature c (stripped sig) (GetCurrentEpoch c)"
  using assms
  by (simp add: receive_def NotifyMsg_def gossip_of_def run_call_def signatureHandler_def handleSignature_def
      stripped_def GetCurrentEpoch_def Let_def)

text \<open>
  A signature broadcast for an epoch reaches the other nodes without it. The sender files it under that
  epoch; a receiver files it (with the signer and the signature bytes only) under the epoch of its own latest
  checkpoint, so when the two epochs differ the receiver never counts it for the epoch it was made for.
\<close>

theorem gossip_drops_epoch:
  assumes "codec_ok marshal unmarshal (gossip_of sig epoch h)" "c_ready c"
    and "sg_SignerId sig \<noteq> d_nodeID (c_gossip c2)"
  defines "sent \<equiv> fst (BroadcastSignature marshal c sig epoch h)"
  shows "sigs_at sent epoch (sg_SignerId sig) = Some sig
    \<and> (\<exists>data. d_broadcasts (c_gossip sent) = d_broadcasts (c_gossip c) @ [data]
         \<and> sigs_at (receive unmarshal c2 data) (GetCurrentEpoch c2) (sg_SignerId sig) = Some (stripped sig)
         \<and> (GetCurrentEpoch c2 \<noteq> epoch \<longrightarrow> sigs_at (receive unmarshal c2 data) epoch = sigs_at c2 epoch))"
proof -
  obtain data where data: "marshal (gossip_of sig epoch h) = Some data" "unmarshal data = Some (gossip_of sig epoch h)"
    using assms(1) by (auto simp: codec_ok_def)
  have recv: "receive unmarshal c2 data = storeSignature c2 (stripped sig) (GetCurrentEpoch c2)"
    by (rule receive_gossip [where data = data and epoch = epoch and h = h]) (fact data(2) assms(3))+
  have sent: "sigs_at sent = sigs_at (storeSignature c sig epoch)"
    "d_broadcasts (c_gossip sent) = d_broadcasts (c_gossip c) @ [data]"
    using assms(2) data(1)
    by (auto simp: sent_def BroadcastSignature_def BroadcastSignature_delegate_def gossip_of_def Let_def
        sigs_at_def storeSignature_def fun_eq_iff)
  have "sg_SignerId (stripped sig) = sg_SignerId sig" by (simp add: stripped_def)
  then show ?thesis by (auto simp: sent recv sigs_at_store)
qed

definition one_message_marshal :: "GossipMessage \<Rightarrow> bytes option" where
  "one_message_marshal m = Some [7]"

definition example_gossip_signature :: Signature where
  "example_gossip_signature = \<lparr>sg_Algo = ''ecdsa'', sg_Der = [1, 2], sg_Pubkey = [], sg_MsgHash = [], sg_SignerId = ''v1''\<rparr>"

definition one_message_unmarshal :: "bytes \<Rightarrow> GossipMessage option" where
  "one_message_unmarshal d = (if d = [7] then Some (gossip_of example_gossip_signature 5 []) else None)"

theorem gossip_drops_epoch_witness:
  "\<exists>data. sigs_at (receive one_message_unmarshal (NewConsensus ''n2'' ''v2'' True) data) 5 = Map.empty
     \<and> sigs_at (receive one_message_unmarshal (NewConsensus ''n2'' ''v2'' True) data) 0 ''v1'' \<noteq> None"
proof -
  let ?c2 = "NewConsensus ''n2'' ''v2'' True"
  have codec: "codec_ok one_message_marshal one_message_unmarshal (gossip_of example_gossip_signature 5 [])"
    by (simp add: codec_ok_def one_message_marshal_def one_message_unmarshal_def)
  have ready: "c_ready (Start (NewConsensus ''n1'' ''v1'' True))" by (simp add: Start_def)
  have other: "sg_SignerId example_gossip_signature \<noteq> d_nodeID (c_gossip ?c2)"
    by (simp add: example_gossip_signature_def NewConsensus_def NewSignatureGossipDelegate_def)
  have epoch: "GetCurrentEpoch ?c2 = 0" "sigs_at ?c2 5 = Map.empty" "sg_SignerId example_gossip_signature = ''v1''"
    by (simp_all add: GetCurrentEpoch_def GetLatestCheckpoint_def LatestCheckpoint_def NewConsensus_def NewRaftFSM_def
        sigs_at_def example_gossip_signature_def)
  from gossip_drops_epoch [OF codec ready other] epoch show ?thesis by auto
qed

lemma sigs_at_stores:
  "dom (sigs_at (foldl (\<lambda>c s. storeSignature c s e) c sigs) e) = dom (sigs_at c e) \<union> sg_SignerId ` set sigs"
  by (induction sigs arbitrary: c) (auto simp: sigs_at_store)

lemma CheckThreshold_raft_sigs_at: "CheckThreshold_raft c e \<longleftrightarrow> 3 \<le> card (dom (sigs_at c e))"
  by (simp add: CheckThreshold_raft_def sigs_at_def split: option.split)

text \<open>
  The engine's threshold is the constant three: it counts the distinct signers filed under the epoch,
  members of the validator set or not. For every valid set of five or more validators with the
  threshold 3/4 the set's own \<open>CheckThreshold\<close> rejects three signatures that the engine accepts.
\<close>

theorem raft_threshold_is_three:
  assumes vs: "Validate vs = Inr ()" "fits_int vs" "4 * vs_ThresholdNum vs = 3 * vs_ThresholdDenom vs"
    "5 \<le> length (vs_Validators vs)"
  shows "(CheckThreshold_raft (foldl (\<lambda>c s. storeSignature c s e) (NewConsensus n v h) sigs) e
       \<longleftrightarrow> 3 \<le> card (sg_SignerId ` set sigs))
    \<and> Validator_Set.CheckThreshold vs 3 = Inr False"
proof
  have "dom (sigs_at (NewConsensus n v h) e) = {}" by (simp add: sigs_at_def NewConsensus_def)
  then show "CheckThreshold_raft (foldl (\<lambda>c s. storeSignature c s e) (NewConsensus n v h) sigs) e
     \<longleftrightarrow> 3 \<le> card (sg_SignerId ` set sigs)"
    by (simp add: CheckThreshold_raft_sigs_at sigs_at_stores)
next
  from vs have pos: "0 < vs_ThresholdNum vs" by (auto simp: spec_simps)
  have "5 * vs_ThresholdNum vs \<le> int (length (vs_Validators vs)) * vs_ThresholdNum vs"
    using vs(4) pos by (intro mult_right_mono) simp_all
  moreover have "3 * vs_ThresholdDenom vs < 5 * vs_ThresholdNum vs" using vs(3) pos by linarith
  ultimately show "Validator_Set.CheckThreshold vs 3 = Inr False"
    unfolding CheckThreshold_fraction [OF vs(1,2)] by simp
qed

definition five_validators :: ValidatorSet where
  "five_validators = example_set\<lparr>vs_Validators := map (\<lambda>i. example_validator i 1) [''v1'', ''v2'', ''v3'', ''v4'', ''v5'']\<rparr>"

theorem raft_threshold_is_three_witness:
  "Validator_Set.CheckThreshold five_validators 3 = Inr False
   \<and> CheckThreshold_raft (foldl (\<lambda>c s. storeSignature c s 1) (NewConsensus ''n'' ''v'' True)
       [example_gossip_signature, example_gossip_signature\<lparr>sg_SignerId := ''x''\<rparr>,
        example_gossip_signature\<lparr>sg_SignerId := ''y''\<rparr>]) 1"
proof -
  have ok: "Validate five_validators = Inr ()" "fits_int five_validators"
    "4 * vs_ThresholdNum five_validators = 3 * vs_ThresholdDenom five_validators"
    "5 \<le> length (vs_Validators five_validators)"
    by (simp_all add: five_validators_def spec_simps example_set_simps fits_int_def)
  show ?thesis
    unfolding raft_threshold_is_three [OF ok, THEN conjunct1]
    using raft_threshold_is_three [OF ok, THEN conjunct2] by (simp add: example_gossip_signature_def)
qed

end
