(* ===== verification/ABCI_App.thy ===== *)
theory ABCI_App
  imports Raft_FSM
begin

text \<open>
  The CometBFT engine: the application that CometBFT drives (\<open>src/internal/consensus/cometbft/abci.go\<close>), the
  checks of its configuration (\<open>config.go\<close>) and the engine around it (\<open>consensus.go\<close>). The protobuf codecs
  and the JSON reader of vote extensions are fields of a record; CometBFT's mempool is the function that
  submits a transaction. Handlers that the application starts in goroutines are returned as events.
\<close>

section \<open>Model\<close>

subsection \<open>The application\<close>

type_synonym TxType = byte

definition TxTypeCheckpoint :: TxType where "TxTypeCheckpoint = 0x01"
definition TxTypeExecutionReport :: TxType where "TxTypeExecutionReport = 0x02"
definition TxTypeValidationBundleSignature :: TxType where "TxTypeValidationBundleSignature = 0x03"

lemmas tx_type_defs = TxTypeCheckpoint_def TxTypeExecutionReport_def TxTypeValidationBundleSignature_def

record VoteExtension =
  ve_Epoch :: u64
  ve_ItemsHash :: bytes
  ve_ValidatorAddr :: string
  ve_Signature :: bytes

record ABCI_Codec =
  ac_header_marshal :: "CheckpointHeader \<Rightarrow> bytes option"
  ac_header_unmarshal :: "bytes \<Rightarrow> CheckpointHeader option"
  ac_report_marshal :: "ExecutionReport \<Rightarrow> bytes option"
  ac_report_unmarshal :: "bytes \<Rightarrow> ExecutionReport option"
  ac_vbsig_marshal :: "ValidationBundleSignature \<Rightarrow> bytes option"
  ac_vbsig_unmarshal :: "bytes \<Rightarrow> ValidationBundleSignature option"
  ac_extension_unmarshal :: "bytes \<Rightarrow> VoteExtension option"

text \<open>The three flags say which handlers are set.\<close>

record SubnetABCIApp =
  a_OnCheckpointCommitted :: bool
  a_OnExecutionReportCommitted :: bool
  a_OnValidationSignatureCollected :: bool
  a_currentEpoch :: u64
  a_lastProcessedEpoch :: u64
  a_checkpoints :: "u64 \<rightharpoonup> CheckpointHeader"
  a_pendingReports :: "string \<rightharpoonup> ExecutionReport"
  a_latestBlockHeight :: int
  a_latestAppHash :: bytes
  a_validatorSet :: "string \<rightharpoonup> int"
  a_validationBundleSignatures :: "u64 \<rightharpoonup> (string \<rightharpoonup> bytes)"

datatype abci_event =
    CheckpointDelivered CheckpointHeader
  | ReportDelivered ExecutionReport string
  | ValidationSignatureCollected ValidationBundleSignature

definition NewSubnetABCIApp :: "bool \<Rightarrow> bool \<Rightarrow> bool \<Rightarrow> (string \<rightharpoonup> int) \<Rightarrow> SubnetABCIApp" where
  "NewSubnetABCIApp onCheckpoint onReport onSignature validators =
     \<lparr>a_OnCheckpointCommitted = onCheckpoint, a_OnExecutionReportCommitted = onReport,
      a_OnValidationSignatureCollected = onSignature, a_currentEpoch = 0, a_lastProcessedEpoch = 0,
      a_checkpoints = Map.empty, a_pendingReports = Map.empty, a_latestBlockHeight = 0, a_latestAppHash = [],
      a_validatorSet = validators, a_validationBundleSignatures = Map.empty\<rparr>"

definition Info :: "SubnetABCIApp \<Rightarrow> int \<times> bytes" where
  "Info app = (a_latestBlockHeight app, a_latestAppHash app)"

text \<open>
  The validators of the request, each with the bytes of its key as a string and its power. The
  result is the height from which vote extensions are enabled.
\<close>

definition InitChain :: "SubnetABCIApp \<Rightarrow> (string \<times> int) list \<Rightarrow> SubnetABCIApp \<times> int" where
  "InitChain app validators =
     (app\<lparr>a_validatorSet := foldl (\<lambda>m (validatorID, power). m(validatorID \<mapsto> power)) Map.empty validators\<rparr>, 2)"

datatype tx_log =
    EmptyTransaction
  | InvalidCheckpoint
  | InvalidReport
  | InvalidVBSignature
  | InvalidEpoch
  | EmptySignature
  | EmptyValidatorAddress
  | UnknownTransactionType

text \<open>A response: code 0, or code 1 with a log message.\<close>

datatype tx_result = TxOk | TxError tx_log

definition CheckTx :: "ABCI_Codec \<Rightarrow> bytes \<Rightarrow> tx_result" where
  "CheckTx cd tx =
     (case tx of
        [] \<Rightarrow> TxError EmptyTransaction
      | txType # payload \<Rightarrow>
          if txType = TxTypeCheckpoint then
            (case ac_header_unmarshal cd payload of None \<Rightarrow> TxError InvalidCheckpoint | Some _ \<Rightarrow> TxOk)
          else if txType = TxTypeExecutionReport then
            (case ac_report_unmarshal cd payload of None \<Rightarrow> TxError InvalidReport | Some _ \<Rightarrow> TxOk)
          else if txType = TxTypeValidationBundleSignature then
            (case ac_vbsig_unmarshal cd payload of
               None \<Rightarrow> TxError InvalidVBSignature
             | Some vbSig \<Rightarrow>
                 if vb_Epoch vbSig = 0 then TxError InvalidEpoch
                 else if length (vb_Signature vbSig) = 0 then TxError EmptySignature
                 else if vb_ValidatorAddress vbSig = [] then TxError EmptyValidatorAddress
                 else TxOk)
          else TxError UnknownTransactionType)"

definition deliverCheckpoint ::
  "ABCI_Codec \<Rightarrow> SubnetABCIApp \<Rightarrow> bytes \<Rightarrow> SubnetABCIApp \<times> abci_event list \<times> tx_result" where
  "deliverCheckpoint cd app payload =
     (case ac_header_unmarshal cd payload of
        None \<Rightarrow> (app, [], TxError InvalidCheckpoint)
      | Some header \<Rightarrow>
          (app\<lparr>a_checkpoints := (a_checkpoints app)(h_Epoch header \<mapsto> header), a_currentEpoch := h_Epoch header\<rparr>,
           (if a_OnCheckpointCommitted app then [CheckpointDelivered header] else []), TxOk))"

definition deliverExecutionReport ::
  "ABCI_Codec \<Rightarrow> SubnetABCIApp \<Rightarrow> bytes \<Rightarrow> SubnetABCIApp \<times> abci_event list \<times> tx_result" where
  "deliverExecutionReport cd app payload =
     (case ac_report_unmarshal cd payload of
        None \<Rightarrow> (app, [], TxError InvalidReport)
      | Some report \<Rightarrow>
          let reportKey = er_IntentId report @ CHR '':'' # er_AssignmentId report @ CHR '':'' # er_AgentId report
                @ CHR '':'' # dec_int (er_Timestamp report) in
          (app\<lparr>a_pendingReports := (a_pendingReports app)(reportKey \<mapsto> report)\<rparr>,
           (if a_OnExecutionReportCommitted app then [ReportDelivered report reportKey] else []), TxOk))"

definition deliverValidationBundleSignature ::
  "ABCI_Codec \<Rightarrow> SubnetABCIApp \<Rightarrow> bytes \<Rightarrow> SubnetABCIApp \<times> abci_event list \<times> tx_result" where
  "deliverValidationBundleSignature cd app payload =
     (case ac_vbsig_unmarshal cd payload of
        None \<Rightarrow> (app, [], TxError InvalidVBSignature)
      | Some vbSig \<Rightarrow>
          (app, (if a_OnValidationSignatureCollected app then [ValidationSignatureCollected vbSig] else []), TxOk))"

text \<open>One turn of the loop of \<open>FinalizeBlock\<close>.\<close>

definition deliver :: "ABCI_Codec \<Rightarrow> SubnetABCIApp \<Rightarrow> bytes \<Rightarrow> SubnetABCIApp \<times> abci_event list \<times> tx_result" where
  "deliver cd app tx =
     (case tx of
        [] \<Rightarrow> (app, [], TxError EmptyTransaction)
      | txType # payload \<Rightarrow>
          if txType = TxTypeCheckpoint then deliverCheckpoint cd app payload
          else if txType = TxTypeExecutionReport then deliverExecutionReport cd app payload
          else if txType = TxTypeValidationBundleSignature then deliverValidationBundleSignature cd app payload
          else (app, [], TxError UnknownTransactionType))"

fun deliver_txs ::
  "ABCI_Codec \<Rightarrow> SubnetABCIApp \<Rightarrow> bytes list \<Rightarrow> SubnetABCIApp \<times> abci_event list \<times> tx_result list" where
  "deliver_txs cd app [] = (app, [], [])"
| "deliver_txs cd app (tx # txs) =
     (case deliver cd app tx of (app1, es, r) \<Rightarrow>
        (case deliver_txs cd app1 txs of (app2, es', rs) \<Rightarrow> (app2, es @ es', r # rs)))"

definition FinalizeBlock ::
  "ABCI_Codec \<Rightarrow> SubnetABCIApp \<Rightarrow> int \<Rightarrow> bytes list \<Rightarrow> SubnetABCIApp \<times> abci_event list \<times> tx_result list" where
  "FinalizeBlock cd app height txs = deliver_txs cd (app\<lparr>a_latestBlockHeight := height\<rparr>) txs"

text \<open>The JSON encoding of the map of \<open>Commit\<close>: \<open>encoding/json\<close> writes the keys in ascending order.\<close>

definition Commit :: "SubnetABCIApp \<Rightarrow> SubnetABCIApp" where
  "Commit app = app\<lparr>a_latestAppHash := bytes_of
     (''{\"checkpoints\":'' @ dec (card (dom (a_checkpoints app))) @ '',\"epoch\":'' @ dec (unat (a_currentEpoch app))
       @ '',\"reports\":'' @ dec (card (dom (a_pendingReports app))) @ ''}'')\<rparr>"

text \<open>\<open>len(app.validatorSet) * 2\<close> cannot overflow.\<close>

definition hasThresholdSignatures :: "SubnetABCIApp \<Rightarrow> u64 \<Rightarrow> bool" where
  "hasThresholdSignatures app epoch =
     (case a_validationBundleSignatures app epoch of
        None \<Rightarrow> False
      | Some signatures \<Rightarrow>
          let totalValidators = card (dom (a_validatorSet app)) in
          if totalValidators = 0 then False
          else let threshold = (totalValidators * 2) div 3 + 1 in threshold \<le> card (dom signatures))"

record CheckpointSignatureBundle =
  b_Epoch :: u64
  b_CheckpointHash :: bytes
  b_ValidatorSignatures :: "string \<rightharpoonup> bytes"
  b_Timestamp :: int
  b_IntentReports :: "ExecutionReport list"

text \<open>\<open>order\<close> is the order in which the loop visits the pending reports, \<open>hasher\<close> the checkpoint hash.\<close>

definition constructValidationBundle ::
  "(CheckpointHeader \<Rightarrow> bytes) \<Rightarrow> SubnetABCIApp \<Rightarrow> u64 \<Rightarrow> string list \<Rightarrow> CheckpointSignatureBundle option" where
  "constructValidationBundle hasher app epoch order =
     (case a_validationBundleSignatures app epoch of
        None \<Rightarrow> None
      | Some signatures \<Rightarrow>
          (case a_checkpoints app epoch of
             None \<Rightarrow> None
           | Some checkpoint \<Rightarrow>
               Some \<lparr>b_Epoch = epoch, b_CheckpointHash = hasher checkpoint, b_ValidatorSignatures = signatures,
                 b_Timestamp = h_Timestamp checkpoint,
                 b_IntentReports = map (\<lambda>k. the (a_pendingReports app k)) order\<rparr>))"

text \<open>
  \<open>json.Unmarshal\<close> into a \<open>uint64\<close>: white space around, the literal \<open>null\<close> (which leaves the variable at zero),
  or a number without sign, fraction, exponent and leading zero that fits 64 bits; everything else is an error.
\<close>

definition json_space :: "char \<Rightarrow> bool" where
  "json_space c = (c = CHR '' '' \<or> c = CHR 0x09 \<or> c = CHR 0x0A \<or> c = CHR 0x0D)"

definition json_trim :: "string \<Rightarrow> string" where
  "json_trim s = rev (dropWhile json_space (rev (dropWhile json_space s)))"

definition json_u64 :: "string \<Rightarrow> u64 option" where
  "json_u64 s =
     (let t = json_trim s in
      if t = ''null'' then Some 0
      else if t = [] \<or> \<not> list_all is_digit t \<or> (hd t = CHR ''0'' \<and> tl t \<noteq> []) then None
      else if undec t < 2 ^ 64 then Some (word_of_nat (undec t)) else None)"

datatype query_log = NoCheckpoints | BadEpoch | CheckpointNotFound | UnknownQueryPath

text \<open>The errors of \<open>proto.Marshal\<close> are dropped: the value is then empty.\<close>

definition Query :: "ABCI_Codec \<Rightarrow> SubnetABCIApp \<Rightarrow> string \<Rightarrow> bytes \<Rightarrow> query_log + bytes" where
  "Query cd app path data =
     (let encode = (\<lambda>header. case ac_header_marshal cd header of None \<Rightarrow> [] | Some d \<Rightarrow> d) in
      if path = ''/checkpoint/latest'' then
        (if a_currentEpoch app = 0 then Inl NoCheckpoints
         else Inr (case a_checkpoints app (a_currentEpoch app) of None \<Rightarrow> [] | Some header \<Rightarrow> encode header))
      else if path = ''/checkpoint/epoch'' then
        (case json_u64 (string_of data) of
           None \<Rightarrow> Inl BadEpoch
         | Some epoch \<Rightarrow>
             (case a_checkpoints app epoch of None \<Rightarrow> Inl CheckpointNotFound | Some header \<Rightarrow> Inr (encode header)))
      else Inl UnknownQueryPath)"

definition PrepareProposal :: "bytes list \<Rightarrow> bytes list" where
  "PrepareProposal txs = txs"

definition ProcessProposal :: "bytes list \<Rightarrow> bool" where
  "ProcessProposal txs = True"

definition VerifyVoteExtension :: "ABCI_Codec \<Rightarrow> bytes \<Rightarrow> bool" where
  "VerifyVoteExtension cd extension =
     (if length extension = 0 then True
      else case ac_extension_unmarshal cd extension of None \<Rightarrow> False | Some _ \<Rightarrow> True)"

subsection \<open>Configuration\<close>

text \<open>Durations are in nanoseconds. The signer and the root-layer client of the struct are objects, not data.\<close>

record Config =
  cfg_HomeDir :: string
  cfg_Moniker :: string
  cfg_ChainID :: string
  cfg_P2PListenAddress :: string
  cfg_RPCListenAddress :: string
  cfg_Seeds :: "string list"
  cfg_PersistentPeers :: "string list"
  cfg_TimeoutPropose :: int
  cfg_TimeoutPrevote :: int
  cfg_TimeoutPrecommit :: int
  cfg_TimeoutCommit :: int
  cfg_CreateEmptyBlocks :: bool
  cfg_CreateEmptyBlocksInterval :: int
  cfg_MaxBlockSizeBytes :: int
  cfg_MempoolSize :: int
  cfg_MempoolRecheck :: bool
  cfg_MempoolBroadcast :: bool
  cfg_StateSyncEnable :: bool
  cfg_DBBackend :: string
  cfg_DBDir :: string
  cfg_LogLevel :: string
  cfg_LogFormat :: string
  cfg_GenesisValidators :: "string \<rightharpoonup> int"

definition DefaultConfig :: Config where
  "DefaultConfig =
     \<lparr>cfg_HomeDir = ''./data/cometbft'', cfg_Moniker = ''validator-node'', cfg_ChainID = [],
      cfg_P2PListenAddress = ''tcp://0.0.0.0:26656'', cfg_RPCListenAddress = ''tcp://127.0.0.1:26657'',
      cfg_Seeds = [], cfg_PersistentPeers = [], cfg_TimeoutPropose = 3 * second, cfg_TimeoutPrevote = 1 * second,
      cfg_TimeoutPrecommit = 1 * second, cfg_TimeoutCommit = 5 * second, cfg_CreateEmptyBlocks = True,
      cfg_CreateEmptyBlocksInterval = 0, cfg_MaxBlockSizeBytes = 22020096, cfg_MempoolSize = 5000,
      cfg_MempoolRecheck = True, cfg_MempoolBroadcast = True, cfg_StateSyncEnable = False,
      cfg_DBBackend = ''goleveldb'', cfg_DBDir = [], cfg_LogLevel = ''info'', cfg_LogFormat = ''plain'',
      cfg_GenesisValidators = Map.empty\<rparr>"

definition Config_Validate :: "Config \<Rightarrow> string option" where
  "Config_Validate c =
     (if cfg_HomeDir c = [] then Some ''cometbft: home directory is required''
      else if cfg_ChainID c = [] then Some ''cometbft: chain ID is required''
      else if cfg_P2PListenAddress c = [] then Some ''cometbft: P2P listen address is required''
      else if cfg_TimeoutPropose c \<le> 0 then Some ''cometbft: timeout_propose must be positive''
      else if cfg_TimeoutPrevote c \<le> 0 then Some ''cometbft: timeout_prevote must be positive''
      else if cfg_TimeoutPrecommit c \<le> 0 then Some ''cometbft: timeout_precommit must be positive''
      else if cfg_TimeoutCommit c \<le> 0 then Some ''cometbft: timeout_commit must be positive''
      else None)"

subsection \<open>The engine\<close>

text \<open>
  \<open>k_app = None\<close> before \<open>Start\<close>. The mempool's \<open>CheckTx\<close> runs the application's \<open>CheckTx\<close> and keeps the
  transaction; its state and its errors are parameters.
\<close>

record Comet =
  k_ready :: bool
  k_nodeID :: string
  k_isLeader :: bool
  k_app :: "SubnetABCIApp option"

datatype 'e comet_error = EngineNotReady | MarshalFailed | SubmitFailed 'e

definition submit_tx ::
  "('p \<Rightarrow> bytes \<Rightarrow> 'p \<times> 'e option) \<Rightarrow> Comet \<Rightarrow> 'p \<Rightarrow> TxType \<Rightarrow> bytes option \<Rightarrow> 'p \<times> 'e comet_error option" where
  "submit_tx mempool c p txType payload =
     (if \<not> k_ready c then (p, Some EngineNotReady)
      else case payload of
        None \<Rightarrow> (p, Some MarshalFailed)
      | Some raw \<Rightarrow> (case mempool p (txType # raw) of (p', e) \<Rightarrow> (p', map_option SubmitFailed e)))"

definition ProposeCheckpoint_comet ::
  "ABCI_Codec \<Rightarrow> ('p \<Rightarrow> bytes \<Rightarrow> 'p \<times> 'e option) \<Rightarrow> Comet \<Rightarrow> 'p \<Rightarrow> CheckpointHeader \<Rightarrow> 'p \<times> 'e comet_error option" where
  "ProposeCheckpoint_comet cd mempool c p header =
     submit_tx mempool c p TxTypeCheckpoint (ac_header_marshal cd header)"

definition ProposeExecutionReport_comet ::
  "ABCI_Codec \<Rightarrow> ('p \<Rightarrow> bytes \<Rightarrow> 'p \<times> 'e option) \<Rightarrow> Comet \<Rightarrow> 'p \<Rightarrow> ExecutionReport \<Rightarrow> 'p \<times> 'e comet_error option" where
  "ProposeExecutionReport_comet cd mempool c p report =
     submit_tx mempool c p TxTypeExecutionReport (ac_report_marshal cd report)"

definition BroadcastValidationBundleSignature_comet ::
  "ABCI_Codec \<Rightarrow> ('p \<Rightarrow> bytes \<Rightarrow> 'p \<times> 'e option) \<Rightarrow> Comet \<Rightarrow> 'p \<Rightarrow> ValidationBundleSignature \<Rightarrow>
     'p \<times> 'e comet_error option" where
  "BroadcastValidationBundleSignature_comet cd mempool c p vbSig =
     submit_tx mempool c p TxTypeValidationBundleSignature (ac_vbsig_marshal cd vbSig)"

definition GetLatestCheckpoint_comet :: "Comet \<Rightarrow> CheckpointHeader option" where
  "GetLatestCheckpoint_comet c =
     (case k_app c of None \<Rightarrow> None | Some app \<Rightarrow> a_checkpoints app (a_currentEpoch app))"

definition CheckThreshold_comet :: "Comet \<Rightarrow> u64 \<Rightarrow> bool" where
  "CheckThreshold_comet c epoch = (case k_app c of None \<Rightarrow> False | Some app \<Rightarrow> a_checkpoints app epoch \<noteq> None)"

definition GetPendingReports_comet :: "Comet \<Rightarrow> (string \<rightharpoonup> ExecutionReport)" where
  "GetPendingReports_comet c = (case k_app c of None \<Rightarrow> Map.empty | Some app \<Rightarrow> a_pendingReports app)"

definition ClearPendingReports_comet :: "Comet \<Rightarrow> string list \<Rightarrow> Comet" where
  "ClearPendingReports_comet c keys =
     (case k_app c of
        None \<Rightarrow> c
      | Some app \<Rightarrow>
          c\<lparr>k_app := Some (app\<lparr>a_pendingReports := foldl (\<lambda>m k. m(k := None)) (a_pendingReports app) keys\<rparr>)\<rparr>)"

definition GetCurrentEpoch_comet :: "Comet \<Rightarrow> u64" where
  "GetCurrentEpoch_comet c = (case k_app c of None \<Rightarrow> 0 | Some app \<Rightarrow> a_currentEpoch app)"

text \<open>CometBFT's block store: the block heights and, for a height, the signatures of its commit (absent ones flagged).\<close>

definition GetSignatures_comet :: "(int \<rightharpoonup> (bool \<times> bytes \<times> bytes) list) \<Rightarrow> int \<Rightarrow> u64 \<Rightarrow> Signature list" where
  "GetSignatures_comet loadCommit height epoch =
     (if height = 0 then []
      else case loadCommit height of
        None \<Rightarrow> []
      | Some sigs \<Rightarrow>
          map (\<lambda>(_, addr, sig). \<lparr>sg_Algo = [], sg_Der = sig, sg_Pubkey = [], sg_MsgHash = [], sg_SignerId = string_of addr\<rparr>)
            (filter (\<lambda>(absent, _, _). \<not> absent) sigs))"

section \<open>The configuration\<close>

text \<open>The default configuration lacks exactly the chain identifier.\<close>

lemma DefaultConfig_valid: "Config_Validate (DefaultConfig\<lparr>cfg_ChainID := i\<rparr>) = None \<longleftrightarrow> i \<noteq> []"
  by (simp add: Config_Validate_def DefaultConfig_def second_def)

section \<open>The application as an engine\<close>

definition read_tx :: "ABCI_Codec \<Rightarrow> bytes \<Rightarrow> payload" where
  "read_tx cd tx =
     (case tx of
        [] \<Rightarrow> Unreadable
      | txType # raw \<Rightarrow>
          if txType = TxTypeCheckpoint
          then (case ac_header_unmarshal cd raw of None \<Rightarrow> Unreadable | Some h \<Rightarrow> Checkpoint h)
          else if txType = TxTypeExecutionReport
          then (case ac_report_unmarshal cd raw of None \<Rightarrow> Unreadable | Some r \<Rightarrow> Report r)
          else Unreadable)"

definition commit_header :: "SubnetABCIApp \<Rightarrow> CheckpointHeader \<Rightarrow> SubnetABCIApp" where
  "commit_header app h = app\<lparr>a_checkpoints := (a_checkpoints app)(h_Epoch h \<mapsto> h), a_currentEpoch := h_Epoch h\<rparr>"

definition commit_report :: "SubnetABCIApp \<Rightarrow> ExecutionReport \<Rightarrow> SubnetABCIApp" where
  "commit_report app r = app\<lparr>a_pendingReports := (a_pendingReports app)(makeReportKey r \<mapsto> r)\<rparr>"

definition clear_app :: "SubnetABCIApp \<Rightarrow> string list \<Rightarrow> SubnetABCIApp" where
  "clear_app app keys = app\<lparr>a_pendingReports := foldl (\<lambda>m k. m(k := None)) (a_pendingReports app) keys\<rparr>"

definition latest_app :: "SubnetABCIApp \<Rightarrow> CheckpointHeader option" where
  "latest_app app = a_checkpoints app (a_currentEpoch app)"

lemma deliver_read:
  "fst (deliver cd app tx) =
     (case read_tx cd tx of Checkpoint h \<Rightarrow> commit_header app h | Report r \<Rightarrow> commit_report app r | Unreadable \<Rightarrow> app)"
  by (simp add: deliver_def read_tx_def deliverCheckpoint_def deliverExecutionReport_def
      deliverValidationBundleSignature_def commit_header_def commit_report_def makeReportKey_def Let_def
      split: list.split option.split)

lemma deliver_txs_state: "fst (deliver_txs cd app txs) = foldl (\<lambda>a tx. fst (deliver cd a tx)) app txs"
  by (induction txs arbitrary: app) (simp_all add: case_prod_unfold)

interpretation comet_engine: consensus_engine commit_header commit_report clear_app latest_app a_pendingReports
  makeReportKey
proof unfold_locales
  have "foldl (\<lambda>m k. m(k := None)) m ks = m |` (- set ks)" for m :: "string \<rightharpoonup> ExecutionReport" and ks
    by (induction ks rule: rev_induct) (auto simp: restrict_map_def fun_eq_iff)
  then show "a_pendingReports (clear_app s ks) = a_pendingReports s |` (- set ks)" for s ks
    by (simp add: clear_app_def)
qed (simp_all add: commit_header_def commit_report_def clear_app_def latest_app_def)

text \<open>The operations that a log of payloads commits.\<close>

definition ops_of :: "payload list \<Rightarrow> (CheckpointHeader, ExecutionReport, string) engine_op list" where
  "ops_of ps = concat (map (\<lambda>p. case p of Checkpoint h \<Rightarrow> [CommitHeader h] | Report r \<Rightarrow> [CommitReport r] | Unreadable \<Rightarrow> []) ps)"

lemma replay_ops:
  "replay cd f log = foldl (run_op put_checkpoint put_report ClearPending) f (ops_of (map (read_entry cd) log))"
  by (induction log rule: rev_induct) (simp_all add: ops_of_def fsm_step_read run_op_def split: payload.split)

lemma deliver_ops:
  "foldl (\<lambda>a tx. fst (deliver cd a tx)) app txs =
     foldl (run_op commit_header commit_report clear_app) app (ops_of (map (read_tx cd) txs))"
  by (induction txs rule: rev_induct) (simp_all add: ops_of_def deliver_read run_op_def split: payload.split)

text \<open>The calls that CometBFT makes for one block.\<close>

definition run_block :: "ABCI_Codec \<Rightarrow> SubnetABCIApp \<Rightarrow> int \<times> bytes list \<Rightarrow> SubnetABCIApp" where
  "run_block cd app b = Commit (fst (FinalizeBlock cd app (fst b) (snd b)))"

text \<open>Heights and application hashes do not matter for the answers of the engine.\<close>

definition core :: "SubnetABCIApp \<Rightarrow> u64 \<times> (u64 \<rightharpoonup> CheckpointHeader) \<times> (string \<rightharpoonup> ExecutionReport)" where
  "core app = (a_currentEpoch app, a_checkpoints app, a_pendingReports app)"

lemma core_deliver: "core a = core b \<Longrightarrow> core (fst (deliver cd a tx)) = core (fst (deliver cd b tx))"
  by (simp add: core_def deliver_read commit_header_def commit_report_def split: payload.split)

lemma core_delivers:
  "core a = core b \<Longrightarrow>
     core (foldl (\<lambda>a tx. fst (deliver cd a tx)) a txs) = core (foldl (\<lambda>a tx. fst (deliver cd a tx)) b txs)"
proof (induction txs arbitrary: a b)
  case (Cons tx txs)
  show ?case unfolding foldl_Cons by (rule Cons.IH [OF core_deliver [OF Cons.prems]])
qed simp

lemma core_keep: "core (Commit a) = core a" "core (a\<lparr>a_latestBlockHeight := h\<rparr>) = core a"
  by (simp_all add: core_def Commit_def)

lemma core_blocks:
  "core (foldl (run_block cd) app blocks) = core (foldl (\<lambda>a tx. fst (deliver cd a tx)) app (concat (map snd blocks)))"
proof (induction blocks rule: rev_induct)
  case (snoc b blocks)
  have "core (foldl (run_block cd) app (blocks @ [b])) =
      core (foldl (\<lambda>a tx. fst (deliver cd a tx)) ((foldl (run_block cd) app blocks)\<lparr>a_latestBlockHeight := fst b\<rparr>) (snd b))"
    unfolding foldl_append by (simp add: run_block_def [of cd "foldl (run_block cd) app blocks"] FinalizeBlock_def
        deliver_txs_state core_keep)
  also have "\<dots> = core (foldl (\<lambda>a tx. fst (deliver cd a tx))
      (foldl (\<lambda>a tx. fst (deliver cd a tx)) app (concat (map snd blocks))) (snd b))"
    by (rule core_delivers) (simp add: core_keep snoc.IH)
  finally show ?case by simp
qed simp

lemma blocks_state:
  fixes cd c r s v
  assumes app: "app = foldl (run_block cd) (NewSubnetABCIApp c r s v) blocks"
  shows "latest_app app = latest_of (ops_of (map (read_tx cd) (concat (map snd blocks))))"
    and "a_pendingReports app = pending_of makeReportKey (ops_of (map (read_tx cd) (concat (map snd blocks))))"
proof -
  let ?new = "NewSubnetABCIApp c r s v"
  have start: "latest_app ?new = None" "a_pendingReports ?new = Map.empty"
    by (simp_all add: latest_app_def NewSubnetABCIApp_def)
  have "latest_app a = latest_app b \<and> a_pendingReports a = a_pendingReports b" if "core a = core b" for a b
    using that by (simp add: core_def latest_app_def)
  note eq = this [OF core_blocks, of cd ?new blocks]
  show "latest_app app = latest_of (ops_of (map (read_tx cd) (concat (map snd blocks))))"
    unfolding app eq [THEN conjunct1] deliver_ops by (rule comet_engine.latest_run [OF start(1)])
  show "a_pendingReports app = pending_of makeReportKey (ops_of (map (read_tx cd) (concat (map snd blocks))))"
    unfolding app eq [THEN conjunct2] deliver_ops by (rule comet_engine.pending_run [OF start(2)])
qed

subsection \<open>The two-thirds rule\<close>

definition abci_validators :: "SubnetABCIApp \<Rightarrow> string set" where
  "abci_validators app = dom (a_validatorSet app)"

definition abci_quorum_size :: "SubnetABCIApp \<Rightarrow> nat" where
  "abci_quorum_size app = (card (abci_validators app) * 2) div 3 + 1"

definition byzantine_bound :: "SubnetABCIApp \<Rightarrow> nat" where
  "byzantine_bound app = (card (abci_validators app) - 1) div 3"

interpretation abci_quorum: quorum_rule abci_validators abci_quorum_size byzantine_bound
  "\<lambda>app. finite (abci_validators app)"
proof unfold_locales
  fix app :: SubnetABCIApp
  have "n + (n - 1) div 3 < 2 * (n * 2 div 3 + 1)" for n :: nat by presburger
  then show "card (abci_validators app) + byzantine_bound app < 2 * abci_quorum_size app"
    unfolding abci_quorum_size_def byzantine_bound_def .
qed

lemma hasThresholdSignatures_iff:
  "a_validationBundleSignatures app epoch = Some sigs \<Longrightarrow> abci_validators app \<noteq> {} \<Longrightarrow> finite (abci_validators app) \<Longrightarrow>
     hasThresholdSignatures app epoch \<longleftrightarrow> abci_quorum_size app \<le> card (dom sigs)"
  by (simp add: hasThresholdSignatures_def abci_quorum_size_def abci_validators_def Let_def)

subsection \<open>Reachable applications\<close>

inductive abci_reachable :: "ABCI_Codec \<Rightarrow> SubnetABCIApp \<Rightarrow> bool" for cd where
  start: "abci_reachable cd (NewSubnetABCIApp c r s validators)"
| init: "abci_reachable cd app \<Longrightarrow> abci_reachable cd (fst (InitChain app validators))"
| block: "abci_reachable cd app \<Longrightarrow> abci_reachable cd (fst (FinalizeBlock cd app height txs))"
| commit: "abci_reachable cd app \<Longrightarrow> abci_reachable cd (Commit app)"
| clear: "abci_reachable cd app \<Longrightarrow> abci_reachable cd (clear_app app ks)"

lemma deliver_frame:
  "a_validationBundleSignatures (fst (deliver cd app tx)) = a_validationBundleSignatures app"
  by (simp add: deliver_read commit_header_def commit_report_def split: payload.split)

lemma FinalizeBlock_frame:
  "a_validationBundleSignatures (fst (FinalizeBlock cd app height txs)) = a_validationBundleSignatures app"
proof -
  have "a_validationBundleSignatures (foldl (\<lambda>a tx. fst (deliver cd a tx)) b txs) = a_validationBundleSignatures b" for b
    by (induction txs arbitrary: b) (simp_all add: deliver_frame)
  then show ?thesis by (simp add: FinalizeBlock_def deliver_txs_state)
qed

lemma reachable_no_signatures: "abci_reachable cd app \<Longrightarrow> a_validationBundleSignatures app = Map.empty"
  by (induction rule: abci_reachable.induct)
    (simp_all add: NewSubnetABCIApp_def InitChain_def FinalizeBlock_frame Commit_def clear_app_def)

subsection \<open>Results of a block\<close>

definition signature_gap :: "ABCI_Codec \<Rightarrow> bytes \<Rightarrow> bool" where
  "signature_gap cd tx \<longleftrightarrow>
     (\<exists>raw vbSig. tx = TxTypeValidationBundleSignature # raw \<and> ac_vbsig_unmarshal cd raw = Some vbSig
        \<and> (vb_Epoch vbSig = 0 \<or> vb_Signature vbSig = [] \<or> vb_ValidatorAddress vbSig = []))"

lemma deliver_ok_iff: "snd (snd (deliver cd app tx)) = TxOk \<longleftrightarrow> CheckTx cd tx = TxOk \<or> signature_gap cd tx"
  by (auto simp: deliver_def CheckTx_def deliverCheckpoint_def deliverExecutionReport_def
      deliverValidationBundleSignature_def signature_gap_def tx_type_defs Let_def split: list.splits option.splits)

lemma deliver_txs_results:
  "map (\<lambda>r. r = TxOk) (snd (snd (deliver_txs cd app txs))) = map (\<lambda>tx. CheckTx cd tx = TxOk \<or> signature_gap cd tx) txs"
proof (induction txs arbitrary: app)
  case (Cons tx txs)
  then show ?case using deliver_ok_iff [of cd app tx] by (simp add: case_prod_unfold)
qed simp

section \<open>Properties\<close>

text \<open>
  C17: The two consensus engines agree. A Raft state machine and a CometBFT application that are fed
  logs carrying the same payloads (blocks of any size, unreadable entries included) have the same latest
  checkpoint and the same pending reports, and both are determined by the committed operations alone.
\<close>

theorem engines_agree:
  assumes "map (read_entry rc) log = map (read_tx ac) (concat (map snd blocks))"
    and app: "app = foldl (run_block ac) (NewSubnetABCIApp x y z validators) blocks"
  shows "LatestCheckpoint (replay rc (NewRaftFSM b) log) = GetLatestCheckpoint_comet (k\<lparr>k_app := Some app\<rparr>)
    \<and> PendingReports (replay rc (NewRaftFSM b) log) = GetPendingReports_comet (k\<lparr>k_app := Some app\<rparr>)"
proof -
  let ?ops = "ops_of (map (read_tx ac) (concat (map snd blocks)))"
  have raft: "LatestCheckpoint (replay rc (NewRaftFSM b) log) = latest_of ?ops"
    "PendingReports (replay rc (NewRaftFSM b) log) = pending_of makeReportKey ?ops"
    unfolding replay_ops assms(1)
    by (rule raft_engine.latest_run raft_engine.pending_run; simp add: LatestCheckpoint_def PendingReports_def NewRaftFSM_def)+
  have comet: "latest_app app = latest_of ?ops" "a_pendingReports app = pending_of makeReportKey ?ops"
    by (rule blocks_state [OF app])+
  show ?thesis
    unfolding raft using comet by (simp add: GetLatestCheckpoint_comet_def GetPendingReports_comet_def latest_app_def)
qed

definition example_abci_codec :: ABCI_Codec where
  "example_abci_codec =
     \<lparr>ac_header_marshal = (\<lambda>h. Some [1]), ac_header_unmarshal = rc_header_unmarshal example_codec,
      ac_report_marshal = (\<lambda>r. Some [2]), ac_report_unmarshal = rc_report_unmarshal example_codec,
      ac_vbsig_marshal = (\<lambda>v. Some []), ac_vbsig_unmarshal = (\<lambda>d. None), ac_extension_unmarshal = (\<lambda>d. None)\<rparr>"

theorem engines_agree_witness:
  "GetLatestCheckpoint_comet (\<lparr>k_ready = True, k_nodeID = ''n'', k_isLeader = False, k_app =
      Some (foldl (run_block example_abci_codec) (NewSubnetABCIApp True True True Map.empty) [(1, [[1, 4]]), (2, [[2, 65]])])\<rparr>)
    = Some (example_proto_header 4)"
proof -
  let ?app = "foldl (run_block example_abci_codec) (NewSubnetABCIApp True True True Map.empty) [(1, [[1, 4]]), (2, [[2, 65]])]"
  let ?k = "\<lparr>k_ready = True, k_nodeID = ''n'', k_isLeader = False, k_app = None\<rparr>"
  have same: "map (read_entry example_codec) [[0, 4], [1, 65]]
      = map (read_tx example_abci_codec) (concat (map snd [(1, [[1, 4]]), (2, [[2, 65]])]))"
    by (simp add: read_entry_def read_tx_def example_codec_simps example_abci_codec_def tx_type_defs)
  have "GetLatestCheckpoint_comet (?k\<lparr>k_app := Some ?app\<rparr>) = LatestCheckpoint (replay example_codec (NewRaftFSM True) [[0, 4], [1, 65]])"
    by (rule engines_agree [OF same refl, THEN conjunct1, symmetric])
  also have "\<dots> = Some (example_proto_header 4)"
    by (simp add: LatestCheckpoint_def example_codec_simps Let_def)
  finally show ?thesis by simp
qed

text \<open>
  A block gives one result per transaction, in order, and its code is 0 exactly for the transactions
  that \<open>CheckTx\<close> admits to the mempool and, beyond those, for validation-bundle signatures
  that decode but have epoch 0, no signature or no validator address: \<open>CheckTx\<close> refuses them, but a
  proposer can put them in a block, since every proposal is accepted, and they are delivered to the handler.
\<close>

theorem block_results_match_CheckTx:
  "map (\<lambda>r. r = TxOk) (snd (snd (FinalizeBlock cd app height txs))) =
     map (\<lambda>tx. CheckTx cd tx = TxOk \<or> signature_gap cd tx) txs
   \<and> ProcessProposal txs"
  unfolding FinalizeBlock_def using deliver_txs_results by (simp add: ProcessProposal_def)

text \<open>
  The application hash tells states apart by the current epoch and the numbers of checkpoints and pending
  reports only: two applications have the same hash exactly when these three agree, whatever the
  checkpoints and reports are.
\<close>

theorem app_hash_counts_only:
  "a_latestAppHash (Commit a) = a_latestAppHash (Commit b) \<longleftrightarrow>
     a_currentEpoch a = a_currentEpoch b
     \<and> card (dom (a_checkpoints a)) = card (dom (a_checkpoints b))
     \<and> card (dom (a_pendingReports a)) = card (dom (a_pendingReports b))"
proof -
  have no: "CHR '','' \<notin> set (dec n)" "CHR ''}'' \<notin> set (dec n)" for n by (rule dec_no_char; simp)+
  show ?thesis
    by (simp add: Commit_def sep_inject no word_unat_eq_iff) (auto simp: sep_inject no)
qed

text \<open>
  The application never collects a validation-bundle signature: in every reachable state the signature maps
  are empty, so no epoch reaches the threshold and no bundle can be built, whatever was delivered.
\<close>

theorem no_bundle_is_ever_built:
  assumes "abci_reachable cd app"
  shows "\<not> hasThresholdSignatures app epoch \<and> constructValidationBundle hasher app epoch order = None"
  using reachable_no_signatures [OF assms] by (simp add: hasThresholdSignatures_def constructValidationBundle_def)

theorem no_bundle_is_ever_built_witness:
  "\<not> hasThresholdSignatures (fst (FinalizeBlock example_abci_codec (NewSubnetABCIApp True True True Map.empty) 1 [[1, 4]])) 4"
  by (rule no_bundle_is_ever_built [THEN conjunct1]) (rule abci_reachable.block [OF abci_reachable.start])

text \<open>
  The two-thirds rule is Byzantine: if two signature maps of validators both reach the threshold of
  \<open>hasThresholdSignatures\<close>, and at most a third of the validators (less one, rounded down) are faulty, a correct
  validator signed both.
\<close>

theorem two_thirds_overlap:
  assumes "finite (dom (a_validatorSet app))" "dom (a_validatorSet app) \<noteq> {}"
    and "a_validationBundleSignatures app e1 = Some s1" "dom s1 \<subseteq> dom (a_validatorSet app)" "hasThresholdSignatures app e1"
    and "a_validationBundleSignatures app e2 = Some s2" "dom s2 \<subseteq> dom (a_validatorSet app)" "hasThresholdSignatures app e2"
    and "card F \<le> (card (dom (a_validatorSet app)) - 1) div 3" "finite F"
  shows "\<exists>v. v \<in> dom s1 \<inter> dom s2 \<and> v \<notin> F"
proof (rule abci_quorum.correct_member_in_overlap [of app])
  show "abci_quorum_size app \<le> card (dom s1)" "abci_quorum_size app \<le> card (dom s2)"
    using assms hasThresholdSignatures_iff by (simp_all add: abci_validators_def)
  show "card F \<le> byzantine_bound app" using assms by (simp add: byzantine_bound_def abci_validators_def)
qed (use assms in \<open>simp_all add: abci_validators_def\<close>)

definition example_abci_app :: SubnetABCIApp where
  "example_abci_app = (NewSubnetABCIApp True True True [''v1'' \<mapsto> 1, ''v2'' \<mapsto> 1, ''v3'' \<mapsto> 1, ''v4'' \<mapsto> 1])
     \<lparr>a_validationBundleSignatures := [1 \<mapsto> [''v1'' \<mapsto> [1], ''v2'' \<mapsto> [1], ''v3'' \<mapsto> [1]],
        2 \<mapsto> [''v2'' \<mapsto> [2], ''v3'' \<mapsto> [2], ''v4'' \<mapsto> [2]]]\<rparr>"

theorem two_thirds_overlap_witness:
  "\<exists>v. v \<in> {''v1'', ''v2'', ''v3''} \<inter> {''v2'', ''v3'', ''v4''} \<and> v \<notin> {''v2''}"
proof -
  have "\<exists>v. v \<in> dom [''v1'' \<mapsto> [1 :: byte], ''v2'' \<mapsto> [1], ''v3'' \<mapsto> [1]]
      \<inter> dom [''v2'' \<mapsto> [2 :: byte], ''v3'' \<mapsto> [2], ''v4'' \<mapsto> [2]] \<and> v \<notin> {''v2''}"
    by (rule two_thirds_overlap [of example_abci_app 1 _ 2])
      (simp_all add: example_abci_app_def NewSubnetABCIApp_def hasThresholdSignatures_def Let_def)
  then show ?thesis by auto
qed

end
