(* ===== verification/Crypto_Signing.thy ===== *)
theory Crypto_Signing
  imports Matching Merkle
begin

text \<open>
  Signing and verifying protocol messages: the ECDSA signer and verifier
  (\<open>src/internal/crypto/signature.go\<close>, \<open>signer.go\<close>), the message signer and the message verifier
  (\<open>message_signer.go\<close>), and the verifier service with its trusted keys (\<open>verifier_service.go\<close>). The
  functions of go-ethereum and \<open>crypto/ecdsa\<close> that the code calls are the fields of a record; what is assumed
  of them is stated by \<open>geth_sign_format\<close>, \<open>asn1_only\<close> and \<open>hash_bound\<close>.
\<close>

section \<open>Model\<close>

subsection \<open>Keys\<close>

record ('sk, 'pk) Crypto_Lib =
  lib_Sign :: "'sk \<Rightarrow> bytes \<Rightarrow> bytes option"
  lib_FromECDSAPub :: "'sk \<Rightarrow> bytes"
  lib_UnmarshalPubkey :: "bytes \<Rightarrow> 'pk option"
  lib_VerifyASN1 :: "'pk \<Rightarrow> bytes \<Rightarrow> bytes \<Rightarrow> bool"
  lib_Keccak256 :: "bytes \<Rightarrow> bytes"
  lib_PubkeyToAddress :: "'pk \<Rightarrow> string"

definition HashMessage :: "('sk, 'pk) Crypto_Lib \<Rightarrow> bytes \<Rightarrow> bytes" where
  "HashMessage lib message = lib_Keccak256 lib message"

text \<open>The recovery byte is moved to 27 or 28; \<open>None\<close> is an error of the library.\<close>

definition Sign :: "('sk, 'pk) Crypto_Lib \<Rightarrow> 'sk \<Rightarrow> bytes \<Rightarrow> go_panic + bytes option" where
  "Sign lib priv msgHash =
     (case lib_Sign lib priv msgHash of
        None \<Rightarrow> Inr None
      | Some sig \<Rightarrow>
          if length sig \<le> 64 then Inl IndexOutOfRange
          else Inr (Some (if sig ! 64 < 27 then sig[64 := sig ! 64 + 27] else sig)))"

definition SignMessage :: "('sk, 'pk) Crypto_Lib \<Rightarrow> 'sk \<Rightarrow> bytes \<Rightarrow> go_panic + bytes option" where
  "SignMessage lib priv message = Sign lib priv (HashMessage lib message)"

definition Verify :: "('sk, 'pk) Crypto_Lib \<Rightarrow> bytes \<Rightarrow> bytes \<Rightarrow> bytes \<Rightarrow> bool" where
  "Verify lib pubKey msgHash derSig =
     (case lib_UnmarshalPubkey lib pubKey of None \<Rightarrow> False | Some pk \<Rightarrow> lib_VerifyASN1 lib pk msgHash derSig)"

definition VerifyMessage :: "('sk, 'pk) Crypto_Lib \<Rightarrow> bytes \<Rightarrow> bytes \<Rightarrow> bytes \<Rightarrow> bool" where
  "VerifyMessage lib pubKey message signature = Verify lib pubKey (HashMessage lib message) signature"

definition PubKeyBytesToAddress :: "('sk, 'pk) Crypto_Lib \<Rightarrow> bytes \<Rightarrow> string option" where
  "PubKeyBytesToAddress lib pubKeyBytes = map_option (lib_PubkeyToAddress lib) (lib_UnmarshalPubkey lib pubKeyBytes)"

subsection \<open>JSON\<close>

text \<open>
  \<open>encoding/json\<close> on a struct of strings, integers and booleans: the fields in declaration order, strings with
  the escapes of the standard encoder (HTML characters included). Bytes from \<open>0x80\<close> on are copied, as in
  valid UTF-8 text without the two separators U+2028 and U+2029.
\<close>

definition json_char :: "char \<Rightarrow> string" where
  "json_char c =
     (if c = CHR 0x22 then [CHR 0x5C, CHR 0x22]
      else if c = CHR 0x5C then [CHR 0x5C, CHR 0x5C]
      else if c = CHR 0x08 then [CHR 0x5C, CHR ''b'']
      else if c = CHR 0x0C then [CHR 0x5C, CHR ''f'']
      else if c = CHR 0x0A then [CHR 0x5C, CHR ''n'']
      else if c = CHR 0x0D then [CHR 0x5C, CHR ''r'']
      else if c = CHR 0x09 then [CHR 0x5C, CHR ''t'']
      else if of_char c < (32 :: nat) \<or> c = CHR ''<'' \<or> c = CHR ''>'' \<or> c = CHR ''&''
      then CHR 0x5C # ''u00'' @ [hex_digit (of_char c div 16), hex_digit (of_char c mod 16)]
      else [c])"

definition json_string :: "string \<Rightarrow> string" where
  "json_string s = CHR 0x22 # concat (map json_char s) @ [CHR 0x22]"

definition json_bool :: "bool \<Rightarrow> string" where
  "json_bool b = (if b then ''true'' else ''false'')"

datatype json_value = JString string | JInt int | JBool bool

definition json_value_text :: "json_value \<Rightarrow> string" where
  "json_value_text v = (case v of JString s \<Rightarrow> json_string s | JInt i \<Rightarrow> dec_int i | JBool b \<Rightarrow> json_bool b)"

fun json_fields :: "(string \<times> json_value) list \<Rightarrow> string" where
  "json_fields [] = []"
| "json_fields [(k, v)] = json_string k @ CHR '':'' # json_value_text v"
| "json_fields ((k, v) # f # fs) = json_string k @ CHR '':'' # json_value_text v @ CHR '','' # json_fields (f # fs)"

definition json_object :: "(string \<times> json_value) list \<Rightarrow> bytes" where
  "json_object fs = bytes_of (CHR ''{'' # json_fields fs @ [CHR ''}''])"

subsection \<open>Message signer\<close>

text \<open>The name of an enum value, or its number when it has no name.\<close>

definition status_string :: "ReportStatus \<Rightarrow> string" where
  "status_string s =
     (if s = STATUS_UNSPECIFIED then ''STATUS_UNSPECIFIED'' else if s = SUCCESS then ''SUCCESS''
      else if s = FAILED then ''FAILED'' else if s = PARTIAL then ''PARTIAL'' else dec_int s)"

definition assignment_status_string :: "int \<Rightarrow> string" where
  "assignment_status_string s =
     (if s = 0 then ''ASSIGNMENT_STATUS_UNSPECIFIED'' else if s = 1 then ''ASSIGNMENT_ACTIVE''
      else if s = 2 then ''ASSIGNMENT_FAILED'' else dec_int s)"

definition createCanonicalBid_ms :: "string \<Rightarrow> Bid \<Rightarrow> bytes" where
  "createCanonicalBid_ms chainID bid = json_object
     [(''chain_id'', JString chainID), (''bid_id'', JString (b_BidId bid)), (''intent_id'', JString (b_IntentId bid)),
      (''agent_id'', JString (b_AgentId bid)), (''price'', JInt (uint (b_Price bid))), (''token'', JString (b_Token bid)),
      (''submitted_at'', JInt (b_SubmittedAt bid)), (''nonce'', JString (b_Nonce bid))]"

definition createCanonicalTask :: "string \<Rightarrow> ExecutionTask \<Rightarrow> bytes" where
  "createCanonicalTask chainID task = json_object
     [(''chain_id'', JString chainID), (''task_id'', JString (t_TaskId task)), (''intent_id'', JString (t_IntentId task)),
      (''agent_id'', JString (t_AgentId task)), (''bid_id'', JString (t_BidId task)),
      (''created_at'', JInt (t_CreatedAt task)), (''deadline'', JInt (t_Deadline task)),
      (''intent_type'', JString (t_IntentType task))]"

definition createCanonicalTaskResponse :: "string \<Rightarrow> TaskResponse \<Rightarrow> bytes" where
  "createCanonicalTaskResponse chainID response = json_object
     [(''chain_id'', JString chainID), (''task_id'', JString (tr_TaskId response)),
      (''agent_id'', JString (tr_AgentId response)), (''accepted'', JBool (tr_Accepted response)),
      (''reason'', JString (tr_Reason response))]"

definition createCanonicalAssignment :: "string \<Rightarrow> Assignment \<Rightarrow> bytes" where
  "createCanonicalAssignment chainID a = json_object
     [(''chain_id'', JString chainID), (''assignment_id'', JString (as_AssignmentId a)),
      (''intent_id'', JString (as_IntentId a)), (''agent_id'', JString (as_AgentId a)),
      (''bid_id'', JString (as_BidId a)), (''matcher_id'', JString (as_MatcherId a)),
      (''status'', JString (assignment_status_string (as_Status a)))]"

definition createCanonicalExecutionReport_ms :: "string \<Rightarrow> ExecutionReport \<Rightarrow> bytes" where
  "createCanonicalExecutionReport_ms chainID report = json_object
     [(''chain_id'', JString chainID), (''assignment_id'', JString (er_AssignmentId report)),
      (''intent_id'', JString (er_IntentId report)), (''agent_id'', JString (er_AgentId report)),
      (''status'', JString (status_string (er_Status report))), (''timestamp'', JInt (er_Timestamp report)),
      (''result_hash'', JString (EncodeToString (er_ResultData report)))]"

text \<open>A nil message is \<open>None\<close>; \<open>Inr None\<close> is an error, of a nil message or of the signer.\<close>

definition SignBid :: "('sk, 'pk) Crypto_Lib \<Rightarrow> 'sk \<Rightarrow> string \<Rightarrow> Bid option \<Rightarrow> go_panic + Bid option" where
  "SignBid lib priv chainID bid =
     (case bid of
        None \<Rightarrow> Inr None
      | Some b \<Rightarrow>
          (case SignMessage lib priv (createCanonicalBid_ms chainID b) of
             Inl p \<Rightarrow> Inl p
           | Inr sig \<Rightarrow> Inr (map_option (\<lambda>s. b\<lparr>b_Signature := s\<rparr>) sig)))"

definition SignExecutionTask ::
  "('sk, 'pk) Crypto_Lib \<Rightarrow> 'sk \<Rightarrow> string \<Rightarrow> ExecutionTask option \<Rightarrow> go_panic + bytes option" where
  "SignExecutionTask lib priv chainID task =
     (case task of None \<Rightarrow> Inr None | Some t \<Rightarrow> SignMessage lib priv (createCanonicalTask chainID t))"

definition SignTaskResponse ::
  "('sk, 'pk) Crypto_Lib \<Rightarrow> 'sk \<Rightarrow> string \<Rightarrow> TaskResponse option \<Rightarrow> go_panic + bytes option" where
  "SignTaskResponse lib priv chainID response =
     (case response of None \<Rightarrow> Inr None | Some r \<Rightarrow> SignMessage lib priv (createCanonicalTaskResponse chainID r))"

definition SignAssignment ::
  "('sk, 'pk) Crypto_Lib \<Rightarrow> 'sk \<Rightarrow> string \<Rightarrow> Assignment option \<Rightarrow> go_panic + Assignment option" where
  "SignAssignment lib priv chainID assignment =
     (case assignment of
        None \<Rightarrow> Inr None
      | Some a \<Rightarrow>
          (case SignMessage lib priv (createCanonicalAssignment chainID a) of
             Inl p \<Rightarrow> Inl p
           | Inr sig \<Rightarrow> Inr (map_option (\<lambda>s. a\<lparr>as_Signature := s\<rparr>) sig)))"

definition SignExecutionReport ::
  "('sk, 'pk) Crypto_Lib \<Rightarrow> 'sk \<Rightarrow> string \<Rightarrow> ExecutionReport option \<Rightarrow> go_panic + ExecutionReport option" where
  "SignExecutionReport lib priv chainID report =
     (case report of
        None \<Rightarrow> Inr None
      | Some r \<Rightarrow>
          (case SignMessage lib priv (createCanonicalExecutionReport_ms chainID r) of
             Inl p \<Rightarrow> Inl p
           | Inr sig \<Rightarrow> Inr (map_option (\<lambda>s. r\<lparr>er_Signature := s\<rparr>) sig)))"

subsection \<open>Message verifier\<close>

definition VerifyBid :: "('sk, 'pk) Crypto_Lib \<Rightarrow> string \<Rightarrow> Bid option \<Rightarrow> bytes \<Rightarrow> bool" where
  "VerifyBid lib chainID bid pubKey =
     (case bid of
        None \<Rightarrow> False
      | Some b \<Rightarrow> if length (b_Signature b) = 0 then False
                  else VerifyMessage lib pubKey (createCanonicalBid_ms chainID b) (b_Signature b))"

definition VerifyAssignment :: "('sk, 'pk) Crypto_Lib \<Rightarrow> string \<Rightarrow> Assignment option \<Rightarrow> bytes \<Rightarrow> bool" where
  "VerifyAssignment lib chainID assignment pubKey =
     (case assignment of
        None \<Rightarrow> False
      | Some a \<Rightarrow> if length (as_Signature a) = 0 then False
                  else VerifyMessage lib pubKey (createCanonicalAssignment chainID a) (as_Signature a))"

definition VerifyExecutionReport :: "('sk, 'pk) Crypto_Lib \<Rightarrow> string \<Rightarrow> ExecutionReport option \<Rightarrow> bytes \<Rightarrow> bool" where
  "VerifyExecutionReport lib chainID report pubKey =
     (case report of
        None \<Rightarrow> False
      | Some r \<Rightarrow> if length (er_Signature r) = 0 then False
                  else VerifyMessage lib pubKey (createCanonicalExecutionReport_ms chainID r) (er_Signature r))"

subsection \<open>Verifier service\<close>

record VerifierService =
  vsv_trustedKeys :: "string \<rightharpoonup> bytes"

definition NewVerifierService :: VerifierService where
  "NewVerifierService = \<lparr>vsv_trustedKeys = Map.empty\<rparr>"

definition AddTrustedKey :: "VerifierService \<Rightarrow> string \<Rightarrow> bytes \<Rightarrow> VerifierService" where
  "AddTrustedKey vs entityID pubKey = vs\<lparr>vsv_trustedKeys := (vsv_trustedKeys vs)(entityID \<mapsto> pubKey)\<rparr>"

datatype verify_error = MessageNil | SignatureEmpty | NoTrustedKey string | VerificationFailed string

definition GetTrustedKey :: "VerifierService \<Rightarrow> string \<Rightarrow> verify_error + bytes" where
  "GetTrustedKey vs entityID =
     (case vsv_trustedKeys vs entityID of None \<Rightarrow> Inl (NoTrustedKey entityID) | Some pubKey \<Rightarrow> Inr pubKey)"

definition createCanonicalBid :: "Bid \<Rightarrow> bytes" where
  "createCanonicalBid bid = bytes_of
     (''bid:v1|'' @ b_BidId bid @ CHR ''|'' # b_IntentId bid @ CHR ''|'' # b_AgentId bid @ CHR ''|''
       # dec (unat (b_Price bid)) @ CHR ''|'' # b_Token bid @ CHR ''|'' # b_SettleChain bid @ CHR ''|''
       # dec_int (b_SubmittedAt bid) @ CHR ''|'' # b_Nonce bid)"

definition createCanonicalExecutionReport :: "ExecutionReport \<Rightarrow> bytes" where
  "createCanonicalExecutionReport report = bytes_of
     (''report:v1|'' @ er_ReportId report @ CHR ''|'' # er_AssignmentId report @ CHR ''|'' # er_IntentId report
       @ CHR ''|'' # er_AgentId report @ CHR ''|'' # status_string (er_Status report) @ CHR ''|''
       # dec_int (er_Timestamp report))"

definition VerifyCheckpointSignature ::
  "('sk, 'pk) Crypto_Lib \<Rightarrow> (bytes \<Rightarrow> bytes) \<Rightarrow> VerifierService \<Rightarrow> CheckpointHeader option \<Rightarrow> bytes \<Rightarrow> string \<Rightarrow>
     verify_error option" where
  "VerifyCheckpointSignature lib H vs header signature signerID =
     (if header = None then Some MessageNil
      else if length signature = 0 then Some SignatureEmpty
      else case GetTrustedKey vs signerID of
        Inl e \<Rightarrow> Some e
      | Inr pubKey \<Rightarrow>
          if \<not> Verify lib pubKey (ComputeHash H header) signature then Some (VerificationFailed signerID) else None)"

definition VerifyBidSignature ::
  "('sk, 'pk) Crypto_Lib \<Rightarrow> VerifierService \<Rightarrow> Bid option \<Rightarrow> verify_error option" where
  "VerifyBidSignature lib vs bid =
     (case bid of
        None \<Rightarrow> Some MessageNil
      | Some b \<Rightarrow>
          if length (b_Signature b) = 0 then Some SignatureEmpty
          else case GetTrustedKey vs (b_AgentId b) of
            Inl e \<Rightarrow> Some e
          | Inr pubKey \<Rightarrow>
              if \<not> Verify lib pubKey (HashMessage lib (createCanonicalBid b)) (b_Signature b)
              then Some (VerificationFailed (b_AgentId b)) else None)"

definition VerifyExecutionReportSignature ::
  "('sk, 'pk) Crypto_Lib \<Rightarrow> VerifierService \<Rightarrow> ExecutionReport option \<Rightarrow> verify_error option" where
  "VerifyExecutionReportSignature lib vs report =
     (case report of
        None \<Rightarrow> Some MessageNil
      | Some r \<Rightarrow>
          if length (er_Signature r) = 0 then Some SignatureEmpty
          else case GetTrustedKey vs (er_AgentId r) of
            Inl e \<Rightarrow> Some e
          | Inr pubKey \<Rightarrow>
              if \<not> Verify lib pubKey (HashMessage lib (createCanonicalExecutionReport r)) (er_Signature r)
              then Some (VerificationFailed (er_AgentId r)) else None)"

definition VerifyMessageSignature ::
  "('sk, 'pk) Crypto_Lib \<Rightarrow> VerifierService \<Rightarrow> bytes \<Rightarrow> bytes \<Rightarrow> string \<Rightarrow> verify_error option" where
  "VerifyMessageSignature lib vs message signature signerID =
     (if length message = 0 then Some MessageNil
      else if length signature = 0 then Some SignatureEmpty
      else case GetTrustedKey vs signerID of
        Inl e \<Rightarrow> Some e
      | Inr pubKey \<Rightarrow>
          if \<not> VerifyMessage lib pubKey message signature then Some (VerificationFailed signerID) else None)"

definition BatchVerifyCheckpointSignatures ::
  "('sk, 'pk) Crypto_Lib \<Rightarrow> (bytes \<Rightarrow> bytes) \<Rightarrow> VerifierService \<Rightarrow> CheckpointHeader option \<Rightarrow> Signature option list \<Rightarrow>
     verify_error + bool list" where
  "BatchVerifyCheckpointSignatures lib H vs header signatures =
     (if header = None then Inl MessageNil
      else let hash = ComputeHash H header in
           Inr (map (\<lambda>sig.
             case sig of
               None \<Rightarrow> False
             | Some s \<Rightarrow>
                 if length (sg_Der s) = 0 then False
                 else case GetTrustedKey vs (sg_SignerId s) of
                   Inl _ \<Rightarrow> False
                 | Inr pubKey \<Rightarrow> Verify lib pubKey hash (sg_Der s)) signatures))"

subsection \<open>Signed messages\<close>

record SignatureMetadata =
  md_Signer :: string
  md_Timestamp :: int
  md_Nonce :: string
  md_ChainID :: string

record SignedMessage =
  sm_Message :: bytes
  sm_Signature :: bytes
  sm_Metadata :: SignatureMetadata

definition createCanonicalMessage :: "bytes \<Rightarrow> SignatureMetadata \<Rightarrow> bytes" where
  "createCanonicalMessage message m =
     bytes_of (md_ChainID m @ CHR ''|'' # md_Signer m @ CHR ''|'' # dec_int (md_Timestamp m) @ CHR ''|''
       # md_Nonce m @ ''|'') @ message"

definition CreateSignedMessage ::
  "('sk, 'pk) Crypto_Lib \<Rightarrow> 'sk \<Rightarrow> string \<Rightarrow> bytes \<Rightarrow> string \<Rightarrow> string \<Rightarrow> int \<Rightarrow> go_panic + SignedMessage option" where
  "CreateSignedMessage lib priv address message chainID nonce now =
     (let metadata = \<lparr>md_Signer = address, md_Timestamp = now div second, md_Nonce = nonce, md_ChainID = chainID\<rparr> in
      case SignMessage lib priv (createCanonicalMessage message metadata) of
        Inl p \<Rightarrow> Inl p
      | Inr sig \<Rightarrow> Inr (map_option (\<lambda>s. \<lparr>sm_Message = message, sm_Signature = s, sm_Metadata = metadata\<rparr>) sig))"

definition VerifySignedMessage :: "('sk, 'pk) Crypto_Lib \<Rightarrow> SignedMessage \<Rightarrow> bytes \<Rightarrow> bool" where
  "VerifySignedMessage lib msg pubKey =
     VerifyMessage lib pubKey (createCanonicalMessage (sm_Message msg) (sm_Metadata msg)) (sm_Signature msg)"

section \<open>Encodings\<close>

text \<open>Reading one escaped character back.\<close>

definition json_unescape :: "string \<Rightarrow> (char \<times> string) option" where
  "json_unescape s =
     (if hd s \<noteq> CHR 0x5C then Some (hd s, tl s)
      else let e = s ! 1; r = drop 2 s in
           if e = CHR 0x22 \<or> e = CHR 0x5C then Some (e, r)
           else if e = CHR ''b'' then Some (CHR 0x08, r)
           else if e = CHR ''f'' then Some (CHR 0x0C, r)
           else if e = CHR ''n'' then Some (CHR 0x0A, r)
           else if e = CHR ''r'' then Some (CHR 0x0D, r)
           else if e = CHR ''t'' then Some (CHR 0x09, r)
           else Option.bind (hex_value (r ! 2))
                  (\<lambda>h. map_option (\<lambda>l. (char_of (h * 16 + l), drop 4 r)) (hex_value (r ! 3))))"

lemma hex_escape_value:
  "hex_value (hex_digit (of_char c div 16)) = Some (of_char c div 16)"
  "hex_value (hex_digit (of_char c mod 16)) = Some (of_char c mod 16)"
proof -
  have "of_char c < (256 :: nat)" using nat_of_char_less_256 by auto
  then have "of_char c div 16 < (16 :: nat)" by (simp add: less_mult_imp_div_less)
  then show "hex_value (hex_digit (of_char c div 16)) = Some (of_char c div 16)" by (rule hex_value_digit)
  show "hex_value (hex_digit (of_char c mod 16)) = Some (of_char c mod 16)" by (rule hex_value_digit) simp
qed

lemma json_unescape_char: "json_unescape (json_char c @ s) = Some (c, s)"
proof -
  have "char_of (of_char c div 16 * 16 + of_char c mod 16 :: nat) = c"
    by (simp only: div_mult_mod_eq char_of_char)
  then show ?thesis by (simp add: json_unescape_def json_char_def hex_escape_value Let_def)
qed

text \<open>So the escapes are a prefix code, and none starts with the closing quote.\<close>

lemma json_char_prefix_code: "json_char c @ s = json_char d @ t \<Longrightarrow> c = d \<and> s = t"
  by (metis json_unescape_char option.inject prod.inject)

lemma json_char_not_quote: "json_char c @ s \<noteq> CHR 0x22 # t"
  by (simp add: json_char_def)

lemma json_body_inject:
  "concat (map json_char a) @ CHR 0x22 # s = concat (map json_char b) @ CHR 0x22 # t \<Longrightarrow> a = b \<and> s = t"
proof (induction a arbitrary: b)
  case Nil
  then show ?case by (cases b) (auto simp: json_char_not_quote [symmetric])
next
  case (Cons x xs)
  show ?case
  proof (cases b)
    case Nil
    with Cons.prems show ?thesis using json_char_not_quote by simp
  next
    case (Cons y ys)
    with Cons.prems have "json_char x @ concat (map json_char xs) @ CHR 0x22 # s = json_char y @ concat (map json_char ys) @ CHR 0x22 # t"
      by simp
    from json_char_prefix_code [OF this] Cons.IH Cons show ?thesis by blast
  qed
qed

lemma json_string_inject [simp, codec_simps]: "json_string a @ s = json_string b @ t \<longleftrightarrow> a = b \<and> s = t"
proof
  assume "json_string a @ s = json_string b @ t"
  then show "a = b \<and> s = t" by (intro json_body_inject) (simp add: json_string_def)
qed simp

lemma json_string_eq [simp, codec_simps]: "json_string a = json_string b \<longleftrightarrow> a = b"
  using json_string_inject [of a "[]" b "[]"] by simp

lemma dec_int_sep [codec_simps]:
  "dec_int i @ CHR '','' # s = dec_int j @ CHR '','' # t \<longleftrightarrow> i = j \<and> s = t"
  by (subst sep_inject) (simp_all add: dec_int_no_char)

text \<open>A number starts with a digit or the minus sign.\<close>

lemma dec_int_not_letter: "(of_char c :: nat) > 57 \<Longrightarrow> dec_int i \<noteq> c # w"
proof
  assume c: "(of_char c :: nat) > 57" and eq: "dec_int i = c # w"
  have "c \<notin> set (dec_int i)" by (rule dec_int_no_char) (use c in auto)
  with eq show False by simp
qed

lemma status_string_inject [simp]: "status_string s = status_string t \<longleftrightarrow> s = t"
proof -
  have "dec_int i \<noteq> ''STATUS_UNSPECIFIED''" "dec_int i \<noteq> ''SUCCESS''" "dec_int i \<noteq> ''FAILED''" "dec_int i \<noteq> ''PARTIAL''" for i
    by (simp_all add: dec_int_not_letter)
  moreover note this [symmetric]
  ultimately show ?thesis unfolding status_string_def by simp
qed

section \<open>What is assumed of the libraries\<close>

text \<open>go-ethereum documents its signatures as 65 bytes, \<open>R\<close>, \<open>S\<close> and the recovery bit.\<close>

definition geth_sign_format :: "('sk, 'pk) Crypto_Lib \<Rightarrow> bool" where
  "geth_sign_format lib \<longleftrightarrow>
     (\<forall>priv h sig. lib_Sign lib priv h = Some sig \<longrightarrow> length sig = 65 \<and> sig ! 64 \<in> {0, 1})"

text \<open>
  The DER form of a signature over a 256-bit curve: a sequence of two integers, all lengths in the short form.
\<close>

definition der_signature :: "bytes \<Rightarrow> bool" where
  "der_signature sig \<longleftrightarrow>
     4 \<le> length sig \<and> sig ! 0 = 0x30 \<and> unat (sig ! 1) + 2 = length sig \<and> sig ! 2 = 0x02
     \<and> unat (sig ! 3) + 6 \<le> length sig \<and> sig ! (unat (sig ! 3) + 4) = 0x02
     \<and> unat (sig ! (unat (sig ! 3) + 5)) + unat (sig ! 3) + 6 = length sig"

definition asn1_only :: "('sk, 'pk) Crypto_Lib \<Rightarrow> bool" where
  "asn1_only lib \<longleftrightarrow> (\<forall>pk h sig. lib_VerifyASN1 lib pk h sig \<longrightarrow> der_signature sig)"

text \<open>A signature verifies for the hash it was made for, and for no other.\<close>

definition hash_bound :: "('sk, 'pk) Crypto_Lib \<Rightarrow> 'sk \<Rightarrow> bytes \<Rightarrow> bool" where
  "hash_bound lib priv pubKey \<longleftrightarrow>
     (\<forall>h h' sig. Sign lib priv h = Inr (Some sig) \<longrightarrow> (Verify lib pubKey h' sig \<longleftrightarrow> h' = h))"

section \<open>Properties\<close>

text \<open>
  C18: The verifier refuses the signatures of the system's own signer. The signer returns 65 bytes
  \<open>R || S || V\<close>, the verifier reads ASN.1: a signature of \<open>Sign\<close> can only be accepted, under any key and for
  any hash, if \<open>R\<close> happens to begin with the bytes \<open>30 3f 02\<close>.
\<close>

theorem own_signatures_refused:
  assumes "geth_sign_format lib" "asn1_only lib" "Sign lib priv h = Inr (Some sig)" "Verify lib pubKey h' sig"
  shows "length sig = 65 \<and> take 3 sig = [0x30, 0x3F, 0x02]"
proof -
  obtain raw where raw: "lib_Sign lib priv h = Some raw" and sig: "sig = (if raw ! 64 < 27 then raw[64 := raw ! 64 + 27] else raw)"
    using assms(3) by (auto simp: Sign_def split: option.splits if_splits)
  have "length raw = 65" using assms(1) raw by (auto simp: geth_sign_format_def)
  then have len: "length sig = 65" by (simp add: sig)
  have der: "der_signature sig" using assms(2,4) by (auto simp: Verify_def asn1_only_def split: option.splits)
  then have "sig ! 0 = 0x30" "unat (sig ! 1) = 63" "sig ! 2 = 0x02" using len by (simp_all add: der_signature_def)
  moreover from this(2) have "sig ! 1 = 0x3F" by (simp add: word_unat_eq_iff)
  moreover have "take 3 sig = [sig ! 0, sig ! 1, sig ! 2]"
    using len by (simp add: numeral_3_eq_3 numeral_2_eq_2 take_Suc_conv_app_nth)
  ultimately show ?thesis using len by simp
qed

definition lucky_signature :: bytes where
  "lucky_signature = [0x30, 0x3F, 0x02, 29] @ replicate 29 1 @ [0x02, 30] @ replicate 29 1 @ [0]"

definition lucky_lib :: "(unit, unit) Crypto_Lib" where
  "lucky_lib = \<lparr>lib_Sign = (\<lambda>_ _. Some lucky_signature), lib_FromECDSAPub = (\<lambda>_. []), lib_UnmarshalPubkey = (\<lambda>_. Some ()),
     lib_VerifyASN1 = (\<lambda>_ _ sig. der_signature sig), lib_Keccak256 = (\<lambda>x. x), lib_PubkeyToAddress = (\<lambda>_. ''0x'')\<rparr>"

theorem own_signatures_refused_witness:
  "length (lucky_signature[64 := 27]) = 65 \<and> take 3 (lucky_signature[64 := 27]) = [0x30, 0x3F, 0x02]"
proof (rule own_signatures_refused)
  show "geth_sign_format lucky_lib" by (simp add: geth_sign_format_def lucky_lib_def lucky_signature_def nth_append)
  show "asn1_only lucky_lib" by (simp add: asn1_only_def lucky_lib_def)
  show "Sign lucky_lib () [] = Inr (Some (lucky_signature[64 := 27]))"
    by (simp add: Sign_def lucky_lib_def lucky_signature_def nth_append)
  show "Verify lucky_lib [] [] (lucky_signature[64 := 27])"
    by (simp add: Verify_def lucky_lib_def lucky_signature_def der_signature_def nth_append list_update_append)
qed

text \<open>
  What the message signer signs of an execution report is exactly the chain identifier, the assignment, the
  intent, the agent, the status, the time stamp and the result data: its canonical form is the same for two
  reports if and only if these seven agree.
\<close>

theorem canonical_report_binding:
  "createCanonicalExecutionReport_ms c r = createCanonicalExecutionReport_ms d q \<longleftrightarrow>
     c = d \<and> er_AssignmentId r = er_AssignmentId q \<and> er_IntentId r = er_IntentId q \<and> er_AgentId r = er_AgentId q
     \<and> er_Status r = er_Status q \<and> er_Timestamp r = er_Timestamp q \<and> er_ResultData r = er_ResultData q"
  unfolding createCanonicalExecutionReport_ms_def json_object_def bytes_of_inject
  by (simp add: json_value_text_def codec_simps)

text \<open>
  A report signed by the message signer does not pass the verifier service, even with a sound
  signature scheme and the signer's own key trusted: the two sides build different canonical texts.
\<close>

theorem service_refuses_signed_report:
  assumes sound: "hash_bound lib priv pubKey" and trusted: "vsv_trustedKeys vs (er_AgentId r) = Some pubKey"
    and signed: "SignExecutionReport lib priv chainID (Some r) = Inr (Some r')"
    and hash: "inj_on (lib_Keccak256 lib) {createCanonicalExecutionReport_ms chainID r, createCanonicalExecutionReport r}"
  shows "VerifyExecutionReport lib chainID (Some r') pubKey = (er_Signature r' \<noteq> [])
    \<and> VerifyExecutionReportSignature lib vs (Some r') \<noteq> None"
proof -
  let ?ms = "createCanonicalExecutionReport_ms chainID r" and ?vs = "createCanonicalExecutionReport r"
  obtain sig where sig: "Sign lib priv (lib_Keccak256 lib ?ms) = Inr (Some sig)" and r': "r' = r\<lparr>er_Signature := sig\<rparr>"
    using signed by (auto simp: SignExecutionReport_def SignMessage_def HashMessage_def split: sum.splits)
  have same: "createCanonicalExecutionReport_ms chainID r' = ?ms" "createCanonicalExecutionReport r' = ?vs"
    by (simp_all add: r' createCanonicalExecutionReport_ms_def createCanonicalExecutionReport_def)
  have "?ms \<noteq> ?vs"
    unfolding createCanonicalExecutionReport_ms_def createCanonicalExecutionReport_def json_object_def bytes_of_inject by simp
  then have ne: "lib_Keccak256 lib ?ms \<noteq> lib_Keccak256 lib ?vs" using hash by (auto dest: inj_onD)
  have verify: "Verify lib pubKey h' sig \<longleftrightarrow> h' = lib_Keccak256 lib ?ms" for h'
    using sound sig by (auto simp: hash_bound_def)
  show ?thesis
    unfolding VerifyExecutionReport_def VerifyExecutionReportSignature_def VerifyMessage_def HashMessage_def option.case same
    using trusted ne by (simp add: r' verify GetTrustedKey_def)
qed

definition ideal_lib :: "(unit, unit) Crypto_Lib" where
  "ideal_lib = \<lparr>lib_Sign = (\<lambda>_ h. Some (replicate 64 7 @ 28 # h)), lib_FromECDSAPub = (\<lambda>_. []), lib_UnmarshalPubkey = (\<lambda>_. Some ()),
     lib_VerifyASN1 = (\<lambda>_ h sig. sig = replicate 64 7 @ 28 # h), lib_Keccak256 = (\<lambda>x. x), lib_PubkeyToAddress = (\<lambda>_. ''0x'')\<rparr>"

definition signed_example_report :: ExecutionReport where
  "signed_example_report =
     \<lparr>er_ReportId = ''r'', er_AssignmentId = ''a'', er_IntentId = ''i'', er_AgentId = ''g'', er_Status = SUCCESS,
      er_ResultData = [1], er_Evidence = None, er_Error = None, er_Timestamp = 7, er_Signature = [], er_RootRef = None\<rparr>"

theorem service_refuses_signed_report_witness:
  "VerifyExecutionReportSignature ideal_lib (AddTrustedKey NewVerifierService ''g'' [1])
     (Some (signed_example_report\<lparr>er_Signature := replicate 64 7 @ 28 # createCanonicalExecutionReport_ms ''c'' signed_example_report\<rparr>)) \<noteq> None"
proof (rule service_refuses_signed_report [THEN conjunct2])
  show "hash_bound ideal_lib () [1]"
    by (auto simp: hash_bound_def Sign_def Verify_def ideal_lib_def nth_append)
  show "vsv_trustedKeys (AddTrustedKey NewVerifierService ''g'' [1]) (er_AgentId signed_example_report) = Some [1]"
    by (simp add: AddTrustedKey_def NewVerifierService_def signed_example_report_def)
  show "SignExecutionReport ideal_lib () ''c'' (Some signed_example_report) = Inr (Some (signed_example_report
      \<lparr>er_Signature := replicate 64 7 @ 28 # createCanonicalExecutionReport_ms ''c'' signed_example_report\<rparr>))"
    by (simp add: SignExecutionReport_def SignMessage_def Sign_def HashMessage_def ideal_lib_def nth_append)
  show "inj_on (lib_Keccak256 ideal_lib)
      {createCanonicalExecutionReport_ms ''c'' signed_example_report, createCanonicalExecutionReport signed_example_report}"
    by (simp add: ideal_lib_def inj_on_def)
qed

end
