(* ===== verification/Report_Validator.thy ===== *)
theory Report_Validator
  imports Crypto_Signing
begin

text \<open>
  The rules that an execution report has to pass: \<open>src/internal/validator/report_validator.go\<close>. A nil pointer is
  \<open>None\<close>; the clock is an argument; an error says which check failed, in the order of the code.
\<close>

section \<open>Model\<close>

record ReportValidationRules =
  ru_MaxExecutionTime :: int
  ru_MaxTimeDrift :: int
  ru_RequireEvidence :: bool
  ru_RequireSignature :: bool
  ru_verifier :: "VerifierService option"

definition NewReportValidationRules :: ReportValidationRules where
  "NewReportValidationRules =
     \<lparr>ru_MaxExecutionTime = 30 * 60 * second, ru_MaxTimeDrift = 5 * 60 * second, ru_RequireEvidence = True,
      ru_RequireSignature = True, ru_verifier = Some NewVerifierService\<rparr>"

datatype report_error =
    ReportNil
  | EmptyReportID | EmptyAssignmentID | EmptyIntentID | EmptyAgentID | StatusUnspecified | TimestampZero
  | AssignmentMismatch | IntentMismatch | AgentMismatch
  | TooFarInFuture | TooOld | BeforeAssignment | TookTooLong
  | MissingResultData | UnexpectedErrorInfo | MissingErrorInfo | EmptyErrorInfo | NeitherResultNorError
  | UnknownStatus int
  | EvidenceMissing | ProofMissing | EnvironmentMissing | InputsHashMissing | OutputsHashMissing
  | TranscriptMissing | ExternalRefsMissing
  | UnrealisticCpu | UnrealisticMemory | UnrealisticIo | UnrealisticNetwork
  | SignatureMissing | SignatureInvalid verify_error

definition validateBasicFields :: "ExecutionReport \<Rightarrow> report_error option" where
  "validateBasicFields report =
     (if er_ReportId report = [] then Some EmptyReportID
      else if er_AssignmentId report = [] then Some EmptyAssignmentID
      else if er_IntentId report = [] then Some EmptyIntentID
      else if er_AgentId report = [] then Some EmptyAgentID
      else if er_Status report = STATUS_UNSPECIFIED then Some StatusUnspecified
      else if er_Timestamp report = 0 then Some TimestampZero
      else None)"

definition validateReportMatchesAssignment :: "ExecutionReport \<Rightarrow> ExecutionTask \<Rightarrow> report_error option" where
  "validateReportMatchesAssignment report assignment =
     (if er_AssignmentId report \<noteq> t_TaskId assignment then Some AssignmentMismatch
      else if er_IntentId report \<noteq> t_IntentId assignment then Some IntentMismatch
      else if er_AgentId report \<noteq> t_AgentId assignment then Some AgentMismatch
      else None)"

text \<open>Times are nanoseconds, the stamps of a report and of a task are seconds.\<close>

definition validateTimestamps ::
  "ReportValidationRules \<Rightarrow> ExecutionReport \<Rightarrow> ExecutionTask option \<Rightarrow> int \<Rightarrow> report_error option" where
  "validateTimestamps r report assignment now =
     (let reportTime = er_Timestamp report * second in
      if reportTime > now + ru_MaxTimeDrift r then Some TooFarInFuture
      else if reportTime < now + (- ru_MaxTimeDrift r - ru_MaxExecutionTime r) then Some TooOld
      else case assignment of
        None \<Rightarrow> None
      | Some a \<Rightarrow>
          if t_CreatedAt a > 0 then
            let assignmentTime = t_CreatedAt a * second in
            if reportTime < assignmentTime then Some BeforeAssignment
            else if time_sub reportTime assignmentTime > ru_MaxExecutionTime r then Some TookTooLong
            else None
          else None)"

definition validateStatusConsistency :: "ExecutionReport \<Rightarrow> report_error option" where
  "validateStatusConsistency report =
     (if er_Status report = SUCCESS then
        if length (er_ResultData report) = 0 then Some MissingResultData
        else if er_Error report \<noteq> None then Some UnexpectedErrorInfo
        else None
      else if er_Status report = FAILED then
        (case er_Error report of
           None \<Rightarrow> Some MissingErrorInfo
         | Some e \<Rightarrow> if ei_Code e = [] \<and> ei_Message e = [] then Some EmptyErrorInfo else None)
      else if er_Status report = PARTIAL then
        if length (er_ResultData report) = 0 \<and> er_Error report = None then Some NeitherResultNorError else None
      else Some (UnknownStatus (er_Status report)))"

definition maxReasonableCpuMs :: u64 where "maxReasonableCpuMs = 1000000000"
definition maxReasonableMemoryMb :: u64 where "maxReasonableMemoryMb = 1000000000"
definition maxReasonableIoOps :: u64 where "maxReasonableIoOps = 1000000000"
definition maxReasonableNetworkBytes :: u64 where "maxReasonableNetworkBytes = 2 ^ 50"

definition validateResourceUsage :: "ResourceUsage \<Rightarrow> report_error option" where
  "validateResourceUsage usage =
     (if ru_CpuMs usage > maxReasonableCpuMs then Some UnrealisticCpu
      else if ru_MemoryMb usage > maxReasonableMemoryMb then Some UnrealisticMemory
      else if ru_IoOps usage > maxReasonableIoOps then Some UnrealisticIo
      else if ru_NetworkBytes usage > maxReasonableNetworkBytes then Some UnrealisticNetwork
      else None)"

definition validateEvidence :: "ExecutionReport \<Rightarrow> report_error option" where
  "validateEvidence report =
     (case er_Evidence report of
        None \<Rightarrow> Some EvidenceMissing
      | Some evidence \<Rightarrow>
          if length (ev_ProofExec evidence) = 0 then Some ProofMissing
          else if length (ev_EnvFingerprint evidence) = 0 then Some EnvironmentMissing
          else if length (ev_InputsHash evidence) = 0 then Some InputsHashMissing
          else if length (ev_OutputsHash evidence) = 0 then Some OutputsHashMissing
          else if length (er_ResultData report) > 1024 * 1024 \<and> length (ev_TranscriptRoot evidence) = 0
          then Some TranscriptMissing
          else if length (er_ResultData report) > 1024 * 1024 \<and> length (ev_ExternalRefs evidence) = 0
          then Some ExternalRefsMissing
          else case ev_ResourceUsage evidence of None \<Rightarrow> None | Some usage \<Rightarrow> validateResourceUsage usage)"

definition validateSignature ::
  "('sk, 'pk) Crypto_Lib \<Rightarrow> ReportValidationRules \<Rightarrow> ExecutionReport \<Rightarrow> report_error option" where
  "validateSignature lib r report =
     (if length (er_Signature report) = 0 then Some SignatureMissing
      else case ru_verifier r of
        None \<Rightarrow> None
      | Some verifier \<Rightarrow> map_option SignatureInvalid (VerifyExecutionReportSignature lib verifier (Some report)))"

text \<open>The first error of a list of checks.\<close>

definition first_error :: "'e option list \<Rightarrow> 'e option" where
  "first_error rs = foldr (\<lambda>r rest. case r of None \<Rightarrow> rest | Some e \<Rightarrow> Some e) rs None"

definition ValidateExecutionReport ::
  "('sk, 'pk) Crypto_Lib \<Rightarrow> ReportValidationRules \<Rightarrow> ExecutionReport option \<Rightarrow> ExecutionTask option \<Rightarrow> int \<Rightarrow>
     report_error option" where
  "ValidateExecutionReport lib r report assignment now =
     (case report of
        None \<Rightarrow> Some ReportNil
      | Some rep \<Rightarrow>
          first_error
            [validateBasicFields rep,
             (case assignment of None \<Rightarrow> None | Some a \<Rightarrow> validateReportMatchesAssignment rep a),
             validateTimestamps r rep assignment now,
             validateStatusConsistency rep,
             (if ru_RequireEvidence r then validateEvidence rep else None),
             (if ru_RequireSignature r then validateSignature lib r rep else None)])"

datatype batch_error = NoReports | SomeReportsInvalid

text \<open>The clock is read once per report. The first component are the results, if there are any.\<close>

definition ValidateBatch ::
  "('sk, 'pk) Crypto_Lib \<Rightarrow> ReportValidationRules \<Rightarrow> ExecutionReport option list \<Rightarrow> (string \<rightharpoonup> ExecutionTask) option \<Rightarrow>
     (nat \<Rightarrow> int) \<Rightarrow> report_error option list option \<times> batch_error option" where
  "ValidateBatch lib r reports assignments clock =
     (if length reports = 0 then (None, Some NoReports)
      else let results = map (\<lambda>(i, report).
                 ValidateExecutionReport lib r report
                   (case (assignments, report) of (Some m, Some rep) \<Rightarrow> m (er_AssignmentId rep) | _ \<Rightarrow> None) (clock i))
                 (enumerate 0 reports) in
           (Some results, if list_ex (\<lambda>e. e \<noteq> None) results then Some SomeReportsInvalid else None))"

definition SetTrustedAgent :: "ReportValidationRules \<Rightarrow> string \<Rightarrow> bytes \<Rightarrow> ReportValidationRules" where
  "SetTrustedAgent r agentID pubKey = r\<lparr>ru_verifier := map_option (\<lambda>v. AddTrustedKey v agentID pubKey) (ru_verifier r)\<rparr>"

section \<open>What a valid report is\<close>

lemma first_error_None [simp]: "first_error rs = None \<longleftrightarrow> list_all (\<lambda>r. r = None) rs"
  by (induction rs) (auto simp: first_error_def split: option.splits)

definition well_formed_fields :: "ExecutionReport \<Rightarrow> bool" where
  "well_formed_fields rep \<longleftrightarrow>
     er_ReportId rep \<noteq> [] \<and> er_AssignmentId rep \<noteq> [] \<and> er_IntentId rep \<noteq> [] \<and> er_AgentId rep \<noteq> [] \<and> er_Timestamp rep \<noteq> 0"

definition matches_task :: "ExecutionReport \<Rightarrow> ExecutionTask \<Rightarrow> bool" where
  "matches_task rep a \<longleftrightarrow>
     er_AssignmentId rep = t_TaskId a \<and> er_IntentId rep = t_IntentId a \<and> er_AgentId rep = t_AgentId a"

text \<open>The report is stamped in the window that the rules leave around the current time, and within the execution time of its task.\<close>

definition in_time :: "ReportValidationRules \<Rightarrow> ExecutionReport \<Rightarrow> ExecutionTask option \<Rightarrow> int \<Rightarrow> bool" where
  "in_time r rep assignment now \<longleftrightarrow>
     er_Timestamp rep * second \<le> now + ru_MaxTimeDrift r
     \<and> now - ru_MaxTimeDrift r - ru_MaxExecutionTime r \<le> er_Timestamp rep * second
     \<and> (\<forall>a. assignment = Some a \<and> 0 < t_CreatedAt a \<longrightarrow>
          t_CreatedAt a \<le> er_Timestamp rep \<and> (er_Timestamp rep - t_CreatedAt a) * second \<le> ru_MaxExecutionTime r)"

definition consistent_status :: "ExecutionReport \<Rightarrow> bool" where
  "consistent_status rep \<longleftrightarrow>
     (er_Status rep = SUCCESS \<and> er_ResultData rep \<noteq> [] \<and> er_Error rep = None)
     \<or> (er_Status rep = FAILED \<and> (\<exists>e. er_Error rep = Some e \<and> (ei_Code e \<noteq> [] \<or> ei_Message e \<noteq> [])))
     \<or> (er_Status rep = PARTIAL \<and> (er_ResultData rep \<noteq> [] \<or> er_Error rep \<noteq> None))"

definition plausible_usage :: "ResourceUsage \<Rightarrow> bool" where
  "plausible_usage u \<longleftrightarrow>
     unat (ru_CpuMs u) \<le> 10 ^ 9 \<and> unat (ru_MemoryMb u) \<le> 10 ^ 9 \<and> unat (ru_IoOps u) \<le> 10 ^ 9
     \<and> unat (ru_NetworkBytes u) \<le> 2 ^ 50"

definition sufficient_evidence :: "ExecutionReport \<Rightarrow> bool" where
  "sufficient_evidence rep \<longleftrightarrow>
     (\<exists>e. er_Evidence rep = Some e \<and> ev_ProofExec e \<noteq> [] \<and> ev_EnvFingerprint e \<noteq> [] \<and> ev_InputsHash e \<noteq> []
        \<and> ev_OutputsHash e \<noteq> []
        \<and> (length (er_ResultData rep) > 2 ^ 20 \<longrightarrow> ev_TranscriptRoot e \<noteq> [] \<and> ev_ExternalRefs e \<noteq> [])
        \<and> (\<forall>u. ev_ResourceUsage e = Some u \<longrightarrow> plausible_usage u))"

lemma validateTimestamps_None:
  assumes "ru_MaxExecutionTime r < 2 ^ 63 - 1"
  shows "validateTimestamps r rep assignment now = None \<longleftrightarrow> in_time r rep assignment now"
proof -
  have "time_sub (x * second) (y * second) > ru_MaxExecutionTime r \<longleftrightarrow> (x - y) * second > ru_MaxExecutionTime r"
    if "y \<le> x" for x y
  proof -
    have "0 \<le> (x - y) * second" using that by (simp add: second_def)
    then show ?thesis using assms unfolding time_sub_def left_diff_distrib by linarith
  qed
  moreover have "x * second < y * second \<longleftrightarrow> x < y" for x y by (simp add: second_def)
  ultimately show ?thesis
    by (auto simp: validateTimestamps_def in_time_def Let_def not_less split: option.split)
qed

lemma validateStatusConsistency_None: "validateStatusConsistency rep = None \<longleftrightarrow> consistent_status rep"
  by (auto simp: validateStatusConsistency_def consistent_status_def report_status_defs split: option.splits)

lemma validateResourceUsage_None: "validateResourceUsage u = None \<longleftrightarrow> plausible_usage u"
  by (simp add: validateResourceUsage_def plausible_usage_def maxReasonableCpuMs_def maxReasonableMemoryMb_def
      maxReasonableIoOps_def maxReasonableNetworkBytes_def word_less_nat_alt word_le_nat_alt not_less)

lemma validateEvidence_None: "validateEvidence rep = None \<longleftrightarrow> sufficient_evidence rep"
  by (auto simp: validateEvidence_def sufficient_evidence_def validateResourceUsage_None split: option.splits)

lemma validateBasicFields_None:
  "validateBasicFields rep = None \<longleftrightarrow> well_formed_fields rep \<and> er_Status rep \<noteq> STATUS_UNSPECIFIED"
  by (simp add: validateBasicFields_def well_formed_fields_def)

lemma validateReportMatchesAssignment_None: "validateReportMatchesAssignment rep a = None \<longleftrightarrow> matches_task rep a"
  by (simp add: validateReportMatchesAssignment_def matches_task_def)

lemma consistent_status_specified: "consistent_status rep \<Longrightarrow> er_Status rep \<noteq> STATUS_UNSPECIFIED"
  by (auto simp: consistent_status_def report_status_defs)

lemma ValidateExecutionReport_None:
  assumes "ru_MaxExecutionTime r < 2 ^ 63 - 1"
  shows "ValidateExecutionReport lib r (Some rep) assignment now = None \<longleftrightarrow>
    well_formed_fields rep \<and> (\<forall>a. assignment = Some a \<longrightarrow> matches_task rep a) \<and> in_time r rep assignment now
    \<and> consistent_status rep \<and> (ru_RequireEvidence r \<longrightarrow> sufficient_evidence rep)
    \<and> (ru_RequireSignature r \<longrightarrow> er_Signature rep \<noteq> [] \<and>
         (\<forall>v. ru_verifier r = Some v \<longrightarrow> VerifyExecutionReportSignature lib v (Some rep) = None))"
  unfolding ValidateExecutionReport_def
  by (auto simp: validateTimestamps_None [OF assms] validateStatusConsistency_None validateEvidence_None
      validateBasicFields_None validateReportMatchesAssignment_None validateSignature_def
      dest: consistent_status_specified split: option.splits)

text \<open>
  With the default rules no report passes until a key is registered for its agent, and registering the key of
  one agent does not help the others.
\<close>

lemma default_rules_need_trusted_key:
  assumes "er_AgentId rep \<noteq> agent"
  shows "ValidateExecutionReport lib NewReportValidationRules (Some rep) assignment now \<noteq> None"
    and "ValidateExecutionReport lib (SetTrustedAgent NewReportValidationRules agent key) (Some rep) assignment now \<noteq> None"
proof -
  have bound: "ru_MaxExecutionTime NewReportValidationRules < 2 ^ 63 - 1"
    "ru_MaxExecutionTime (SetTrustedAgent NewReportValidationRules agent key) < 2 ^ 63 - 1"
    by (simp_all add: NewReportValidationRules_def SetTrustedAgent_def second_def)
  have rules: "ru_RequireSignature NewReportValidationRules" "ru_verifier NewReportValidationRules = Some NewVerifierService"
    "ru_RequireSignature (SetTrustedAgent NewReportValidationRules agent key)"
    "ru_verifier (SetTrustedAgent NewReportValidationRules agent key) = Some (AddTrustedKey NewVerifierService agent key)"
    by (simp_all add: NewReportValidationRules_def SetTrustedAgent_def)
  have "VerifyExecutionReportSignature lib NewVerifierService (Some rep) \<noteq> None"
    "VerifyExecutionReportSignature lib (AddTrustedKey NewVerifierService agent key) (Some rep) \<noteq> None"
    using assms by (simp_all add: VerifyExecutionReportSignature_def GetTrustedKey_def AddTrustedKey_def NewVerifierService_def)
  then show "ValidateExecutionReport lib NewReportValidationRules (Some rep) assignment now \<noteq> None"
    and "ValidateExecutionReport lib (SetTrustedAgent NewReportValidationRules agent key) (Some rep) assignment now \<noteq> None"
    unfolding ValidateExecutionReport_None [OF bound(1)] ValidateExecutionReport_None [OF bound(2)]
    using rules by auto
qed

section \<open>Properties\<close>


definition example_task :: ExecutionTask where
  "example_task = \<lparr>t_TaskId = ''a'', t_IntentId = ''i'', t_AgentId = ''g'', t_BidId = ''b'', t_CreatedAt = 5, t_Deadline = 0,
     t_IntentData = [], t_IntentType = []\<rparr>"


end
