(* ===== verification/Validator_Node.thy ===== *)
theory Validator_Node
  imports Raft_FSM Chain Consensus_FSM Leader Crypto_Signing
begin

text \<open>
  The validator node of \<open>src/internal/validator/node.go\<close> and \<open>handlers.go\<close>: reports, proposals,
  signatures, finalisation, the tick of the consensus loop and the stored checkpoint. The node combines the
  validator set, the leader tracker, the state machine of a round, the chain, the LevelDB store and the
  signing keys of the other theories. Every handler holds the node's mutex (the ones that release it to call
  out change nothing until they hold it again), so a handler is a function on the node; \<open>now\<close> is the
  reading of the clock. The validation bundles are in \<open>Validation_Bundles\<close>.
\<close>

section \<open>Model\<close>

subsection \<open>State\<close>

record DoubleSignEvidence =
  de_ValidatorId :: string
  de_Epoch :: u64
  de_Evidence :: bytes

text \<open>
  What the node calls: the keys and the hash, the database, protobuf and JSON. \<open>env_score\<close> is the score
  of a report, which is floating-point arithmetic and is only copied into the receipt.
\<close>

record ('sk, 'pk, 'd) Node_Env =
  env_lib :: "('sk, 'pk) Crypto_Lib"
  env_H :: "bytes \<Rightarrow> bytes"
  env_db :: "'d LevelDB"
  env_marshal_header :: "CheckpointHeader \<Rightarrow> bytes option"
  env_unmarshal_header :: "bytes \<Rightarrow> CheckpointHeader option"
  env_marshal_report :: "ExecutionReport \<Rightarrow> bytes option"
  env_marshal_signatures :: "(string \<rightharpoonup> Signature) \<Rightarrow> bytes option"
  env_unmarshal_signatures :: "bytes \<Rightarrow> (string \<rightharpoonup> Signature) option"
  env_marshal_evidence :: "string \<Rightarrow> u64 \<Rightarrow> bytes \<Rightarrow> bytes \<Rightarrow> int \<Rightarrow> bytes"
  env_unmarshal_report :: "bytes \<Rightarrow> ExecutionReport option"
  env_unmarshal_evidence :: "bytes \<Rightarrow> DoubleSignEvidence option"
  env_score :: "ExecutionReport \<Rightarrow> int \<Rightarrow> int"

text \<open>\<open>nc_Timeouts\<close> is the checkpoint interval of the unified timeouts, if they are set.\<close>

record Node_Config =
  nc_SubnetID :: string
  nc_CheckpointInterval :: int
  nc_Timeouts :: "int option"
  nc_CollectTimeout :: "int option"
  nc_ProposeTimeout :: int

text \<open>
  \<open>n_raft\<close>, \<open>n_comet\<close> and \<open>n_gossip\<close> say which engine and whether the gossip manager is present.
  The configuration is validated, so the validator set is not nil; the chain has no backend, because
  \<open>NewNode\<close> sets none.
\<close>

record ('sk, 'd) Node =
  n_id :: string
  n_signer :: 'sk
  n_validatorSet :: ValidatorSet
  n_raft :: bool
  n_comet :: bool
  n_gossip :: bool
  n_fsm :: StateMachine
  n_leaderTracker :: LeaderTracker
  n_chain :: "unit Chain"
  n_store :: 'd
  n_pendingReports :: "string \<rightharpoonup> ExecutionReport"
  n_reportScores :: "string \<rightharpoonup> int"
  n_reportReceivedAt :: "string \<rightharpoonup> int"
  n_currentEpoch :: u64
  n_currentCheckpoint :: "CheckpointHeader option"
  n_signatures :: "string \<rightharpoonup> Signature"
  n_lastCheckpointAt :: int
  n_isLeader :: bool
  n_epochValidationSignatures :: "u64 \<rightharpoonup> (string \<rightharpoonup> ValidationBundleSignature)"
  n_epochIntents :: "u64 \<rightharpoonup> string list"
  n_epochSubmissionTriggered :: "u64 \<rightharpoonup> bool"
  n_validationBundleSignatures :: "string \<rightharpoonup> (string \<rightharpoonup> ValidationBundleSignature)"
  n_config :: Node_Config

definition no_backend :: "unit Store" where
  "no_backend = \<lparr>st_SaveHeader = (\<lambda>s h. (s, None)), st_GetHeader = (\<lambda>s e. Inl (HeaderNotFound e))\<rparr>"

text \<open>A call of \<open>submitToRootLayerWithData\<close> with the copies made under the lock.\<close>

datatype submission =
  Submission (sub_header: CheckpointHeader) (sub_reports: "string \<rightharpoonup> ExecutionReport") (sub_signatures: "string \<rightharpoonup> Signature")

datatype node_error =
    UnknownValidator string
  | EmptySignature
  | NoCheckpointHeader
  | SignatureRejected string
  | NoActiveCheckpoint
  | InvalidSignature node_error
  | DoubleSign string u64
  | AlreadyFinalized u64 u64
  | TooFarInFuture u64 u64
  | InvalidProposal node_error
  | FsmError sm_error
  | SignFailed

text \<open>\<open>NewNode\<close> before the stored checkpoint is loaded.\<close>

definition fresh_node :: "string \<Rightarrow> 'sk \<Rightarrow> ValidatorSet \<Rightarrow> bool \<Rightarrow> bool \<Rightarrow> bool \<Rightarrow> Node_Config \<Rightarrow> 'd \<Rightarrow> ('sk, 'd) Node" where
  "fresh_node vid signer vs raft comet gossip cfg store =
     \<lparr>n_id = vid, n_signer = signer, n_validatorSet = vs, n_raft = raft, n_comet = comet, n_gossip = gossip,
      n_fsm = NewStateMachineWithConfig vs (nc_CollectTimeout cfg),
      n_leaderTracker = NewLeaderTracker vs (nc_ProposeTimeout cfg), n_chain = NewChain, n_store = store,
      n_pendingReports = Map.empty, n_reportScores = Map.empty, n_reportReceivedAt = Map.empty,
      n_currentEpoch = 0, n_currentCheckpoint = None, n_signatures = Map.empty, n_lastCheckpointAt = zero_time,
      n_isLeader = False, n_epochValidationSignatures = Map.empty, n_epochIntents = Map.empty,
      n_epochSubmissionTriggered = Map.empty, n_validationBundleSignatures = Map.empty, n_config = cfg\<rparr>"

subsection \<open>Execution reports\<close>

definition generateReportID :: "ExecutionReport \<Rightarrow> string" where
  "generateReportID report =
     er_IntentId report @ CHR '':'' # er_AssignmentId report @ CHR '':'' # er_AgentId report
       @ CHR '':'' # dec_int (er_Timestamp report)"

definition intent_key :: "ExecutionReport \<Rightarrow> string" where
  "intent_key report = er_IntentId report @ CHR '':'' # er_AssignmentId report @ CHR '':'' # er_AgentId report"

record Receipt =
  rc_IntentId :: string
  rc_ValidatorId :: string
  rc_ReceivedTs :: int
  rc_Status :: string
  rc_ScoreHint :: u32
  rc_ReportId :: string
  rc_Phase :: string

text \<open>Errors of the codec and of the store are logged, the report stays in memory.\<close>

definition save_report :: "('sk, 'pk, 'd) Node_Env \<Rightarrow> ('sk, 'd) Node \<Rightarrow> string \<Rightarrow> ExecutionReport \<Rightarrow> ('sk, 'd) Node" where
  "save_report env n reportID report =
     (case env_marshal_report env report of
        None \<Rightarrow> n
      | Some reportBytes \<Rightarrow> n\<lparr>n_store := fst (SaveExecutionReport_ldb (env_db env) (n_store n) reportID reportBytes)\<rparr>)"

text \<open>\<open>ProcessExecutionReport\<close> without an engine.\<close>

definition ProcessExecutionReport ::
  "('sk, 'pk, 'd) Node_Env \<Rightarrow> ('sk, 'd) Node \<Rightarrow> ExecutionReport \<Rightarrow> int \<Rightarrow> ('sk, 'd) Node \<times> Receipt" where
  "ProcessExecutionReport env n report now =
     (let reportID = generateReportID report in
      if n_pendingReports n reportID \<noteq> None then
        (n, \<lparr>rc_IntentId = [], rc_ValidatorId = [], rc_ReceivedTs = now div second, rc_Status = ''duplicate'',
             rc_ScoreHint = 0, rc_ReportId = reportID, rc_Phase = []\<rparr>)
      else
        let score = env_score env report now;
            n1 = n\<lparr>n_pendingReports := (n_pendingReports n)(reportID \<mapsto> report),
                   n_reportScores := (n_reportScores n)(reportID \<mapsto> score)\<rparr> in
        (save_report env n1 reportID report,
         \<lparr>rc_IntentId = er_IntentId report, rc_ValidatorId = n_id n, rc_ReceivedTs = now div second,
          rc_Status = ''accepted'', rc_ScoreHint = word_of_int score, rc_ReportId = reportID, rc_Phase = []\<rparr>))"

text \<open>
  \<open>OnExecutionReportCommitted\<close> (Raft) and \<open>handleExecutionReportCommitted\<close> (CometBFT) have the same body.
\<close>

definition OnExecutionReportCommitted ::
  "('sk, 'pk, 'd) Node_Env \<Rightarrow> ('sk, 'd) Node \<Rightarrow> ExecutionReport \<Rightarrow> string \<Rightarrow> int \<Rightarrow> ('sk, 'd) Node" where
  "OnExecutionReportCommitted env n report reportKey now =
     (if reportKey = [] then n
      else if n_pendingReports n reportKey \<noteq> None then n
      else
        let n1 = n\<lparr>n_pendingReports := (n_pendingReports n)(reportKey \<mapsto> report),
                   n_reportScores := (n_reportScores n)(reportKey \<mapsto> env_score env report now),
                   n_reportReceivedAt := (n_reportReceivedAt n)(intent_key report \<mapsto> now div second)\<rparr> in
        save_report env n1 reportKey report)"

subsection \<open>Hashes, signatures and headers\<close>

definition ECDSA_SECP256K1 :: string where
  "ECDSA_SECP256K1 = ''ECDSA-secp256k1''"

definition signCheckpoint ::
  "('sk, 'pk, 'd) Node_Env \<Rightarrow> ('sk, 'd) Node \<Rightarrow> CheckpointHeader \<Rightarrow> go_panic + Signature option" where
  "signCheckpoint env n header =
     (let msgHash = ComputeHash (env_H env) (Some header) in
      case Sign (env_lib env) (n_signer n) msgHash of
        Inl p \<Rightarrow> Inl p
      | Inr None \<Rightarrow> Inr None
      | Inr (Some sigBytes) \<Rightarrow>
          Inr (Some \<lparr>sg_Algo = ECDSA_SECP256K1, sg_Der = sigBytes,
                     sg_Pubkey = lib_FromECDSAPub (env_lib env) (n_signer n), sg_MsgHash = msgHash, sg_SignerId = n_id n\<rparr>))"

definition verifySignature ::
  "('sk, 'pk, 'd) Node_Env \<Rightarrow> ('sk, 'd) Node \<Rightarrow> Signature \<Rightarrow> node_error option" where
  "verifySignature env n sig =
     (case get_from (sg_SignerId sig) (vs_Validators (n_validatorSet n)) of
        None \<Rightarrow> Some (UnknownValidator (sg_SignerId sig))
      | Some validator \<Rightarrow>
          if length (sg_Der sig) = 0 then Some EmptySignature
          else case n_currentCheckpoint n of
            None \<Rightarrow> Some NoCheckpointHeader
          | Some header \<Rightarrow>
              if \<not> Verify (env_lib env) (v_PubKey validator) (ComputeHash (env_H env) (Some header)) (sg_Der sig)
              then Some (SignatureRejected (sg_SignerId sig)) else None)"

definition validateProposal :: "('sk, 'd) Node \<Rightarrow> CheckpointHeader \<Rightarrow> node_error option" where
  "validateProposal n header =
     (if \<not> Option.is_none (n_currentCheckpoint n) \<and> h_Epoch header < h_Epoch (the (n_currentCheckpoint n))
      then Some (AlreadyFinalized (h_Epoch header) (h_Epoch (the (n_currentCheckpoint n))))
      else if h_Epoch header > n_currentEpoch n + 1 then Some (TooFarInFuture (h_Epoch header) (n_currentEpoch n))
      else None)"

definition computeStateRoot :: "('sk, 'pk, 'd) Node_Env \<Rightarrow> ('sk, 'd) Node \<Rightarrow> bytes" where
  "computeStateRoot env n =
     ComputeStateRoot (env_H env) (map v_ID (vs_Validators (n_validatorSet n)))
       (map v_Weight (vs_Validators (n_validatorSet n)))"

text \<open>\<open>order\<close> is the order in which the runtime visits the pending reports.\<close>

definition computeEventRoot :: "('sk, 'pk, 'd) Node_Env \<Rightarrow> ('sk, 'd) Node \<Rightarrow> string list \<Rightarrow> bytes" where
  "computeEventRoot env n order = ComputeEventRoot (env_H env) (List.map_filter (n_pendingReports n) order)"

definition buildCheckpointHeader ::
  "('sk, 'pk, 'd) Node_Env \<Rightarrow> ('sk, 'd) Node \<Rightarrow> string list \<Rightarrow> int \<Rightarrow> CheckpointHeader" where
  "buildCheckpointHeader env n order now =
     (let parentHash = (case ComputeParentHash (env_H env) (GetLatest (n_chain n)) of None \<Rightarrow> [] | Some d \<Rightarrow> d) in
      \<lparr>h_SubnetId = nc_SubnetID (n_config n), h_Epoch = n_currentEpoch n, h_ParentCpHash = parentHash,
       h_Timestamp = now div second, h_Version = 0, h_ParamsHash = [],
       h_Roots = Some (empty_roots\<lparr>cr_StateRoot := computeStateRoot env n, cr_AgentRoot := zeros32,
                         cr_EventRoot := computeEventRoot env n order\<rparr>),
       h_DaCommitments = [], h_ValidatorSetId = [], h_Stats = [], h_AuxHash = [], h_EpochSlot = None,
       h_AssignmentsRoot = [], h_ValidationCommitment = [], h_PolicyRoot = [], h_Signatures = None\<rparr>)"

definition getCheckpointInterval :: "Node_Config \<Rightarrow> int" where
  "getCheckpointInterval c =
     (if nc_CheckpointInterval c > 0 then nc_CheckpointInterval c
      else case nc_Timeouts c of Some t \<Rightarrow> t | None \<Rightarrow> 30 * second)"

subsection \<open>Proposals and signatures\<close>

text \<open>Asking for the leader moves the tracker to that epoch.\<close>

definition IsLeader :: "('sk, 'd) Node \<Rightarrow> u64 \<Rightarrow> ('sk, 'd) Node \<times> bool" where
  "IsLeader n epoch =
     (case Leader (n_leaderTracker n) epoch of
        (lt, _, leader) \<Rightarrow> (n\<lparr>n_leaderTracker := lt\<rparr>, \<exists>v \<in> set_option leader. v_ID v = n_id n))"

text \<open>The second half of \<open>HandleProposal\<close>: the header enters the round and the node signs it.\<close>

definition adopt_proposal ::
  "('sk, 'pk, 'd) Node_Env \<Rightarrow> ('sk, 'd) Node \<Rightarrow> CheckpointHeader \<Rightarrow> int \<Rightarrow> ('sk, 'd) Node \<times> (go_panic + node_error option)" where
  "adopt_proposal env n header now =
     (case ProposeHeader (n_fsm n) header now of
        (fsm, Some err) \<Rightarrow> (n\<lparr>n_fsm := fsm\<rparr>, Inr (Some (FsmError err)))
      | (fsm, None) \<Rightarrow>
          let n1 = n\<lparr>n_fsm := fsm\<rparr> in
          case signCheckpoint env n1 header of
            Inl p \<Rightarrow> (n1, Inl p)
          | Inr None \<Rightarrow> (n1, Inr (Some SignFailed))
          | Inr (Some sig) \<Rightarrow>
              let n2 = n1\<lparr>n_signatures := (n_signatures n1)(n_id n1 \<mapsto> sig)\<rparr> in
              case Consensus_FSM.AddSignature (n_fsm n2) sig now of
                (fsm', Inl p) \<Rightarrow> (n2\<lparr>n_fsm := fsm'\<rparr>, Inl p)
              | (fsm', Inr (Some err)) \<Rightarrow> (n2\<lparr>n_fsm := fsm'\<rparr>, Inr (Some (FsmError err)))
              | (fsm', Inr None) \<Rightarrow> (n2\<lparr>n_fsm := fsm', n_currentCheckpoint := Some header\<rparr>, Inr None))"

definition HandleProposal ::
  "('sk, 'pk, 'd) Node_Env \<Rightarrow> ('sk, 'd) Node \<Rightarrow> CheckpointHeader \<Rightarrow> int \<Rightarrow> ('sk, 'd) Node \<times> (go_panic + node_error option)" where
  "HandleProposal env n header now =
     (case IsLeader n (h_Epoch header) of (n1, isLeader) \<Rightarrow>
      if isLeader \<and> sm_state (n_fsm n1) \<noteq> StateIdle then (n1, Inr None)
      else case validateProposal n1 header of
        Some err \<Rightarrow> (n1, Inr (Some (InvalidProposal err)))
      | None \<Rightarrow>
          adopt_proposal env
            (if \<not> isLeader \<and> sm_state (n_fsm n1) \<noteq> StateIdle
             then n1\<lparr>n_fsm := Reset (n_fsm n1), n_signatures := Map.empty\<rparr> else n1) header now)"

definition detectDoubleSign ::
  "('sk, 'pk, 'd) Node_Env \<Rightarrow> ('sk, 'd) Node \<Rightarrow> string \<Rightarrow> u64 \<Rightarrow> Signature \<Rightarrow> Signature \<Rightarrow> int \<Rightarrow> ('sk, 'd) Node" where
  "detectDoubleSign env n validatorID epoch sig1 sig2 now =
     (let evidenceData = env_marshal_evidence env validatorID epoch (sg_Der sig1) (sg_Der sig2) (now div second) in
      n\<lparr>n_store := fst (SaveDoubleSignEvidence_ldb (env_db env) (n_store n) epoch validatorID evidenceData)\<rparr>)"

definition AddSignature_node ::
  "('sk, 'pk, 'd) Node_Env \<Rightarrow> ('sk, 'd) Node \<Rightarrow> Signature \<Rightarrow> int \<Rightarrow> ('sk, 'd) Node \<times> (go_panic + node_error option)" where
  "AddSignature_node env n sig now =
     (case n_currentCheckpoint n of
        None \<Rightarrow> (n, Inr (Some NoActiveCheckpoint))
      | Some cp \<Rightarrow>
          case verifySignature env n sig of
            Some err \<Rightarrow> (n, Inr (Some (InvalidSignature err)))
          | None \<Rightarrow>
              case n_signatures n (sg_SignerId sig) of
                Some existingSig \<Rightarrow>
                  if sg_Der existingSig \<noteq> sg_Der sig
                  then (detectDoubleSign env n (sg_SignerId sig) (h_Epoch cp) existingSig sig now,
                        Inr (Some (DoubleSign (sg_SignerId sig) (h_Epoch cp))))
                  else (n, Inr None)
              | None \<Rightarrow>
                  (case Consensus_FSM.AddSignature (n_fsm n) sig now of
                     (fsm, Inl p) \<Rightarrow> (n\<lparr>n_fsm := fsm\<rparr>, Inl p)
                   | (fsm, Inr (Some err)) \<Rightarrow> (n\<lparr>n_fsm := fsm\<rparr>, Inr (Some (FsmError err)))
                   | (fsm, Inr None) \<Rightarrow>
                       (n\<lparr>n_fsm := fsm, n_signatures := (n_signatures n)(sg_SignerId sig \<mapsto> sig)\<rparr>, Inr None)))"

definition GetSignatures_node :: "('sk, 'd) Node \<Rightarrow> u64 \<Rightarrow> string list \<Rightarrow> Signature list" where
  "GetSignatures_node n epoch order =
     (case n_currentCheckpoint n of
        None \<Rightarrow> []
      | Some cp \<Rightarrow> if h_Epoch cp \<noteq> epoch then [] else List.map_filter (n_signatures n) order)"

definition GetCheckpoint_node :: "('sk, 'd) Node \<Rightarrow> u64 \<Rightarrow> ('sk, 'd) Node \<times> CheckpointHeader option" where
  "GetCheckpoint_node n epoch =
     (case n_currentCheckpoint n of
        Some cp \<Rightarrow>
          if h_Epoch cp = epoch then (n, Some cp)
          else (case GetCheckpoint no_backend (n_chain n) epoch of
                  (c, r) \<Rightarrow> (n\<lparr>n_chain := c\<rparr>, case r of Inl _ \<Rightarrow> None | Inr h \<Rightarrow> Some h))
      | None \<Rightarrow>
          (case GetCheckpoint no_backend (n_chain n) epoch of
             (c, r) \<Rightarrow> (n\<lparr>n_chain := c\<rparr>, case r of Inl _ \<Rightarrow> None | Inr h \<Rightarrow> Some h)))"

subsection \<open>Stored checkpoints\<close>

definition keyLatestEpoch :: bytes where
  "keyLatestEpoch = bytes_of ''checkpoint:latest:epoch''"

definition checkpointKey :: "u64 \<Rightarrow> bytes" where
  "checkpointKey epoch = bytes_of (''checkpoint:epoch:'' @ dec (unat epoch))"

definition sigKey :: "u64 \<Rightarrow> bytes" where
  "sigKey epoch = bytes_of (''signatures:epoch:'' @ dec (unat epoch))"

datatype save_error =
    CannotMarshalCheckpoint | CannotSaveCheckpoint store_error | CannotMarshalSignatures
  | CannotSaveSignatures store_error | CannotUpdateLatest store_error

text \<open>\<open>no_signatures\<close> is the test \<open>len(n.signatures) > 0\<close>.\<close>

definition no_signatures :: "('sk, 'd) Node \<Rightarrow> bool" where
  "no_signatures n \<longleftrightarrow> card (dom (n_signatures n)) = 0"

definition save_latest ::
  "('sk, 'pk, 'd) Node_Env \<Rightarrow> ('sk, 'd) Node \<Rightarrow> u64 \<Rightarrow> ('sk, 'd) Node \<times> save_error option" where
  "save_latest env n epoch =
     (case Put_ldb (env_db env) (n_store n) keyLatestEpoch (PutUint64 epoch) of
        (s, err) \<Rightarrow> (n\<lparr>n_store := s\<rparr>, map_option CannotUpdateLatest err))"

definition saveCheckpoint ::
  "('sk, 'pk, 'd) Node_Env \<Rightarrow> ('sk, 'd) Node \<Rightarrow> CheckpointHeader \<Rightarrow> ('sk, 'd) Node \<times> save_error option" where
  "saveCheckpoint env n header =
     (case env_marshal_header env header of
        None \<Rightarrow> (n, Some CannotMarshalCheckpoint)
      | Some checkpointData \<Rightarrow>
          case Put_ldb (env_db env) (n_store n) (checkpointKey (h_Epoch header)) checkpointData of
            (s, Some err) \<Rightarrow> (n\<lparr>n_store := s\<rparr>, Some (CannotSaveCheckpoint err))
          | (s, None) \<Rightarrow>
              let n1 = n\<lparr>n_store := s\<rparr> in
              if no_signatures n1 then save_latest env n1 (h_Epoch header)
              else case env_marshal_signatures env (n_signatures n1) of
                None \<Rightarrow> (n1, Some CannotMarshalSignatures)
              | Some sigData \<Rightarrow>
                  case Put_ldb (env_db env) (n_store n1) (sigKey (h_Epoch header)) sigData of
                    (s', Some err) \<Rightarrow> (n1\<lparr>n_store := s'\<rparr>, Some (CannotSaveSignatures err))
                  | (s', None) \<Rightarrow> save_latest env (n1\<lparr>n_store := s'\<rparr>) (h_Epoch header))"

datatype load_error = LoadLatest store_error | LoadHeader u64 store_error | UnmarshalHeader

text \<open>The two texts the code compares with are those of the in-memory store and of goleveldb.\<close>

definition absent :: "store_error \<Rightarrow> bool" where
  "absent err \<longleftrightarrow> err = KeyNotFound \<or> err = DbError ErrNotFound"

definition load_signatures :: "('sk, 'pk, 'd) Node_Env \<Rightarrow> ('sk, 'd) Node \<Rightarrow> u64 \<Rightarrow> (string \<rightharpoonup> Signature)" where
  "load_signatures env n epoch =
     (case Get_ldb (env_db env) (n_store n) (sigKey epoch) of
        Inl _ \<Rightarrow> n_signatures n
      | Inr sigData \<Rightarrow>
          if length sigData = 0 then n_signatures n
          else case env_unmarshal_signatures env sigData of None \<Rightarrow> n_signatures n | Some sigs \<Rightarrow> sigs)"

definition loadCheckpoint :: "('sk, 'pk, 'd) Node_Env \<Rightarrow> ('sk, 'd) Node \<Rightarrow> ('sk, 'd) Node \<times> load_error option" where
  "loadCheckpoint env n =
     (case Get_ldb (env_db env) (n_store n) keyLatestEpoch of
        Inl err \<Rightarrow> if absent err then (n\<lparr>n_currentEpoch := 0\<rparr>, None) else (n, Some (LoadLatest err))
      | Inr epochData \<Rightarrow>
          let epoch = (if length epochData = 8 then Uint64 epochData else 0) in
          case Get_ldb (env_db env) (n_store n) (checkpointKey epoch) of
            Inl err \<Rightarrow> (n, Some (LoadHeader epoch err))
          | Inr checkpointData \<Rightarrow>
              case env_unmarshal_header env checkpointData of
                None \<Rightarrow> (n, Some UnmarshalHeader)
              | Some header \<Rightarrow>
                  (case AddCheckpoint (env_H env) no_backend (n_chain n) header of
                     (c, header', _) \<Rightarrow>
                       (n\<lparr>n_signatures := load_signatures env n epoch, n_currentCheckpoint := Some header',
                          n_chain := c, n_currentEpoch := epoch + 1\<rparr>, None)))"

definition NewNode ::
  "('sk, 'pk, 'd) Node_Env \<Rightarrow> string \<Rightarrow> 'sk \<Rightarrow> ValidatorSet \<Rightarrow> bool \<Rightarrow> bool \<Rightarrow> bool \<Rightarrow> Node_Config \<Rightarrow> 'd \<Rightarrow> ('sk, 'd) Node" where
  "NewNode env vid signer vs raft comet gossip cfg store =
     fst (loadCheckpoint env (fresh_node vid signer vs raft comet gossip cfg store))"

subsection \<open>Finalisation\<close>

text \<open>\<open>order\<close> is the order in which the runtime visits the signatures.\<close>

definition set_signer :: "bytes \<Rightarrow> int \<Rightarrow> bytes" where
  "set_signer bitmap idx =
     (if idx < 0 then bitmap
      else let byteIdx = nat (idx div 8) in
           if byteIdx < length bitmap
           then bitmap[byteIdx := (bitmap ! byteIdx) OR bit_mask (idx mod 8)] else bitmap)"

definition createSignersBitmapLocked :: "('sk, 'd) Node \<Rightarrow> string list \<Rightarrow> bytes" where
  "createSignersBitmapLocked n order =
     (if no_signatures n then []
      else foldl (\<lambda>bitmap validatorID. set_signer bitmap (index_from 0 validatorID (vs_Validators (n_validatorSet n))))
             (replicate ((length (vs_Validators (n_validatorSet n)) + 7) div 8) 0) order)"

definition collected_signatures :: "('sk, 'd) Node \<Rightarrow> string list \<Rightarrow> CheckpointSignatures" where
  "collected_signatures n order =
     (let signers = filter (\<lambda>v. n_signatures n (v_ID v) \<noteq> None) (vs_Validators (n_validatorSet n)) in
      \<lparr>cs_EcdsaSignatures = map (\<lambda>v. sg_Der (the (n_signatures n (v_ID v)))) signers,
       cs_SignersBitmap = Some (createSignersBitmapLocked n order),
       cs_SignatureCount = word_of_nat (card (dom (n_signatures n))),
       cs_TotalWeight = foldl (\<lambda>w v. w + v_Weight v) 0 signers\<rparr>)"

text \<open>
  The header of the round and the current checkpoint are one object (\<open>proposeCheckpoint\<close> and
  \<open>HandleProposal\<close> store the same pointer in both), so a change of the one shows in the other.
\<close>

definition write_header :: "('sk, 'd) Node \<Rightarrow> CheckpointHeader \<Rightarrow> CheckpointHeader \<Rightarrow> ('sk, 'd) Node" where
  "write_header n old new =
     n\<lparr>n_fsm := (n_fsm n)\<lparr>sm_currentHeader := Some new\<rparr>,
       n_currentCheckpoint := (if n_currentCheckpoint n = Some old then Some new else n_currentCheckpoint n)\<rparr>"

definition finalizeCheckpoint ::
  "('sk, 'pk, 'd) Node_Env \<Rightarrow> ('sk, 'd) Node \<Rightarrow> string list \<Rightarrow> ('sk, 'd) Node \<times> submission option" where
  "finalizeCheckpoint env n order =
     (case sm_currentHeader (n_fsm n) of
        None \<Rightarrow> (n, None)
      | Some header \<Rightarrow>
          let h1 = header\<lparr>h_Signatures := Some (collected_signatures n order)\<rparr>;
              n1 = write_header n header h1 in
          case AddCheckpoint (env_H env) no_backend (n_chain n1) h1 of
            (c, _, Some err) \<Rightarrow> (n1\<lparr>n_chain := c\<rparr>, None)
          | (c, h2, None) \<Rightarrow>
              let n2 = (write_header n1 h1 h2)\<lparr>n_chain := c\<rparr>;
                  n3 = fst (saveCheckpoint env n2 h2) in
              case Finalize (n_fsm n3) of
                (fsm, Some err) \<Rightarrow> (n3\<lparr>n_fsm := fsm\<rparr>, None)
              | (fsm, None) \<Rightarrow>
                  (case IsLeader (n3\<lparr>n_fsm := fsm, n_currentCheckpoint := Some h2\<rparr>) (n_currentEpoch n3) of
                     (n4, isLeader) \<Rightarrow>
                       (n4, if isLeader then Some (Submission h2 (n_pendingReports n4) (n_signatures n4)) else None)))"

text \<open>The leadership after an epoch change; the timer restarts when it changed.\<close>

definition update_leadership :: "('sk, 'd) Node \<Rightarrow> ('sk, 'd) Node" where
  "update_leadership n =
     (case IsLeader n (n_currentEpoch n) of
        (n1, isLeader) \<Rightarrow>
          n1\<lparr>n_isLeader := isLeader,
             n_lastCheckpointAt := (if n_isLeader n \<noteq> isLeader then zero_time else n_lastCheckpointAt n1)\<rparr>)"

definition HandleFinalized ::
  "('sk, 'pk, 'd) Node_Env \<Rightarrow> ('sk, 'd) Node \<Rightarrow> CheckpointHeader \<Rightarrow> ('sk, 'd) Node \<times> submission option" where
  "HandleFinalized env n header =
     (if h_Epoch header > n_currentEpoch n then
        let n1 = n\<lparr>n_currentCheckpoint := Some header, n_currentEpoch := h_Epoch header + 1,
                   n_fsm := Reset (n_fsm n), n_signatures := Map.empty, n_pendingReports := Map.empty,
                   n_reportScores := Map.empty\<rparr>;
            n2 = update_leadership n1 in
        case AddCheckpoint (env_H env) no_backend (n_chain n2) header of
          (c, header', _) \<Rightarrow>
            (fst (saveCheckpoint env (n2\<lparr>n_chain := c, n_currentCheckpoint := Some header'\<rparr>) header'), None)
      else if h_Epoch header = n_currentEpoch n \<and> sm_state (n_fsm n) \<noteq> StateIdle then
        case AddCheckpoint (env_H env) no_backend (n_chain n) header of
          (c, header', _) \<Rightarrow>
            let n1 = fst (saveCheckpoint env (n\<lparr>n_chain := c, n_currentCheckpoint := Some header'\<rparr>) header') in
            case IsLeader n1 (h_Epoch header') of (n2, isLeader) \<Rightarrow>
              let job = (if isLeader \<and> card (dom (n_pendingReports n2)) > 0 \<and> sm_state (n_fsm n2) \<noteq> StateFinalized
                         then Some (Submission header' (n_pendingReports n2) (n_signatures n2)) else None);
                  n3 = n2\<lparr>n_currentEpoch := n_currentEpoch n2 + 1, n_fsm := Reset (n_fsm n2),
                          n_signatures := Map.empty, n_pendingReports := Map.empty, n_reportScores := Map.empty\<rparr> in
              (update_leadership n3, job)
      else (n, None))"

subsection \<open>The consensus loop\<close>

text \<open>The tick of a node without an engine; with Raft the same functions hand over to those of the Raft path.\<close>

definition proposeCheckpoint ::
  "('sk, 'pk, 'd) Node_Env \<Rightarrow> ('sk, 'd) Node \<Rightarrow> string list \<Rightarrow> int \<Rightarrow> ('sk, 'd) Node \<times> go_panic option" where
  "proposeCheckpoint env n order now =
     (let header = buildCheckpointHeader env n order now in
      case ProposeHeader (n_fsm n) header now of
        (fsm, Some err) \<Rightarrow> (n\<lparr>n_fsm := fsm\<rparr>, None)
      | (fsm, None) \<Rightarrow>
          let n1 = n\<lparr>n_fsm := fsm\<rparr> in
          case signCheckpoint env n1 header of
            Inl p \<Rightarrow> (n1, Some p)
          | Inr None \<Rightarrow> (n1, None)
          | Inr (Some sig) \<Rightarrow>
              let n2 = n1\<lparr>n_signatures := (n_signatures n1)(n_id n1 \<mapsto> sig), n_currentCheckpoint := Some header\<rparr> in
              case Consensus_FSM.AddSignature (n_fsm n2) sig now of
                (fsm', Inl p) \<Rightarrow> (n2\<lparr>n_fsm := fsm'\<rparr>, Some p)
              | (fsm', Inr (Some err)) \<Rightarrow> (n2\<lparr>n_fsm := fsm'\<rparr>, None)
              | (fsm', Inr None) \<Rightarrow>
                  (n2\<lparr>n_fsm := fsm', n_leaderTracker := RecordActivity (n_leaderTracker n2) (h_Epoch header) now\<rparr>, None))"

definition checkCheckpointTrigger ::
  "('sk, 'pk, 'd) Node_Env \<Rightarrow> ('sk, 'd) Node \<Rightarrow> string list \<Rightarrow> int \<Rightarrow> ('sk, 'd) Node \<times> go_panic option" where
  "checkCheckpointTrigger env n order now =
     (if \<not> n_isLeader n then (n, None)
      else if sm_state (n_fsm n) \<noteq> StateIdle then (n, None)
      else if card (dom (n_pendingReports n)) = 0 then (n, None)
      else if n_lastCheckpointAt n = zero_time
              \<or> time_sub now (n_lastCheckpointAt n) \<ge> getCheckpointInterval (n_config n)
      then proposeCheckpoint env (n\<lparr>n_lastCheckpointAt := now\<rparr>) order now
      else (n, None))"

text \<open>The forced rotation when the leader timed out.\<close>

definition rotate_epoch :: "('sk, 'd) Node \<Rightarrow> ('sk, 'd) Node" where
  "rotate_epoch n =
     (let n1 = n\<lparr>n_currentEpoch := n_currentEpoch n + 1, n_fsm := Reset (n_fsm n), n_signatures := Map.empty,
                 n_pendingReports := Map.empty, n_reportScores := Map.empty\<rparr> in
      case IsLeader n1 (n_currentEpoch n1) of
        (n2, isLeader) \<Rightarrow> n2\<lparr>n_isLeader := isLeader, n_lastCheckpointAt := zero_time\<rparr>)"

definition check_collecting ::
  "('sk, 'pk, 'd) Node_Env \<Rightarrow> ('sk, 'd) Node \<Rightarrow> string list \<Rightarrow> int \<Rightarrow> ('sk, 'd) Node \<times> (go_panic + submission option)" where
  "check_collecting env n order now =
     (case HasThreshold (n_fsm n) of
        Inl p \<Rightarrow> (n, Inl p)
      | Inr hasThreshold \<Rightarrow>
          (case IsLeader n (n_currentEpoch n) of (n1, isLeader) \<Rightarrow>
           case ShouldFailover (n_leaderTracker n1) (n_currentEpoch n1) now of (lt, shouldFailover) \<Rightarrow>
             let n2 = n1\<lparr>n_leaderTracker := lt\<rparr> in
             if hasThreshold then
               (case finalizeCheckpoint env
                       (n2\<lparr>n_leaderTracker := RecordActivity (n_leaderTracker n2) (n_currentEpoch n2) now\<rparr>) order of
                  (n3, job) \<Rightarrow> (n3, Inr job))
             else if IsTimedOut (n_fsm n2) now then
               if shouldFailover then (rotate_epoch n2, Inr None)
               else if isLeader then (n2\<lparr>n_fsm := Reset (n_fsm n2)\<rparr>, Inr None)
               else (n2, Inr None)
             else (n2, Inr None)))"

text \<open>The step to the next epoch after finalisation; the leader of the old epoch is asked first, for the log.\<close>

definition check_finalized :: "('sk, 'd) Node \<Rightarrow> ('sk, 'd) Node" where
  "check_finalized n =
     (let n1 = n\<lparr>n_currentEpoch := n_currentEpoch n + 1, n_fsm := Reset (n_fsm n), n_signatures := Map.empty,
                 n_currentCheckpoint := None\<rparr> in
      update_leadership (fst (IsLeader n1 (n_currentEpoch n))))"

definition checkConsensusState ::
  "('sk, 'pk, 'd) Node_Env \<Rightarrow> ('sk, 'd) Node \<Rightarrow> string list \<Rightarrow> int \<Rightarrow> ('sk, 'd) Node \<times> (go_panic + submission option)" where
  "checkConsensusState env n order now =
     (case sm_state (n_fsm n) of
        StateIdle \<Rightarrow> (n, Inr None)
      | StateCollecting \<Rightarrow> check_collecting env n order now
      | StateFinalized \<Rightarrow> (check_finalized n, Inr None))"

subsection \<open>Queries\<close>

definition GetDoubleSignEvidences ::
  "('sk, 'pk, 'd) Node_Env \<Rightarrow> ('sk, 'd) Node \<Rightarrow> string \<Rightarrow> u64 \<Rightarrow> u64 \<Rightarrow> DoubleSignEvidence list" where
  "GetDoubleSignEvidences env n validatorID startEpoch endEpoch =
     (let epochPtr = (if startEpoch = endEpoch \<and> startEpoch > 0 then Some startEpoch else None) in
      case ListDoubleSignEvidence_ldb (env_db env) (n_store n) validatorID epochPtr 100 of
        (_, Some err) \<Rightarrow> []
      | (items, None) \<Rightarrow>
          List.map_filter (\<lambda>item. env_unmarshal_evidence env (ds_Evidence item))
            (filter (\<lambda>item. \<not> (startEpoch > 0 \<and> ds_Epoch item < startEpoch) \<and> \<not> (endEpoch > 0 \<and> ds_Epoch item > endEpoch))
               items))"

text \<open>The record is named by its report; \<open>order\<close> is the order in which the runtime visits the reports.\<close>

definition GetVerificationRecords ::
  "('sk, 'd) Node \<Rightarrow> string \<Rightarrow> int \<Rightarrow> int \<Rightarrow> string list \<Rightarrow> int \<Rightarrow> (string \<times> string \<times> string \<times> int) list" where
  "GetVerificationRecords n assignmentID startTime endTime order now =
     List.map_filter (\<lambda>reportID.
       case n_pendingReports n reportID of
         None \<Rightarrow> None
       | Some report \<Rightarrow>
           if er_AssignmentId report = assignmentID \<and> now div second \<ge> startTime \<and> now div second \<le> endTime
           then Some (reportID, er_IntentId report, n_id n, now div second) else None) order"

definition GetExecutionReportByID ::
  "('sk, 'pk, 'd) Node_Env \<Rightarrow> ('sk, 'd) Node \<Rightarrow> string \<Rightarrow> ExecutionReport option" where
  "GetExecutionReportByID env n reportID =
     (case GetExecutionReport_ldb (env_db env) (n_store n) reportID of
        Inl _ \<Rightarrow> None
      | Inr reportBytes \<Rightarrow> env_unmarshal_report env reportBytes)"

definition ListExecutionReports ::
  "('sk, 'pk, 'd) Node_Env \<Rightarrow> ('sk, 'd) Node \<Rightarrow> string \<Rightarrow> int \<Rightarrow> (string \<rightharpoonup> ExecutionReport) option" where
  "ListExecutionReports env n intentID limit =
     (case ListExecutionReports_ldb (env_db env) (n_store n) intentID limit of
        Inl _ \<Rightarrow> None
      | Inr m \<Rightarrow> Some (\<lambda>reportID. Option.bind (m reportID) (env_unmarshal_report env)))"

subsection \<open>Executions\<close>

text \<open>The calls on a node without an engine; the clock and the visiting orders are arbitrary.\<close>

inductive node_step :: "('sk, 'pk, 'd) Node_Env \<Rightarrow> ('sk, 'd) Node \<Rightarrow> ('sk, 'd) Node \<Rightarrow> bool" for env where
  report: "node_step env n (fst (ProcessExecutionReport env n r now))"
| proposal: "node_step env n (fst (HandleProposal env n h now))"
| signature: "node_step env n (fst (AddSignature_node env n sig now))"
| finalized: "node_step env n (fst (HandleFinalized env n h))"
| tick: "range_order (n_signatures n) order \<Longrightarrow> node_step env n (fst (checkConsensusState env n order now))"
| trigger: "node_step env n (fst (checkCheckpointTrigger env n order now))"
| leader: "node_step env n (fst (IsLeader n epoch))"

text \<open>A node with a valid configuration, started on a store without a checkpoint.\<close>

inductive node_reachable ::
  "('sk, 'pk, 'd) Node_Env \<Rightarrow> string \<Rightarrow> ValidatorSet \<Rightarrow> ('sk, 'd) Node \<Rightarrow> bool" for env vid vs where
  start: "Validate vs = Inr () \<Longrightarrow> Get_ldb (env_db env) store keyLatestEpoch = Inl (DbError ErrNotFound) \<Longrightarrow>
    node_reachable env vid vs (NewNode env vid signer vs False False gossip cfg store)"
| step: "node_reachable env vid vs n \<Longrightarrow> node_step env n n' \<Longrightarrow> node_reachable env vid vs n'"

section \<open>Invariant of the node\<close>

definition own_signatures :: "string \<Rightarrow> ValidatorSet \<Rightarrow> (string \<rightharpoonup> Signature) \<Rightarrow> bool" where
  "own_signatures vid vs sigs \<longleftrightarrow>
     finite (dom sigs) \<and> (\<forall>k s. sigs k = Some s \<longrightarrow> sg_SignerId s = k \<and> (k = vid \<or> k \<in> vset_ids vs))"

definition node_inv :: "(bytes \<Rightarrow> bytes) \<Rightarrow> string \<Rightarrow> ValidatorSet \<Rightarrow> ('sk, 'd) Node \<Rightarrow> bool" where
  "node_inv H vid vs n \<longleftrightarrow>
     n_id n = vid \<and> n_validatorSet n = vs \<and> Validate vs = Inr () \<and> sm_inv vs (n_fsm n)
     \<and> (\<exists>hs. chain_rep H (n_chain n) hs) \<and> ch_store (n_chain n) = None
     \<and> own_signatures vid vs (n_signatures n) \<and> sm_signatures (n_fsm n) \<subseteq>\<^sub>m n_signatures n"

lemma own_signatures_simps [simp]:
  "own_signatures vid vs Map.empty"
  "own_signatures vid vs sigs \<Longrightarrow> sg_SignerId s = k \<Longrightarrow> k = vid \<or> k \<in> vset_ids vs \<Longrightarrow> own_signatures vid vs (sigs(k \<mapsto> s))"
  by (auto simp: own_signatures_def)

lemma node_inv_fields [simp]:
  "node_inv H vid vs (n\<lparr>n_leaderTracker := lt\<rparr>) = node_inv H vid vs n"
  "node_inv H vid vs (n\<lparr>n_store := d\<rparr>) = node_inv H vid vs n"
  "node_inv H vid vs (n\<lparr>n_pendingReports := p\<rparr>) = node_inv H vid vs n"
  "node_inv H vid vs (n\<lparr>n_reportScores := sc\<rparr>) = node_inv H vid vs n"
  "node_inv H vid vs (n\<lparr>n_currentEpoch := e\<rparr>) = node_inv H vid vs n"
  "node_inv H vid vs (n\<lparr>n_currentCheckpoint := cp\<rparr>) = node_inv H vid vs n"
  "node_inv H vid vs (n\<lparr>n_lastCheckpointAt := t\<rparr>) = node_inv H vid vs n"
  "node_inv H vid vs (n\<lparr>n_isLeader := b\<rparr>) = node_inv H vid vs n"
  by (simp_all add: node_inv_def)

lemma node_inv_cong:
  "node_inv H vid vs n \<Longrightarrow> n_id m = n_id n \<Longrightarrow> n_validatorSet m = n_validatorSet n \<Longrightarrow> n_fsm m = n_fsm n \<Longrightarrow>
     n_chain m = n_chain n \<Longrightarrow> n_signatures m = n_signatures n \<Longrightarrow> node_inv H vid vs m"
  by (simp add: node_inv_def)

text \<open>Operations that only write the store, or only ask the leader tracker.\<close>

lemma store_only:
  "\<exists>d. save_report env n k r = n\<lparr>n_store := d\<rparr>" "\<exists>d. detectDoubleSign env n k e s t now = n\<lparr>n_store := d\<rparr>"
  "\<exists>d. fst (save_latest env n e) = n\<lparr>n_store := d\<rparr>"
proof -
  show "\<exists>d. save_report env n k r = n\<lparr>n_store := d\<rparr>"
    by (cases "env_marshal_report env r") (auto simp: save_report_def intro: exI [of _ "n_store n"])
qed (auto simp: detectDoubleSign_def save_latest_def Let_def split: prod.splits)

lemma saveCheckpoint_store: "\<exists>d. fst (saveCheckpoint env n h) = n\<lparr>n_store := d\<rparr>"
proof
  show "fst (saveCheckpoint env n h) = n\<lparr>n_store := n_store (fst (saveCheckpoint env n h))\<rparr>"
    by (simp add: saveCheckpoint_def save_latest_def Let_def split: option.split prod.split)
qed

lemma IsLeader_tracker: "\<exists>lt. fst (IsLeader n e) = n\<lparr>n_leaderTracker := lt\<rparr>"
  by (auto simp: IsLeader_def split: prod.splits)

lemma IsLeader_fields [simp]:
  "n_id (fst (IsLeader n e)) = n_id n" "n_validatorSet (fst (IsLeader n e)) = n_validatorSet n"
  "n_fsm (fst (IsLeader n e)) = n_fsm n" "n_chain (fst (IsLeader n e)) = n_chain n"
  "n_signatures (fst (IsLeader n e)) = n_signatures n" "n_currentEpoch (fst (IsLeader n e)) = n_currentEpoch n"
  "n_pendingReports (fst (IsLeader n e)) = n_pendingReports n" "n_store (fst (IsLeader n e)) = n_store n"
  "n_currentCheckpoint (fst (IsLeader n e)) = n_currentCheckpoint n" "n_config (fst (IsLeader n e)) = n_config n"
  "n_signer (fst (IsLeader n e)) = n_signer n"
  by (simp_all add: IsLeader_def split: prod.split)

lemma saveCheckpoint_fields [simp]:
  "n_id (fst (saveCheckpoint env n h)) = n_id n" "n_validatorSet (fst (saveCheckpoint env n h)) = n_validatorSet n"
  "n_fsm (fst (saveCheckpoint env n h)) = n_fsm n" "n_chain (fst (saveCheckpoint env n h)) = n_chain n"
  "n_signatures (fst (saveCheckpoint env n h)) = n_signatures n"
  "n_currentEpoch (fst (saveCheckpoint env n h)) = n_currentEpoch n"
  "n_pendingReports (fst (saveCheckpoint env n h)) = n_pendingReports n"
  "n_currentCheckpoint (fst (saveCheckpoint env n h)) = n_currentCheckpoint n"
  "n_config (fst (saveCheckpoint env n h)) = n_config n"
  using saveCheckpoint_store [of env n h] by auto

lemma node_inv_store [simp]:
  "node_inv H vid vs (save_report env n k r) = node_inv H vid vs n"
  "node_inv H vid vs (detectDoubleSign env n k e s t now) = node_inv H vid vs n"
  "node_inv H vid vs (fst (saveCheckpoint env n h)) = node_inv H vid vs n"
  "node_inv H vid vs (fst (IsLeader n e)) = node_inv H vid vs n"
  using store_only(1) [of env n k r] store_only(2) [of env n k e s t now] saveCheckpoint_store [of env n h]
    IsLeader_tracker [of n e] by auto

lemma node_inv_leadership [simp]: "node_inv H vid vs (update_leadership n) = node_inv H vid vs n"
  using node_inv_store(4) [of H vid vs n "n_currentEpoch n"]
  by (simp add: update_leadership_def case_prod_unfold)

text \<open>Changes of the round.\<close>

lemma Reset_facts [simp]: "sm_signatures (Reset sm) = Map.empty" "sm_inv vs sm \<Longrightarrow> sm_inv vs (Reset sm)"
  by (auto simp: Reset_def intro: sm_step_inv [OF sm_step.reset, unfolded Reset_def])

lemma node_inv_reset [simp]:
  "node_inv H vid vs n \<Longrightarrow> node_inv H vid vs (n\<lparr>n_fsm := Reset (n_fsm n)\<rparr>)"
  "node_inv H vid vs n \<Longrightarrow> node_inv H vid vs (n\<lparr>n_fsm := Reset (n_fsm n), n_signatures := Map.empty\<rparr>)"
  by (simp_all add: node_inv_def)

lemma node_inv_chain [simp]:
  assumes "node_inv H vid vs n"
  shows "node_inv H vid vs (n\<lparr>n_chain := fst (AddCheckpoint H st (n_chain n) h)\<rparr>)"
proof -
  have "ch_store (fst (AddCheckpoint H st (n_chain n) h)) = None"
    using assms by (auto simp: node_inv_def AddCheckpoint_def Let_def split: sum.splits option.splits)
  moreover have "\<exists>hs. chain_rep H (fst (AddCheckpoint H st (n_chain n) h)) hs"
    using assms AddCheckpoint_keeps unfolding node_inv_def by blast
  ultimately show ?thesis using assms by (simp add: node_inv_def)
qed

lemma node_inv_propose:
  assumes "node_inv H vid vs n" "ProposeHeader (n_fsm n) h now = (fsm, r)"
  shows "node_inv H vid vs (n\<lparr>n_fsm := fsm\<rparr>)"
  using assms sm_step_inv [OF sm_step.propose [OF assms(2)], of vs]
  by (auto simp: node_inv_def ProposeHeader_def Let_def split: if_splits)

lemma AddSignature_result:
  assumes "Consensus_FSM.AddSignature sm sig now = (sm', r)"
  shows "sm_signatures sm' = (if sm_state sm = StateCollecting then (sm_signatures sm)(sg_SignerId sig \<mapsto> sig) else sm_signatures sm)"
    and "sm_state sm' = sm_state sm" "sm_validatorSet sm' = sm_validatorSet sm" "sm_currentHeader sm' = sm_currentHeader sm"
  using assms by (auto simp: AddSignature_def Let_def split: if_splits sum.splits)

lemma AddSignature_no_panic:
  assumes "sm_inv vs sm" "Validate vs = Inr ()"
  shows "\<exists>e. snd (Consensus_FSM.AddSignature sm sig now) = Inr e"
proof (cases "sm_state sm = StateCollecting")
  case True
  let ?k = "sg_SignerId sig"
  have "\<exists>bm. mark_signer (sm_signersBitmap sm) (IndexByID vs ?k) = Inr bm"
    using assms(1) True mark_signer_member [of ?k vs "sm_signersBitmap sm"] mark_signer_stranger [of ?k vs]
    by (cases "?k \<in> vset_ids vs") (auto simp: sm_inv_def)
  moreover have "vs_ThresholdDenom vs \<noteq> 0" using assms(2) by (auto simp: spec_simps)
  then have "RequiredSignatures vs \<noteq> Inl p" for p
    by (simp add: RequiredSignatures_def Let_def)
  ultimately show ?thesis
    using assms(1) True by (auto simp: AddSignature_def checkThreshold_def Let_def sm_inv_def split: sum.splits)
qed (simp add: AddSignature_def)

text \<open>A signature enters the map of the node and the round together.\<close>

lemma node_inv_sign:
  assumes "node_inv H vid vs n" "Consensus_FSM.AddSignature (n_fsm n) sig now = (fsm, r)"
    and "sg_SignerId sig = k" "k = vid \<or> k \<in> vset_ids vs" "sm_state (n_fsm n) = StateCollecting"
  shows "node_inv H vid vs (n\<lparr>n_fsm := fsm, n_signatures := (n_signatures n)(k \<mapsto> sig)\<rparr>)"
    and "node_inv H vid vs (n\<lparr>n_signatures := (n_signatures n)(k \<mapsto> sig), n_fsm := fsm\<rparr>)"
proof -
  have "sm_inv vs fsm" using assms(1,2) AddSignature_inv unfolding node_inv_def by blast
  moreover have "sm_signatures fsm \<subseteq>\<^sub>m (n_signatures n)(k \<mapsto> sig)"
    using assms by (auto simp: AddSignature_result(1) [OF assms(2)] node_inv_def map_le_def)
  ultimately show "node_inv H vid vs (n\<lparr>n_fsm := fsm, n_signatures := (n_signatures n)(k \<mapsto> sig)\<rparr>)"
    using assms by (simp add: node_inv_def)
  then show "node_inv H vid vs (n\<lparr>n_signatures := (n_signatures n)(k \<mapsto> sig), n_fsm := fsm\<rparr>)"
    by (simp add: node_inv_def)
qed

lemma signCheckpoint_signer: "signCheckpoint env n h = Inr (Some sig) \<Longrightarrow> sg_SignerId sig = n_id n"
  by (auto simp: signCheckpoint_def Let_def split: sum.splits option.splits)

lemma ProposeHeader_ok: "ProposeHeader sm h now = (sm', None) \<Longrightarrow> sm_state sm' = StateCollecting \<and> sm_currentHeader sm' = Some h"
  by (auto simp: ProposeHeader_def Let_def split: if_splits)

text \<open>The common part of the two proposals: the header enters the round and is signed.\<close>

lemma node_inv_proposed:
  assumes "node_inv H vid vs n" "ProposeHeader (n_fsm n) h now = (fsm, None)"
    and "signCheckpoint env (n\<lparr>n_fsm := fsm\<rparr>) h = Inr (Some sig)" "Consensus_FSM.AddSignature fsm sig now = (fsm', r)"
  shows "node_inv H vid vs (n\<lparr>n_fsm := fsm', n_signatures := (n_signatures n)(n_id n \<mapsto> sig)\<rparr>)"
proof -
  let ?n = "n\<lparr>n_fsm := fsm\<rparr>"
  have inv: "node_inv H vid vs ?n" using node_inv_propose [OF assms(1,2)] .
  have "n_id n = vid" using assms(1) by (simp add: node_inv_def)
  with node_inv_sign(1) [OF inv, of sig now fsm' r vid] assms(4) signCheckpoint_signer [OF assms(3)] ProposeHeader_ok [OF assms(2)]
  show ?thesis by simp
qed

lemma adopt_proposal_inv:
  assumes "node_inv H vid vs n"
  shows "node_inv H vid vs (fst (adopt_proposal env n h now))"
proof -
  obtain fsm r where proposed: "ProposeHeader (n_fsm n) h now = (fsm, r)" by fastforce
  have inv: "node_inv H vid vs (n\<lparr>n_fsm := fsm\<rparr>)" using node_inv_propose [OF assms proposed] .
  show ?thesis
  proof (cases r)
    case None
    note signed = node_inv_proposed [OF assms proposed [unfolded None]]
    show ?thesis
      using inv proposed None
      by (auto simp: adopt_proposal_def Let_def split: option.split sum.split prod.split intro: node_inv_cong [OF signed])
  qed (use inv proposed in \<open>simp add: adopt_proposal_def Let_def\<close>)
qed

lemma HandleProposal_inv:
  assumes "node_inv H vid vs n"
  shows "node_inv H vid vs (fst (HandleProposal env n h now))"
proof -
  obtain n1 isLeader where n1: "IsLeader n (h_Epoch h) = (n1, isLeader)" by fastforce
  then have "node_inv H vid vs n1" using assms node_inv_store(4) [of H vid vs n "h_Epoch h"] by simp
  then show ?thesis by (simp add: HandleProposal_def n1 adopt_proposal_inv split: option.split)
qed

lemma proposeCheckpoint_inv:
  assumes "node_inv H vid vs n"
  shows "node_inv H vid vs (fst (proposeCheckpoint env n order now))"
proof -
  let ?h = "buildCheckpointHeader env n order now"
  obtain fsm r where proposed: "ProposeHeader (n_fsm n) ?h now = (fsm, r)" by fastforce
  have inv: "node_inv H vid vs (n\<lparr>n_fsm := fsm\<rparr>)" using node_inv_propose [OF assms proposed] .
  show ?thesis
  proof (cases r)
    case None
    note signed = node_inv_proposed [OF assms proposed [unfolded None]]
    show ?thesis
      using inv proposed None
      by (auto simp: proposeCheckpoint_def Let_def split: option.split sum.split prod.split intro: node_inv_cong [OF signed])
  qed (use inv proposed in \<open>simp add: proposeCheckpoint_def Let_def\<close>)
qed

lemma verifySignature_member: "verifySignature env n sig = None \<Longrightarrow> sg_SignerId sig \<in> vset_ids (n_validatorSet n)"
  using get_from_None [of "sg_SignerId sig" "vs_Validators (n_validatorSet n)"]
  by (auto simp: verifySignature_def vset_ids_def split: option.splits)

lemma AddSignature_node_inv:
  assumes "node_inv H vid vs n"
  shows "node_inv H vid vs (fst (AddSignature_node env n sig now))"
proof (cases "n_currentCheckpoint n = None \<or> verifySignature env n sig \<noteq> None \<or> n_signatures n (sg_SignerId sig) \<noteq> None")
  case True
  with assms show ?thesis by (auto simp: AddSignature_node_def split: option.splits)
next
  case False
  then obtain cp where cp: "n_currentCheckpoint n = Some cp" by auto
  have vs: "n_validatorSet n = vs" "Validate vs = Inr ()" "sm_inv vs (n_fsm n)" using assms by (simp_all add: node_inv_def)
  obtain fsm r where add: "Consensus_FSM.AddSignature (n_fsm n) sig now = (fsm, r)" by fastforce
  then obtain e where e: "r = Inr e" using AddSignature_no_panic [OF vs(3,2), of sig now] by auto
  show ?thesis
  proof (cases "sm_state (n_fsm n) = StateCollecting")
    case True
    from False have "sg_SignerId sig \<in> vset_ids vs" using verifySignature_member [of env n sig] vs(1) by simp
    moreover have "e = None" using add e True by (auto simp: AddSignature_def Let_def split: sum.splits if_splits)
    ultimately show ?thesis
      using node_inv_sign(1) [OF assms add refl _ True] False cp by (simp add: AddSignature_node_def add e)
  next
    case False
    then have "fsm = n_fsm n \<and> e \<noteq> None" using add e by (auto simp: AddSignature_def)
    with assms \<open>\<not> (n_currentCheckpoint n = None \<or> _ \<or> _)\<close> cp show ?thesis
      by (auto simp: AddSignature_node_def add e split: option.split)
  qed
qed

lemma write_header_inv:
  assumes "node_inv H vid vs n" "sm_currentHeader (n_fsm n) \<noteq> None"
  shows "node_inv H vid vs (write_header n old new)"
proof -
  have "sm_state (n_fsm n) \<noteq> StateIdle" using assms by (auto simp: node_inv_def sm_inv_def)
  with assms show ?thesis by (simp add: node_inv_def write_header_def sm_inv_def)
qed

lemma write_header_simps [simp]:
  "n_fsm (write_header n old new) = (n_fsm n)\<lparr>sm_currentHeader := Some new\<rparr>"
  "n_chain (write_header n old new) = n_chain n" "n_signatures (write_header n old new) = n_signatures n"
  "n_validatorSet (write_header n old new) = n_validatorSet n" "n_currentEpoch (write_header n old new) = n_currentEpoch n"
  by (simp_all add: write_header_def)

lemma node_inv_finalize:
  assumes "node_inv H vid vs n"
  shows "node_inv H vid vs (n\<lparr>n_fsm := fst (Finalize (n_fsm n))\<rparr>)"
  using assms sm_step_inv [OF sm_step.finalize, of "n_fsm n" _ _ vs]
  by (auto simp: node_inv_def Finalize_def split: if_splits)

lemma finalizeCheckpoint_inv:
  assumes inv: "node_inv (env_H env) vid vs n"
  shows "node_inv (env_H env) vid vs (fst (finalizeCheckpoint env n order))"
proof (cases "sm_currentHeader (n_fsm n)")
  case None
  with inv show ?thesis by (simp add: finalizeCheckpoint_def)
next
  case (Some header)
  define h1 where "h1 = header\<lparr>h_Signatures := Some (collected_signatures n order)\<rparr>"
  define n1 where "n1 = write_header n header h1"
  obtain c h2 err where add: "AddCheckpoint (env_H env) no_backend (n_chain n1) h1 = (c, h2, err)" by (metis prod_cases3)
  define n2 where "n2 = (write_header n1 h1 h2)\<lparr>n_chain := c\<rparr>"
  define n3 where "n3 = fst (saveCheckpoint env n2 h2)"
  obtain fsm e where fin: "Finalize (n_fsm n3) = (fsm, e)" by fastforce
  have inv1: "node_inv (env_H env) vid vs n1" unfolding n1_def using write_header_inv [OF inv] Some by simp
  have "node_inv (env_H env) vid vs (n1\<lparr>n_chain := c\<rparr>)" using node_inv_chain [OF inv1, of no_backend h1] add by simp
  moreover from this have "node_inv (env_H env) vid vs n2"
    by (rule node_inv_cong [OF write_header_inv [of "env_H env" vid vs "n1\<lparr>n_chain := c\<rparr>" h1 h2]])
      (simp_all add: n2_def n1_def write_header_def)
  then have "node_inv (env_H env) vid vs n3" by (simp add: n3_def)
  then have "node_inv (env_H env) vid vs (n3\<lparr>n_fsm := fsm\<rparr>)" using node_inv_finalize fin by (metis fst_conv)
  ultimately show ?thesis
    using node_inv_store(4)
    by (auto simp: finalizeCheckpoint_def Some Let_def case_prod_unfold fin add n3_def [symmetric] n2_def [symmetric]
        n1_def [symmetric] h1_def [symmetric] split: option.split)
qed

text \<open>The chain, then the store, take a finalised header.\<close>

lemma node_inv_commit:
  assumes "node_inv (env_H env) vid vs n" "AddCheckpoint (env_H env) no_backend (n_chain n) h = (c, h', e)"
  shows "node_inv (env_H env) vid vs (fst (saveCheckpoint env (n\<lparr>n_chain := c, n_currentCheckpoint := cp\<rparr>) h'))"
  using node_inv_chain [OF assms(1), of no_backend h] assms(2) by simp

lemma node_inv_next_epoch:
  assumes "node_inv H vid vs n" "n_id m = n_id n" "n_validatorSet m = n_validatorSet n" "n_fsm m = Reset (n_fsm n)"
    and "n_chain m = n_chain n" "n_signatures m = Map.empty"
  shows "node_inv H vid vs m"
  using assms by (simp add: node_inv_def)

lemma HandleFinalized_inv:
  assumes inv: "node_inv (env_H env) vid vs n"
  shows "node_inv (env_H env) vid vs (fst (HandleFinalized env n h))"
proof -
  define n1 where "n1 = update_leadership (n\<lparr>n_currentCheckpoint := Some h, n_currentEpoch := h_Epoch h + 1, n_fsm := Reset (n_fsm n),
    n_signatures := Map.empty, n_pendingReports := Map.empty, n_reportScores := Map.empty\<rparr>)"
  have inv1: "node_inv (env_H env) vid vs n1" unfolding n1_def node_inv_leadership by (rule node_inv_next_epoch [OF inv]) simp_all
  obtain c h' e where add1: "AddCheckpoint (env_H env) no_backend (n_chain n1) h = (c, h', e)" by (metis prod_cases3)
  obtain d k e' where add: "AddCheckpoint (env_H env) no_backend (n_chain n) h = (d, k, e')" by (metis prod_cases3)
  define n2 where "n2 = fst (IsLeader (fst (saveCheckpoint env (n\<lparr>n_chain := d, n_currentCheckpoint := Some k\<rparr>) k)) (h_Epoch k))"
  have inv2: "node_inv (env_H env) vid vs n2" unfolding n2_def node_inv_store(4) by (rule node_inv_commit [OF inv add])
  have "node_inv (env_H env) vid vs (n2\<lparr>n_currentEpoch := x, n_fsm := Reset (n_fsm n), n_signatures := Map.empty,
      n_pendingReports := p, n_reportScores := q\<rparr>)" for x p q
    by (rule node_inv_next_epoch [OF inv2]) (simp_all add: n2_def)
  with inv node_inv_commit [OF inv1 add1] show ?thesis
    by (simp add: HandleFinalized_def Let_def case_prod_unfold add add1 n1_def [symmetric] n2_def [symmetric])
qed

lemma checkCheckpointTrigger_inv:
  "node_inv H vid vs n \<Longrightarrow> node_inv H vid vs (fst (checkCheckpointTrigger env n order now))"
  by (simp add: checkCheckpointTrigger_def proposeCheckpoint_inv)

lemma rotate_epoch_inv: "node_inv H vid vs n \<Longrightarrow> node_inv H vid vs (rotate_epoch n)"
  by (simp add: rotate_epoch_def Let_def case_prod_unfold) (rule node_inv_next_epoch, simp_all)

lemma check_finalized_inv: "node_inv H vid vs n \<Longrightarrow> node_inv H vid vs (check_finalized n)"
  by (simp add: check_finalized_def Let_def) (rule node_inv_next_epoch, simp_all)

lemma checkConsensusState_inv:
  assumes "node_inv (env_H env) vid vs n"
  shows "node_inv (env_H env) vid vs (fst (checkConsensusState env n order now))"
proof -
  have "node_inv (env_H env) vid vs (fst (check_collecting env n order now))"
    using assms
    by (auto simp: check_collecting_def Let_def case_prod_unfold rotate_epoch_inv finalizeCheckpoint_inv split: sum.split
        intro: node_inv_cong [OF node_inv_reset(1) [OF assms]])
  with assms show ?thesis by (simp add: checkConsensusState_def check_finalized_inv split: State.split)
qed

lemma ProcessExecutionReport_inv:
  "node_inv H vid vs n \<Longrightarrow> node_inv H vid vs (fst (ProcessExecutionReport env n r now))"
  by (simp add: ProcessExecutionReport_def Let_def)

lemma node_step_inv: "node_step env n n' \<Longrightarrow> node_inv (env_H env) vid vs n \<Longrightarrow> node_inv (env_H env) vid vs n'"
  by (induction rule: node_step.induct)
    (simp_all add: ProcessExecutionReport_inv HandleProposal_inv AddSignature_node_inv HandleFinalized_inv
      checkConsensusState_inv checkCheckpointTrigger_inv)

lemma fresh_node_inv: "Validate vs = Inr () \<Longrightarrow> node_inv H vid vs (fresh_node vid signer vs raft comet gossip cfg store)"
  using sm_reachable_inv [OF sm_reachable.new, of vs "nc_CollectTimeout cfg"]
  by (auto simp: node_inv_def fresh_node_def NewChain_def NewStateMachineWithConfig_def intro: exI [of _ "[]"]
      chain_rep_new(1) [unfolded NewChain_def])

lemma node_reachable_inv: "node_reachable env vid vs n \<Longrightarrow> node_inv (env_H env) vid vs n"
proof (induction rule: node_reachable.induct)
  case (start store signer gossip cfg)
  then have "NewNode env vid signer vs False False gossip cfg store =
      (fresh_node vid signer vs False False gossip cfg store)\<lparr>n_currentEpoch := 0\<rparr>"
    by (simp add: NewNode_def loadCheckpoint_def fresh_node_def absent_def)
  then show ?case using fresh_node_inv [OF start(1)] by (metis node_inv_fields(5))
next
  case (step n n')
  then show ?case by (blast intro: node_step_inv)
qed

section \<open>Collected signatures\<close>

lemma set_signer_mark: "mark_signer bm idx = Inr bm' \<Longrightarrow> set_signer bm idx = bm'"
  by (auto simp: mark_signer_def set_signer_def Let_def split: if_splits)

lemma signers_bitmap_fold:
  assumes "length bm = (length (vs_Validators vs) + 7) div 8" "bits bm = signer_positions vs A"
  shows "bits (foldl (\<lambda>b k. set_signer b (index_from 0 k (vs_Validators vs))) bm order) = signer_positions vs (A \<union> set order)"
  using assms
proof (induction order arbitrary: bm A)
  case (Cons k order)
  obtain bm' where mark: "mark_signer bm (IndexByID vs k) = Inr bm'" and
      bm': "length bm' = length bm" "bits bm' = signer_positions vs (insert k A)"
    using Cons.prems mark_signer_member [of k vs bm] mark_signer_stranger [of k vs bm]
    by (cases "k \<in> vset_ids vs") (auto simp: signer_positions_insert)
  have "set_signer bm (index_from 0 k (vs_Validators vs)) = bm'"
    using set_signer_mark [OF mark] by (simp add: IndexByID_def)
  with Cons.IH [of bm' "insert k A"] bm' Cons.prems(1) show ?case by simp
qed simp

lemma createSignersBitmapLocked_bits:
  assumes "range_order (n_signatures n) order"
  shows "bits (createSignersBitmapLocked n order) = signer_positions (n_validatorSet n) (dom (n_signatures n))"
proof (cases "no_signatures n")
  case True
  then have "dom (n_signatures n) = {}" using range_order_finite [OF assms] by (simp add: no_signatures_def)
  with True show ?thesis by (simp add: createSignersBitmapLocked_def)
next
  case False
  with signers_bitmap_fold [of "replicate ((length (vs_Validators (n_validatorSet n)) + 7) div 8) 0" "n_validatorSet n" "{}" order] assms
  show ?thesis by (simp add: createSignersBitmapLocked_def range_order_def)
qed

lemma signers_in_set:
  assumes "vset_distinct vs"
  shows "length (filter (\<lambda>v. v_ID v \<in> S) (vs_Validators vs)) = card (S \<inter> vset_ids vs)"
proof -
  have "distinct (map v_ID (filter (\<lambda>v. v_ID v \<in> S) (vs_Validators vs)))"
    using assms by (simp add: vset_distinct_def distinct_map_filter)
  from distinct_card [OF this]
  have "length (filter (\<lambda>v. v_ID v \<in> S) (vs_Validators vs)) = card (v_ID ` set (filter (\<lambda>v. v_ID v \<in> S) (vs_Validators vs)))"
    by simp
  also have "v_ID ` set (filter (\<lambda>v. v_ID v \<in> S) (vs_Validators vs)) = S \<inter> vset_ids vs" by (auto simp: vset_ids_def)
  finally show ?thesis .
qed

lemma collected_signatures_count:
  assumes "vset_distinct (n_validatorSet n)" "range_order (n_signatures n) order"
  shows "length (cs_EcdsaSignatures (collected_signatures n order)) = card (dom (n_signatures n) \<inter> vset_ids (n_validatorSet n))"
    and "CountBits (the (cs_SignersBitmap (collected_signatures n order))) = card (dom (n_signatures n) \<inter> vset_ids (n_validatorSet n))"
  using signers_in_set [OF assms(1), of "dom (n_signatures n)"]
  by (simp_all add: collected_signatures_def Let_def CountBits_eq createSignersBitmapLocked_bits [OF assms(2)]
      card_signer_positions domIff)

lemma finalizeCheckpoint_success:
  assumes "sm_state (n_fsm n) = StateCollecting" "sm_state (n_fsm (fst (finalizeCheckpoint env n order))) = StateFinalized"
  shows "\<exists>header h. sm_currentHeader (n_fsm n) = Some header
    \<and> check_continuity (env_H env) (ch_latest (n_chain n)) (header\<lparr>h_Signatures := Some (collected_signatures n order)\<rparr>) = Inr h
    \<and> GetLatest (n_chain (fst (finalizeCheckpoint env n order))) = Some h
    \<and> n_currentCheckpoint (fst (finalizeCheckpoint env n order)) = Some h"
proof -
  obtain header where hd: "sm_currentHeader (n_fsm n) = Some header"
    using assms by (cases "sm_currentHeader (n_fsm n)") (auto simp: finalizeCheckpoint_def)
  let ?h1 = "header\<lparr>h_Signatures := Some (collected_signatures n order)\<rparr>"
  show ?thesis
  proof (cases "check_continuity (env_H env) (ch_latest (n_chain n)) ?h1")
    case (Inl e)
    with assms show ?thesis by (simp add: finalizeCheckpoint_def hd Let_def AddCheckpoint_rejects)
  next
    case (Inr h)
    have "\<exists>c. AddCheckpoint (env_H env) no_backend (n_chain n) ?h1 = (c, h, None) \<and> ch_latest c = Some h"
      using Inr by (simp add: AddCheckpoint_def Let_def no_backend_def split: option.split)
    then show ?thesis
      using Inr assms(1) by (auto simp: finalizeCheckpoint_def hd Let_def Finalize_def case_prod_unfold GetLatest_def)
  qed
qed

text \<open>A tick that finalises the round has seen the threshold, and runs \<open>finalizeCheckpoint\<close> on the same round.\<close>

lemma tick_finalizes:
  assumes "sm_state (n_fsm n) = StateCollecting" "sm_state (n_fsm (fst (checkConsensusState env n order now))) = StateFinalized"
  shows "HasThreshold (n_fsm n) = Inr True \<and> (\<exists>lt. fst (checkConsensusState env n order now) =
    fst (finalizeCheckpoint env (n\<lparr>n_leaderTracker := lt\<rparr>) order))"
proof -
  obtain lt where lt: "fst (IsLeader n (n_currentEpoch n)) = n\<lparr>n_leaderTracker := lt\<rparr>" using IsLeader_tracker by blast
  show ?thesis
    using assms unfolding checkConsensusState_def check_collecting_def
    by (auto simp: Let_def case_prod_unfold rotate_epoch_def Reset_def lt split: sum.splits if_splits)
qed

lemma node_inv_signers:
  assumes "node_inv H vid vs n" "vid \<in> vset_ids vs"
  shows "dom (n_signatures n) \<subseteq> vset_ids vs" "card (dom (sm_signatures (n_fsm n))) \<le> card (dom (n_signatures n))"
    and "card (dom (n_signatures n)) \<le> length (vs_Validators vs)"
proof -
  have own: "own_signatures vid vs (n_signatures n)" using assms(1) by (simp add: node_inv_def)
  then show sub: "dom (n_signatures n) \<subseteq> vset_ids vs" using assms(2) unfolding own_signatures_def by blast
  have "finite (dom (n_signatures n))" using own unfolding own_signatures_def by blast
  then show "card (dom (sm_signatures (n_fsm n))) \<le> card (dom (n_signatures n))"
    using assms(1) by (intro card_mono map_le_implies_dom_le) (simp_all add: node_inv_def)
  have "card (vset_ids vs) \<le> length (vs_Validators vs)"
    using card_length [of "map v_ID (vs_Validators vs)"] by (simp add: vset_ids_def)
  with card_mono [OF _ sub] show "card (dom (n_signatures n)) \<le> length (vs_Validators vs)" by (simp add: vset_ids_def)
qed

section \<open>Outcomes of the handlers\<close>

lemma ProposeHeader_idle:
  "sm_state sm = StateIdle \<Longrightarrow> \<exists>sm'. ProposeHeader sm h now = (sm', None) \<and> sm_state sm' = StateCollecting"
  by (simp add: ProposeHeader_def Let_def)

lemma validateProposal_tracker [simp]: "validateProposal (n\<lparr>n_leaderTracker := lt\<rparr>) h = validateProposal n h"
  by (simp add: validateProposal_def)

lemma signCheckpoint_cong: "n_signer m = n_signer n \<Longrightarrow> n_id m = n_id n \<Longrightarrow> signCheckpoint env m h = signCheckpoint env n h"
  by (simp add: signCheckpoint_def Let_def split: sum.split option.split)

text \<open>A proposal of the node itself keeps what it has collected from the others.\<close>

lemma proposeCheckpoint_keeps_signatures:
  assumes "sm_state (n_fsm n) = StateIdle" "signCheckpoint env n (buildCheckpointHeader env n order now) = Inr (Some own)"
  shows "n_signatures (fst (proposeCheckpoint env n order now)) = (n_signatures n)(n_id n \<mapsto> own)"
    and "n_currentCheckpoint (fst (proposeCheckpoint env n order now)) = Some (buildCheckpointHeader env n order now)"
    and "n_store (fst (proposeCheckpoint env n order now)) = n_store n"
proof -
  obtain sm where sm: "ProposeHeader (n_fsm n) (buildCheckpointHeader env n order now) now = (sm, None)"
    using ProposeHeader_idle [OF assms(1)] by blast
  have sign: "signCheckpoint env (n\<lparr>n_fsm := sm\<rparr>) (buildCheckpointHeader env n order now) = Inr (Some own)"
    using assms(2) signCheckpoint_cong [of "n\<lparr>n_fsm := sm\<rparr>" n env] by simp
  show "n_signatures (fst (proposeCheckpoint env n order now)) = (n_signatures n)(n_id n \<mapsto> own)"
    and "n_currentCheckpoint (fst (proposeCheckpoint env n order now)) = Some (buildCheckpointHeader env n order now)"
    and "n_store (fst (proposeCheckpoint env n order now)) = n_store n"
    by (simp_all add: proposeCheckpoint_def Let_def sm sign split: prod.split sum.split option.split)
qed

text \<open>A timeout of the leader without failover resets the round and nothing else.\<close>

lemma leader_retry:
  assumes "sm_state (n_fsm n) = StateCollecting" "HasThreshold (n_fsm n) = Inr False" "IsTimedOut (n_fsm n) now"
    and "snd (IsLeader n (n_currentEpoch n))"
    and "\<not> snd (ShouldFailover (n_leaderTracker (fst (IsLeader n (n_currentEpoch n)))) (n_currentEpoch n) now)"
  shows "\<exists>lt. fst (checkConsensusState env n order now) = n\<lparr>n_leaderTracker := lt, n_fsm := Reset (n_fsm n)\<rparr>"
proof -
  obtain lt where lt: "fst (IsLeader n (n_currentEpoch n)) = n\<lparr>n_leaderTracker := lt\<rparr>" using IsLeader_tracker by blast
  show ?thesis
    using assms by (auto simp: checkConsensusState_def check_collecting_def Let_def case_prod_unfold lt)
qed

lemma AddSignature_node_conflict:
  assumes "n_currentCheckpoint n = Some cp" "verifySignature env n sig = None"
    and "n_signatures n (sg_SignerId sig) = Some old" "sg_Der old \<noteq> sg_Der sig"
  shows "AddSignature_node env n sig now =
    (detectDoubleSign env n (sg_SignerId sig) (h_Epoch cp) old sig now, Inr (Some (DoubleSign (sg_SignerId sig) (h_Epoch cp))))"
  using assms by (simp add: AddSignature_node_def)

lemma ProposeHeader_fields:
  "sm_state sm = StateIdle \<Longrightarrow> sm_signatures (fst (ProposeHeader sm h now)) = Map.empty
    \<and> sm_validatorSet (fst (ProposeHeader sm h now)) = sm_validatorSet sm
    \<and> sm_collectDeadline (fst (ProposeHeader sm h now)) = now + (case sm_timeoutConfig sm of None \<Rightarrow> 15 * second | Some t \<Rightarrow> t)"
  by (simp add: ProposeHeader_def Let_def)

lemma AddSignature_deadline: "sm_collectDeadline (fst (Consensus_FSM.AddSignature sm sig now)) = sm_collectDeadline sm"
  by (simp add: AddSignature_def Let_def split: sum.split)

lemma AddSignature_accepts:
  assumes "sm_inv vs sm" "Validate vs = Inr ()" "sm_state sm = StateCollecting"
  shows "snd (Consensus_FSM.AddSignature sm sig now) = Inr None"
  using AddSignature_no_panic [OF assms(1,2), of sig now] assms(3) by (auto simp: AddSignature_def Let_def split: sum.splits)

lemma adopt_proposal_idle:
  assumes "node_inv H vid vs n" "sm_state (n_fsm n) = StateIdle" "signCheckpoint env n h = Inr (Some sig)"
  shows "\<exists>sm. adopt_proposal env n h now =
      (n\<lparr>n_fsm := sm, n_signatures := (n_signatures n)(vid \<mapsto> sig), n_currentCheckpoint := Some h\<rparr>, Inr None)
    \<and> sm_state sm = StateCollecting \<and> sm_signatures sm = [vid \<mapsto> sig] \<and> sm_validatorSet sm = vs
    \<and> sm_collectDeadline sm = now + (case sm_timeoutConfig (n_fsm n) of None \<Rightarrow> 15 * second | Some t \<Rightarrow> t)"
proof -
  obtain sm where sm: "ProposeHeader (n_fsm n) h now = (sm, None)" "sm_state sm = StateCollecting"
    using ProposeHeader_idle [OF assms(2)] by blast
  obtain sm' r where add: "Consensus_FSM.AddSignature sm sig now = (sm', r)" by fastforce
  have n: "n_id n = vid" "sm_validatorSet (n_fsm n) = vs" using assms(1) by (simp_all add: node_inv_def sm_inv_def)
  have "sm_inv vs sm" "Validate vs = Inr ()" using node_inv_propose [OF assms(1) sm(1)] by (simp_all add: node_inv_def)
  from AddSignature_accepts [OF this sm(2), of sig now] have r: "r = Inr None" using add by simp
  have sign: "signCheckpoint env (n\<lparr>n_fsm := sm\<rparr>) h = Inr (Some sig)"
    using assms(3) signCheckpoint_cong [of "n\<lparr>n_fsm := sm\<rparr>" n env] by simp
  have "adopt_proposal env n h now =
      (n\<lparr>n_fsm := sm', n_signatures := (n_signatures n)(vid \<mapsto> sig), n_currentCheckpoint := Some h\<rparr>, Inr None)"
    by (simp add: adopt_proposal_def sm sign add r n Let_def)
  then show ?thesis
    using AddSignature_result [OF add] ProposeHeader_fields [OF assms(2), of h now] AddSignature_deadline [of sm sig now]
      signCheckpoint_signer [OF assms(3)] sm add n by auto
qed

lemma HandleProposal_follower:
  assumes "node_inv H vid vs n" "\<not> snd (IsLeader n (h_Epoch h))" "validateProposal n h = None"
    and "signCheckpoint env n h = Inr (Some sig)"
  shows "\<exists>lt sm sigs. HandleProposal env n h now =
      (n\<lparr>n_leaderTracker := lt, n_fsm := sm, n_signatures := sigs(vid \<mapsto> sig), n_currentCheckpoint := Some h\<rparr>, Inr None)
    \<and> lt_set lt = lt_set (n_leaderTracker n)"
proof -
  obtain lt where lt: "IsLeader n (h_Epoch h) = (n\<lparr>n_leaderTracker := lt\<rparr>, False)" "lt_set lt = lt_set (n_leaderTracker n)"
    using assms(2) by (auto simp: IsLeader_def tracker_defs)
  define m where "m = (if sm_state (n_fsm n) \<noteq> StateIdle
    then n\<lparr>n_leaderTracker := lt, n_fsm := Reset (n_fsm n), n_signatures := Map.empty\<rparr> else n\<lparr>n_leaderTracker := lt\<rparr>)"
  have "node_inv H vid vs m" unfolding m_def using assms(1) by (auto intro: node_inv_cong [OF node_inv_reset(2)])
  moreover have "sm_state (n_fsm m) = StateIdle" by (simp add: m_def Reset_def)
  moreover have "signCheckpoint env m h = Inr (Some sig)"
    using assms(4) signCheckpoint_cong [of m n env] by (simp add: m_def)
  ultimately obtain sm where "adopt_proposal env m h now =
      (m\<lparr>n_fsm := sm, n_signatures := (n_signatures m)(vid \<mapsto> sig), n_currentCheckpoint := Some h\<rparr>, Inr None)"
    using adopt_proposal_idle by blast
  moreover have "HandleProposal env n h now = adopt_proposal env m h now"
    by (simp add: HandleProposal_def lt(1) assms(3) m_def)
  ultimately show ?thesis using lt(2) by (auto simp: m_def split: if_splits)
qed

lemma check_continuity_parent:
  "check_continuity H latest h = Inr k \<Longrightarrow> k = h\<lparr>h_ParentCpHash :=
     (if latest = None \<or> h_ParentCpHash h \<noteq> [] then h_ParentCpHash h else computeHeaderHash H latest)\<rparr>"
  by (auto simp: check_continuity_def Let_def split: option.splits if_splits)

lemma check_continuity_sized: "check_continuity H latest h = Inr k \<Longrightarrow> sized k = sized h"
  by (subst check_continuity_parent) (auto simp: sized_def)

text \<open>The finalised header of a tick, in terms of the round.\<close>

lemma tick_header:
  assumes "sm_state (n_fsm n) = StateCollecting" "sm_state (n_fsm (fst (checkConsensusState env n order now))) = StateFinalized"
    and "range_order (n_signatures n) order" "sm_currentHeader (n_fsm n) = Some header"
  shows "\<exists>h. GetLatest (n_chain (fst (checkConsensusState env n order now))) = Some h
    \<and> check_continuity (env_H env) (ch_latest (n_chain n)) (header\<lparr>h_Signatures := h_Signatures h\<rparr>) = Inr h
    \<and> (\<exists>s. h_Signatures h = Some s \<and> bits (the (cs_SignersBitmap s)) = signer_positions (n_validatorSet n) (dom (n_signatures n)))"
proof -
  obtain lt where tick: "fst (checkConsensusState env n order now) = fst (finalizeCheckpoint env (n\<lparr>n_leaderTracker := lt\<rparr>) order)"
    using tick_finalizes [OF assms(1,2)] by blast
  let ?m = "n\<lparr>n_leaderTracker := lt\<rparr>"
  have fin: "sm_state (n_fsm ?m) = StateCollecting" "sm_state (n_fsm (fst (finalizeCheckpoint env ?m order))) = StateFinalized"
    using assms(1,2) tick by simp_all
  obtain h where h: "check_continuity (env_H env) (ch_latest (n_chain n)) (header\<lparr>h_Signatures := Some (collected_signatures ?m order)\<rparr>) = Inr h"
      "GetLatest (n_chain (fst (finalizeCheckpoint env ?m order))) = Some h"
    using finalizeCheckpoint_success [OF fin] assms(4) by auto
  have "h_Signatures h = Some (collected_signatures ?m order)"
    using arg_cong [OF check_continuity_parent [OF h(1)], of h_Signatures] by simp
  moreover have "bits (createSignersBitmapLocked ?m order) = signer_positions (n_validatorSet n) (dom (n_signatures n))"
    using createSignersBitmapLocked_bits [of ?m order] assms(3) by simp
  ultimately show ?thesis using h by (auto simp: tick collected_signatures_def Let_def)
qed

lemma signer_positions_inject:
  "A \<subseteq> vset_ids vs \<Longrightarrow> B \<subseteq> vset_ids vs \<Longrightarrow> signer_positions vs A = signer_positions vs B \<longleftrightarrow> A = B"
  using inj_on_image_eq_iff [OF inj_on_positions] by (simp add: signer_positions_def Int_absorb2)

lemma build_parent:
  "h_ParentCpHash (buildCheckpointHeader env n order now) =
     (case GetLatest (n_chain n) of None \<Rightarrow> [] | Some h \<Rightarrow> the (ComputeParentHash (env_H env) (Some h)))"
  by (simp add: buildCheckpointHeader_def ComputeParentHash_def ComputeHashForVerification_def Let_def split: option.split)

lemma computeHeaderHash_parent: "computeHeaderHash H (Some h) = the (ComputeParentHash H (Some h))"
  by (simp add: computeHeaderHash_def ComputeParentHash_def ComputeHashForVerification_def Let_def)

section \<open>Restart\<close>

lemma checkpoint_keys [simp]:
  "keyLatestEpoch \<noteq> checkpointKey e" "keyLatestEpoch \<noteq> sigKey e" "checkpointKey e \<noteq> sigKey d"
  "checkpointKey e \<noteq> keyLatestEpoch" "sigKey e \<noteq> keyLatestEpoch" "sigKey d \<noteq> checkpointKey e"
  by (simp_all add: keyLatestEpoch_def checkpointKey_def sigKey_def)

lemma Put_ldb_contract:
  "leveldb_contract db contents \<Longrightarrow> Put_ldb db s k v = (fst (Put_ldb db s k v), None)
     \<and> contents (fst (Put_ldb db s k v)) = (contents s)(k \<mapsto> v)"
  by (simp add: Put_ldb_def put_result_def leveldb_contractD(3,4) fun_upd_def)

lemma Get_ldb_contract:
  "leveldb_contract db contents \<Longrightarrow>
     Get_ldb db s k = (case contents s k of None \<Rightarrow> Inl (DbError ErrNotFound) | Some v \<Rightarrow> Inr v)"
  by (simp add: Get_ldb_def leveldb_contractD split: option.split)

lemma saveCheckpoint_contents:
  assumes "leveldb_contract (env_db env) contents" "env_marshal_header env h = Some hb"
    and "\<not> no_signatures n" "env_marshal_signatures env (n_signatures n) = Some sb"
  shows "snd (saveCheckpoint env n h) = None \<and> contents (n_store (fst (saveCheckpoint env n h))) =
    (contents (n_store n))(checkpointKey (h_Epoch h) \<mapsto> hb, sigKey (h_Epoch h) \<mapsto> sb, keyLatestEpoch \<mapsto> PutUint64 (h_Epoch h))"
proof -
  obtain s1 where s1: "Put_ldb (env_db env) (n_store n) (checkpointKey (h_Epoch h)) hb = (s1, None)"
      "contents s1 = (contents (n_store n))(checkpointKey (h_Epoch h) \<mapsto> hb)"
    using Put_ldb_contract [OF assms(1)] by metis
  obtain s2 where s2: "Put_ldb (env_db env) s1 (sigKey (h_Epoch h)) sb = (s2, None)"
      "contents s2 = (contents s1)(sigKey (h_Epoch h) \<mapsto> sb)"
    using Put_ldb_contract [OF assms(1)] by metis
  obtain s3 where s3: "Put_ldb (env_db env) s2 keyLatestEpoch (PutUint64 (h_Epoch h)) = (s3, None)"
      "contents s3 = (contents s2)(keyLatestEpoch \<mapsto> PutUint64 (h_Epoch h))"
    using Put_ldb_contract [OF assms(1)] by metis
  show ?thesis
    using assms(2-4) s1 s2 s3 by (simp add: saveCheckpoint_def save_latest_def no_signatures_def Let_def)
qed

lemma AddCheckpoint_first: "ch_latest c = None \<Longrightarrow> ch_store c = None \<Longrightarrow>
   AddCheckpoint H st c h = (c\<lparr>ch_checkpoints := (ch_checkpoints c)(h_Epoch h \<mapsto> h), ch_latest := Some h\<rparr>, h, None)"
  by (simp add: AddCheckpoint_def check_continuity_def Let_def)

section \<open>Properties\<close>


definition example_env :: "(unit, unit, (bytes \<times> bytes) list) Node_Env" where
  "example_env =
     \<lparr>env_lib = ideal_lib, env_H = id, env_db = alist_db, env_marshal_header = (\<lambda>h. Some []),
      env_unmarshal_header = (\<lambda>b. Some (example_proto_header 0)), env_marshal_report = (\<lambda>r. Some []),
      env_marshal_signatures = (\<lambda>m. Some []), env_unmarshal_signatures = (\<lambda>b. Some Map.empty),
      env_marshal_evidence = (\<lambda>v e a b t. []), env_unmarshal_report = (\<lambda>b. None),
      env_unmarshal_evidence = (\<lambda>b. None), env_score = (\<lambda>r t. 100)\<rparr>"

definition example_config :: Node_Config where
  "example_config = \<lparr>nc_SubnetID = ''s'', nc_CheckpointInterval = 0, nc_Timeouts = None, nc_CollectTimeout = None,
     nc_ProposeTimeout = 5 * second\<rparr>"

text \<open>The signature of a validator with the keys of the example.\<close>

definition signed_by :: "(bytes \<Rightarrow> bytes) \<Rightarrow> string \<Rightarrow> CheckpointHeader \<Rightarrow> Signature" where
  "signed_by H v h = \<lparr>sg_Algo = ECDSA_SECP256K1, sg_Der = replicate 64 7 @ 28 # H (hash_input h), sg_Pubkey = [],
     sg_MsgHash = H (hash_input h), sg_SignerId = v\<rparr>"

lemma signed_by_simps [simp]:
  "sg_SignerId (signed_by H v h) = v" "sg_Der (signed_by H v h) = replicate 64 7 @ 28 # H (hash_input h)"
  by (simp_all add: signed_by_def)

definition single_set :: ValidatorSet where
  "single_set = \<lparr>vs_Validators = [example_validator ''v1'' 1], vs_MinValidators = 1, vs_ThresholdNum = 3,
     vs_ThresholdDenom = 4, vs_EffectiveEpoch = 0\<rparr>"

definition single_node :: "(unit, (bytes \<times> bytes) list) Node" where
  "single_node = fst (HandleProposal example_env
     (NewNode example_env ''v1'' () single_set False False False example_config []) (example_proto_header 0) 1)"

lemma ideal_signCheckpoint:
  "env_lib env = ideal_lib \<Longrightarrow> signCheckpoint env n h = Inr (Some (signed_by (env_H env) (n_id n) h))"
  by (simp add: signCheckpoint_def Sign_def ideal_lib_def ComputeHash_def nth_append Let_def signed_by_def)

lemma example_signCheckpoint: "signCheckpoint example_env n h = Inr (Some (signed_by id (n_id n) h))"
  by (simp add: ideal_signCheckpoint example_env_def)

lemma NewNode_example:
  "NewNode example_env vid () vs raft comet gossip cfg [] = fresh_node vid () vs raft comet gossip cfg []"
  by (simp add: NewNode_def loadCheckpoint_def fresh_node_def absent_def example_env_def Get_ldb_def alist_db_def)

lemma single_node_facts:
  "node_reachable example_env ''v1'' single_set single_node" "sm_state (n_fsm single_node) = StateCollecting"
  "dom (n_signatures single_node) = {''v1''}" "HasThreshold (n_fsm single_node) = Inr True"
  "n_chain single_node = NewChain" "sm_currentHeader (n_fsm single_node) = Some (example_proto_header 0)"
proof -
  have "node_reachable example_env ''v1'' single_set (NewNode example_env ''v1'' () single_set False False False example_config [])"
    by (rule node_reachable.start)
      (simp_all add: spec_simps single_set_def example_validator_def vset_distinct_def example_env_def Get_ldb_def alist_db_def)
  then show "node_reachable example_env ''v1'' single_set single_node"
    unfolding single_node_def by (rule node_reachable.step) (rule node_step.proposal)
  show "sm_state (n_fsm single_node) = StateCollecting" "dom (n_signatures single_node) = {''v1''}"
    "HasThreshold (n_fsm single_node) = Inr True" "n_chain single_node = NewChain"
    "sm_currentHeader (n_fsm single_node) = Some (example_proto_header 0)"
    by (simp_all add: single_node_def NewNode_example HandleProposal_def fresh_node_def IsLeader_def tracker_defs NewLeaderTracker_def
        single_set_def example_validator_def validateProposal_def adopt_proposal_def sm_defs example_signCheckpoint
        example_proto_header_def SelectLeader_def validator_at_def IndexByID_def mark_signer_def checkThreshold_def HasThreshold_def
        RequiredSignatures_def Let_def)
qed


text \<open>
  C20: A leader that times out while it collects signatures resets the round but keeps the signatures of the old proposal.
  After it proposes again, the new, valid signature of an honest validator that had signed the old proposal is refused as a double
  sign, evidence against that validator is stored, and the signature is not counted.
\<close>

theorem retry_reports_double_sign:
  assumes "sm_state (n_fsm n) = StateCollecting" "HasThreshold (n_fsm n) = Inr False" "IsTimedOut (n_fsm n) now"
    and "snd (IsLeader n (n_currentEpoch n))"
    and "\<not> snd (ShouldFailover (n_leaderTracker (fst (IsLeader n (n_currentEpoch n)))) (n_currentEpoch n) now)"
    and "signCheckpoint env n (buildCheckpointHeader env n order' now') = Inr (Some own)"
    and "n_signatures n v = Some old" "v \<noteq> n_id n"
    and n2: "n2 = fst (proposeCheckpoint env (fst (checkConsensusState env n order now)) order' now')"
    and "sg_SignerId sig = v" "verifySignature env n2 sig = None" "sg_Der sig \<noteq> sg_Der old"
    and "leveldb_contract (env_db env) contents"
  shows "snd (AddSignature_node env n2 sig now'') = Inr (Some (DoubleSign v (n_currentEpoch n)))
    \<and> contents (n_store (fst (AddSignature_node env n2 sig now''))) (keyDS (n_currentEpoch n) v)
        = Some (env_marshal_evidence env v (n_currentEpoch n) (sg_Der old) (sg_Der sig) (now'' div second))
    \<and> n_fsm (fst (AddSignature_node env n2 sig now'')) = n_fsm n2"
proof -
  obtain lt where lt: "fst (checkConsensusState env n order now) = n\<lparr>n_leaderTracker := lt, n_fsm := Reset (n_fsm n)\<rparr>"
    using leader_retry [OF assms(1-5)] by blast
  let ?m = "n\<lparr>n_leaderTracker := lt, n_fsm := Reset (n_fsm n)\<rparr>"
  let ?h = "buildCheckpointHeader env n order' now'"
  have h: "buildCheckpointHeader env ?m order' now' = ?h"
    by (simp add: buildCheckpointHeader_def computeStateRoot_def computeEventRoot_def)
  have "sm_state (n_fsm ?m) = StateIdle" by (simp add: Reset_def)
  moreover have "signCheckpoint env ?m (buildCheckpointHeader env ?m order' now') = Inr (Some own)"
    using assms(6) unfolding h by (simp add: signCheckpoint_cong [of ?m n env])
  ultimately have "n_signatures n2 = (n_signatures n)(n_id n \<mapsto> own)" "n_currentCheckpoint n2 = Some ?h"
    unfolding n2 lt using proposeCheckpoint_keeps_signatures(1,2) [of ?m env order' now' own] by (simp_all add: h)
  with assms(7,8,10,12) have "n_signatures n2 (sg_SignerId sig) = Some old" "n_currentCheckpoint n2 = Some ?h" "sg_Der old \<noteq> sg_Der sig"
    by auto
  note conflict = AddSignature_node_conflict [OF this(2) assms(11) this(1,3), of now'']
  have "h_Epoch ?h = n_currentEpoch n" by (simp add: buildCheckpointHeader_def Let_def)
  then show ?thesis
    by (simp add: conflict assms(10) detectDoubleSign_def SaveDoubleSignEvidence_ldb_def put_result_def
        leveldb_contractD(3) [OF assms(13)] Let_def)
qed

definition retry_node :: "(unit, (bytes \<times> bytes) list) Node" where
  "retry_node = fst (AddSignature_node example_env
     (fst (HandleProposal example_env (NewNode example_env ''v1'' () example_set False False False example_config [])
        (example_proto_header 0) 1)) (signed_by id ''v2'' (example_proto_header 0)) 2)"

lemma example_set_valid: "Validate example_set = Inr ()"
  by (simp add: spec_simps example_set_simps)

lemma ideal_verify:
  "env_lib env = ideal_lib \<Longrightarrow> get_from v (vs_Validators (n_validatorSet n)) \<noteq> None \<Longrightarrow> n_currentCheckpoint n = Some h \<Longrightarrow>
     verifySignature env n (signed_by (env_H env) v h) = None"
  by (auto simp: verifySignature_def signed_by_def ideal_lib_def Verify_def ComputeHash_def split: option.split)

lemma example_env_simps [simp]: "env_lib example_env = ideal_lib" "env_H example_env = id" "env_db example_env = alist_db"
  by (simp_all add: example_env_def)

text \<open>The first proposal a fresh node receives, and the first signature of another validator.\<close>

definition first_round :: "(bytes \<Rightarrow> bytes) \<Rightarrow> string \<Rightarrow> ValidatorSet \<Rightarrow> StateMachine \<Rightarrow> (unit, (bytes \<times> bytes) list) Node" where
  "first_round H vid vs sm = (fresh_node vid () vs False False False example_config [])
     \<lparr>n_fsm := sm, n_signatures := [vid \<mapsto> signed_by H vid (example_proto_header 0)],
      n_currentCheckpoint := Some (example_proto_header 0)\<rparr>"

lemma first_proposal:
  fixes env :: "(unit, unit, (bytes \<times> bytes) list) Node_Env"
  assumes "Validate vs = Inr ()" "env_lib env = ideal_lib"
  shows "\<exists>sm. HandleProposal env (fresh_node vid () vs False False False example_config []) (example_proto_header 0) 1
      = (first_round (env_H env) vid vs sm, Inr None)
    \<and> sm_inv vs sm \<and> sm_state sm = StateCollecting \<and> sm_signatures sm = [vid \<mapsto> signed_by (env_H env) vid (example_proto_header 0)]
    \<and> sm_validatorSet sm = vs \<and> sm_collectDeadline sm = 1 + 15 * second \<and> sm_currentHeader sm = Some (example_proto_header 0)"
proof -
  let ?n = "fresh_node vid () vs False False False example_config [] :: (unit, (bytes \<times> bytes) list) Node"
  let ?h = "example_proto_header 0"
  have inv: "node_inv (env_H env) vid vs ?n" by (rule fresh_node_inv [OF assms(1)])
  have n: "sm_state (n_fsm ?n) = StateIdle" "sm_timeoutConfig (n_fsm ?n) = None" "n_signatures ?n = Map.empty" "n_id ?n = vid"
    by (simp_all add: fresh_node_def NewStateMachineWithConfig_def example_config_def)
  from adopt_proposal_idle [OF inv n(1), of env ?h _ 1] ideal_signCheckpoint [OF assms(2), of ?n ?h]
  obtain sm where sm: "adopt_proposal env ?n ?h 1 = (first_round (env_H env) vid vs sm, Inr None)"
      "sm_state sm = StateCollecting" "sm_signatures sm = [vid \<mapsto> signed_by (env_H env) vid ?h]" "sm_validatorSet sm = vs"
      "sm_collectDeadline sm = 1 + 15 * second"
    unfolding first_round_def n(2-4) by auto
  have lead: "\<exists>b. IsLeader ?n (h_Epoch ?h) = (?n, b)"
    by (simp add: IsLeader_def fresh_node_def tracker_defs NewLeaderTracker_def example_proto_header_def)
  have eq: "HandleProposal env ?n ?h 1 = (first_round (env_H env) vid vs sm, Inr None)"
    using lead sm(1) n(1) by (auto simp: HandleProposal_def validateProposal_def fresh_node_def example_proto_header_def)
  then have "sm_inv vs sm" using HandleProposal_inv [OF inv, of env ?h 1] by (simp add: node_inv_def first_round_def)
  moreover have "sm_currentHeader sm = Some ?h"
  proof -
    obtain sm1 where "ProposeHeader (n_fsm ?n) ?h 1 = (sm1, None)" "sm_currentHeader sm1 = Some ?h"
      using ProposeHeader_idle [OF n(1), of ?h 1] ProposeHeader_ok by blast
    then have "sm_currentHeader (n_fsm (fst (adopt_proposal env ?n ?h 1))) = Some ?h"
      using AddSignature_result(4) [of sm1]
      by (auto simp: adopt_proposal_def Let_def ideal_signCheckpoint [OF assms(2)] split: prod.split sum.split option.split)
    then show ?thesis by (simp add: sm(1) first_round_def)
  qed
  ultimately show ?thesis using eq sm by blast
qed

lemma second_signature:
  fixes env :: "(unit, unit, (bytes \<times> bytes) list) Node_Env"
  assumes "Validate vs = Inr ()" "env_lib env = ideal_lib" "sm_inv vs sm" "sm_state sm = StateCollecting" "v \<noteq> vid" "v \<in> vset_ids vs"
  shows "\<exists>sm'. AddSignature_node env (first_round (env_H env) vid vs sm) (signed_by (env_H env) v (example_proto_header 0)) 2
      = ((first_round (env_H env) vid vs sm)\<lparr>n_fsm := sm', n_signatures := [vid \<mapsto> signed_by (env_H env) vid (example_proto_header 0),
           v \<mapsto> signed_by (env_H env) v (example_proto_header 0)]\<rparr>, Inr None)
    \<and> sm_signatures sm' = (sm_signatures sm)(v \<mapsto> signed_by (env_H env) v (example_proto_header 0))
    \<and> sm_state sm' = StateCollecting \<and> sm_validatorSet sm' = sm_validatorSet sm
    \<and> sm_collectDeadline sm' = sm_collectDeadline sm \<and> sm_currentHeader sm' = sm_currentHeader sm"
proof -
  let ?sig = "signed_by (env_H env) v (example_proto_header 0)" and ?n = "first_round (env_H env) vid vs sm"
  obtain sm' r where add: "Consensus_FSM.AddSignature sm ?sig 2 = (sm', r)" by fastforce
  have r: "r = Inr None" using AddSignature_accepts [OF assms(3,1,4), of ?sig 2] add by simp
  have "get_from v (vs_Validators vs) \<noteq> None" using assms(6) by (simp add: get_from_None vset_ids_def)
  then have "verifySignature env ?n ?sig = None"
    by (intro ideal_verify [OF assms(2)]) (simp_all add: first_round_def fresh_node_def)
  then have "AddSignature_node env ?n ?sig 2 = (?n\<lparr>n_fsm := sm', n_signatures := (n_signatures ?n)(v \<mapsto> ?sig)\<rparr>, Inr None)"
    using assms(5) by (simp add: AddSignature_node_def first_round_def add r)
  then show ?thesis
    using AddSignature_result [OF add] AddSignature_deadline [of sm ?sig 2] add assms(4)
    by (intro exI [of _ sm']) (simp add: first_round_def)
qed

lemma retry_node_eq:
  "\<exists>sm. retry_node = (first_round id ''v1'' example_set sm)\<lparr>n_signatures := [''v1'' \<mapsto> signed_by id ''v1'' (example_proto_header 0),
       ''v2'' \<mapsto> signed_by id ''v2'' (example_proto_header 0)]\<rparr>
   \<and> sm_state sm = StateCollecting \<and> HasThreshold sm = Inr False \<and> sm_collectDeadline sm = 1 + 15 * second"
proof -
  obtain sm where sm: "HandleProposal example_env (fresh_node ''v1'' () example_set False False False example_config []) (example_proto_header 0) 1
      = (first_round id ''v1'' example_set sm, Inr None)" "sm_inv example_set sm" "sm_state sm = StateCollecting"
      "sm_signatures sm = [''v1'' \<mapsto> signed_by id ''v1'' (example_proto_header 0)]" "sm_validatorSet sm = example_set"
      "sm_collectDeadline sm = 1 + 15 * second"
    using first_proposal [OF example_set_valid, of example_env "''v1''"] by auto
  have "''v2'' \<in> vset_ids example_set" by (simp add: example_set_simps)
  from second_signature [OF example_set_valid _ sm(2,3) _ this, of example_env "''v1''"]
  obtain sm' where sm': "AddSignature_node example_env (first_round id ''v1'' example_set sm) (signed_by id ''v2'' (example_proto_header 0)) 2
      = ((first_round id ''v1'' example_set sm)\<lparr>n_fsm := sm', n_signatures := [''v1'' \<mapsto> signed_by id ''v1'' (example_proto_header 0),
           ''v2'' \<mapsto> signed_by id ''v2'' (example_proto_header 0)]\<rparr>, Inr None)"
      "sm_signatures sm' = (sm_signatures sm)(''v2'' \<mapsto> signed_by id ''v2'' (example_proto_header 0))"
      "sm_state sm' = StateCollecting" "sm_validatorSet sm' = example_set" "sm_collectDeadline sm' = 1 + 15 * second"
    using sm(5,6) by auto
  have "HasThreshold sm' = Inr False"
    by (simp add: HasThreshold_def checkThreshold_def sm' sm(4) RequiredSignatures_def Let_def example_set_simps)
  with sm' show ?thesis
    by (intro exI [of _ sm']) (simp add: retry_node_def NewNode_example sm(1) first_round_def)
qed

theorem retry_reports_double_sign_witness:
  "snd (AddSignature_node example_env
     (fst (proposeCheckpoint example_env (fst (checkConsensusState example_env retry_node [''v1'', ''v2''] (16 * second))) [] (17 * second)))
     (signed_by id ''v2'' (buildCheckpointHeader example_env retry_node [] (17 * second))) (18 * second))
   = Inr (Some (DoubleSign ''v2'' 0))"
proof -
  let ?h = "buildCheckpointHeader example_env retry_node [] (17 * second)"
  let ?n1 = "fst (checkConsensusState example_env retry_node [''v1'', ''v2''] (16 * second))"
  let ?n2 = "fst (proposeCheckpoint example_env ?n1 [] (17 * second))"
  obtain sm where n: "retry_node = (first_round id ''v1'' example_set sm)
     \<lparr>n_signatures := [''v1'' \<mapsto> signed_by id ''v1'' (example_proto_header 0), ''v2'' \<mapsto> signed_by id ''v2'' (example_proto_header 0)]\<rparr>"
    and sm: "sm_state sm = StateCollecting" "HasThreshold sm = Inr False" "sm_collectDeadline sm = 1 + 15 * second"
    using retry_node_eq by blast
  have r: "sm_state (n_fsm retry_node) = StateCollecting" "HasThreshold (n_fsm retry_node) = Inr False"
      "IsTimedOut (n_fsm retry_node) (16 * second)" "snd (IsLeader retry_node (n_currentEpoch retry_node))"
      "\<not> snd (ShouldFailover (n_leaderTracker (fst (IsLeader retry_node (n_currentEpoch retry_node)))) (n_currentEpoch retry_node) (16 * second))"
      "n_currentEpoch retry_node = 0" "n_signatures retry_node ''v2'' = Some (signed_by id ''v2'' (example_proto_header 0))"
      "''v2'' \<noteq> n_id retry_node" "vs_Validators (n_validatorSet retry_node) = vs_Validators example_set"
    by (simp_all add: n sm IsTimedOut_def second_def first_round_def fresh_node_def IsLeader_def tracker_defs NewLeaderTracker_def SelectLeader_def
        validator_at_def example_set_simps)
  obtain lt where lt: "?n1 = retry_node\<lparr>n_leaderTracker := lt, n_fsm := Reset (n_fsm retry_node)\<rparr>"
    using leader_retry [OF r(1-5)] by blast
  have h: "buildCheckpointHeader example_env ?n1 [] (17 * second) = ?h"
    by (simp add: lt buildCheckpointHeader_def computeStateRoot_def computeEventRoot_def)
  have "sm_state (n_fsm ?n1) = StateIdle" by (simp add: lt Reset_def)
  from proposeCheckpoint_keeps_signatures(2) [OF this example_signCheckpoint]
  have cp: "n_currentCheckpoint ?n2 = Some ?h" by (simp add: h)
  have vset: "n_validatorSet ?n2 = n_validatorSet retry_node"
    by (simp add: proposeCheckpoint_def Let_def lt split: prod.split sum.split option.split)
  have ver: "verifySignature example_env ?n2 (signed_by id ''v2'' ?h) = None"
    using ideal_verify [OF _ _ cp, of example_env "''v2''"] by (simp add: vset r(9) example_set_simps)
  have "hash_input ?h \<noteq> hash_input (example_proto_header 0)"
    by (subst hash_input_inject)
      (simp_all add: sized_def n first_round_def fresh_node_def example_config_def buildCheckpointHeader_def second_def Let_def example_proto_header_def
        same_signed_content_def)
  then have "sg_Der (signed_by id ''v2'' ?h) \<noteq> sg_Der (signed_by id ''v2'' (example_proto_header 0))" by simp
  from retry_reports_double_sign [OF r(1-5) example_signCheckpoint r(7,8) refl signed_by_simps(1) ver this, of map_of] r(6)
  show ?thesis by (simp add: alist_db_contract)
qed

text \<open>
  A follower signs two proposals of the same epoch: the second one resets its round, is signed
  as well, and the first signature is forgotten without any evidence being stored.
\<close>

theorem follower_signs_twice:
  assumes "node_reachable env vid vs n" "\<not> snd (IsLeader n e)" "h_Epoch h1 = e" "h_Epoch h2 = e"
    and "validateProposal n h1 = None"
    and "signCheckpoint env n h1 = Inr (Some s1)" "signCheckpoint env n h2 = Inr (Some s2)"
    and n1: "n1 = fst (HandleProposal env n h1 t1)" and n2: "n2 = fst (HandleProposal env n1 h2 t2)"
  shows "snd (HandleProposal env n h1 t1) = Inr None \<and> n_signatures n1 vid = Some s1
    \<and> snd (HandleProposal env n1 h2 t2) = Inr None \<and> n_signatures n2 vid = Some s2 \<and> n_store n2 = n_store n"
proof -
  have inv: "node_inv (env_H env) vid vs n" using node_reachable_inv [OF assms(1)] .
  have first: "snd (HandleProposal env n h1 t1) = Inr None \<and> n_currentCheckpoint n1 = Some h1 \<and> n_signatures n1 vid = Some s1
      \<and> n_currentEpoch n1 = n_currentEpoch n \<and> n_store n1 = n_store n
      \<and> lt_set (n_leaderTracker n1) = lt_set (n_leaderTracker n) \<and> n_signer n1 = n_signer n"
    unfolding n1 using HandleProposal_follower [OF inv _ assms(5,6), of t1] assms(2,3) by auto
  have inv1: "node_inv (env_H env) vid vs n1" unfolding n1 by (rule HandleProposal_inv [OF inv])
  have ids: "n_id n1 = n_id n" using inv inv1 by (simp add: node_inv_def)
  have "snd (IsLeader n1 e) = snd (IsLeader n e)" using first ids by (simp add: IsLeader_def tracker_defs)
  moreover have "validateProposal n1 h2 = None"
    using assms(3-5) first by (auto simp: validateProposal_def split: if_splits)
  moreover have "signCheckpoint env n1 h2 = Inr (Some s2)" using assms(7) first ids by (simp add: signCheckpoint_cong [of n1 n env])
  ultimately have "snd (HandleProposal env n1 h2 t2) = Inr None \<and> n_signatures n2 vid = Some s2 \<and> n_store n2 = n_store n1"
    unfolding n2 using HandleProposal_follower [OF inv1, of h2 env s2 t2] assms(2,4) by auto
  with first show ?thesis by simp
qed

theorem follower_signs_twice_witness:
  "n_signatures (fst (HandleProposal example_env (fst (HandleProposal example_env
     (NewNode example_env ''v2'' () example_set False False False example_config []) (example_proto_header 0) 1))
     ((example_proto_header 0)\<lparr>h_Timestamp := 6\<rparr>) 2)) ''v2'' = Some (signed_by id ''v2'' ((example_proto_header 0)\<lparr>h_Timestamp := 6\<rparr>))"
proof -
  let ?n = "NewNode example_env ''v2'' () example_set False False False example_config []"
  have "node_reachable example_env ''v2'' example_set ?n"
    by (rule node_reachable.start [OF example_set_valid]) (simp add: example_env_def Get_ldb_def alist_db_def)
  moreover have "\<not> snd (IsLeader ?n 0)"
    by (simp add: NewNode_example IsLeader_def fresh_node_def tracker_defs NewLeaderTracker_def SelectLeader_def validator_at_def example_set_simps)
  moreover have "validateProposal ?n (example_proto_header 0) = None"
    by (simp add: NewNode_example validateProposal_def fresh_node_def example_proto_header_def)
  moreover have "h_Epoch (example_proto_header 0) = 0" "h_Epoch ((example_proto_header 0)\<lparr>h_Timestamp := 6\<rparr>) = 0"
    by (simp_all add: example_proto_header_def)
  moreover have "n_id ?n = ''v2''" by (simp add: NewNode_example fresh_node_def)
  ultimately show ?thesis
    using follower_signs_twice [OF _ _ _ _ _ example_signCheckpoint example_signCheckpoint refl refl] by (simp add: signed_by_def)
qed

text \<open>
  C21: A restarted node continues after the checkpoint it saved: with a working database and codecs that restore what they
  wrote, a node started on the store of a node that saved a checkpoint has that checkpoint as its current one and
  as the latest of its chain, stands at the next epoch, and holds the signatures of the saved round.
\<close>

theorem checkpoint_reload:
  assumes "leveldb_contract (env_db env) contents" "codec_ok (env_marshal_header env) (env_unmarshal_header env) h"
    and "\<not> no_signatures n" "codec_ok (env_marshal_signatures env) (env_unmarshal_signatures env) (n_signatures n)"
    and "env_marshal_signatures env (n_signatures n) \<noteq> Some []"
    and m: "m = NewNode env vid sk vs raft comet gossip cfg (n_store (fst (saveCheckpoint env n h)))"
  shows "snd (saveCheckpoint env n h) = None \<and> n_currentCheckpoint m = Some h \<and> GetLatest (n_chain m) = Some h
    \<and> n_currentEpoch m = h_Epoch h + 1 \<and> n_signatures m = n_signatures n"
proof -
  obtain hb sb where codecs: "env_marshal_header env h = Some hb" "env_unmarshal_header env hb = Some h"
      "env_marshal_signatures env (n_signatures n) = Some sb" "env_unmarshal_signatures env sb = Some (n_signatures n)"
    using assms(2,4) by (auto simp: codec_ok_def)
  note saved = saveCheckpoint_contents [OF assms(1) codecs(1) assms(3) codecs(3)]
  have "sb \<noteq> []" using assms(5) codecs(3) by auto
  with saved codecs show ?thesis
    by (simp add: m NewNode_def loadCheckpoint_def Get_ldb_contract [OF assms(1)] load_signatures_def fresh_node_def
        AddCheckpoint_first NewChain_def GetLatest_def Let_def)
qed

definition reload_env :: "(unit, unit, (bytes \<times> bytes) list) Node_Env" where
  "reload_env = example_env\<lparr>env_marshal_signatures := \<lambda>m. Some [1],
     env_unmarshal_signatures := \<lambda>b. Some (n_signatures single_node)\<rparr>"

theorem checkpoint_reload_witness:
  "n_currentEpoch (NewNode reload_env ''v1'' () single_set False False False example_config
     (n_store (fst (saveCheckpoint reload_env single_node (example_proto_header 0))))) = 1"
proof -
  have "leveldb_contract (env_db reload_env) map_of" by (simp add: reload_env_def example_env_def alist_db_contract)
  moreover have "codec_ok (env_marshal_header reload_env) (env_unmarshal_header reload_env) (example_proto_header 0)"
    "codec_ok (env_marshal_signatures reload_env) (env_unmarshal_signatures reload_env) (n_signatures single_node)"
    "env_marshal_signatures reload_env (n_signatures single_node) \<noteq> Some []"
    by (simp_all add: codec_ok_def reload_env_def example_env_def)
  moreover have "\<not> no_signatures single_node" by (simp add: no_signatures_def single_node_facts)
  moreover have "h_Epoch (example_proto_header 0) = 0" by (simp add: example_proto_header_def)
  ultimately show ?thesis
    using checkpoint_reload [of reload_env map_of "example_proto_header 0" single_node _ "''v1''" "()" single_set False False False
      example_config, OF _ _ _ _ _ refl] by simp
qed

text \<open>
  Two validators that finalise the same header with different sets of collected signatures no longer
  have the same chain: the parent hash covers the signatures, so every later header that the one builds on its latest
  checkpoint is refused by the chain of the other.
\<close>

theorem finalized_tips_diverge:
  assumes "node_reachable env va vs a" "node_reachable env vb vs b" "va \<in> vset_ids vs" "vb \<in> vset_ids vs"
    and "sm_state (n_fsm a) = StateCollecting" "sm_state (n_fsm b) = StateCollecting"
    and "sm_currentHeader (n_fsm a) = Some header" "sm_currentHeader (n_fsm b) = Some header"
    and "ch_latest (n_chain a) = ch_latest (n_chain b)" "dom (n_signatures a) \<noteq> dom (n_signatures b)"
    and "range_order (n_signatures a) oa" "range_order (n_signatures b) ob"
    and a': "a' = fst (checkConsensusState env a oa ta)" "sm_state (n_fsm a') = StateFinalized"
    and b': "b' = fst (checkConsensusState env b ob tb)" "sm_state (n_fsm b') = StateFinalized"
    and "GetLatest (n_chain a') = Some h" "GetLatest (n_chain b') = Some k"
    and "sized header" "sized_signatures l h" "sized_signatures l k" "\<And>x. length (env_H env x) = 32"
    and "inj_on (env_H env) {hash_input h, hash_input k, env_H env (hash_input h) @ signature_input h, env_H env (hash_input k) @ signature_input k}"
    and "n_chain m = n_chain a'"
  shows "\<exists>e. AddCheckpoint (env_H env) no_backend (n_chain b') (buildCheckpointHeader env m order now)
    = (n_chain b', buildCheckpointHeader env m order now, Some e)"
proof -
  let ?H = "env_H env" and ?new = "buildCheckpointHeader env m order now"
  have inv: "node_inv ?H va vs a" "node_inv ?H vb vs b" using node_reachable_inv assms(1,2) by blast+
  have vs: "n_validatorSet a = vs" "n_validatorSet b = vs" using inv by (simp_all add: node_inv_def)
  from tick_header [OF assms(5) a'(2) [unfolded a'(1)] assms(11,7)] assms(17)
  have h: "check_continuity ?H (ch_latest (n_chain a)) (header\<lparr>h_Signatures := h_Signatures h\<rparr>) = Inr h"
    and hs: "\<exists>s. h_Signatures h = Some s \<and> bits (the (cs_SignersBitmap s)) = signer_positions vs (dom (n_signatures a))"
    unfolding vs a'(1) by auto
  from tick_header [OF assms(6) b'(2) [unfolded b'(1)] assms(12,8)] assms(18)
  have k: "check_continuity ?H (ch_latest (n_chain a)) (header\<lparr>h_Signatures := h_Signatures k\<rparr>) = Inr k"
    and ks: "\<exists>s. h_Signatures k = Some s \<and> bits (the (cs_SignersBitmap s)) = signer_positions vs (dom (n_signatures b))"
    unfolding vs b'(1) assms(9) by auto
  have sub: "dom (n_signatures a) \<subseteq> vset_ids vs" "dom (n_signatures b) \<subseteq> vset_ids vs"
    using node_inv_signers(1) inv assms(3,4) by blast+
  with assms(10) have "signer_positions vs (dom (n_signatures a)) \<noteq> signer_positions vs (dom (n_signatures b))"
    by (simp add: signer_positions_inject)
  with hs ks have "signature_content h \<noteq> signature_content k" by (auto simp: signature_content_def)
  moreover have "sized h" "sized k"
    using check_continuity_sized [OF h] check_continuity_sized [OF k] assms(19) by (simp_all add: sized_def)
  ultimately have "ComputeParentHash ?H (Some h) \<noteq> ComputeParentHash ?H (Some k)"
    using ComputeParentHash_inject [OF _ _ assms(20-23)] by blast
  then have ne: "computeHeaderHash ?H (Some h) \<noteq> computeHeaderHash ?H (Some k)" "computeHeaderHash ?H (Some h) \<noteq> []"
    using assms(22) by (auto simp: computeHeaderHash_def ComputeParentHash_def ComputeHashForVerification_def Let_def)
      (metis list.size(3) zero_neq_numeral)
  have "h_ParentCpHash ?new = computeHeaderHash ?H (Some h)"
    using assms(17,24) by (simp add: build_parent computeHeaderHash_parent)
  then have "\<exists>e. check_continuity ?H (ch_latest (n_chain b')) ?new = Inl e"
    using ne assms(18) by (simp add: check_continuity_def GetLatest_def Let_def)
  then show ?thesis using AddCheckpoint_rejects by metis
qed

definition pair_set :: ValidatorSet where
  "pair_set = \<lparr>vs_Validators = [example_validator ''v1'' 1, example_validator ''v2'' 1], vs_MinValidators = 1,
     vs_ThresholdNum = 1, vs_ThresholdDenom = 2, vs_EffectiveEpoch = 0\<rparr>"

definition digest_env :: "(unit, unit, (bytes \<times> bytes) list) Node_Env" where
  "digest_env = example_env\<lparr>env_H := example_digest\<rparr>"

definition early_node :: "(unit, (bytes \<times> bytes) list) Node" where
  "early_node = fst (HandleProposal digest_env (NewNode digest_env ''v1'' () pair_set False False False example_config [])
     (example_proto_header 0) 1)"

definition late_node :: "(unit, (bytes \<times> bytes) list) Node" where
  "late_node = fst (AddSignature_node digest_env
     (fst (HandleProposal digest_env (NewNode digest_env ''v2'' () pair_set False False False example_config [])
        (example_proto_header 0) 1)) (signed_by example_digest ''v1'' (example_proto_header 0)) 2)"

lemma digest_env_simps [simp]: "env_lib digest_env = ideal_lib" "env_H digest_env = example_digest" "env_db digest_env = alist_db"
  by (simp_all add: digest_env_def)

lemma pair_set_facts: "Validate pair_set = Inr ()" "vset_ids pair_set = {''v1'', ''v2''}"
  by (simp_all add: spec_simps pair_set_def example_validator_def vset_distinct_def vset_ids_def)

lemma NewNode_digest: "NewNode digest_env vid () vs raft comet gossip cfg [] = fresh_node vid () vs raft comet gossip cfg []"
  by (simp add: NewNode_def loadCheckpoint_def fresh_node_def absent_def digest_env_def Get_ldb_def alist_db_def)

lemma pair_threshold: "sm_validatorSet sm = pair_set \<Longrightarrow> 0 < card (dom (sm_signatures sm)) \<Longrightarrow> HasThreshold sm = Inr True"
  by (simp add: HasThreshold_def checkThreshold_def RequiredSignatures_def Let_def pair_set_def)

lemma tick_of_first_round:
  assumes "n_fsm n = sm" "HasThreshold sm = Inr True" "sm_state sm = StateCollecting" "sm_currentHeader sm = Some h" "n_chain n = NewChain"
  shows "sm_state (n_fsm (fst (checkConsensusState env n order now))) = StateFinalized
    \<and> GetLatest (n_chain (fst (checkConsensusState env n order now))) = Some (h\<lparr>h_Signatures := Some (collected_signatures n order)\<rparr>)"
proof -
  obtain lt where lt: "fst (IsLeader n (n_currentEpoch n)) = n\<lparr>n_leaderTracker := lt\<rparr>" using IsLeader_tracker by blast
  have "collected_signatures (n\<lparr>n_leaderTracker := x\<rparr>) order = collected_signatures n order" for x
    by (simp add: collected_signatures_def createSignersBitmapLocked_def no_signatures_def)
  with assms show ?thesis
    by (simp add: checkConsensusState_def check_collecting_def Let_def case_prod_unfold finalizeCheckpoint_def lt
        AddCheckpoint_first NewChain_def Finalize_def GetLatest_def)
qed

definition pair_signatures :: "byte \<Rightarrow> nat \<Rightarrow> CheckpointSignatures" where
  "pair_signatures b k = \<lparr>cs_EcdsaSignatures = replicate k (replicate 64 7 @ 28 # example_digest (hash_input (example_proto_header 0))),
     cs_SignersBitmap = Some [b], cs_SignatureCount = word_of_nat k, cs_TotalWeight = word_of_nat k\<rparr>"

lemma pair_start: "node_reachable digest_env vid pair_set (NewNode digest_env vid () pair_set False False False example_config [])"
  by (rule node_reachable.start [OF pair_set_facts(1)]) (simp add: Get_ldb_def alist_db_def)

lemma early_node_facts:
  "node_reachable digest_env ''v1'' pair_set early_node" "sm_state (n_fsm early_node) = StateCollecting"
  "HasThreshold (n_fsm early_node) = Inr True"
  "sm_currentHeader (n_fsm early_node) = Some (example_proto_header 0)" "n_chain early_node = NewChain"
  "dom (n_signatures early_node) = {''v1''}" "collected_signatures early_node [''v1''] = pair_signatures 1 1"
proof -
  show "node_reachable digest_env ''v1'' pair_set early_node"
    unfolding early_node_def by (rule node_reachable.step [OF pair_start node_step.proposal])
  obtain sm where sm: "early_node = first_round example_digest ''v1'' pair_set sm" "sm_state sm = StateCollecting"
      "sm_signatures sm = [''v1'' \<mapsto> signed_by example_digest ''v1'' (example_proto_header 0)]" "sm_validatorSet sm = pair_set"
      "sm_currentHeader sm = Some (example_proto_header 0)"
    using first_proposal [OF pair_set_facts(1), of digest_env "''v1''"] by (auto simp: early_node_def NewNode_digest)
  show "sm_state (n_fsm early_node) = StateCollecting" "sm_currentHeader (n_fsm early_node) = Some (example_proto_header 0)"
      "n_chain early_node = NewChain" "dom (n_signatures early_node) = {''v1''}" "HasThreshold (n_fsm early_node) = Inr True"
    by (simp_all add: sm first_round_def fresh_node_def pair_threshold)
  show "collected_signatures early_node [''v1''] = pair_signatures 1 1"
    by (simp add: sm(1) first_round_def fresh_node_def collected_signatures_def createSignersBitmapLocked_def no_signatures_def
        set_signer_def pair_set_def example_validator_def bit_mask_def Let_def pair_signatures_def)
qed

lemma late_node_facts:
  "node_reachable digest_env ''v2'' pair_set late_node" "sm_state (n_fsm late_node) = StateCollecting"
  "HasThreshold (n_fsm late_node) = Inr True"
  "sm_currentHeader (n_fsm late_node) = Some (example_proto_header 0)" "n_chain late_node = NewChain"
  "dom (n_signatures late_node) = {''v1'', ''v2''}" "collected_signatures late_node [''v1'', ''v2''] = pair_signatures 3 2"
proof -
  show "node_reachable digest_env ''v2'' pair_set late_node"
    unfolding late_node_def
    by (rule node_reachable.step [OF node_reachable.step [OF pair_start node_step.proposal] node_step.signature])
  obtain sm where sm: "HandleProposal digest_env (fresh_node ''v2'' () pair_set False False False example_config []) (example_proto_header 0) 1
      = (first_round example_digest ''v2'' pair_set sm, Inr None)" "sm_inv pair_set sm" "sm_state sm = StateCollecting"
      "sm_signatures sm = [''v2'' \<mapsto> signed_by example_digest ''v2'' (example_proto_header 0)]" "sm_validatorSet sm = pair_set"
      "sm_currentHeader sm = Some (example_proto_header 0)"
    using first_proposal [OF pair_set_facts(1), of digest_env "''v2''"] by auto
  obtain sm' where sm': "late_node = (first_round example_digest ''v2'' pair_set sm)\<lparr>n_fsm := sm',
        n_signatures := [''v2'' \<mapsto> signed_by example_digest ''v2'' (example_proto_header 0),
           ''v1'' \<mapsto> signed_by example_digest ''v1'' (example_proto_header 0)]\<rparr>"
      "sm_signatures sm' = (sm_signatures sm)(''v1'' \<mapsto> signed_by example_digest ''v1'' (example_proto_header 0))"
      "sm_state sm' = StateCollecting" "sm_validatorSet sm' = pair_set" "sm_currentHeader sm' = Some (example_proto_header 0)"
    using second_signature [OF pair_set_facts(1) _ sm(2,3), of digest_env "''v1''" "''v2''"] sm(1,5,6)
    by (auto simp: late_node_def NewNode_digest pair_set_facts)
  show "sm_state (n_fsm late_node) = StateCollecting" "sm_currentHeader (n_fsm late_node) = Some (example_proto_header 0)"
      "n_chain late_node = NewChain" "dom (n_signatures late_node) = {''v1'', ''v2''}" "HasThreshold (n_fsm late_node) = Inr True"
    by (auto simp: first_round_def fresh_node_def sm' sm(4) intro!: pair_threshold)
  show "collected_signatures late_node [''v1'', ''v2''] = pair_signatures 3 2"
    by (simp add: sm'(1) first_round_def fresh_node_def collected_signatures_def createSignersBitmapLocked_def no_signatures_def
        set_signer_def pair_set_def example_validator_def bit_mask_def Let_def pair_signatures_def numeral_2_eq_2)
qed

theorem finalized_tips_diverge_witness:
  "snd (snd (AddCheckpoint example_digest no_backend (n_chain (fst (checkConsensusState digest_env late_node [''v1'', ''v2''] 3)))
     (buildCheckpointHeader digest_env (fst (checkConsensusState digest_env early_node [''v1''] 3)) [] 4))) \<noteq> None"
proof -
  let ?a = "fst (checkConsensusState digest_env early_node [''v1''] 3)"
  let ?b = "fst (checkConsensusState digest_env late_node [''v1'', ''v2''] 3)"
  define h where "h = (example_proto_header 0)\<lparr>h_Signatures := Some (pair_signatures 1 1)\<rparr>"
  define k where "k = (example_proto_header 0)\<lparr>h_Signatures := Some (pair_signatures 3 2)\<rparr>"
  note e = early_node_facts and l = late_node_facts
  have a: "sm_state (n_fsm ?a) = StateFinalized" "GetLatest (n_chain ?a) = Some h"
    using tick_of_first_round [OF refl e(3,2,4,5), of digest_env "[''v1'']" 3] e(7) by (simp_all add: h_def)
  have b: "sm_state (n_fsm ?b) = StateFinalized" "GetLatest (n_chain ?b) = Some k"
    using tick_of_first_round [OF refl l(3,2,4,5), of digest_env "[''v1'', ''v2'']" 3] l(7) by (simp_all add: k_def)
  have digest: "example_digest x = example_digest y \<longleftrightarrow> (word_of_nat (length x) :: byte) = word_of_nat (length y)"
    "length (example_digest x) = 32" for x y
    by (simp_all add: example_digest_def)
  have same: "hash_input h = hash_input (example_proto_header 0)" "hash_input k = hash_input (example_proto_header 0)"
    by (simp_all add: h_def k_def hash_input_eq hashed_parent_def hashed_root_def)
  have lengths: "length (hash_input (example_proto_header 0)) = 153" "length (signature_input h) = 106" "length (signature_input k) = 203"
    by (simp_all add: hash_input_eq writeLengthPrefixedBytes_def signature_input_def writeSignatures_def sortSignatures_def
        h_def k_def example_proto_header_def digest pair_signatures_def numeral_2_eq_2)
  have sep: "inj_on (env_H digest_env) {hash_input h, hash_input k, env_H digest_env (hash_input h) @ signature_input h,
      env_H digest_env (hash_input k) @ signature_input k}"
    unfolding inj_on_def by (auto simp: digest same lengths)
  have sizes: "sized (example_proto_header 0)" "sized_signatures 97 h" "sized_signatures 97 k"
    by (simp_all add: sized_def sized_signatures_def h_def k_def example_proto_header_def digest pair_signatures_def list_all_iff)
  have "ch_latest (n_chain early_node) = ch_latest (n_chain late_node)" "dom (n_signatures early_node) \<noteq> dom (n_signatures late_node)"
      "range_order (n_signatures early_node) [''v1'']" "range_order (n_signatures late_node) [''v1'', ''v2'']"
    by (auto simp: e l range_order_def)
  note diverge = finalized_tips_diverge [OF e(1) l(1) _ _ e(2) l(2) e(4) l(4) this refl a(1) refl b(1) a(2) b(2) sizes _ sep refl, of "[]" 4]
  then show ?thesis by (auto simp: digest pair_set_facts)
qed

end
