(* ===== verification/Validation_Bundles.thy ===== *)
theory Validation_Bundles
  imports Validator_Node "HOL-Library.Product_Lexorder"
begin

text \<open>
  The validation bundles of the validator node (\<open>src/internal/validator/node.go\<close>): the signature over the intents
  of an epoch, the collection of the other validators' signatures, the batch submitted to the root layer, and
  the handlers that the Raft and CometBFT engines call. A call that leaves the node, or that the node starts
  in a goroutine, is an effect that the handler returns. The contract SDK, go-ethereum and the text format of
  protobuf are the fields of \<open>Bundle_Lib\<close>; the answers of the engines are arguments.
\<close>

section \<open>Model\<close>

subsection \<open>Messages\<close>

record ValidationSignature =
  vsg_Validator :: string
  vsg_Signature :: bytes

record ValidationBundle =
  bu_SubnetId :: string
  bu_IntentId :: string
  bu_AssignmentId :: string
  bu_AgentId :: string
  bu_RootHeight :: u64
  bu_RootHash :: string
  bu_ExecutedAt :: int
  bu_ResultHash :: bytes
  bu_ProofHash :: bytes
  bu_Signatures :: "ValidationSignature list"
  bu_SignerBitmap :: bytes
  bu_TotalWeight :: u64
  bu_AggregatorId :: string
  bu_CompletedAt :: int

record ValidationItem =
  it_IntentId :: string
  it_AssignmentId :: string
  it_AgentId :: string
  it_ExecutedAt :: int
  it_ResultHash :: bytes
  it_ProofHash :: bytes

record ValidationBatchGroup =
  gr_SubnetId :: string
  gr_RootHeight :: u64
  gr_RootHash :: string
  gr_AggregatorId :: string
  gr_CompletedAt :: int
  gr_Signatures :: "ValidationSignature list"
  gr_SignerBitmap :: bytes
  gr_TotalWeight :: u64
  gr_Items :: "ValidationItem list"
  gr_ItemsHash :: bytes

text \<open>The item and the batch of the SDK, with identifiers as the 32 and 20 bytes that go-ethereum makes of them.\<close>

record sdk_item =
  si_IntentID :: bytes
  si_AssignmentID :: bytes
  si_Agent :: bytes
  si_ResultHash :: bytes
  si_ProofHash :: bytes

record sdk_batch =
  sb_SubnetID :: bytes
  sb_ItemsHash :: bytes
  sb_RootHeight :: u64
  sb_RootHash :: bytes
  sb_Items :: "sdk_item list"

record Bundle_Lib =
  bl_header_text :: "CheckpointHeader \<Rightarrow> bytes"
  bl_sha256 :: "bytes \<Rightarrow> bytes"
  bl_HexToHash :: "string \<Rightarrow> bytes"
  bl_HexToAddress :: "string \<Rightarrow> bytes"
  bl_sdk :: bool
  bl_ComputeItemsHash :: "sdk_item list \<Rightarrow> bytes option"
  bl_ComputeBatchDigest :: "sdk_batch \<Rightarrow> bytes option"
  bl_SignDigest :: "bytes \<Rightarrow> bytes option"
  bl_Address :: string

datatype node_effect =
    GossipSignature Signature u64 bytes
  | GossipBundleSignature ValidationBundleSignature
  | CometBundleSignature ValidationBundleSignature
  | SubmitHeader submission
  | SubmitBundles u64
  | RaftCheckpoint CheckpointHeader
  | CometCheckpoint CheckpointHeader
  | RaftClearPending "string list"

definition MaxIntentsPerEpoch :: nat where "MaxIntentsPerEpoch = 10"
definition keepRecentEpochs :: u64 where "keepRecentEpochs = 3"

subsection \<open>Intents of the pending reports\<close>

text \<open>\<open>order\<close> is the order in which the runtime visits the reports.\<close>

definition groupReportsByIntent ::
  "(string \<rightharpoonup> ExecutionReport) \<Rightarrow> string list \<Rightarrow> (string \<rightharpoonup> ExecutionReport list)" where
  "groupReportsByIntent reports order =
     foldl (\<lambda>grouped reportID.
       case reports reportID of
         None \<Rightarrow> grouped
       | Some report \<Rightarrow>
           grouped(intent_key report \<mapsto> (case grouped (intent_key report) of None \<Rightarrow> [] | Some rs \<Rightarrow> rs) @ [report]))
       Map.empty order"

definition clearReportsForIntent :: "('sk, 'd) Node \<Rightarrow> string \<Rightarrow> string list \<Rightarrow> ('sk, 'd) Node \<times> node_effect list" where
  "clearReportsForIntent n intentKey order =
     (let removedKeys = filter (\<lambda>reportID. map_option intent_key (n_pendingReports n reportID) = Some intentKey) order in
      (n\<lparr>n_pendingReports := n_pendingReports n |` (- set removedKeys),
         n_reportScores := n_reportScores n |` (- set removedKeys),
         n_reportReceivedAt := (n_reportReceivedAt n)(intentKey := None)\<rparr>,
       if n_raft n \<and> removedKeys \<noteq> [] then [RaftClearPending removedKeys] else []))"

text \<open>The comparison of the sort: reports without a reception time last, then by time, then by key.\<close>

definition received_before :: "string \<times> int \<Rightarrow> string \<times> int \<Rightarrow> bool" where
  "received_before a b =
     (if snd a = 0 \<and> snd b = 0 then fst a < fst b
      else if snd a = 0 then False
      else if snd b = 0 then True
      else if snd a = snd b then fst a < fst b
      else snd a < snd b)"

definition fifo_rank :: "string \<times> int \<Rightarrow> bool \<times> int \<times> string" where
  "fifo_rank a = (snd a = 0, snd a, fst a)"

text \<open>The intents of an epoch in the order of their reception, the first ten of them.\<close>

definition select_intents :: "('sk, 'd) Node \<Rightarrow> string list \<Rightarrow> string list" where
  "select_intents n keys =
     (let intents = map (\<lambda>k. (k, case n_reportReceivedAt n k of Some t \<Rightarrow> t | None \<Rightarrow> 0)) keys in
      map fst (take MaxIntentsPerEpoch (sort_key fifo_rank intents)))"

subsection \<open>Signatures of an epoch\<close>

definition storeEpochValidationSignature ::
  "('sk, 'd) Node \<Rightarrow> ValidationBundleSignature \<Rightarrow> ('sk, 'd) Node \<times> (go_panic + bool \<times> nat)" where
  "storeEpochValidationSignature n vbSig =
     (let signatures = (case n_epochValidationSignatures n (vb_Epoch vbSig) of Some m \<Rightarrow> m | None \<Rightarrow> Map.empty);
          stored = (if signatures (vb_ValidatorAddress vbSig) \<noteq> None then signatures
                    else signatures(vb_ValidatorAddress vbSig \<mapsto> vbSig));
          n1 = n\<lparr>n_epochValidationSignatures := (n_epochValidationSignatures n)(vb_Epoch vbSig \<mapsto> stored)\<rparr>;
          sigCount = card (dom stored) in
      (n1, case CheckThreshold (n_validatorSet n) (int sigCount) of Inl p \<Rightarrow> Inl p | Inr b \<Rightarrow> Inr (b, sigCount)))"

definition epoch_format :: "ValidationBundleSignature \<Rightarrow> bool" where
  "epoch_format vbSig \<longleftrightarrow> vb_IntentId vbSig = [] \<and> vb_AssignmentId vbSig = [] \<and> vb_AgentId vbSig = []"

definition already_triggered :: "('sk, 'd) Node \<Rightarrow> u64 \<Rightarrow> bool" where
  "already_triggered n epoch = (case n_epochSubmissionTriggered n epoch of Some b \<Rightarrow> b | None \<Rightarrow> False)"

text \<open>The submission of an epoch is started once; \<open>may_submit\<close> is the engine's condition.\<close>

definition trigger_submission :: "('sk, 'd) Node \<Rightarrow> u64 \<Rightarrow> bool \<Rightarrow> ('sk, 'd) Node \<times> node_effect list" where
  "trigger_submission n epoch may_submit =
     (if \<not> already_triggered n epoch \<and> may_submit
      then (n\<lparr>n_epochSubmissionTriggered := (n_epochSubmissionTriggered n)(epoch \<mapsto> True)\<rparr>, [SubmitBundles epoch])
      else (n, []))"

definition store_legacy_signature ::
  "('sk, 'd) Node \<Rightarrow> bool \<Rightarrow> ValidationBundleSignature \<Rightarrow> ('sk, 'd) Node \<times> (go_panic + node_effect list)" where
  "store_legacy_signature n raftLeader vbSig =
     (let intentKey = vb_IntentId vbSig @ CHR '':'' # vb_AssignmentId vbSig @ CHR '':'' # vb_AgentId vbSig;
          signatures = (case n_validationBundleSignatures n intentKey of Some m \<Rightarrow> m | None \<Rightarrow> Map.empty) in
      if signatures (vb_ValidatorAddress vbSig) \<noteq> None
      then (n\<lparr>n_validationBundleSignatures := (n_validationBundleSignatures n)(intentKey \<mapsto> signatures)\<rparr>, Inr [])
      else
        let stored = signatures(vb_ValidatorAddress vbSig \<mapsto> vbSig);
            n1 = n\<lparr>n_validationBundleSignatures := (n_validationBundleSignatures n)(intentKey \<mapsto> stored)\<rparr> in
        (n1, case CheckThreshold (n_validatorSet n) (int (card (dom stored))) of
               Inl p \<Rightarrow> Inl p
             | Inr b \<Rightarrow> Inr (if b \<and> n_raft n \<and> raftLeader then [SubmitBundles (vb_Epoch vbSig)] else [])))"

definition onValidationBundleSignatureReceived ::
  "('sk, 'd) Node \<Rightarrow> bool \<Rightarrow> ValidationBundleSignature option \<Rightarrow> ('sk, 'd) Node \<times> (go_panic + node_effect list)" where
  "onValidationBundleSignatureReceived n raftLeader msg =
     (case msg of
        None \<Rightarrow> (n, Inr [])
      | Some vbSig \<Rightarrow>
          if vb_ValidatorAddress vbSig = [] \<or> vb_Signature vbSig = [] then (n, Inr [])
          else if epoch_format vbSig then
            (case storeEpochValidationSignature n vbSig of
               (n1, Inl p) \<Rightarrow> (n1, Inl p)
             | (n1, Inr (thresholdReached, _)) \<Rightarrow>
                 if thresholdReached
                 then (case trigger_submission n1 (vb_Epoch vbSig) (n_raft n1 \<and> raftLeader) of (n2, fx) \<Rightarrow> (n2, Inr fx))
                 else (n1, Inr []))
          else if vb_IntentId vbSig = [] \<or> vb_AssignmentId vbSig = [] then (n, Inr [])
          else store_legacy_signature n raftLeader vbSig)"

definition handleValidationSignatureFromCometBFT ::
  "('sk, 'd) Node \<Rightarrow> ValidationBundleSignature option \<Rightarrow> ('sk, 'd) Node \<times> (go_panic + node_effect list)" where
  "handleValidationSignatureFromCometBFT n msg =
     (case msg of
        None \<Rightarrow> (n, Inr [])
      | Some vbSig \<Rightarrow>
          if vb_ValidatorAddress vbSig = [] \<or> vb_Signature vbSig = [] then (n, Inr [])
          else if \<not> epoch_format vbSig then (n, Inr [])
          else
            case storeEpochValidationSignature n vbSig of
              (n1, Inl p) \<Rightarrow> (n1, Inl p)
            | (n1, Inr (thresholdReached, _)) \<Rightarrow>
                if thresholdReached
                then (case trigger_submission n1 (vb_Epoch vbSig) True of (n2, fx) \<Rightarrow> (n2, Inr fx))
                else (n1, Inr []))"

definition cleanupOldEpochData :: "('sk, 'd) Node \<Rightarrow> u64 \<Rightarrow> ('sk, 'd) Node" where
  "cleanupOldEpochData n finalizedEpoch =
     (if finalizedEpoch > keepRecentEpochs then
        let cutoffEpoch = finalizedEpoch - keepRecentEpochs in
        n\<lparr>n_epochValidationSignatures := n_epochValidationSignatures n |` {e. \<not> e < cutoffEpoch},
          n_epochIntents := n_epochIntents n |` {e. \<not> e < cutoffEpoch},
          n_epochSubmissionTriggered := n_epochSubmissionTriggered n |` {e. \<not> e < cutoffEpoch}\<rparr>
      else n)"

definition handleCheckpointFinalized :: "('sk, 'd) Node \<Rightarrow> CheckpointHeader option \<Rightarrow> ('sk, 'd) Node" where
  "handleCheckpointFinalized n header =
     (case header of None \<Rightarrow> n | Some h \<Rightarrow> cleanupOldEpochData n (h_Epoch h))"

definition handleExecutionReportCommitted ::
  "('sk, 'pk, 'd) Node_Env \<Rightarrow> ('sk, 'd) Node \<Rightarrow> ExecutionReport option \<Rightarrow> string \<Rightarrow> int \<Rightarrow> ('sk, 'd) Node" where
  "handleExecutionReportCommitted env n msg reportKey now =
     (case msg of
        None \<Rightarrow> n
      | Some report \<Rightarrow>
          if reportKey = [] then n
          else if n_pendingReports n reportKey \<noteq> None then n
          else save_report env
                 (n\<lparr>n_pendingReports := (n_pendingReports n)(reportKey \<mapsto> report),
                    n_reportScores := (n_reportScores n)(reportKey \<mapsto> env_score env report now),
                    n_reportReceivedAt := (n_reportReceivedAt n)(intent_key report \<mapsto> now div second)\<rparr>) reportKey report)"

subsection \<open>Signing the intents of an epoch\<close>

text \<open>\<open>copy\<close> of a slice into a zeroed array of 32 bytes.\<close>

definition copy32 :: "bytes \<Rightarrow> bytes" where
  "copy32 bs = take 32 (bs @ replicate 32 0)"

definition sign_item :: "Bundle_Lib \<Rightarrow> CheckpointHeader \<Rightarrow> ExecutionReport \<Rightarrow> sdk_item" where
  "sign_item lib header report =
     \<lparr>si_IntentID = bl_HexToHash lib (er_IntentId report), si_AssignmentID = bl_HexToHash lib (er_AssignmentId report),
      si_Agent = bl_HexToAddress lib (er_AgentId report), si_ResultHash = bl_sha256 lib (bl_header_text lib header),
      si_ProofHash =
        (case h_Roots header of
           None \<Rightarrow> zeros32
         | Some roots \<Rightarrow> if cr_EventRoot roots \<noteq> [] then copy32 (cr_EventRoot roots) else zeros32)\<rparr>"

definition sign_items :: "Bundle_Lib \<Rightarrow> CheckpointHeader \<Rightarrow> (string \<rightharpoonup> ExecutionReport list) \<Rightarrow> string list \<Rightarrow> sdk_item list" where
  "sign_items lib header grouped intentKeys =
     List.map_filter (\<lambda>k. case grouped k of Some (report # _) \<Rightarrow> Some (sign_item lib header report) | _ \<Rightarrow> None) intentKeys"

definition signed_batch :: "Bundle_Lib \<Rightarrow> ('sk, 'd) Node \<Rightarrow> CheckpointHeader \<Rightarrow> sdk_item list \<Rightarrow> bytes \<Rightarrow> sdk_batch" where
  "signed_batch lib n header items itemsHash =
     \<lparr>sb_SubnetID = bl_HexToHash lib (nc_SubnetID (n_config n)), sb_ItemsHash = itemsHash, sb_RootHeight = h_Epoch header,
      sb_RootHash = copy32 (h_ParentCpHash header), sb_Items = items\<rparr>"

text \<open>The digest of the batch and its signature; \<open>None\<close> is an error of the SDK.\<close>

definition sign_batch :: "Bundle_Lib \<Rightarrow> ('sk, 'd) Node \<Rightarrow> CheckpointHeader \<Rightarrow> sdk_item list \<Rightarrow> (bytes \<times> bytes) option" where
  "sign_batch lib n header items =
     Option.bind (bl_ComputeItemsHash lib items) (\<lambda>itemsHash.
     Option.bind (bl_ComputeBatchDigest lib (signed_batch lib n header items itemsHash)) (\<lambda>digest.
     Option.bind (bl_SignDigest lib digest) (\<lambda>signature. Some (digest, signature))))"

text \<open>\<open>keys\<close> is the order in which the runtime visits the groups.\<close>

definition signAndGossipValidationBundles ::
  "Bundle_Lib \<Rightarrow> ('sk, 'd) Node \<Rightarrow> bool \<Rightarrow> CheckpointHeader \<Rightarrow> (string \<rightharpoonup> ExecutionReport list) \<Rightarrow> string list \<Rightarrow> int
     \<Rightarrow> ('sk, 'd) Node \<times> (go_panic + node_effect list)" where
  "signAndGossipValidationBundles lib n raftLeader header grouped keys now =
     (if \<not> bl_sdk lib then (n, Inr [])
      else if n_raft n \<and> \<not> n_gossip n then (n, Inr [])
      else if keys = [] then (n, Inr [])
      else
        let intentKeys = select_intents n keys; items = sign_items lib header grouped intentKeys in
        if items = [] then (n, Inr [])
        else case sign_batch lib n header items of
          None \<Rightarrow> (n, Inr [])
        | Some (digest, signature) \<Rightarrow>
            let n1 = n\<lparr>n_epochIntents := (n_epochIntents n)(h_Epoch header \<mapsto> intentKeys)\<rparr>;
                vbSig = \<lparr>vb_IntentId = [], vb_AssignmentId = [], vb_AgentId = [], vb_Epoch = h_Epoch header,
                         vb_ValidatorAddress = bl_Address lib, vb_Signature = signature, vb_Timestamp = now div second,
                         vb_BundleDigestHash = digest\<rparr>;
                broadcast = (if n_comet n then [CometBundleSignature vbSig]
                             else if n_raft n then [GossipBundleSignature vbSig] else []) in
            case storeEpochValidationSignature n1 vbSig of
              (n2, Inl p) \<Rightarrow> (n2, Inl p)
            | (n2, Inr (thresholdReached, _)) \<Rightarrow>
                if thresholdReached
                then (case trigger_submission n2 (h_Epoch header)
                             (if n_raft n2 then raftLeader else n_comet n2) of
                        (n3, fx) \<Rightarrow> (n3, Inr (fx @ broadcast)))
                else (n2, Inr broadcast))"

text \<open>The three attempts of a CometBFT broadcast; \<open>ok\<close> is the answer to the n-th. The result is how many were made and the outcome.\<close>

function broadcast_from :: "(nat \<Rightarrow> bool) \<Rightarrow> nat \<Rightarrow> nat \<times> bool" where
  "broadcast_from ok attempt =
     (if ok attempt then (attempt, True) else if attempt < 3 then broadcast_from ok (attempt + 1) else (attempt, False))"
  by pat_completeness auto
termination by (relation "measure (\<lambda>(_, attempt). 3 - attempt)") auto

definition broadcastValidationSignatureToCometBFT :: "('sk, 'd) Node \<Rightarrow> (nat \<Rightarrow> bool) \<Rightarrow> nat \<times> bool" where
  "broadcastValidationSignatureToCometBFT n ok = (if \<not> n_comet n then (0, False) else broadcast_from ok 1)"

subsection \<open>The batch\<close>

definition proof_root :: "CheckpointHeader \<Rightarrow> bytes" where
  "proof_root header =
     (case h_Roots header of None \<Rightarrow> [] | Some roots \<Rightarrow> if cr_EventRoot roots \<noteq> [] then cr_EventRoot roots else [])"

definition root_hash_text :: "Bundle_Lib \<Rightarrow> CheckpointHeader \<Rightarrow> string" where
  "root_hash_text lib header =
     (if h_ParentCpHash header = [] then ''0x'' @ replicate 64 (CHR ''0'')
      else if length (h_ParentCpHash header) > 32 then ''0x'' @ EncodeToString (bl_sha256 lib (h_ParentCpHash header))
      else ''0x'' @ EncodeToString (h_ParentCpHash header))"

definition buildValidationBundleForIntent ::
  "Bundle_Lib \<Rightarrow> ('sk, 'd) Node \<Rightarrow> CheckpointHeader \<Rightarrow> ExecutionReport list \<Rightarrow> int \<Rightarrow> ValidationBundle option" where
  "buildValidationBundleForIntent lib n header reports now =
     (case reports of
        [] \<Rightarrow> None
      | firstReport # _ \<Rightarrow>
          if er_IntentId firstReport = [] \<or> er_AssignmentId firstReport = [] \<or> er_AgentId firstReport = [] then None
          else Some
            \<lparr>bu_SubnetId = nc_SubnetID (n_config n), bu_IntentId = er_IntentId firstReport,
             bu_AssignmentId = er_AssignmentId firstReport, bu_AgentId = er_AgentId firstReport,
             bu_RootHeight = h_Epoch header, bu_RootHash = root_hash_text lib header, bu_ExecutedAt = h_Timestamp header,
             bu_ResultHash = bl_sha256 lib (bl_header_text lib header), bu_ProofHash = proof_root header,
             bu_Signatures = [], bu_SignerBitmap = [], bu_TotalWeight = 0, bu_AggregatorId = n_id n,
             bu_CompletedAt = now div second\<rparr>)"

definition bundle_item :: "ValidationBundle \<Rightarrow> ValidationItem" where
  "bundle_item b =
     \<lparr>it_IntentId = bu_IntentId b, it_AssignmentId = bu_AssignmentId b, it_AgentId = bu_AgentId b,
      it_ExecutedAt = bu_ExecutedAt b, it_ResultHash = bu_ResultHash b, it_ProofHash = bu_ProofHash b\<rparr>"

definition sdk_item_of :: "Bundle_Lib \<Rightarrow> ValidationItem \<Rightarrow> sdk_item" where
  "sdk_item_of lib item =
     \<lparr>si_IntentID = bl_HexToHash lib (it_IntentId item), si_AssignmentID = bl_HexToHash lib (it_AssignmentId item),
      si_Agent = bl_HexToAddress lib (it_AgentId item),
      si_ResultHash = (if length (it_ResultHash item) \<ge> 32 then take 32 (it_ResultHash item) else zeros32),
      si_ProofHash = (if length (it_ProofHash item) \<ge> 32 then take 32 (it_ProofHash item) else zeros32)\<rparr>"

text \<open>
  The fallback over the signatures per intent: the inner loop stops at the first signature of the epoch.
  \<open>intents\<close> lists the intents and, for each, its validators in the order of the runtime.
\<close>

definition aggregate_legacy ::
  "('sk, 'd) Node \<Rightarrow> u64 \<Rightarrow> (string \<times> string list) list \<Rightarrow> (string \<rightharpoonup> ValidationBundleSignature)" where
  "aggregate_legacy n epoch intents =
     foldl (\<lambda>agg (intent, validators).
       case Option.bind (n_validationBundleSignatures n intent) (\<lambda>sigs.
              Option.bind (List.find (\<lambda>v. map_option vb_Epoch (sigs v) = Some epoch) validators) (\<lambda>v. map_option (Pair v) (sigs v))) of
         None \<Rightarrow> agg
       | Some (v, sig) \<Rightarrow> agg(v \<mapsto> sig)) Map.empty intents"

definition signature_list :: "(string \<rightharpoonup> ValidationBundleSignature) \<Rightarrow> string list \<Rightarrow> ValidationSignature list" where
  "signature_list sigs order =
     List.map_filter (\<lambda>v. map_option (\<lambda>s. \<lparr>vsg_Validator = v, vsg_Signature = vb_Signature s\<rparr>) (sigs v)) order"

datatype batch_panic = BundleHasSignatures nat | NoBatchSupport | NoGroup | SubmissionFailed u64

text \<open>\<open>None\<close> is the nil result; \<open>order\<close> lists the validators of the map that is used.\<close>

definition convertToValidationBatchGroup ::
  "Bundle_Lib \<Rightarrow> ('sk, 'd) Node \<Rightarrow> CheckpointHeader \<Rightarrow> ValidationBundle list \<Rightarrow> (string \<times> string list) list \<Rightarrow> string list
     \<Rightarrow> batch_panic + ValidationBatchGroup option" where
  "convertToValidationBatchGroup lib n header bundles intents order =
     (case bundles of
        [] \<Rightarrow> Inr None
      | firstBundle # _ \<Rightarrow>
          (case List.find (\<lambda>i. bu_Signatures (bundles ! i) \<noteq> []) [0..<length bundles] of
             Some i \<Rightarrow> Inl (BundleHasSignatures i)
           | None \<Rightarrow>
               let epochSigs = (case n_epochValidationSignatures n (h_Epoch header) of Some m \<Rightarrow> m | None \<Rightarrow> Map.empty);
                   sigs = (if card (dom epochSigs) = 0 then aggregate_legacy n (h_Epoch header) intents else epochSigs);
                   items = map bundle_item bundles;
                   itemsHash = (if bl_sdk lib \<and> items \<noteq> []
                                then (case bl_ComputeItemsHash lib (map (sdk_item_of lib) items) of Some d \<Rightarrow> d | None \<Rightarrow> [])
                                else []) in
               if card (dom sigs) = 0 then Inr None
               else Inr (Some
                 \<lparr>gr_SubnetId = bu_SubnetId firstBundle, gr_RootHeight = bu_RootHeight firstBundle,
                  gr_RootHash = bu_RootHash firstBundle, gr_AggregatorId = bu_AggregatorId firstBundle,
                  gr_CompletedAt = bu_CompletedAt firstBundle, gr_Signatures = signature_list sigs order,
                  gr_SignerBitmap = [], gr_TotalWeight = 0, gr_Items = items, gr_ItemsHash = itemsHash\<rparr>)))"

text \<open>
  \<open>supports\<close> says whether the client has the batch call, \<open>submit\<close> is that call with the flags of the response; \<open>None\<close> is its error.
\<close>

definition submitValidationBundleBatch ::
  "Bundle_Lib \<Rightarrow> ('sk, 'd) Node \<Rightarrow> bool \<Rightarrow> (ValidationBatchGroup \<Rightarrow> string \<Rightarrow> bool list option) \<Rightarrow> CheckpointHeader
     \<Rightarrow> ValidationBundle list \<Rightarrow> string list \<Rightarrow> (string \<times> string list) list \<Rightarrow> string list \<Rightarrow> int
     \<Rightarrow> batch_panic + string list \<times> string list" where
  "submitValidationBundleBatch lib n supports submit header bundles intentKeys intents order now =
     (if bundles = [] then Inr ([], [])
      else if \<not> supports then Inl NoBatchSupport
      else case convertToValidationBatchGroup lib n header bundles intents order of
        Inl p \<Rightarrow> Inl p
      | Inr None \<Rightarrow> Inl NoGroup
      | Inr (Some grp) \<Rightarrow>
          (case submit grp (''epoch-'' @ dec (unat (h_Epoch header)) @ ''-'' @ dec_int (now div second)) of
             None \<Rightarrow> Inl (SubmissionFailed (h_Epoch header))
           | Some results \<Rightarrow>
               Inr (map fst (filter snd (zip intentKeys results)), map fst (filter (\<lambda>(_, ok). \<not> ok) (zip intentKeys results)))))"

subsection \<open>Submission\<close>

text \<open>
  What the root layer and the runtime contribute to a submission: the batch call, and the orders in which the maps are visited.
  \<open>or_reports k\<close> is the order of the pending reports when the intent \<open>k\<close> is looked up.
\<close>

record Submission_Run =
  sr_connected :: bool
  sr_supports :: bool
  sr_submit :: "ValidationBatchGroup \<Rightarrow> string \<Rightarrow> bool list option"
  or_reports :: "string \<Rightarrow> string list"
  or_available :: "string list"
  or_groups :: "string list"
  or_intents :: "(string \<times> string list) list"
  or_signers :: "string list"
  or_pending :: "string list"

definition has_prefix :: "string \<Rightarrow> string \<Rightarrow> bool" where
  "has_prefix intentKey reportKey \<longleftrightarrow>
     length reportKey > length intentKey \<and> take (length intentKey) reportKey = intentKey
     \<and> reportKey ! length intentKey = CHR '':''"

text \<open>One report for each intent of the epoch, keyed by its report key.\<close>

definition available_reports ::
  "('sk, 'd) Node \<Rightarrow> string list \<Rightarrow> (string \<Rightarrow> string list) \<Rightarrow> (string \<rightharpoonup> ExecutionReport)" where
  "available_reports n intentKeys orders =
     foldl (\<lambda>m k. case List.find (has_prefix k) (orders k) of
                    None \<Rightarrow> m
                  | Some reportKey \<Rightarrow> (case n_pendingReports n reportKey of None \<Rightarrow> m | Some r \<Rightarrow> m(reportKey \<mapsto> r)))
       Map.empty intentKeys"

text \<open>The first locked part: the header and the reports, or nothing if there is nothing to submit yet.\<close>

definition prepare_submission ::
  "('sk, 'd) Node \<Rightarrow> u64 \<Rightarrow> (string \<Rightarrow> string list) \<Rightarrow> (CheckpointHeader \<times> (string \<rightharpoonup> ExecutionReport)) option" where
  "prepare_submission n epoch orders =
     (case n_currentCheckpoint n of
        None \<Rightarrow> None
      | Some header \<Rightarrow>
          if h_Epoch header \<noteq> epoch then None
          else case n_epochIntents n epoch of
            None \<Rightarrow> None
          | Some [] \<Rightarrow> None
          | Some intentKeys \<Rightarrow>
              let available = available_reports n intentKeys orders in
              if 2 * card (dom available) < length intentKeys then None
              else if card (dom available) = 0 then None
              else Some (header, available))"

text \<open>The bundles of the groups, in the order in which the groups are visited.\<close>

definition build_bundles ::
  "Bundle_Lib \<Rightarrow> ('sk, 'd) Node \<Rightarrow> CheckpointHeader \<Rightarrow> (string \<rightharpoonup> ExecutionReport list) \<Rightarrow> string list \<Rightarrow> int
     \<Rightarrow> (ValidationBundle \<times> string) list" where
  "build_bundles lib n header grouped keys now =
     List.map_filter (\<lambda>k. Option.bind (grouped k) (\<lambda>reports.
       map_option (\<lambda>b. (b, k)) (buildValidationBundleForIntent lib n header reports now))) keys"

fun clear_intents :: "('sk, 'd) Node \<Rightarrow> string list \<Rightarrow> string list \<Rightarrow> ('sk, 'd) Node \<times> node_effect list" where
  "clear_intents n [] order = (n, [])"
| "clear_intents n (k # ks) order =
     (case clearReportsForIntent n k order of (n1, fx) \<Rightarrow>
      case clear_intents n1 ks order of (n2, gx) \<Rightarrow> (n2, fx @ gx))"

text \<open>The part after the wait of 15 seconds, on the node as it is then.\<close>

definition submit_groups ::
  "Bundle_Lib \<Rightarrow> ('sk, 'd) Node \<Rightarrow> Submission_Run \<Rightarrow> CheckpointHeader \<Rightarrow> (string \<rightharpoonup> ExecutionReport list) \<Rightarrow> int
     \<Rightarrow> ('sk, 'd) Node \<times> (batch_panic + node_effect list)" where
  "submit_groups lib n run header grouped now =
     (let built = build_bundles lib n header grouped (or_groups run) now in
      case submitValidationBundleBatch lib n (sr_supports run) (sr_submit run) header (map fst built) (map snd built)
             (or_intents run) (or_signers run) now of
        Inl p \<Rightarrow> (n, Inl p)
      | Inr (successful, failed) \<Rightarrow>
          (case clear_intents n successful (or_pending run) of (n', fx) \<Rightarrow> (n', Inr fx)))"

definition submitValidationBundlesForEpoch ::
  "Bundle_Lib \<Rightarrow> ('sk, 'd) Node \<Rightarrow> ('sk, 'd) Node \<Rightarrow> Submission_Run \<Rightarrow> u64 \<Rightarrow> int
     \<Rightarrow> ('sk, 'd) Node \<times> (batch_panic + node_effect list)" where
  "submitValidationBundlesForEpoch lib n later run epoch now =
     (case prepare_submission n epoch (or_reports run) of
        None \<Rightarrow> (later, Inr [])
      | Some (header, available) \<Rightarrow>
          submit_groups lib later run header (groupReportsByIntent available (or_available run)) now)"

definition submitToRootLayerWithData ::
  "Bundle_Lib \<Rightarrow> ('sk, 'd) Node \<Rightarrow> Submission_Run \<Rightarrow> submission \<Rightarrow> int \<Rightarrow> ('sk, 'd) Node \<times> (batch_panic + node_effect list)" where
  "submitToRootLayerWithData lib later run job now =
     (if \<not> sr_connected run then (later, Inr [])
      else if card (dom (sub_reports job)) = 0 then (later, Inr [])
      else submit_groups lib later run (sub_header job) (groupReportsByIntent (sub_reports job) (or_available run)) now)"

text \<open>
  The attempts of a single submission; \<open>outcome\<close> is the result of the n-th: \<open>None\<close> for success, otherwise whether the
  error text names a state that the root layer may still reach.
\<close>

function submit_from :: "(nat \<Rightarrow> bool option) \<Rightarrow> nat \<Rightarrow> bool" where
  "submit_from outcome attempt =
     (if attempt > 5 then False
      else case outcome attempt of
        None \<Rightarrow> True
      | Some retryable \<Rightarrow> if retryable then submit_from outcome (attempt + 1) else False)"
  by pat_completeness auto
termination by (relation "measure (\<lambda>(_, attempt). 6 - attempt)") auto

definition submitSingleValidationBundle :: "(nat \<Rightarrow> bool option) \<Rightarrow> bool" where
  "submitSingleValidationBundle outcome = submit_from outcome 1"

definition submitIndividualValidationBundles ::
  "(ValidationBundle \<Rightarrow> nat \<Rightarrow> bool option) \<Rightarrow> ValidationBundle list \<Rightarrow> string list \<Rightarrow> string list \<times> string list" where
  "submitIndividualValidationBundles outcome bundles intentKeys =
     (let results = map (\<lambda>(b, k). (k, submitSingleValidationBundle (outcome b))) (zip bundles intentKeys) in
      (map fst (filter snd results), map fst (filter (\<lambda>(_, ok). \<not> ok) results)))"

declare broadcast_from.simps [simp del] submit_from.simps [simp del]

subsection \<open>The Raft and CometBFT paths of the node\<close>

text \<open>\<open>order\<close> lists the signers of the node's map in the order of the runtime.\<close>

definition signature_threshold :: "('sk, 'd) Node \<Rightarrow> string list \<Rightarrow> go_panic + bool" where
  "signature_threshold n order =
     (if TotalWeight (n_validatorSet n) > 0 then CheckWeightedThreshold (n_validatorSet n) order
      else CheckThreshold (n_validatorSet n) (int (card (dom (n_signatures n)))))"

definition finalizeCheckpointAfterGossip :: "('sk, 'd) Node \<Rightarrow> submission option" where
  "finalizeCheckpointAfterGossip n =
     map_option (\<lambda>header. Submission header (n_pendingReports n) (n_signatures n)) (n_currentCheckpoint n)"

definition submit_effect :: "('sk, 'd) Node \<Rightarrow> node_effect list" where
  "submit_effect n = (case finalizeCheckpointAfterGossip n of None \<Rightarrow> [] | Some job \<Rightarrow> [SubmitHeader job])"

definition onGossipSignatureReceived ::
  "('sk, 'pk, 'd) Node_Env \<Rightarrow> ('sk, 'd) Node \<Rightarrow> bool \<Rightarrow> Signature option \<Rightarrow> bytes \<Rightarrow> string list
     \<Rightarrow> ('sk, 'd) Node \<times> (go_panic + node_effect list)" where
  "onGossipSignatureReceived env n raftLeader msg checkpointHash order =
     (case msg of
        None \<Rightarrow> (n, Inr [])
      | Some sig \<Rightarrow>
          if sg_SignerId sig = [] \<or> sg_Der sig = [] then (n, Inr [])
          else if get_from (sg_SignerId sig) (vs_Validators (n_validatorSet n)) = None then (n, Inr [])
          else case n_currentCheckpoint n of
            None \<Rightarrow> (n, Inr [])
          | Some cp \<Rightarrow>
              if checkpointHash \<noteq> [] \<and> ComputeHash (env_H env) (Some cp) \<noteq> checkpointHash then (n, Inr [])
              else if verifySignature env n sig \<noteq> None then (n, Inr [])
              else if n_signatures n (sg_SignerId sig) \<noteq> None then (n, Inr [])
              else
                let n1 = n\<lparr>n_signatures := (n_signatures n)(sg_SignerId sig \<mapsto> sig)\<rparr> in
                case signature_threshold n1 order of
                  Inl p \<Rightarrow> (n1, Inl p)
                | Inr thresholdReached \<Rightarrow>
                    (n1, Inr (if thresholdReached \<and> n_raft n1 \<and> raftLeader then submit_effect n1 else [])))"

text \<open>
  The locked part of \<open>handleCommittedCheckpoint\<close>: chain, store, epoch and the node's own signature; \<open>Inr None\<close> is a
  failure to sign, after which the handler returns.
\<close>

definition commit_checkpoint ::
  "('sk, 'pk, 'd) Node_Env \<Rightarrow> ('sk, 'd) Node \<Rightarrow> CheckpointHeader \<Rightarrow> int \<Rightarrow> ('sk, 'd) Node \<times> (go_panic + (CheckpointHeader \<times> Signature) option)" where
  "commit_checkpoint env n header now =
     (case AddCheckpoint (env_H env) no_backend (n_chain n) header of
        (c, h, _) \<Rightarrow>
          let n1 = fst (saveCheckpoint env (n\<lparr>n_chain := c\<rparr>) h);
              n2 = n1\<lparr>n_currentCheckpoint := Some h,
                      n_currentEpoch := (if h_Epoch h \<ge> n_currentEpoch n1 then h_Epoch h + 1 else n_currentEpoch n1),
                      n_lastCheckpointAt := now,
                      n_signatures := (if n_gossip n1 then Map.empty else n_signatures n1)\<rparr> in
          case signCheckpoint env n2 h of
            Inl p \<Rightarrow> (n2, Inl p)
          | Inr None \<Rightarrow> (n2, Inr None)
          | Inr (Some sig) \<Rightarrow> (n2\<lparr>n_signatures := (n_signatures n2)(n_id n2 \<mapsto> sig)\<rparr>, Inr (Some (h, sig))))"

definition handleCommittedCheckpoint ::
  "('sk, 'pk, 'd) Node_Env \<Rightarrow> Bundle_Lib \<Rightarrow> ('sk, 'd) Node \<Rightarrow> bool \<Rightarrow> CheckpointHeader \<Rightarrow> string list \<Rightarrow> string list \<Rightarrow> string list \<Rightarrow> int
     \<Rightarrow> ('sk, 'd) Node \<times> (go_panic + node_effect list)" where
  "handleCommittedCheckpoint env lib n raftLeader header reports keys signers now =
     (case commit_checkpoint env n header now of
        (n1, Inl p) \<Rightarrow> (n1, Inl p)
      | (n1, Inr None) \<Rightarrow> (n1, Inr [])
      | (n1, Inr (Some (h, sig))) \<Rightarrow>
          (case (if card (dom (n_pendingReports n1)) > 0
                 then signAndGossipValidationBundles lib n1 raftLeader h (groupReportsByIntent (n_pendingReports n1) reports) keys now
                 else (n1, Inr [])) of
             (n2, Inl p) \<Rightarrow> (n2, Inl p)
           | (n2, Inr fx) \<Rightarrow>
               if n_gossip n2 then
                 (case signature_threshold n2 signers of
                    Inl p \<Rightarrow> (n2, Inl p)
                  | Inr thresholdReached \<Rightarrow>
                      (n2, Inr (fx @ [GossipSignature sig (h_Epoch h) (ComputeHash (env_H env) (Some h))]
                                @ (if thresholdReached \<and> n_raft n2 \<and> raftLeader then submit_effect n2 else []))))
               else
                 (n2, Inr (fx @ (if n_raft n2 \<and> raftLeader
                                 then [SubmitHeader (Submission h (n_pendingReports n2) (n_signatures n2))] else [])))))"

definition OnCheckpointCommitted ::
  "('sk, 'pk, 'd) Node_Env \<Rightarrow> Bundle_Lib \<Rightarrow> ('sk, 'd) Node \<Rightarrow> bool \<Rightarrow> CheckpointHeader option \<Rightarrow> string list \<Rightarrow> string list \<Rightarrow> string list \<Rightarrow> int
     \<Rightarrow> ('sk, 'd) Node \<times> (go_panic + node_effect list)" where
  "OnCheckpointCommitted env lib n raftLeader msg reports keys signers now =
     (case msg of
        None \<Rightarrow> (n, Inr [])
      | Some header \<Rightarrow>
          if \<not> n_raft n then (n, Inr [])
          else handleCommittedCheckpoint env lib n raftLeader header reports keys signers now)"

definition checkRaftConsensusState :: "('sk, 'd) Node \<Rightarrow> bool \<Rightarrow> ('sk, 'd) Node" where
  "checkRaftConsensusState n raftLeader =
     (if \<not> n_raft n then n
      else if n_isLeader n \<noteq> raftLeader
      then n\<lparr>n_isLeader := raftLeader, n_lastCheckpointAt := (if raftLeader then zero_time else n_lastCheckpointAt n)\<rparr>
      else n)"

definition proposeCheckpointRaft ::
  "('sk, 'pk, 'd) Node_Env \<Rightarrow> ('sk, 'd) Node \<Rightarrow> bool \<Rightarrow> string list \<Rightarrow> int \<Rightarrow> ('sk, 'd) Node \<times> (go_panic + node_effect list)" where
  "proposeCheckpointRaft env n raftLeader order now =
     (if \<not> n_raft n \<or> \<not> raftLeader then (n, Inr [])
      else
        let header = buildCheckpointHeader env n order now in
        case signCheckpoint env n header of
          Inl p \<Rightarrow> (n, Inl p)
        | Inr None \<Rightarrow> (n, Inr [])
        | Inr (Some sig) \<Rightarrow>
            let n1 = n\<lparr>n_signatures := [n_id n \<mapsto> sig]\<rparr>;
                sigs = \<lparr>cs_EcdsaSignatures = [sg_Der sig], cs_SignersBitmap = Some (createSignersBitmapLocked n1 [n_id n]),
                        cs_SignatureCount = 1,
                        cs_TotalWeight = (case GetValidator (n_validatorSet n) (n_id n) of Some v \<Rightarrow> v_Weight v | None \<Rightarrow> 1)\<rparr>;
                h = header\<lparr>h_Signatures := Some sigs\<rparr> in
            (n1\<lparr>n_currentCheckpoint := Some h, n_lastCheckpointAt := now\<rparr>, Inr [RaftCheckpoint h]))"

definition checkRaftCheckpointTrigger ::
  "('sk, 'pk, 'd) Node_Env \<Rightarrow> ('sk, 'd) Node \<Rightarrow> bool \<Rightarrow> string list \<Rightarrow> int \<Rightarrow> ('sk, 'd) Node \<times> (go_panic + node_effect list)" where
  "checkRaftCheckpointTrigger env n raftLeader order now =
     (if \<not> n_raft n then (n, Inr [])
      else if \<not> n_isLeader n then (n, Inr [])
      else if card (dom (n_pendingReports n)) = 0 then (n, Inr [])
      else if n_lastCheckpointAt n = zero_time
              \<or> time_sub now (n_lastCheckpointAt n) \<ge> getCheckpointInterval (n_config n)
      then proposeCheckpointRaft env (n\<lparr>n_lastCheckpointAt := now\<rparr>) raftLeader order now
      else (n, Inr []))"

definition proposeCheckpointCometBFT ::
  "('sk, 'pk, 'd) Node_Env \<Rightarrow> ('sk, 'd) Node \<Rightarrow> string list \<Rightarrow> int \<Rightarrow> ('sk, 'd) Node \<times> node_effect list" where
  "proposeCheckpointCometBFT env n order now =
     (if \<not> n_comet n then (n, [])
      else let header = buildCheckpointHeader env n order now in
           (n\<lparr>n_currentCheckpoint := Some header\<rparr>, [CometCheckpoint header]))"

definition checkCometBFTCheckpointTrigger ::
  "('sk, 'pk, 'd) Node_Env \<Rightarrow> ('sk, 'd) Node \<Rightarrow> string list \<Rightarrow> int \<Rightarrow> ('sk, 'd) Node \<times> node_effect list" where
  "checkCometBFTCheckpointTrigger env n order now =
     (if \<not> n_comet n then (n, [])
      else if n_lastCheckpointAt n = zero_time
              \<or> time_sub now (n_lastCheckpointAt n) \<ge> getCheckpointInterval (n_config n)
      then proposeCheckpointCometBFT env (n\<lparr>n_lastCheckpointAt := now\<rparr>) order now
      else (n, []))"

section \<open>The order of the intents\<close>

lemma received_before_rank: "fst a \<noteq> fst b \<Longrightarrow> received_before a b \<longleftrightarrow> fifo_rank a < fifo_rank b"
  by (auto simp: received_before_def fifo_rank_def less_prod_def')

lemma sorted_rank_wrt:
  "sorted (map fifo_rank xs) \<Longrightarrow> distinct (map fst xs) \<Longrightarrow> sorted_wrt received_before xs"
proof (induction xs)
  case (Cons a xs)
  have "received_before a b" if "b \<in> set xs" for b
  proof -
    have "fst a \<noteq> fst b" using Cons.prems(2) that by auto
    moreover have "fifo_rank a \<le> fifo_rank b" using Cons.prems(1) that by auto
    moreover have "fifo_rank a \<noteq> fifo_rank b" using calculation(1) by (simp add: fifo_rank_def)
    ultimately show ?thesis by (simp add: received_before_rank)
  qed
  with Cons show ?case by simp
qed simp

definition received_at :: "('sk, 'd) Node \<Rightarrow> string \<Rightarrow> string \<times> int" where
  "received_at n k = (k, case n_reportReceivedAt n k of Some t \<Rightarrow> t | None \<Rightarrow> 0)"

lemma select_intents_eq:
  "select_intents n keys = map fst (take MaxIntentsPerEpoch (sort_key fifo_rank (map (received_at n) keys)))"
  by (simp add: select_intents_def received_at_def [abs_def])

lemma sorted_intents:
  assumes "distinct keys"
  shows "\<exists>ks. sort_key fifo_rank (map (received_at n) keys) = map (received_at n) ks \<and> mset ks = mset keys \<and> distinct ks
    \<and> sorted_wrt (\<lambda>a b. received_before (received_at n a) (received_at n b)) ks \<and> select_intents n keys = take MaxIntentsPerEpoch ks"
proof -
  let ?ys = "sort_key fifo_rank (map (received_at n) keys)"
  have ys: "y = received_at n (fst y)" if "y \<in> set ?ys" for y using that by (auto simp: received_at_def)
  have "map (\<lambda>y. received_at n (fst y)) ?ys = ?ys" by (rule map_idI) (rule ys [symmetric])
  then have eq: "?ys = map (received_at n) (map fst ?ys)" by (simp only: map_map comp_def)
  have "mset (map fst ?ys) = mset keys" by (simp add: received_at_def image_mset.compositionality comp_def)
  moreover from this have "distinct (map fst ?ys)" using assms by (metis mset_eq_imp_distinct_iff)
  moreover have "sorted_wrt received_before ?ys" using sorted_rank_wrt [OF sorted_sort_key calculation(2)] .
  then have "sorted_wrt (\<lambda>a b. received_before (received_at n a) (received_at n b)) (map fst ?ys)"
    by (subst (asm) eq) (simp add: sorted_wrt_map)
  ultimately show ?thesis using eq by (intro exI [of _ "map fst ?ys"]) (simp add: select_intents_eq take_map)
qed

section \<open>Signed and submitted items\<close>

text \<open>The report that stands for an intent.\<close>

definition first_report :: "(string \<rightharpoonup> ExecutionReport list) \<Rightarrow> string \<Rightarrow> ExecutionReport" where
  "first_report grouped k = hd (the (grouped k))"

definition complete_groups :: "(string \<rightharpoonup> ExecutionReport list) \<Rightarrow> string list \<Rightarrow> bool" where
  "complete_groups grouped ks \<longleftrightarrow>
     (\<forall>k \<in> set ks. \<exists>r rs. grouped k = Some (r # rs) \<and> er_IntentId r \<noteq> [] \<and> er_AssignmentId r \<noteq> [] \<and> er_AgentId r \<noteq> [])"

definition hash_sized :: "Bundle_Lib \<Rightarrow> CheckpointHeader \<Rightarrow> bool" where
  "hash_sized lib header \<longleftrightarrow>
     length (bl_sha256 lib (bl_header_text lib header)) = 32
     \<and> (case h_Roots header of None \<Rightarrow> True | Some roots \<Rightarrow> length (cr_EventRoot roots) \<in> {0, 32})"

lemma complete_groups_simps [simp]:
  "complete_groups grouped []"
  "complete_groups grouped (k # ks) \<longleftrightarrow>
     (\<exists>r rs. grouped k = Some (r # rs) \<and> er_IntentId r \<noteq> [] \<and> er_AssignmentId r \<noteq> [] \<and> er_AgentId r \<noteq> []) \<and> complete_groups grouped ks"
  by (simp_all add: complete_groups_def)

lemma complete_groups_subset: "complete_groups grouped ks \<Longrightarrow> set ks' \<subseteq> set ks \<Longrightarrow> complete_groups grouped ks'"
  by (auto simp: complete_groups_def)

lemma sign_items_map:
  "complete_groups grouped ks \<Longrightarrow> sign_items lib header grouped ks = map (\<lambda>k. sign_item lib header (first_report grouped k)) ks"
  by (induction ks) (auto simp: sign_items_def List.map_filter_simps first_report_def)

lemma sdk_item_of_bundle:
  assumes "hash_sized lib header" "buildValidationBundleForIntent lib n header (r # rs) now = Some b"
  shows "sdk_item_of lib (bundle_item b) = sign_item lib header r"
  using assms
  by (auto simp: buildValidationBundleForIntent_def sdk_item_of_def bundle_item_def sign_item_def hash_sized_def proof_root_def copy32_def
      split: if_splits option.splits)

lemma build_bundles_map:
  assumes "hash_sized lib header"
  shows "complete_groups grouped ks \<Longrightarrow>
    map (\<lambda>b. sdk_item_of lib (bundle_item (fst b))) (build_bundles lib n header grouped ks now)
      = map (\<lambda>k. sign_item lib header (first_report grouped k)) ks"
proof (induction ks)
  case (Cons k ks)
  then obtain r rs where r: "grouped k = Some (r # rs)" "er_IntentId r \<noteq> []" "er_AssignmentId r \<noteq> []" "er_AgentId r \<noteq> []" by auto
  then obtain b where b: "buildValidationBundleForIntent lib n header (r # rs) now = Some b"
    by (simp add: buildValidationBundleForIntent_def)
  show ?case
    using Cons r b sdk_item_of_bundle [OF assms b] by (auto simp: build_bundles_def List.map_filter_simps first_report_def)
qed (simp add: build_bundles_def List.map_filter_simps)

lemma convert_items_hash:
  assumes "convertToValidationBatchGroup lib n header bundles intents order = Inr (Some grp)" "bl_sdk lib"
  shows "gr_ItemsHash grp = (case bl_ComputeItemsHash lib (map (sdk_item_of lib) (map bundle_item bundles)) of Some d \<Rightarrow> d | None \<Rightarrow> [])"
  using assms by (auto simp: convertToValidationBatchGroup_def Let_def split: list.splits option.splits if_splits)

section \<open>Collecting the signatures of an epoch\<close>

definition well_formed_signature :: "ValidationBundleSignature \<Rightarrow> bool" where
  "well_formed_signature m \<longleftrightarrow> vb_ValidatorAddress m \<noteq> [] \<and> vb_Signature m \<noteq> []"

text \<open>The addresses that the messages name for an epoch.\<close>

definition senders :: "u64 \<Rightarrow> ValidationBundleSignature list \<Rightarrow> string set" where
  "senders e ms = set (map vb_ValidatorAddress (filter (\<lambda>m. vb_Epoch m = e \<and> well_formed_signature m) ms))"

definition epoch_signers :: "('sk, 'd) Node \<Rightarrow> u64 \<Rightarrow> string set" where
  "epoch_signers n e = (case n_epochValidationSignatures n e of Some m \<Rightarrow> dom m | None \<Rightarrow> {})"

fun receive_bundle_signatures ::
  "('sk, 'd) Node \<Rightarrow> bool \<Rightarrow> ValidationBundleSignature list \<Rightarrow> ('sk, 'd) Node \<times> (go_panic + node_effect list)" where
  "receive_bundle_signatures n leader [] = (n, Inr [])"
| "receive_bundle_signatures n leader (m # ms) =
     (case onValidationBundleSignatureReceived n leader (Some m) of
        (n1, Inl p) \<Rightarrow> (n1, Inl p)
      | (n1, Inr fx) \<Rightarrow>
          (case receive_bundle_signatures n1 leader ms of
             (n2, Inl p) \<Rightarrow> (n2, Inl p)
           | (n2, Inr gx) \<Rightarrow> (n2, Inr (fx @ gx))))"

definition enough :: "ValidatorSet \<Rightarrow> nat \<Rightarrow> bool" where
  "enough vs k \<longleftrightarrow> CheckThreshold vs (int k) = Inr True"

lemma CheckThreshold_enough:
  "Validate vs = Inr () \<Longrightarrow> fits_int vs \<Longrightarrow> CheckThreshold vs (int k) = Inr (enough vs k)"
  unfolding enough_def by (simp add: CheckThreshold_fraction)

lemma enough_mono:
  assumes "Validate vs = Inr ()" "fits_int vs" "enough vs j" "j \<le> k"
  shows "enough vs k"
proof -
  have "0 < vs_ThresholdDenom vs" using assms(1) by (auto simp: spec_simps)
  then have "int j * vs_ThresholdDenom vs \<le> int k * vs_ThresholdDenom vs" using assms(4) by (simp add: mult_right_mono)
  then show ?thesis using assms unfolding enough_def by (simp add: CheckThreshold_fraction)
qed

lemma storeEpochValidationSignature_signers:
  assumes "storeEpochValidationSignature n m = (n1, r)"
  shows "\<exists>sigs. n1 = n\<lparr>n_epochValidationSignatures := (n_epochValidationSignatures n)(vb_Epoch m \<mapsto> sigs)\<rparr>
    \<and> dom sigs = insert (vb_ValidatorAddress m) (epoch_signers n (vb_Epoch m))
    \<and> r = (case CheckThreshold (n_validatorSet n) (int (card (dom sigs))) of Inl p \<Rightarrow> Inl p | Inr b \<Rightarrow> Inr (b, card (dom sigs)))"
  using assms by (auto simp: storeEpochValidationSignature_def Let_def epoch_signers_def split: option.splits if_splits)

text \<open>One epoch-format message on the Raft leader.\<close>

lemma epoch_signature_step:
  assumes "epoch_format m" "n_raft n" "Validate (n_validatorSet n) = Inr ()" "fits_int (n_validatorSet n)"
  shows "\<exists>n1 fx. onValidationBundleSignatureReceived n True (Some m) = (n1, Inr fx)
    \<and> n_raft n1 \<and> n_validatorSet n1 = n_validatorSet n
    \<and> (\<forall>e. epoch_signers n1 e = epoch_signers n e \<union> senders e [m])
    \<and> (\<forall>e. already_triggered n1 e \<longleftrightarrow> already_triggered n e \<or> SubmitBundles e \<in> set fx)
    \<and> fx = (if well_formed_signature m \<and> \<not> already_triggered n (vb_Epoch m)
               \<and> enough (n_validatorSet n) (card (epoch_signers n1 (vb_Epoch m)))
             then [SubmitBundles (vb_Epoch m)] else [])"
proof (cases "well_formed_signature m")
  case False
  then show ?thesis using assms
    by (auto simp: onValidationBundleSignatureReceived_def well_formed_signature_def senders_def)
next
  case True
  obtain n1 r where store: "storeEpochValidationSignature n m = (n1, r)" by fastforce
  obtain sigs where n1: "n1 = n\<lparr>n_epochValidationSignatures := (n_epochValidationSignatures n)(vb_Epoch m \<mapsto> sigs)\<rparr>"
    and sigs: "dom sigs = insert (vb_ValidatorAddress m) (epoch_signers n (vb_Epoch m))"
    and r: "r = Inr (enough (n_validatorSet n) (card (dom sigs)), card (dom sigs))"
    using storeEpochValidationSignature_signers [OF store] unfolding CheckThreshold_enough [OF assms(3,4)] sum.case by blast
  let ?go = "\<not> already_triggered n (vb_Epoch m) \<and> enough (n_validatorSet n) (card (dom sigs))"
  let ?n2 = "if ?go then n1\<lparr>n_epochSubmissionTriggered := (n_epochSubmissionTriggered n)(vb_Epoch m \<mapsto> True)\<rparr> else n1"
  have "onValidationBundleSignatureReceived n True (Some m) = (?n2, Inr (if ?go then [SubmitBundles (vb_Epoch m)] else []))"
    using True assms(1,2) unfolding onValidationBundleSignatureReceived_def option.case store r
    by (simp add: well_formed_signature_def trigger_submission_def already_triggered_def n1)
  moreover have "epoch_signers ?n2 e = epoch_signers n e \<union> senders e [m]" for e
    using True sigs by (simp add: epoch_signers_def senders_def n1)
  moreover have "epoch_signers ?n2 (vb_Epoch m) = dom sigs" by (simp add: epoch_signers_def n1)
  moreover have "already_triggered ?n2 e \<longleftrightarrow> already_triggered n e \<or> SubmitBundles e \<in> set (if ?go then [SubmitBundles (vb_Epoch m)] else [])" for e
    by (simp add: already_triggered_def n1)
  moreover have "n_raft ?n2" "n_validatorSet ?n2 = n_validatorSet n" using assms(2) by (simp_all add: n1)
  ultimately show ?thesis
    using True by (intro exI [of _ ?n2] exI [of _ "if ?go then [SubmitBundles (vb_Epoch m)] else []"]) simp
qed

lemma senders_Cons: "senders e (m # ms) = senders e [m] \<union> senders e ms"
  by (auto simp: senders_def)

lemma finite_senders [simp]: "finite (senders e ms)"
  by (simp add: senders_def)

text \<open>A run of messages: the submission of an epoch starts when the count of its signers passes the threshold.\<close>

lemma receive_epoch_signatures:
  assumes "n_raft n" "Validate (n_validatorSet n) = Inr ()" "fits_int (n_validatorSet n)"
    and "\<forall>m \<in> set ms. epoch_format m" "finite (epoch_signers n e)"
    and "already_triggered n e \<longleftrightarrow> enough (n_validatorSet n) (card (epoch_signers n e))"
  shows "\<exists>n' fx. receive_bundle_signatures n True ms = (n', Inr fx)
    \<and> epoch_signers n' e = epoch_signers n e \<union> senders e ms
    \<and> count_list fx (SubmitBundles e) =
        (if \<not> already_triggered n e \<and> enough (n_validatorSet n) (card (epoch_signers n e \<union> senders e ms)) then 1 else 0)"
  using assms
proof (induction ms arbitrary: n)
  case (Cons m ms)
  let ?vs = "n_validatorSet n"
  obtain n1 fx where step: "onValidationBundleSignatureReceived n True (Some m) = (n1, Inr fx)"
    and n1: "n_raft n1" "n_validatorSet n1 = ?vs" "epoch_signers n1 e = epoch_signers n e \<union> senders e [m]"
      "already_triggered n1 e \<longleftrightarrow> already_triggered n e \<or> SubmitBundles e \<in> set fx"
    and fx: "fx = (if well_formed_signature m \<and> \<not> already_triggered n (vb_Epoch m) \<and> enough ?vs (card (epoch_signers n1 (vb_Epoch m)))
             then [SubmitBundles (vb_Epoch m)] else [])"
    using epoch_signature_step [of m n] Cons.prems by auto
  have mono: "enough ?vs (card A) \<Longrightarrow> A \<subseteq> B \<Longrightarrow> finite B \<Longrightarrow> enough ?vs (card B)" for A B :: "string set"
    using enough_mono [OF Cons.prems(2,3)] card_mono by blast
  have same: "epoch_signers n1 e = epoch_signers n e" if "vb_Epoch m \<noteq> e \<or> \<not> well_formed_signature m"
    using n1(3) that by (auto simp: senders_def)
  have fx_e: "SubmitBundles e \<in> set fx \<longleftrightarrow> \<not> already_triggered n e \<and> enough ?vs (card (epoch_signers n1 e))"
    using fx same Cons.prems(6) by (cases "vb_Epoch m = e \<and> well_formed_signature m") auto
  have fin: "finite (epoch_signers n1 e)" using n1(3) Cons.prems(5) by simp
  have trig: "already_triggered n1 e \<longleftrightarrow> enough ?vs (card (epoch_signers n1 e))"
    using n1(3,4) fx_e Cons.prems(6) mono [of "epoch_signers n e" "epoch_signers n1 e"] fin by auto
  obtain n' gx where rest: "receive_bundle_signatures n1 True ms = (n', Inr gx)"
      "epoch_signers n' e = epoch_signers n1 e \<union> senders e ms"
      "count_list gx (SubmitBundles e) =
        (if \<not> already_triggered n1 e \<and> enough ?vs (card (epoch_signers n1 e \<union> senders e ms)) then 1 else 0)"
    using Cons.IH [OF n1(1)] Cons.prems n1(2) trig fin by auto
  have one: "count_list fx (SubmitBundles e) = (if SubmitBundles e \<in> set fx then 1 else 0)" using fx by auto
  have all: "epoch_signers n1 e \<union> senders e ms = epoch_signers n e \<union> senders e (m # ms)" using n1(3) senders_Cons [of e m ms] by blast
  have up: "enough ?vs (card (epoch_signers n1 e)) \<Longrightarrow> enough ?vs (card (epoch_signers n1 e \<union> senders e ms))"
    using mono fin by (meson Un_upper1 finite_UnI finite_senders)
  have "receive_bundle_signatures n True (m # ms) = (n', Inr (fx @ gx))" using step rest(1) by simp
  moreover have "count_list (fx @ gx) (SubmitBundles e) =
      (if \<not> already_triggered n e \<and> enough ?vs (card (epoch_signers n e \<union> senders e (m # ms))) then 1 else 0)"
    using rest(3) one fx_e n1(4) up unfolding all by auto
  ultimately show ?case using rest(2) all by simp
qed (simp add: senders_def)

section \<open>Retries\<close>

lemma broadcast_from_result:
  "attempt \<le> 3 \<Longrightarrow> broadcast_from ok attempt = (k, success) \<Longrightarrow>
     attempt \<le> k \<and> k \<le> 3 \<and> (success \<longleftrightarrow> ok k) \<and> (\<forall>i \<in> {attempt..<k}. \<not> ok i) \<and> (\<not> success \<longrightarrow> k = 3)"
proof (induction ok attempt rule: broadcast_from.induct)
  case (1 ok attempt)
  note unfolded = 1(3) [unfolded broadcast_from.simps [of ok attempt]]
  show ?case
  proof (cases "ok attempt \<or> attempt = 3")
    case True
    with unfolded 1(2) show ?thesis by (auto split: if_splits)
  next
    case False
    with 1(2) have here: "\<not> ok attempt" "attempt < 3" "attempt + 1 \<le> 3" by auto
    with unfolded have "broadcast_from ok (attempt + 1) = (k, success)" by simp
    note r = 1(1) [OF here this]
    have "\<not> ok i" if "i \<in> {attempt..<k}" for i
    proof (cases "i = attempt")
      case False
      with that have "i \<in> {attempt + 1..<k}" by simp
      with r show ?thesis by blast
    qed (use here in simp)
    moreover have "attempt \<le> k" using r by linarith
    ultimately show ?thesis using r by blast
  qed
qed

lemma submit_from_result:
  "submit_from outcome attempt \<longleftrightarrow> (\<exists>i \<in> {attempt..5}. outcome i = None \<and> (\<forall>j \<in> {attempt..<i}. outcome j = Some True))"
proof (induction outcome attempt rule: submit_from.induct)
  case (1 outcome attempt)
  have from_here: "(\<exists>i \<in> {attempt..5}. P i \<and> (\<forall>j \<in> {attempt..<i}. Q j))
      \<longleftrightarrow> attempt \<le> 5 \<and> (P attempt \<or> Q attempt \<and> (\<exists>i \<in> {attempt + 1..5}. P i \<and> (\<forall>j \<in> {attempt + 1..<i}. Q j)))" for P Q
  proof
    assume "\<exists>i \<in> {attempt..5}. P i \<and> (\<forall>j \<in> {attempt..<i}. Q j)"
    then obtain i where i: "attempt \<le> i" "i \<le> 5" "P i" "\<forall>j \<in> {attempt..<i}. Q j" by auto
    show "attempt \<le> 5 \<and> (P attempt \<or> Q attempt \<and> (\<exists>i \<in> {attempt + 1..5}. P i \<and> (\<forall>j \<in> {attempt + 1..<i}. Q j)))"
    proof (cases "i = attempt")
      case False
      with i have "i \<in> {attempt + 1..5}" "Q attempt" by auto
      with i show ?thesis by auto
    qed (use i in auto)
  next
    assume r: "attempt \<le> 5 \<and> (P attempt \<or> Q attempt \<and> (\<exists>i \<in> {attempt + 1..5}. P i \<and> (\<forall>j \<in> {attempt + 1..<i}. Q j)))"
    then consider "P attempt" | i where "Q attempt" "i \<in> {attempt + 1..5}" "P i" "\<forall>j \<in> {attempt + 1..<i}. Q j" by auto
    then show "\<exists>i \<in> {attempt..5}. P i \<and> (\<forall>j \<in> {attempt..<i}. Q j)"
    proof cases
      case 1
      with r show ?thesis by (intro bexI [of _ attempt]) auto
    next
      case (2 i)
      then have "Q j" if "j \<in> {attempt..<i}" for j using that by (cases "j = attempt") auto
      with 2 show ?thesis by (intro bexI [of _ i]) auto
    qed
  qed
  show ?case
    by (subst submit_from.simps, subst from_here) (use 1 in \<open>auto split: option.splits\<close>)
qed

section \<open>Properties\<close>

text \<open>
  C10: The intents an epoch signs are a prefix of the FIFO order: the selection has no repetition, holds at most
  ten of the pending intents and exactly as many as there are if they are fewer, is in the order of the
  comparison of \<open>signAndGossipValidationBundles\<close>, and every intent it leaves out comes after every intent it takes.
\<close>
theorem select_intents_fifo:
  assumes "distinct keys"
  shows "distinct (select_intents n keys) \<and> set (select_intents n keys) \<subseteq> set keys
    \<and> length (select_intents n keys) = min 10 (length keys)
    \<and> sorted_wrt (\<lambda>a b. received_before (received_at n a) (received_at n b)) (select_intents n keys)
    \<and> (\<forall>a \<in> set (select_intents n keys). \<forall>b \<in> set keys - set (select_intents n keys).
         received_before (received_at n a) (received_at n b))"
proof -
  obtain ks where ks: "mset ks = mset keys" "distinct ks" "select_intents n keys = take MaxIntentsPerEpoch ks"
    and sorted: "sorted_wrt (\<lambda>a b. received_before (received_at n a) (received_at n b)) ks"
    using sorted_intents [OF assms] by blast
  let ?m = MaxIntentsPerEpoch
  have split: "ks = take ?m ks @ drop ?m ks" by simp
  have all: "set keys = set (take ?m ks) \<union> set (drop ?m ks)" using split ks(1) by (metis mset_eq_setD set_append)
  have "sorted_wrt (\<lambda>a b. received_before (received_at n a) (received_at n b)) (take ?m ks @ drop ?m ks)" using sorted by simp
  then have "sorted_wrt (\<lambda>a b. received_before (received_at n a) (received_at n b)) (take ?m ks)"
    and "\<forall>a \<in> set (take ?m ks). \<forall>b \<in> set (drop ?m ks). received_before (received_at n a) (received_at n b)"
    unfolding sorted_wrt_append by simp_all
  then show ?thesis
    using ks(2,3) all mset_eq_length [OF ks(1)] by (auto simp: MaxIntentsPerEpoch_def)
qed

definition example_arrivals :: "(unit, (bytes \<times> bytes) list) Node" where
  "example_arrivals = (fresh_node ''v1'' () example_set True False True example_config [])
     \<lparr>n_reportReceivedAt := [''a'' \<mapsto> 9, ''b'' \<mapsto> 4]\<rparr>"

theorem select_intents_fifo_witness:
  "select_intents example_arrivals [''a'', ''c'', ''b''] = [''b'', ''a'', ''c''] \<and>
   length (select_intents example_arrivals [''a'', ''c'', ''b'']) = 3"
proof -
  have "select_intents example_arrivals [''a'', ''c'', ''b''] = [''b'', ''a'', ''c'']" by code_simp
  moreover have "length (select_intents example_arrivals [''a'', ''c'', ''b'']) = min 10 3"
    using select_intents_fifo [of "[''a'', ''c'', ''b'']" example_arrivals] by simp
  ultimately show ?thesis by simp
qed

text \<open>
  C22: The hash over the items that the leader submits is the hash that the validators signed exactly when the leader
  visits the groups of reports in the FIFO order in which they were signed. The leader ranges over a Go map, whose order is
  not defined. Both sides see the same groups here, the hash has no collision on the two lists of items and
  the intents have different items.
\<close>
theorem submitted_hash_needs_signed_order:
  assumes groups: "complete_groups grouped keys" "distinct keys" "set order \<subseteq> set keys"
    and sized: "hash_sized lib header" and sdk: "bl_sdk lib"
    and items: "inj_on (\<lambda>k. sign_item lib header (first_report grouped k)) (set keys)"
    and hashes: "bl_ComputeItemsHash lib (sign_items lib header grouped order) = Some d"
      "bl_ComputeItemsHash lib (sign_items lib header grouped (select_intents n keys)) = Some d'"
    and collision_free: "d = d' \<Longrightarrow> sign_items lib header grouped order = sign_items lib header grouped (select_intents n keys)"
    and submitted: "convertToValidationBatchGroup lib leader header (map fst (build_bundles lib leader header grouped order now)) intents signers
      = Inr (Some grp)"
  shows "gr_ItemsHash grp = d' \<longleftrightarrow> order = select_intents n keys"
proof -
  let ?f = "\<lambda>k. sign_item lib header (first_report grouped k)"
  obtain ks where ks: "mset ks = mset keys" "select_intents n keys = take MaxIntentsPerEpoch ks" using sorted_intents [OF groups(2)] by blast
  then have sel: "set (select_intents n keys) \<subseteq> set keys" by (metis mset_eq_setD set_take_subset)
  have eqs: "sign_items lib header grouped order = map ?f order"
    "sign_items lib header grouped (select_intents n keys) = map ?f (select_intents n keys)"
    using groups sel by (auto intro: sign_items_map complete_groups_subset)
  have "gr_ItemsHash grp = d"
    using convert_items_hash [OF submitted sdk] hashes(1) eqs(1)
      build_bundles_map [OF sized complete_groups_subset [OF groups(1,3)], of leader now]
    by (simp add: comp_def)
  moreover have "map ?f order = map ?f (select_intents n keys) \<longleftrightarrow> order = select_intents n keys"
    using items groups(3) sel by (intro inj_on_map_eq_map) (meson Un_least inj_on_subset)
  moreover have "d = d' \<longleftrightarrow> map ?f order = map ?f (select_intents n keys)"
    using collision_free hashes unfolding eqs by auto
  ultimately show ?thesis by simp
qed

definition example_sdk :: Bundle_Lib where
  "example_sdk = \<lparr>bl_header_text = (\<lambda>h. []), bl_sha256 = (\<lambda>b. zeros32), bl_HexToHash = bytes_of, bl_HexToAddress = bytes_of,
     bl_sdk = True, bl_ComputeItemsHash = (\<lambda>items. Some (concat (map si_IntentID items))),
     bl_ComputeBatchDigest = (\<lambda>b. Some (sb_ItemsHash b)), bl_SignDigest = Some, bl_Address = ''v1''\<rparr>"

definition example_groups :: "string \<rightharpoonup> ExecutionReport list" where
  "example_groups = [''a'' \<mapsto> [(example_report ''a'')\<lparr>er_AssignmentId := ''x'', er_AgentId := ''y''\<rparr>],
                     ''b'' \<mapsto> [(example_report ''b'')\<lparr>er_AssignmentId := ''x'', er_AgentId := ''y''\<rparr>]]"

definition example_leader :: "(unit, (bytes \<times> bytes) list) Node" where
  "example_leader = example_arrivals\<lparr>n_epochValidationSignatures := [0 \<mapsto> [''v1'' \<mapsto>
     \<lparr>vb_IntentId = [], vb_AssignmentId = [], vb_AgentId = [], vb_Epoch = 0, vb_ValidatorAddress = ''v1'', vb_Signature = [1],
      vb_Timestamp = 0, vb_BundleDigestHash = []\<rparr>]]\<rparr>"

theorem submitted_hash_needs_signed_order_witness:
  "\<exists>grp. convertToValidationBatchGroup example_sdk example_leader (example_proto_header 0)
      (map fst (build_bundles example_sdk example_leader (example_proto_header 0) example_groups [''a'', ''b''] 0)) [] [''v1'']
      = Inr (Some grp)
    \<and> gr_ItemsHash grp \<noteq> [98, 97] \<and> select_intents example_arrivals [''a'', ''b''] = [''b'', ''a'']"
proof -
  let ?b = "map fst (build_bundles example_sdk example_leader (example_proto_header 0) example_groups [''a'', ''b''] 0)"
  let ?h = "example_proto_header 0"
  have sel: "select_intents example_arrivals [''a'', ''b''] = [''b'', ''a'']" by code_simp
  obtain grp where grp: "convertToValidationBatchGroup example_sdk example_leader ?h ?b [] [''v1''] = Inr (Some grp)"
    by (simp add: convertToValidationBatchGroup_def build_bundles_def List.map_filter_simps example_groups_def example_leader_def
        buildValidationBundleForIntent_def example_report_def example_proto_header_def Let_def upt_rec)
  have hashes: "bl_ComputeItemsHash example_sdk (sign_items example_sdk ?h example_groups [''a'', ''b'']) = Some [97, 98]"
    "bl_ComputeItemsHash example_sdk (sign_items example_sdk ?h example_groups (select_intents example_arrivals [''a'', ''b''])) = Some [98, 97]"
    unfolding sel by code_simp+
  have "inj_on (\<lambda>k. sign_item example_sdk ?h (first_report example_groups k)) (set [''a'', ''b''])"
    by (simp add: sign_item_def first_report_def example_groups_def example_report_def example_sdk_def bytes_of_def)
  then have "gr_ItemsHash grp = [98, 97] \<longleftrightarrow> [''a'', ''b''] = select_intents example_arrivals [''a'', ''b'']"
    by (intro submitted_hash_needs_signed_order [OF _ _ _ _ _ _ hashes _ grp])
      (simp_all add: example_groups_def example_report_def hash_sized_def example_sdk_def zeros32_def example_proto_header_def)
  then show ?thesis using grp sel by simp
qed

text \<open>
  C9: On the Raft leader, whatever epoch-level bundle signatures arrive in whatever order and however often, the submission of an
  epoch starts exactly once if the number of different addresses that the messages name reaches the signature threshold, and
  never otherwise. The addresses count although neither their membership in the validator set nor the signatures are checked.
\<close>
theorem bundle_submission_starts_once:
  assumes "n_raft n" "Validate (n_validatorSet n) = Inr ()" "fits_int (n_validatorSet n)"
    and "\<forall>m \<in> set ms. epoch_format m" "n_epochValidationSignatures n e = None" "n_epochSubmissionTriggered n e = None"
  shows "\<exists>n' fx. receive_bundle_signatures n True ms = (n', Inr fx)
    \<and> count_list fx (SubmitBundles e) = (if quorum_size (n_validatorSet n) \<le> card (senders e ms) then 1 else 0)"
proof -
  have enough: "enough (n_validatorSet n) k \<longleftrightarrow> quorum_size (n_validatorSet n) \<le> k" for k
    using RequiredSignatures_Inr [OF assms(2,3)] by (auto simp: enough_def CheckThreshold_def quorum_size_def)
  have start: "epoch_signers n e = {}" "\<not> already_triggered n e" "\<not> enough (n_validatorSet n) 0"
    using assms(5,6) enough quorum_size_bound(2) [OF assms(2,3)] by (auto simp: epoch_signers_def already_triggered_def)
  then show ?thesis
    using receive_epoch_signatures [OF assms(1-4), of e] unfolding start(1) by (auto simp: enough)
qed

definition forged_signature :: "string \<Rightarrow> ValidationBundleSignature" where
  "forged_signature v = \<lparr>vb_IntentId = [], vb_AssignmentId = [], vb_AgentId = [], vb_Epoch = 7, vb_ValidatorAddress = v,
     vb_Signature = [0], vb_Timestamp = 0, vb_BundleDigestHash = []\<rparr>"

theorem bundle_submission_starts_once_witness:
  "{''x'', ''y'', ''z''} \<inter> vset_ids example_set = {} \<and>
   (\<exists>n' fx. receive_bundle_signatures example_arrivals True (map forged_signature [''x'', ''y'', ''x'', ''z'', ''y'']) = (n', Inr fx)
     \<and> count_list fx (SubmitBundles 7) = 1)"
proof -
  let ?ms = "map forged_signature [''x'', ''y'', ''x'', ''z'', ''y'']"
  have "senders 7 ?ms = {''x'', ''y'', ''z''}" by (simp add: senders_def forged_signature_def well_formed_signature_def insert_commute)
  then have "card (senders 7 ?ms) = 3" by simp
  moreover have "quorum_size example_set = 3" by (simp add: quorum_size_def RequiredSignatures_def example_set_simps)
  moreover have "n_raft example_arrivals" "n_validatorSet example_arrivals = example_set"
    "n_epochValidationSignatures example_arrivals 7 = None" "n_epochSubmissionTriggered example_arrivals 7 = None"
    by (simp_all add: example_arrivals_def fresh_node_def)
  moreover have "fits_int example_set" by (simp add: fits_int_def example_set_simps)
  moreover have "\<forall>m \<in> set ?ms. epoch_format m" by (simp add: epoch_format_def forged_signature_def)
  ultimately show ?thesis
    using bundle_submission_starts_once [of example_arrivals ?ms 7] example_set_valid
    by (simp add: vset_ids_def example_set_def example_validator_def)
qed

text \<open>
  Both retry loops end: a broadcast through CometBFT makes at most three attempts, stops at the first that succeeds
  and fails only if all three fail; a single submission succeeds exactly if one of five attempts does and every attempt before
  it failed with an error that may be retried.
\<close>
theorem retry_loops:
  assumes "n_comet n" "broadcastValidationSignatureToCometBFT n ok = (attempts, success)"
  shows "1 \<le> attempts \<and> attempts \<le> 3 \<and> (success \<longleftrightarrow> ok attempts) \<and> (\<forall>i \<in> {1..<attempts}. \<not> ok i) \<and> (\<not> success \<longrightarrow> attempts = 3)
    \<and> (submitSingleValidationBundle outcome \<longleftrightarrow> (\<exists>i \<in> {1..5}. outcome i = None \<and> (\<forall>j \<in> {1..<i}. outcome j = Some True)))"
proof -
  have "broadcast_from ok 1 = (attempts, success)"
    using assms(2) unfolding broadcastValidationSignatureToCometBFT_def by (simp only: assms(1) not_True_eq_False if_False)
  from broadcast_from_result [OF one_le_numeral this] show ?thesis
    unfolding submitSingleValidationBundle_def submit_from_result by blast
qed

theorem retry_loops_witness:
  "broadcastValidationSignatureToCometBFT (fresh_node ''v1'' () example_set False True False example_config ()) (\<lambda>i. i = 2) = (2, True)
    \<and> submitSingleValidationBundle (\<lambda>i. if i < 3 then Some True else None)"
proof -
  let ?n = "fresh_node ''v1'' () example_set False True False example_config ()"
  have comet: "n_comet ?n" by (simp add: fresh_node_def)
  obtain k s where ks: "broadcastValidationSignatureToCometBFT ?n (\<lambda>i. i = 2) = (k, s)" by fastforce
  note r = retry_loops [OF comet ks, of "\<lambda>i. if i < 3 then Some True else None"]
  have "s \<longleftrightarrow> k = 2" "\<not> s \<longrightarrow> k = 3" "\<forall>i \<in> {1..<k}. \<not> i = 2" using r by blast+
  moreover have "2 \<in> {1..<3::nat}" by simp
  ultimately have "k = 2" "s" by blast+
  moreover have "\<exists>i \<in> {1..5::nat}. (if i < 3 then Some True else None) = None \<and> (\<forall>j \<in> {1..<i}. (if j < 3 then Some True else None) = Some True)"
    by (intro bexI [of _ 3]) simp_all
  with r have "submitSingleValidationBundle (\<lambda>i. if i < 3 then Some True else None)" by blast
  ultimately show ?thesis using ks by simp
qed

end
