(* ===== verification/Raft_Node.thy ===== *)
theory Raft_Node
  imports Validation_Bundles
begin

text \<open>
  The validator node on the Raft engine: the node as the handler of the replicated state machine of \<open>Raft_FSM\<close>, the calls that
  the engine, the gossip layer and the ticker make, and what holds of the signatures that the node collects.
\<close>

section \<open>Model\<close>

text \<open>
  What the runtime and the clock contribute to a call of the apply handler: whether the node leads, the orders in which the maps are visited, the time.
\<close>

record Apply_Run =
  ar_leader :: bool
  ar_reports :: "string list"
  ar_keys :: "string list"
  ar_signers :: "string list"
  ar_now :: int

text \<open>\<open>RaftFSM\<close> calls the handler of its constructor, which is the node.\<close>

fun on_event ::
  "('sk, 'pk, 'd) Node_Env \<Rightarrow> Bundle_Lib \<Rightarrow> ('sk, 'd) Node \<Rightarrow> Apply_Run \<Rightarrow> fsm_event \<Rightarrow> ('sk, 'd) Node \<times> (go_panic + node_effect list)" where
  "on_event env lib n run (CheckpointCommitted header) =
     OnCheckpointCommitted env lib n (ar_leader run) (Some header) (ar_reports run) (ar_keys run) (ar_signers run) (ar_now run)"
| "on_event env lib n run (ExecutionReportCommitted report key) = (OnExecutionReportCommitted env n report key (ar_now run), Inr [])"

fun on_events ::
  "('sk, 'pk, 'd) Node_Env \<Rightarrow> Bundle_Lib \<Rightarrow> ('sk, 'd) Node \<Rightarrow> Apply_Run \<Rightarrow> fsm_event list \<Rightarrow> ('sk, 'd) Node \<times> (go_panic + node_effect list)" where
  "on_events env lib n run [] = (n, Inr [])"
| "on_events env lib n run (ev # evs) =
     (case on_event env lib n run ev of
        (n1, Inl p) \<Rightarrow> (n1, Inl p)
      | (n1, Inr fx) \<Rightarrow>
          (case on_events env lib n1 run evs of (n2, Inl p) \<Rightarrow> (n2, Inl p) | (n2, Inr gx) \<Rightarrow> (n2, Inr (fx @ gx))))"

text \<open>The committed entries of a log, applied to the state machine and through it to the node; \<open>None\<close> is a panic of the handler.\<close>

fun apply_log ::
  "('sk, 'pk, 'd) Node_Env \<Rightarrow> Bundle_Lib \<Rightarrow> Raft_Codec \<Rightarrow> RaftFSM \<times> ('sk, 'd) Node \<Rightarrow> (bytes \<times> Apply_Run) list
     \<Rightarrow> (RaftFSM \<times> ('sk, 'd) Node) option" where
  "apply_log env lib cd s [] = Some s"
| "apply_log env lib cd (f, n) ((data, run) # entries) =
     (case Apply cd f data of (f1, evs, _) \<Rightarrow>
      case on_events env lib n run evs of
        (n1, Inl _) \<Rightarrow> None
      | (n1, Inr _) \<Rightarrow> apply_log env lib cd (f1, n1) entries)"

text \<open>The calls on a node with the Raft engine; the clock, the messages, leadership and the visiting orders are arbitrary.\<close>

inductive raft_node_step :: "('sk, 'pk, 'd) Node_Env \<Rightarrow> Bundle_Lib \<Rightarrow> ('sk, 'd) Node \<Rightarrow> ('sk, 'd) Node \<Rightarrow> bool" for env lib where
  committed: "raft_node_step env lib n (fst (on_event env lib n run ev))"
| gossip: "raft_node_step env lib n (fst (onGossipSignatureReceived env n leader msg hash order))"
| bundle_signature: "raft_node_step env lib n (fst (onValidationBundleSignatureReceived n leader vb))"
| leadership: "raft_node_step env lib n (checkRaftConsensusState n leader)"
| trigger: "raft_node_step env lib n (fst (checkRaftCheckpointTrigger env n leader order now))"
| finalized: "raft_node_step env lib n (handleCheckpointFinalized n header)"
| cleared: "raft_node_step env lib n (fst (clearReportsForIntent n key order))"

inductive raft_reachable ::
  "('sk, 'pk, 'd) Node_Env \<Rightarrow> Bundle_Lib \<Rightarrow> string \<Rightarrow> ValidatorSet \<Rightarrow> ('sk, 'd) Node \<Rightarrow> bool" for env lib vid vs where
  start: "Validate vs = Inr () \<Longrightarrow> Get_ldb (env_db env) store keyLatestEpoch = Inl (DbError ErrNotFound) \<Longrightarrow>
    raft_reachable env lib vid vs (NewNode env vid signer vs True False True cfg store)"
| step: "raft_reachable env lib vid vs n \<Longrightarrow> raft_node_step env lib n n' \<Longrightarrow> raft_reachable env lib vid vs n'"

inductive_cases raft_node_stepE: "raft_node_step env lib n n'"

section \<open>Verified signatures\<close>

text \<open>What the verification of a signature reads, and the signatures.\<close>

definition view :: "('sk, 'd) Node \<Rightarrow> string \<times> ValidatorSet \<times> bool \<times> bool \<times> CheckpointHeader option \<times> (string \<rightharpoonup> Signature)" where
  "view n = (n_id n, n_validatorSet n, n_raft n, n_gossip n, n_currentCheckpoint n, n_signatures n)"

definition verified :: "('sk, 'pk, 'd) Node_Env \<Rightarrow> string \<Rightarrow> ValidatorSet \<Rightarrow> ('sk, 'd) Node \<Rightarrow> bool" where
  "verified env vid vs n \<longleftrightarrow>
     n_id n = vid \<and> n_validatorSet n = vs \<and> n_raft n \<and> n_gossip n
     \<and> (\<forall>v sig. n_signatures n v = Some sig \<longrightarrow> sg_SignerId sig = v \<and> (v = vid \<or> verifySignature env n sig = None))"

lemma verifySignature_view:
  "view m = view n \<Longrightarrow> verifySignature env m sig = verifySignature env n sig"
  by (simp add: verifySignature_def view_def split: option.split)

lemma verified_view: "view m = view n \<Longrightarrow> verified env vid vs n \<Longrightarrow> verified env vid vs m"
  using verifySignature_view [of m n env] by (simp add: verified_def view_def)

lemma verified_own:
  assumes "verified env vid vs n" "sg_SignerId sig = vid" "n_id m = n_id n" "n_validatorSet m = n_validatorSet n" "n_raft m" "n_gossip m"
    "n_signatures m = [vid \<mapsto> sig] \<or> n_signatures m = Map.empty"
  shows "verified env vid vs m"
  using assms by (auto simp: verified_def split: if_splits)

lemma view_fields [simp]:
  "view (n\<lparr>n_epochIntents := i\<rparr>) = view n" "view (n\<lparr>n_epochValidationSignatures := s\<rparr>) = view n"
  "view (n\<lparr>n_epochSubmissionTriggered := t\<rparr>) = view n" "view (n\<lparr>n_validationBundleSignatures := b\<rparr>) = view n"
  "view (n\<lparr>n_store := d\<rparr>) = view n" "view (n\<lparr>n_pendingReports := p\<rparr>) = view n" "view (n\<lparr>n_reportScores := sc\<rparr>) = view n"
  "view (n\<lparr>n_reportReceivedAt := r\<rparr>) = view n" "view (n\<lparr>n_lastCheckpointAt := l\<rparr>) = view n" "view (n\<lparr>n_isLeader := il\<rparr>) = view n"
  by (simp_all add: view_def)

lemma view_store_epoch: "storeEpochValidationSignature n m = (n', r) \<Longrightarrow> view n' = view n"
  by (auto simp: storeEpochValidationSignature_def Let_def)

lemma view_trigger: "trigger_submission n e b = (n', fx) \<Longrightarrow> view n' = view n"
  by (auto simp: trigger_submission_def split: if_splits)

lemma view_sign [simp]:
  "view (fst (signAndGossipValidationBundles lib n leader h grouped keys now)) = view n"
  by (auto simp: signAndGossipValidationBundles_def view_store_epoch view_trigger Let_def split: option.split prod.split sum.split)

lemma view_bundle_signature [simp]: "view (fst (onValidationBundleSignatureReceived n leader vb)) = view n"
  by (auto simp: onValidationBundleSignatureReceived_def view_store_epoch view_trigger store_legacy_signature_def Let_def split: option.split prod.split sum.split)

lemma view_report [simp]: "view (OnExecutionReportCommitted env n r key now) = view n"
  by (simp add: OnExecutionReportCommitted_def save_report_def Let_def split: option.split)

lemma view_leadership [simp]: "view (checkRaftConsensusState n leader) = view n"
  by (simp add: checkRaftConsensusState_def view_def)

lemma view_finalized [simp]: "view (handleCheckpointFinalized n header) = view n"
  by (simp add: handleCheckpointFinalized_def cleanupOldEpochData_def Let_def split: option.split)

lemma view_cleared [simp]: "view (fst (clearReportsForIntent n key order)) = view n"
  by (simp add: clearReportsForIntent_def Let_def)

lemma commit_checkpoint_view:
  assumes "commit_checkpoint env n header now = (n', r)" "n_gossip n"
  shows "n_id n' = n_id n \<and> n_validatorSet n' = n_validatorSet n \<and> n_raft n' = n_raft n \<and> n_gossip n'
    \<and> (\<exists>sig. sg_SignerId sig = n_id n \<and> (n_signatures n' = [n_id n \<mapsto> sig] \<or> n_signatures n' = Map.empty))"
proof -
  obtain c h e where add: "AddCheckpoint (env_H env) no_backend (n_chain n) header = (c, h, e)" by (metis prod_cases3)
  obtain d where save: "fst (saveCheckpoint env (n\<lparr>n_chain := c\<rparr>) h) = n\<lparr>n_chain := c, n_store := d\<rparr>"
    using saveCheckpoint_store [of env "n\<lparr>n_chain := c\<rparr>" h] by blast
  have "\<exists>sig :: Signature. sg_SignerId sig = n_id n" by (meson Signature.select_convs(5))
  then show ?thesis
    using assms unfolding commit_checkpoint_def add prod.case Let_def save
    by (auto dest!: signCheckpoint_signer split: sum.splits option.splits)
qed

text \<open>What signing the bundles keeps of the node is what the handler keeps of the committed state.\<close>

lemma handleCommittedCheckpoint_frame:
  assumes frame: "\<And>m h grouped. F (fst (signAndGossipValidationBundles lib m leader h grouped keys now)) = F m"
  shows "F (fst (handleCommittedCheckpoint env lib n leader header reports keys signers now)) = F (fst (commit_checkpoint env n header now))"
proof -
  obtain n1 r where commit: "commit_checkpoint env n header now = (n1, r)" by fastforce
  show ?thesis
  proof (cases "\<exists>h sig. r = Inr (Some (h, sig))")
    case True
    then obtain h sig where r: "r = Inr (Some (h, sig))" by blast
    define signed where "signed = (if card (dom (n_pendingReports n1)) > 0
      then signAndGossipValidationBundles lib n1 leader h (groupReportsByIntent (n_pendingReports n1) reports) keys now else (n1, Inr []))"
    have "F (fst signed) = F n1" by (simp add: signed_def frame)
    then obtain n2 q where signed: "signed = (n2, q)" "F n2 = F n1" by (metis prod.collapse)
    show ?thesis
      unfolding handleCommittedCheckpoint_def commit r prod.case sum.case option.case signed_def [symmetric] signed(1) fst_conv
      using signed(2) by (simp split: sum.split)
  next
    case False
    then show ?thesis unfolding handleCommittedCheckpoint_def commit by (auto split: sum.split option.split)
  qed
qed

lemmas handleCommittedCheckpoint_view = handleCommittedCheckpoint_frame [where F = view, OF view_sign]

lemma OnCheckpointCommitted_verified:
  assumes "verified env vid vs n"
  shows "verified env vid vs (fst (OnCheckpointCommitted env lib n leader msg reports keys signers now))"
proof (cases msg)
  case (Some header)
  obtain n1 r where commit: "commit_checkpoint env n header now = (n1, r)" by fastforce
  have "n_gossip n" "n_raft n" "n_id n = vid" using assms by (simp_all add: verified_def)
  then have "verified env vid vs n1"
    using commit_checkpoint_view [OF commit] verified_own [OF assms, of _ n1] by auto
  then show ?thesis
    using Some \<open>n_raft n\<close> commit handleCommittedCheckpoint_view [of env lib n leader header reports keys signers now]
    by (simp add: OnCheckpointCommitted_def verified_view)
qed (use assms in \<open>simp add: OnCheckpointCommitted_def\<close>)

lemma onGossipSignatureReceived_result:
  assumes "onGossipSignatureReceived env n leader msg hash order = (n', r)"
  shows "n' = n \<and> r = Inr [] \<or> (\<exists>sig. verifySignature env n sig = None \<and> n' = n\<lparr>n_signatures := (n_signatures n)(sg_SignerId sig \<mapsto> sig)\<rparr>
    \<and> r = (case signature_threshold n' order of Inl p \<Rightarrow> Inl p
           | Inr reached \<Rightarrow> Inr (if reached \<and> n_raft n' \<and> leader then submit_effect n' else [])))"
  using assms unfolding onGossipSignatureReceived_def Let_def
  by (auto split: option.splits if_splits sum.splits)

lemma verifySignature_signatures [simp]: "verifySignature env (n\<lparr>n_signatures := s\<rparr>) sig = verifySignature env n sig"
  by (simp add: verifySignature_def split: option.split)

lemma verifySignature_verifies:
  "verifySignature env n sig = None \<Longrightarrow> n_currentCheckpoint n = Some cp \<Longrightarrow>
     \<exists>w. GetValidator (n_validatorSet n) (sg_SignerId sig) = Some w
       \<and> Verify (env_lib env) (v_PubKey w) (ComputeHash (env_H env) (Some cp)) (sg_Der sig)"
  by (auto simp: verifySignature_def GetValidator_def split: option.splits if_splits)

lemma verified_add:
  "verified env vid vs n \<Longrightarrow> verifySignature env n sig = None \<Longrightarrow>
     verified env vid vs (n\<lparr>n_signatures := (n_signatures n)(sg_SignerId sig \<mapsto> sig)\<rparr>)"
  by (auto simp: verified_def split: if_splits)

lemma onGossipSignatureReceived_verified:
  assumes "verified env vid vs n"
  shows "verified env vid vs (fst (onGossipSignatureReceived env n leader msg hash order))"
proof -
  obtain n' r where g: "onGossipSignatureReceived env n leader msg hash order = (n', r)" by fastforce
  show ?thesis using onGossipSignatureReceived_result [OF g] verified_add [OF assms] assms unfolding g fst_conv by blast
qed

lemma verified_self:
  "verified env vid vs n \<Longrightarrow> sg_SignerId sig = n_id n \<Longrightarrow>
     verified env vid vs (n\<lparr>n_signatures := [n_id n \<mapsto> sig], n_currentCheckpoint := cp, n_lastCheckpointAt := t\<rparr>)"
  by (auto simp: verified_def split: if_splits)

lemma proposeCheckpointRaft_verified:
  "verified env vid vs n \<Longrightarrow> verified env vid vs (fst (proposeCheckpointRaft env n leader order now))"
  unfolding proposeCheckpointRaft_def Let_def
  by (auto dest!: signCheckpoint_signer simp: verified_self split: sum.split option.split)

lemma raft_node_step_verified:
  assumes "raft_node_step env lib n n'" "verified env vid vs n"
  shows "verified env vid vs n'"
  using assms(1)
proof cases
  case (committed run ev)
  then show ?thesis using assms(2) by (cases ev) (simp_all add: OnCheckpointCommitted_verified verified_view)
next
  case (gossip leader msg hash order)
  then show ?thesis using assms(2) by (simp add: onGossipSignatureReceived_verified)
next
  case (trigger leader order now)
  then show ?thesis using assms(2)
    by (simp add: checkRaftCheckpointTrigger_def proposeCheckpointRaft_verified verified_view)
qed (use assms(2) in \<open>auto intro: verified_view\<close>)

lemma raft_reachable_verified: "raft_reachable env lib vid vs n \<Longrightarrow> verified env vid vs n \<and> Validate vs = Inr ()"
proof (induction rule: raft_reachable.induct)
  case (start store signer cfg)
  then show ?case by (simp add: NewNode_def loadCheckpoint_def absent_def fresh_node_def verified_def)
qed (auto intro: raft_node_step_verified)

section \<open>Weights of the signers\<close>

definition weight_of :: "ValidatorSet \<Rightarrow> string \<Rightarrow> nat" where
  "weight_of vs v = (case GetValidator vs v of Some w \<Rightarrow> unat (v_Weight w) | None \<Rightarrow> 0)"

lemma unat_sum_list_le: "unat (sum_list (map f xs) :: u64) \<le> sum_list (map (unat \<circ> f) xs)"
proof (induction xs)
  case (Cons x xs)
  have "unat (f x + sum_list (map f xs)) \<le> unat (f x) + unat (sum_list (map f xs))" by (simp add: unat_word_ariths)
  also have "\<dots> \<le> unat (f x) + sum_list (map (unat \<circ> f) xs)" using Cons by (simp add: comp_def)
  finally show ?case by (simp add: comp_def)
qed simp

lemma weighted_threshold_sum:
  assumes "Validate vs = Inr ()" "vs_ThresholdDenom vs < 2 ^ 63" "weight_sum vs * nat (vs_ThresholdNum vs) < 2 ^ 64"
    and "CheckWeightedThreshold vs order = Inr True"
  shows "int (weight_sum vs) * vs_ThresholdNum vs \<le> int (sum_list (map (weight_of vs) order)) * vs_ThresholdDenom vs"
proof -
  let ?w = "\<lambda>k. case GetValidator vs k of Some v \<Rightarrow> v_Weight v | None \<Rightarrow> 0"
  have step: "(\<lambda>t k. case GetValidator vs k of Some v \<Rightarrow> t + v_Weight v | None \<Rightarrow> t) = (\<lambda>t k. t + ?w k)"
    by (intro ext) (simp split: option.splits)
  have weights: "unat \<circ> ?w = weight_of vs" by (rule ext) (simp add: weight_of_def split: option.split)
  obtain r where r: "RequiredWeight vs = Inr r"
    "int (unat r) = ceil_div (int (weight_sum vs) * vs_ThresholdNum vs) (vs_ThresholdDenom vs)"
    using RequiredWeight_no_overflow [OF assms(1-3)] by blast
  have "r \<le> sum_list (map ?w order)" using assms(4) r(1) by (simp add: CheckWeightedThreshold_def step foldl_add_acc)
  then have "unat r \<le> sum_list (map (weight_of vs) order)"
    using unat_sum_list_le [of ?w order] unfolding weights by (meson le_trans word_le_nat_alt)
  moreover have "0 < vs_ThresholdDenom vs" using assms(1) by (auto simp: spec_simps)
  ultimately show ?thesis using ceil_div_le r(2) by (metis of_nat_le_iff)
qed

section \<open>The node and the log\<close>

lemma on_events_report_or_checkpoint:
  "on_events env lib n run [ev] = (case on_event env lib n run ev of (n1, Inl p) \<Rightarrow> (n1, Inl p) | (n1, Inr fx) \<Rightarrow> (n1, Inr fx))"
  by (simp split: prod.split sum.split)

text \<open>What the node keeps of committed entries.\<close>

definition mirror :: "('sk, 'd) Node \<Rightarrow> (string \<rightharpoonup> ExecutionReport) \<times> u64 option \<times> bool" where
  "mirror n = (n_pendingReports n, map_option h_Epoch (n_currentCheckpoint n), n_raft n)"

lemma mirror_report:
  "mirror (OnExecutionReportCommitted env n r key now) =
     (if key = [] \<or> n_pendingReports n key \<noteq> None then mirror n
      else ((n_pendingReports n)(key \<mapsto> r), map_option h_Epoch (n_currentCheckpoint n), n_raft n))"
  by (simp add: OnExecutionReportCommitted_def save_report_def Let_def mirror_def split: option.split)

lemma AddCheckpoint_epoch: "AddCheckpoint H st c header = (c', h, e) \<Longrightarrow> h_Epoch h = h_Epoch header"
  by (auto simp: AddCheckpoint_def check_continuity_def Let_def split: option.splits if_splits sum.splits prod.splits)

lemma pending_steps:
  "storeEpochValidationSignature n m = (n', r) \<Longrightarrow> n_pendingReports n' = n_pendingReports n"
  "trigger_submission n e b = (n', fx) \<Longrightarrow> n_pendingReports n' = n_pendingReports n"
  by (auto simp: storeEpochValidationSignature_def trigger_submission_def Let_def split: if_splits)

lemma pending_sign [simp]:
  "n_pendingReports (fst (signAndGossipValidationBundles lib n leader h grouped keys now)) = n_pendingReports n"
  by (auto simp: signAndGossipValidationBundles_def pending_steps Let_def split: option.split prod.split sum.split)

lemma commit_checkpoint_mirror:
  "mirror (fst (commit_checkpoint env n header now)) = (n_pendingReports n, Some (h_Epoch header), n_raft n)"
proof -
  obtain c h e where add: "AddCheckpoint (env_H env) no_backend (n_chain n) header = (c, h, e)" by (metis prod_cases3)
  obtain d where save: "fst (saveCheckpoint env (n\<lparr>n_chain := c\<rparr>) h) = n\<lparr>n_chain := c, n_store := d\<rparr>"
    using saveCheckpoint_store [of env "n\<lparr>n_chain := c\<rparr>" h] by blast
  show ?thesis
    unfolding commit_checkpoint_def add prod.case Let_def save
    by (simp add: mirror_def AddCheckpoint_epoch [OF add] split: sum.split option.split)
qed

lemma mirror_sign: "mirror (fst (signAndGossipValidationBundles lib n leader h grouped keys now)) = mirror n"
  using view_sign [of lib n leader h grouped keys now] by (simp add: mirror_def view_def)

lemma mirror_checkpoint:
  "n_raft n \<Longrightarrow> mirror (fst (OnCheckpointCommitted env lib n leader (Some header) reports keys signers now)) = (n_pendingReports n, Some (h_Epoch header), True)"
  by (simp add: OnCheckpointCommitted_def handleCommittedCheckpoint_frame [where F = mirror, OF mirror_sign] commit_checkpoint_mirror)

text \<open>One entry on both machines.\<close>

lemma makeReportKey_nonempty [simp]: "makeReportKey r \<noteq> []"
  by (simp add: makeReportKey_def)

lemma apply_entry:
  assumes "apply_log env lib cd (f, n) ((data, run) # entries) = Some s" "f_handler f" "n_raft n"
  shows "\<exists>n1. apply_log env lib cd (fsm_step cd f data, n1) entries = Some s \<and> f_handler (fsm_step cd f data) \<and> n_raft n1
    \<and> (case read_entry cd data of
         Checkpoint h \<Rightarrow> n_pendingReports n1 = n_pendingReports n \<and> map_option h_Epoch (n_currentCheckpoint n1) = Some (h_Epoch h)
       | Report r \<Rightarrow> n_pendingReports n1 = [makeReportKey r \<mapsto> r] ++ n_pendingReports n
           \<and> map_option h_Epoch (n_currentCheckpoint n1) = map_option h_Epoch (n_currentCheckpoint n)
       | Unreadable \<Rightarrow> n1 = n)"
proof (cases "read_entry cd data")
  case (Checkpoint h)
  define r where "r = OnCheckpointCommitted env lib n (ar_leader run) (Some h) (ar_reports run) (ar_keys run) (ar_signers run) (ar_now run)"
  have "fsm_step cd f data = put_checkpoint f h" and ev: "fst (snd (Apply cd f data)) = [CheckpointCommitted h]"
    using Checkpoint assms(2)
    by (auto simp: fsm_step_read read_entry_def Apply_def applyCheckpoint_def split: sum.splits if_splits option.splits)
  moreover have "mirror (fst r) = (n_pendingReports n, Some (h_Epoch h), True)" using assms(3) by (simp add: r_def mirror_checkpoint)
  ultimately show ?thesis
    using assms Checkpoint unfolding fsm_step_def
    by (intro exI [of _ "fst r"]) (auto simp: r_def [symmetric] mirror_def put_checkpoint_def split: prod.splits sum.splits)
next
  case (Report q)
  have "fsm_step cd f data = put_report f q" and ev: "fst (snd (Apply cd f data)) = [ExecutionReportCommitted q (makeReportKey q)]"
    using Report assms(2)
    by (auto simp: fsm_step_read read_entry_def Apply_def applyExecutionReport_def Let_def split: sum.splits if_splits option.splits)
  moreover have "n_pendingReports (OnExecutionReportCommitted env n q (makeReportKey q) now) = [makeReportKey q \<mapsto> q] ++ n_pendingReports n"
    "map_option h_Epoch (n_currentCheckpoint (OnExecutionReportCommitted env n q (makeReportKey q) now)) = map_option h_Epoch (n_currentCheckpoint n)"
    "n_raft (OnExecutionReportCommitted env n q (makeReportKey q) now) = n_raft n" for now
    using mirror_report [of env n q "makeReportKey q" now] by (auto simp: mirror_def fun_eq_iff map_add_def split: if_splits option.split)
  ultimately show ?thesis
    using assms Report unfolding fsm_step_def
    by (intro exI [of _ "OnExecutionReportCommitted env n q (makeReportKey q) (ar_now run)"]) (auto simp: put_report_def split: prod.splits)
next
  case Unreadable
  then have "fsm_step cd f data = f" "fst (snd (Apply cd f data)) = []"
    by (auto simp: fsm_step_read read_entry_def Apply_def applyCheckpoint_def applyExecutionReport_def split: sum.splits if_splits option.splits)
  then show ?thesis using assms Unreadable unfolding fsm_step_def by (auto split: prod.splits)
qed

lemma log_Cons:
  "reports_of cd (data # log) = (case read_entry cd data of Report r \<Rightarrow> r # reports_of cd log | _ \<Rightarrow> reports_of cd log)"
  "headers_of cd (data # log) = (case read_entry cd data of Checkpoint h \<Rightarrow> h # headers_of cd log | _ \<Rightarrow> headers_of cd log)"
  by (simp_all add: reports_of_def headers_of_def split: payload.split)

lemma apply_log_mirror:
  assumes "apply_log env lib cd (f, n) entries = Some (f', n')" "f_handler f" "n_raft n"
  shows "f' = replay cd f (map fst entries)
    \<and> n_pendingReports n' = map_of (map (\<lambda>r. (makeReportKey r, r)) (reports_of cd (map fst entries))) ++ n_pendingReports n
    \<and> map_option h_Epoch (n_currentCheckpoint n') =
        (if headers_of cd (map fst entries) = [] then map_option h_Epoch (n_currentCheckpoint n) else Some (h_Epoch (last (headers_of cd (map fst entries)))))"
  using assms
proof (induction entries arbitrary: f n)
  case (Cons entry entries)
  obtain data run where entry: "entry = (data, run)" by fastforce
  obtain n1 where n1: "apply_log env lib cd (fsm_step cd f data, n1) entries = Some (f', n')" "f_handler (fsm_step cd f data)" "n_raft n1"
    and read: "case read_entry cd data of
         Checkpoint h \<Rightarrow> n_pendingReports n1 = n_pendingReports n \<and> map_option h_Epoch (n_currentCheckpoint n1) = Some (h_Epoch h)
       | Report r \<Rightarrow> n_pendingReports n1 = [makeReportKey r \<mapsto> r] ++ n_pendingReports n
           \<and> map_option h_Epoch (n_currentCheckpoint n1) = map_option h_Epoch (n_currentCheckpoint n)
       | Unreadable \<Rightarrow> n1 = n"
    using apply_entry [OF Cons.prems(1) [unfolded entry] Cons.prems(2,3)] by blast
  note IH = Cons.IH [OF n1]
  show ?case
    using IH read unfolding entry
    by (cases "read_entry cd data") (auto simp: log_Cons fun_eq_iff map_add_def split: option.split)
qed (simp add: reports_of_def headers_of_def)

text \<open>A committed checkpoint on a node without pending reports.\<close>

lemma commit_without_reports:
  assumes add: "AddCheckpoint (env_H env) no_backend (n_chain n) header = (c, h, e)"
    and node: "n_raft n" "n_gossip n" "n_pendingReports n = Map.empty"
    and signs: "Sign (env_lib env) (n_signer n) (ComputeHash (env_H env) (Some h)) = Inr (Some sig)"
    and s: "s = \<lparr>sg_Algo = ECDSA_SECP256K1, sg_Der = sig, sg_Pubkey = lib_FromECDSAPub (env_lib env) (n_signer n),
      sg_MsgHash = ComputeHash (env_H env) (Some h), sg_SignerId = n_id n\<rparr>"
  shows "\<exists>n1. OnCheckpointCommitted env lib n leader (Some header) reports keys signers now =
      (n1, case signature_threshold n1 signers of Inl p \<Rightarrow> Inl p
           | Inr reached \<Rightarrow> Inr (GossipSignature s (h_Epoch h) (ComputeHash (env_H env) (Some h)) # (if reached \<and> leader then submit_effect n1 else [])))
    \<and> n_chain n1 = c \<and> n_currentCheckpoint n1 = Some h \<and> n_signatures n1 = [n_id n \<mapsto> s]
    \<and> n_validatorSet n1 = n_validatorSet n \<and> n_raft n1 \<and> n_gossip n1 \<and> n_id n1 = n_id n"
proof -
  obtain d where save: "fst (saveCheckpoint env (n\<lparr>n_chain := c\<rparr>) h) = n\<lparr>n_chain := c, n_store := d\<rparr>"
    using saveCheckpoint_store [of env "n\<lparr>n_chain := c\<rparr>" h] by blast
  have sign: "signCheckpoint env m h = Inr (Some s)" if "n_signer m = n_signer n" "n_id m = n_id n" for m :: "('a, 'c) Node"
    using signs that by (simp add: signCheckpoint_def s)
  obtain n1 where n1: "commit_checkpoint env n header now = (n1, Inr (Some (h, s)))" "n_chain n1 = c" "n_currentCheckpoint n1 = Some h"
      "n_signatures n1 = [n_id n \<mapsto> s]" "n_pendingReports n1 = Map.empty" "n_gossip n1" "n_raft n1" "n_validatorSet n1 = n_validatorSet n"
      "n_id n1 = n_id n"
    using node unfolding commit_checkpoint_def add prod.case Let_def save by (simp add: sign)
  then show ?thesis
    using node(1) by (intro exI [of _ n1]) (simp add: OnCheckpointCommitted_def handleCommittedCheckpoint_def split: sum.split)
qed

section \<open>Properties\<close>


definition example_chain :: "unit Chain" where
  "example_chain = fst (AddCheckpoint id no_backend NewChain (example_proto_header 5))"

definition raft_node :: "string \<Rightarrow> ValidatorSet \<Rightarrow> (unit, (bytes \<times> bytes) list) Node" where
  "raft_node vid vs = NewNode example_env vid () vs True False True example_config []"

lemma raft_node_facts:
  "n_raft (raft_node vid vs)" "n_gossip (raft_node vid vs)" "n_pendingReports (raft_node vid vs) = Map.empty" "n_signer (raft_node vid vs) = ()"
  "n_validatorSet (raft_node vid vs) = vs" "n_id (raft_node vid vs) = vid" "n_chain (raft_node vid vs) = NewChain"
  by (simp_all add: raft_node_def NewNode_example fresh_node_def)

lemma ideal_Sign: "Sign ideal_lib () m = Inr (Some (replicate 64 7 @ 28 # m))"
  by (simp add: Sign_def ideal_lib_def nth_append)

definition gossip_node :: "(unit, (bytes \<times> bytes) list) Node" where
  "gossip_node = fst (OnCheckpointCommitted example_env example_sdk (raft_node ''v1'' pair_set) False
     (Some (example_proto_header 0)) [] [] [''v1''] 0)"

lemma gossip_node_facts:
  "raft_reachable example_env example_sdk ''v1'' pair_set gossip_node" "n_currentCheckpoint gossip_node = Some (example_proto_header 0)"
  "n_signatures gossip_node = [''v1'' \<mapsto> signed_by id ''v1'' (example_proto_header 0)]" "n_validatorSet gossip_node = pair_set" "n_raft gossip_node"
proof -
  let ?n = "raft_node ''v1'' pair_set" and ?h = "example_proto_header 0"
  let ?run = "\<lparr>ar_leader = False, ar_reports = [], ar_keys = [], ar_signers = [''v1''], ar_now = 0\<rparr>"
  have "raft_reachable example_env example_sdk ''v1'' pair_set ?n"
    unfolding raft_node_def by (rule raft_reachable.start [OF pair_set_facts(1)]) (simp add: Get_ldb_def alist_db_def)
  moreover have "gossip_node = fst (on_event example_env example_sdk ?n ?run (CheckpointCommitted ?h))" by (simp add: gossip_node_def)
  ultimately show "raft_reachable example_env example_sdk ''v1'' pair_set gossip_node"
    by (metis raft_reachable.step raft_node_step.committed)
  have add: "AddCheckpoint (env_H example_env) no_backend (n_chain ?n) ?h = (fst (AddCheckpoint id no_backend NewChain ?h), ?h, None)"
    by (simp add: raft_node_facts AddCheckpoint_def check_continuity_def NewChain_def)
  have sign: "Sign (env_lib example_env) (n_signer ?n) (ComputeHash (env_H example_env) (Some ?h))
      = Inr (Some (replicate 64 7 @ 28 # ComputeHash id (Some ?h)))"
    by (simp add: raft_node_facts ideal_Sign)
  show "n_currentCheckpoint gossip_node = Some ?h" "n_signatures gossip_node = [''v1'' \<mapsto> signed_by id ''v1'' ?h]"
    "n_validatorSet gossip_node = pair_set" "n_raft gossip_node"
    using commit_without_reports [OF add raft_node_facts(1-3) sign refl, of example_sdk False "[]" "[]" "[''v1'']" 0]
    by (auto simp: gossip_node_def raft_node_facts signed_by_def ideal_lib_def ComputeHash_def)
qed




text \<open>
  A committed checkpoint that the node's own chain rejects, for its epoch or for its parent hash, is still made the current
  checkpoint, stored, signed and gossiped; only the chain is left as it was.
\<close>
theorem rejected_checkpoint_is_signed:
  assumes rejected: "AddCheckpoint (env_H env) no_backend (n_chain n) header = (c, h, Some err)" "ch_store (n_chain n) = None"
    and node: "n_raft n" "n_gossip n" "n_pendingReports n = Map.empty"
    and signs: "Sign (env_lib env) (n_signer n) (ComputeHash (env_H env) (Some header)) = Inr (Some sig)"
    and commit: "OnCheckpointCommitted env lib n False (Some header) reports keys signers now = (n', Inr fx)"
  shows "n_chain n' = n_chain n \<and> n_currentCheckpoint n' = Some header
    \<and> (\<exists>s. n_signatures n' = [n_id n \<mapsto> s] \<and> sg_Der s = sig
         \<and> fx = [GossipSignature s (h_Epoch header) (ComputeHash (env_H env) (Some header))])"
proof -
  have c: "c = n_chain n" "h = header" using rejected by (auto simp: AddCheckpoint_def Let_def split: sum.splits)
  show ?thesis
    using commit_without_reports [OF rejected(1) [unfolded c] node signs refl, of lib False reports keys signers now] commit
    by (auto split: sum.splits)
qed

theorem rejected_checkpoint_is_signed_witness:
  "\<exists>n' fx. OnCheckpointCommitted example_env example_sdk ((raft_node ''v1'' example_set)\<lparr>n_chain := example_chain\<rparr>) False
      (Some (example_proto_header 3)) [] [] [''v1''] 0 = (n', Inr fx)
    \<and> ch_latest (n_chain n') = Some (example_proto_header 5) \<and> n_currentCheckpoint n' = Some (example_proto_header 3) \<and> length fx = 1"
proof -
  let ?n = "(raft_node ''v1'' example_set)\<lparr>n_chain := example_chain\<rparr>" and ?h = "example_proto_header 3"
  have chain: "ch_latest example_chain = Some (example_proto_header 5)" "ch_store example_chain = None"
    by (simp_all add: example_chain_def AddCheckpoint_def check_continuity_def NewChain_def)
  then have add: "AddCheckpoint (env_H example_env) no_backend (n_chain ?n) ?h = (example_chain, ?h, Some (InvalidEpoch 5 3))"
    by (simp add: AddCheckpoint_def check_continuity_def example_proto_header_def)
  have node: "n_raft ?n" "n_gossip ?n" "n_pendingReports ?n = Map.empty" "ch_store (n_chain ?n) = None"
    by (simp_all add: raft_node_facts chain)
  have sign: "Sign (env_lib example_env) (n_signer ?n) (ComputeHash (env_H example_env) (Some ?h))
      = Inr (Some (replicate 64 7 @ 28 # ComputeHash (env_H example_env) (Some ?h)))"
    by (simp add: raft_node_facts ideal_Sign)
  obtain n1 r where run: "OnCheckpointCommitted example_env example_sdk ?n False (Some ?h) [] [] [''v1''] 0 = (n1, r)" by fastforce
  then have "\<exists>fx. r = Inr fx"
    using commit_without_reports [OF add node(1-3) sign refl, of example_sdk False "[]" "[]" "[''v1'']" 0]
    by (auto simp: signature_threshold_def raft_node_facts CheckWeightedThreshold_def RequiredWeight_def example_set_simps TotalWeight_def split: sum.splits)
  with run obtain fx where run: "OnCheckpointCommitted example_env example_sdk ?n False (Some ?h) [] [] [''v1''] 0 = (n1, Inr fx)" by blast
  show ?thesis
    using rejected_checkpoint_is_signed [OF add node(4,1-3) sign run] run chain by (auto intro!: exI [of _ n1] exI [of _ fx])
qed

end
