(* ===== verification/Bid_Book.thy ===== *)
theory Bid_Book
  imports Subnet_Prelude Complex_Main
begin

text \<open>
  The bid book (\<open>src/internal/matcher/bidbook.go\<close>) and the matching engine (\<open>src/internal/matcher/matching_engine.go\<close>). A bid is
  a pointer that the snapshot of its intent and the map of all bids share and that \<open>AddBid\<close> changes in place, so bids live in a heap and
  the maps hold references. The engine computes scores in \<open>float64\<close>: every operation is the exact one followed by the rounding \<open>fl\<close>.
\<close>

section \<open>Model\<close>

subsection \<open>Data\<close>

record Intent_types =
  ti_IntentID :: string
  ti_SubnetID :: string
  ti_Requester :: string
  ti_IntentType :: string
  ti_CreatedAt :: int
  ti_Deadline :: int
  ti_ParamsHash :: string
  ti_Budget :: u64
  ti_PaymentToken :: string
  ti_Status :: string
  ti_BiddingStartTime :: int
  ti_BiddingEndTime :: int
  ti_IntentData :: bytes
  ti_Token :: string

record Bid_types =
  bd_BidID :: string
  bd_IntentID :: string
  bd_AgentID :: string
  bd_Price :: u64
  bd_Token :: string
  bd_SubmittedAt :: int
  bd_Nonce :: string
  bd_Signature :: string
  bd_Metadata :: bytes

record BidSnapshot =
  sn_IntentID :: string
  sn_Bids :: "nat list"
  sn_BiddingStartTime :: int
  sn_BiddingEndTime :: int
  sn_BiddingClosed :: bool
  sn_Intent :: Intent_types

record BidBook =
  bb_heap :: "Bid_types list"
  bb_bidsByIntent :: "string \<rightharpoonup> BidSnapshot"
  bb_bidsByAgent :: "string \<rightharpoonup> string list"
  bb_allBids :: "string \<rightharpoonup> nat"
  bb_closedWindows :: "string list"

datatype book_error =
    BiddingAlreadyStarted string
  | IntentNotFound string
  | WindowClosed string
  | WindowExpired string
  | AgentAlreadyBid string string

definition NewBidBook :: BidBook where
  "NewBidBook = \<lparr>bb_heap = [], bb_bidsByIntent = Map.empty, bb_bidsByAgent = Map.empty, bb_allBids = Map.empty, bb_closedWindows = []\<rparr>"

subsection \<open>Bidding\<close>

definition StartBidding :: "BidBook \<Rightarrow> Intent_types \<Rightarrow> BidBook \<times> book_error option" where
  "StartBidding b intent =
     (if bb_bidsByIntent b (ti_IntentID intent) \<noteq> None then (b, Some (BiddingAlreadyStarted (ti_IntentID intent)))
      else
        (b\<lparr>bb_bidsByIntent := (bb_bidsByIntent b)(ti_IntentID intent \<mapsto>
             \<lparr>sn_IntentID = ti_IntentID intent, sn_Bids = [], sn_BiddingStartTime = ti_BiddingStartTime intent,
              sn_BiddingEndTime = ti_BiddingEndTime intent, sn_BiddingClosed = False, sn_Intent = intent\<rparr>)\<rparr>, None))"

text \<open>What closes an expired window: the flag and the entry in the list of closed windows.\<close>

definition close_snapshot :: "BidBook \<Rightarrow> string \<Rightarrow> BidSnapshot \<Rightarrow> BidBook" where
  "close_snapshot b intentID snapshot =
     b\<lparr>bb_bidsByIntent := (bb_bidsByIntent b)(intentID \<mapsto> snapshot\<lparr>sn_BiddingClosed := True\<rparr>),
       bb_closedWindows := bb_closedWindows b @ [intentID]\<rparr>"

definition append_bid :: "BidBook \<Rightarrow> BidSnapshot \<Rightarrow> Bid_types \<Rightarrow> BidBook" where
  "append_bid b snapshot bid =
     (let r = length (bb_heap b) in
      b\<lparr>bb_heap := bb_heap b @ [bid],
        bb_bidsByIntent := (bb_bidsByIntent b)(bd_IntentID bid \<mapsto> snapshot\<lparr>sn_Bids := sn_Bids snapshot @ [r]\<rparr>),
        bb_bidsByAgent := (bb_bidsByAgent b)(bd_AgentID bid \<mapsto>
          (case bb_bidsByAgent b (bd_AgentID bid) of None \<Rightarrow> [] | Some ids \<Rightarrow> ids) @ [bd_BidID bid]),
        bb_allBids := (bb_allBids b)(bd_BidID bid \<mapsto> r)\<rparr>)"

definition AddBid :: "BidBook \<Rightarrow> Bid_types \<Rightarrow> int \<Rightarrow> BidBook \<times> book_error option" where
  "AddBid b bid now =
     (case bb_bidsByIntent b (bd_IntentID bid) of
        None \<Rightarrow> (b, Some (IntentNotFound (bd_IntentID bid)))
      | Some snapshot \<Rightarrow>
          if sn_BiddingClosed snapshot then (b, Some (WindowClosed (bd_IntentID bid)))
          else if now > sn_BiddingEndTime snapshot
          then (close_snapshot b (bd_IntentID bid) snapshot, Some (WindowExpired (bd_IntentID bid)))
          else case List.find (\<lambda>r. bd_AgentID (bb_heap b ! r) = bd_AgentID bid) (sn_Bids snapshot) of
            Some r \<Rightarrow>
              if bd_Price bid < bd_Price (bb_heap b ! r)
              then (b\<lparr>bb_heap := (bb_heap b)[r := (bb_heap b ! r)\<lparr>bd_Price := bd_Price bid, bd_SubmittedAt := bd_SubmittedAt bid,
                        bd_Signature := bd_Signature bid\<rparr>]\<rparr>, None)
              else (b, Some (AgentAlreadyBid (bd_AgentID bid) (bd_IntentID bid)))
          | None \<Rightarrow> (append_bid b snapshot bid, None))"

subsection \<open>Reading\<close>

text \<open>Without other goroutines between the two locks; the bids of the copy are the same pointers.\<close>

definition GetSnapshot :: "BidBook \<Rightarrow> string \<Rightarrow> int \<Rightarrow> BidBook \<times> BidSnapshot option" where
  "GetSnapshot b intentID now =
     (case bb_bidsByIntent b intentID of
        None \<Rightarrow> (b, None)
      | Some snapshot \<Rightarrow>
          if \<not> sn_BiddingClosed snapshot \<and> now > sn_BiddingEndTime snapshot
          then (close_snapshot b intentID snapshot, Some (snapshot\<lparr>sn_BiddingClosed := True\<rparr>))
          else (b, Some snapshot))"

definition close_if_expired :: "int \<Rightarrow> BidBook \<Rightarrow> string \<Rightarrow> BidBook" where
  "close_if_expired now b intentID =
     (case bb_bidsByIntent b intentID of
        None \<Rightarrow> b
      | Some snapshot \<Rightarrow>
          if \<not> sn_BiddingClosed snapshot \<and> now > sn_BiddingEndTime snapshot then close_snapshot b intentID snapshot else b)"

text \<open>\<open>order\<close> lists the intents in the order of the runtime.\<close>

definition GetClosedWindows :: "BidBook \<Rightarrow> int \<Rightarrow> string list \<Rightarrow> BidBook \<times> string list" where
  "GetClosedWindows b now order =
     (let b1 = foldl (close_if_expired now) b order in (b1\<lparr>bb_closedWindows := []\<rparr>, bb_closedWindows b1))"

definition GetBid :: "BidBook \<Rightarrow> string \<Rightarrow> Bid_types option" where
  "GetBid b bidID = map_option ((!) (bb_heap b)) (bb_allBids b bidID)"

definition GetAgentBids :: "BidBook \<Rightarrow> string \<Rightarrow> string list" where
  "GetAgentBids b agentID = (case bb_bidsByAgent b agentID of None \<Rightarrow> [] | Some ids \<Rightarrow> ids)"

definition ActiveIntentCount :: "BidBook \<Rightarrow> string list \<Rightarrow> nat" where
  "ActiveIntentCount b order =
     foldl (\<lambda>count i. case bb_bidsByIntent b i of Some s \<Rightarrow> if \<not> sn_BiddingClosed s then count + 1 else count | None \<Rightarrow> count) 0 order"

definition TotalBidCount :: "BidBook \<Rightarrow> nat" where
  "TotalBidCount b = card (dom (bb_allBids b))"

subsection \<open>Removing\<close>

definition remove_bid :: "BidBook \<Rightarrow> nat \<Rightarrow> BidBook" where
  "remove_bid b r =
     (let bid = bb_heap b ! r; b1 = b\<lparr>bb_allBids := (bb_allBids b)(bd_BidID bid := None)\<rparr> in
      case bb_bidsByAgent b (bd_AgentID bid) of
        None \<Rightarrow> b1
      | Some agentBids \<Rightarrow>
          let newBids = filter (\<lambda>i. i \<noteq> bd_BidID bid) agentBids in
          b1\<lparr>bb_bidsByAgent := (bb_bidsByAgent b)(bd_AgentID bid := (if newBids \<noteq> [] then Some newBids else None))\<rparr>)"

definition RemoveIntent :: "BidBook \<Rightarrow> string \<Rightarrow> BidBook" where
  "RemoveIntent b intentID =
     (case bb_bidsByIntent b intentID of
        None \<Rightarrow> b
      | Some snapshot \<Rightarrow>
          let b1 = foldl remove_bid b (sn_Bids snapshot) in
          b1\<lparr>bb_bidsByIntent := (bb_bidsByIntent b1)(intentID := None)\<rparr>)"

definition cleanup_intent :: "int \<Rightarrow> BidBook \<times> nat \<Rightarrow> string \<Rightarrow> BidBook \<times> nat" where
  "cleanup_intent cutoffTime bk intentID =
     (case bk of (b, removed) \<Rightarrow>
      case bb_bidsByIntent b intentID of
        None \<Rightarrow> (b, removed)
      | Some snapshot \<Rightarrow>
          if sn_BiddingClosed snapshot \<and> sn_BiddingEndTime snapshot < cutoffTime
          then (b\<lparr>bb_allBids := foldl (\<lambda>m r. m(bd_BidID (bb_heap b ! r) := None)) (bb_allBids b) (sn_Bids snapshot),
                  bb_bidsByIntent := (bb_bidsByIntent b)(intentID := None)\<rparr>, removed + 1)
          else (b, removed))"

text \<open>\<open>olderThan\<close> in nanoseconds; \<open>int64(olderThan.Seconds())\<close> is the whole number of seconds.\<close>

definition CleanupExpired :: "BidBook \<Rightarrow> int \<Rightarrow> int \<Rightarrow> string list \<Rightarrow> BidBook \<times> nat" where
  "CleanupExpired b olderThan now order = foldl (cleanup_intent (now - olderThan sdiv second)) (b, 0) order"

subsection \<open>Scores\<close>

record MatchingResult_types =
  mt_IntentID :: string
  mt_WinningBid :: Bid_types
  mt_WinningAgentID :: string
  mt_RunnerUpBids :: "Bid_types list"
  mt_MatchedAt :: int
  mt_MatcherID :: string

definition findPriceRange :: "Bid_types list \<Rightarrow> u64 \<times> u64" where
  "findPriceRange bids =
     (case bids of
        [] \<Rightarrow> (0, 0)
      | bid # rest \<Rightarrow>
          foldl (\<lambda>(minPrice, maxPrice) b.
            (if bd_Price b < minPrice then bd_Price b else minPrice, if bd_Price b > maxPrice then bd_Price b else maxPrice))
            (bd_Price bid, bd_Price bid) rest)"

text \<open>The weights and the constants of the engine are \<open>float64\<close> values too.\<close>

definition calculateScore :: "(real \<Rightarrow> real) \<Rightarrow> Bid_types \<Rightarrow> u64 \<Rightarrow> u64 \<Rightarrow> real" where
  "calculateScore fl bid minPrice maxPrice =
     (let priceScore = (if maxPrice > minPrice
                        then fl (1 - fl (fl (real (unat (bd_Price bid - minPrice))) / fl (real (unat (maxPrice - minPrice)))))
                        else 1) in
      fl (fl (fl (priceScore * fl (1 / 2)) + fl (fl (1 / 2) * fl (3 / 10))) + fl (fl (1 / 2) * fl (2 / 10))))"

definition scoreBids :: "(real \<Rightarrow> real) \<Rightarrow> Bid_types list \<Rightarrow> (Bid_types \<times> real) list" where
  "scoreBids fl bids = (case findPriceRange bids of (minPrice, maxPrice) \<Rightarrow> map (\<lambda>b. (b, calculateScore fl b minPrice maxPrice)) bids)"

text \<open>\<open>srt\<close> is what \<open>sort.Slice\<close> makes of the scored bids: it is not stable, so equal scores may come in any order.\<close>

definition Match_engine ::
  "(real \<Rightarrow> real) \<Rightarrow> ((Bid_types \<times> real) list \<Rightarrow> (Bid_types \<times> real) list) \<Rightarrow> string \<Rightarrow> BidBook \<Rightarrow> BidSnapshot option
     \<Rightarrow> MatchingResult_types option" where
  "Match_engine fl srt matcherID b snap =
     (case snap of
        None \<Rightarrow> None
      | Some snapshot \<Rightarrow>
          (case srt (scoreBids fl (map ((!) (bb_heap b)) (sn_Bids snapshot))) of
             [] \<Rightarrow> None
           | winner # others \<Rightarrow>
               Some \<lparr>mt_IntentID = sn_IntentID snapshot, mt_WinningBid = fst winner, mt_WinningAgentID = bd_AgentID (fst winner),
                     mt_RunnerUpBids = map fst (take 2 others), mt_MatchedAt = sn_BiddingEndTime snapshot, mt_MatcherID = matcherID\<rparr>))"

definition sorts_scores :: "((Bid_types \<times> real) list \<Rightarrow> (Bid_types \<times> real) list) \<Rightarrow> bool" where
  "sorts_scores srt \<longleftrightarrow> (\<forall>xs. mset (srt xs) = mset xs \<and> sorted_wrt (\<lambda>x y. \<not> snd y > snd x) (srt xs))"

section \<open>Prices of the agents\<close>

text \<open>
  The contract of a bid book: for each intent a map from agents to prices, in which an offer replaces a higher price.
\<close>

definition offer :: "(string \<rightharpoonup> u64) \<Rightarrow> string \<Rightarrow> u64 \<Rightarrow> (string \<rightharpoonup> u64)" where
  "offer m a p = m(a \<mapsto> (case m a of None \<Rightarrow> p | Some q \<Rightarrow> min p q))"

definition refs_of :: "BidBook \<Rightarrow> string \<Rightarrow> nat list" where
  "refs_of b i = (case bb_bidsByIntent b i of None \<Rightarrow> [] | Some s \<Rightarrow> sn_Bids s)"

definition agent_price :: "BidBook \<Rightarrow> string \<Rightarrow> (string \<rightharpoonup> u64)" where
  "agent_price b i = (\<lambda>a. map_option (\<lambda>r. bd_Price (bb_heap b ! r)) (List.find (\<lambda>r. bd_AgentID (bb_heap b ! r) = a) (refs_of b i)))"

definition is_open :: "BidBook \<Rightarrow> string \<Rightarrow> int \<Rightarrow> bool" where
  "is_open b i now \<longleftrightarrow> (\<exists>s. bb_bidsByIntent b i = Some s \<and> \<not> sn_BiddingClosed s \<and> now \<le> sn_BiddingEndTime s)"

definition book_ok :: "BidBook \<Rightarrow> bool" where
  "book_ok b \<longleftrightarrow> (\<forall>i. \<forall>r \<in> set (refs_of b i). r < length (bb_heap b) \<and> bd_IntentID (bb_heap b ! r) = i)"

lemma nth_update_any: "xs[i := x] ! j = (if j = i \<and> i < length xs then x else xs ! j)"
  by (cases "i < length xs") (auto simp: nth_list_update list_update_beyond)

lemma find_cong_set: "(\<And>x. x \<in> set xs \<Longrightarrow> P x = Q x) \<Longrightarrow> List.find P xs = List.find Q xs"
  by (induction xs) simp_all

lemma find_SomeD: "List.find P xs = Some x \<Longrightarrow> x \<in> set xs \<and> P x"
  by (induction xs) (auto split: if_splits)

lemma book_ok_ref: "book_ok b \<Longrightarrow> r \<in> set (refs_of b i) \<Longrightarrow> r < length (bb_heap b) \<and> bd_IntentID (bb_heap b ! r) = i"
  by (auto simp: book_ok_def)

text \<open>The four outcomes of \<open>AddBid\<close>.\<close>

lemma AddBid_cases:
  obtains (refused) "\<not> is_open b (bd_IntentID bid) now" "bb_heap (fst (AddBid b bid now)) = bb_heap b" "refs_of (fst (AddBid b bid now)) = refs_of b"
  | (fresh) s where "is_open b (bd_IntentID bid) now" "bb_bidsByIntent b (bd_IntentID bid) = Some s"
      "List.find (\<lambda>r. bd_AgentID (bb_heap b ! r) = bd_AgentID bid) (refs_of b (bd_IntentID bid)) = None"
      "AddBid b bid now = (append_bid b s bid, None)"
  | (lower) r where "is_open b (bd_IntentID bid) now"
      "List.find (\<lambda>r. bd_AgentID (bb_heap b ! r) = bd_AgentID bid) (refs_of b (bd_IntentID bid)) = Some r"
      "bd_Price bid < bd_Price (bb_heap b ! r)"
      "AddBid b bid now = (b\<lparr>bb_heap := (bb_heap b)[r := (bb_heap b ! r)\<lparr>bd_Price := bd_Price bid, bd_SubmittedAt := bd_SubmittedAt bid,
                        bd_Signature := bd_Signature bid\<rparr>]\<rparr>, None)"
  | (higher) r where "is_open b (bd_IntentID bid) now"
      "List.find (\<lambda>r. bd_AgentID (bb_heap b ! r) = bd_AgentID bid) (refs_of b (bd_IntentID bid)) = Some r"
      "\<not> bd_Price bid < bd_Price (bb_heap b ! r)"
      "AddBid b bid now = (b, Some (AgentAlreadyBid (bd_AgentID bid) (bd_IntentID bid)))"
proof (cases "is_open b (bd_IntentID bid) now")
  case True
  then obtain s where s: "bb_bidsByIntent b (bd_IntentID bid) = Some s" "\<not> sn_BiddingClosed s" "\<not> now > sn_BiddingEndTime s"
    by (auto simp: is_open_def)
  then have refs: "refs_of b (bd_IntentID bid) = sn_Bids s" by (simp add: refs_of_def)
  show ?thesis
  proof (cases "List.find (\<lambda>r. bd_AgentID (bb_heap b ! r) = bd_AgentID bid) (sn_Bids s)")
    case None
    then show ?thesis using s refs True by (intro fresh) (simp_all add: AddBid_def)
  next
    case (Some r)
    show ?thesis
    proof (cases "bd_Price bid < bd_Price (bb_heap b ! r)")
      case True
      then show ?thesis using s refs \<open>is_open b (bd_IntentID bid) now\<close> Some by (intro lower) (simp_all add: AddBid_def)
    next
      case False
      then show ?thesis using s refs \<open>is_open b (bd_IntentID bid) now\<close> Some by (intro higher) (simp_all add: AddBid_def)
    qed
  qed
next
  case False
  have "bb_heap (fst (AddBid b bid now)) = bb_heap b \<and> refs_of (fst (AddBid b bid now)) = refs_of b"
    using False by (auto simp: AddBid_def is_open_def close_snapshot_def refs_of_def fun_eq_iff split: option.splits)
  then show ?thesis using False by (intro refused) simp_all
qed

lemma refs_append_bid:
  "bb_bidsByIntent b (bd_IntentID bid) = Some s \<Longrightarrow>
     refs_of (append_bid b s bid) j = (if j = bd_IntentID bid then refs_of b j @ [length (bb_heap b)] else refs_of b j)"
  by (simp add: append_bid_def refs_of_def Let_def)

lemma heap_append_bid: "bb_heap (append_bid b s bid) = bb_heap b @ [bid]"
  by (simp add: append_bid_def Let_def)

lemma refs_heap [simp]: "refs_of (b\<lparr>bb_heap := h\<rparr>) = refs_of b"
  by (rule ext) (simp add: refs_of_def)

lemma agent_price_cong:
  "refs_of b' i = refs_of b i \<Longrightarrow> (\<And>r. r \<in> set (refs_of b i) \<Longrightarrow> bd_AgentID (bb_heap b' ! r) = bd_AgentID (bb_heap b ! r)
     \<and> bd_Price (bb_heap b' ! r) = bd_Price (bb_heap b ! r)) \<Longrightarrow> agent_price b' i = agent_price b i"
  unfolding agent_price_def
  by (rule ext) (auto simp: find_cong_set [of "refs_of b i" "\<lambda>r. bd_AgentID (bb_heap b' ! r) = _" "\<lambda>r. bd_AgentID (bb_heap b ! r) = _"]
      dest: find_SomeD intro!: option.map_cong0 option.map_cong)

lemma AddBid_ok:
  assumes "book_ok b"
  shows "book_ok (fst (AddBid b bid now))"
proof (cases rule: AddBid_cases [of b bid now])
  case refused
  then show ?thesis using assms by (simp add: book_ok_def)
next
  case (fresh s)
  then show ?thesis using assms by (auto simp: book_ok_def refs_append_bid heap_append_bid nth_append less_Suc_eq)
next
  case (lower r)
  then show ?thesis using assms by (auto simp: book_ok_def nth_update_any)
next
  case higher
  then show ?thesis using assms by simp
qed

lemma AddBid_prices:
  assumes ok: "book_ok b"
  shows "agent_price (fst (AddBid b bid now)) i =
    (if i = bd_IntentID bid \<and> is_open b i now then offer (agent_price b i) (bd_AgentID bid) (bd_Price bid) else agent_price b i)"
proof (cases rule: AddBid_cases [of b bid now])
  case refused
  then show ?thesis by (auto simp: agent_price_def)
next
  case (fresh s)
  let ?b = "append_bid b s bid"
  have same: "bb_heap ?b ! r = bb_heap b ! r" if "r \<in> set (refs_of b j)" for r j
    using book_ok_ref [OF ok that] by (simp add: heap_append_bid nth_append)
  have find: "List.find (\<lambda>r. bd_AgentID (bb_heap ?b ! r) = a) (refs_of b j) = List.find (\<lambda>r. bd_AgentID (bb_heap b ! r) = a) (refs_of b j)" for a j
    by (rule find_cong_set) (simp add: same)
  have price: "map_option (\<lambda>r. bd_Price (bb_heap ?b ! r)) (List.find (\<lambda>r. bd_AgentID (bb_heap b ! r) = a) (refs_of b j))
      = agent_price b j a" for a j
    unfolding agent_price_def by (auto simp: same dest!: find_SomeD intro!: option.map_cong)
  have new: "bb_heap ?b ! length (bb_heap b) = bid" by (simp add: heap_append_bid)
  have none: "agent_price b (bd_IntentID bid) (bd_AgentID bid) = None" using fresh(3) by (simp add: agent_price_def)
  show ?thesis
  proof (cases "i = bd_IntentID bid")
    case True
    have "agent_price ?b i a = offer (agent_price b i) (bd_AgentID bid) (bd_Price bid) a" for a
    proof (cases "List.find (\<lambda>r. bd_AgentID (bb_heap b ! r) = a) (refs_of b i)")
      case None
      then have "agent_price b i a = None" by (simp add: agent_price_def)
      with None show ?thesis
        unfolding True by (auto simp: agent_price_def [of ?b] refs_append_bid [OF fresh(2)] find_append find new offer_def none)
    next
      case (Some r)
      with none True have "a \<noteq> bd_AgentID bid" by (auto simp: agent_price_def)
      with Some True price [of a i] show ?thesis
        by (simp add: agent_price_def [of ?b] refs_append_bid [OF fresh(2)] find_append find offer_def)
    qed
    then show ?thesis using True fresh by auto
  next
    case False
    then have "agent_price ?b i = agent_price b i"
      by (intro ext) (simp add: agent_price_def [of ?b] refs_append_bid [OF fresh(2)] find price)
    then show ?thesis using False fresh by simp
  qed
next
  case (lower r)
  let ?b = "fst (AddBid b bid now)"
  have r: "r \<in> set (refs_of b (bd_IntentID bid))" "bd_AgentID (bb_heap b ! r) = bd_AgentID bid" using find_SomeD [OF lower(2)] by auto
  have len: "r < length (bb_heap b)" "bd_IntentID (bb_heap b ! r) = bd_IntentID bid" using book_ok_ref [OF ok r(1)] by auto
  have agents: "bd_AgentID (bb_heap ?b ! q) = bd_AgentID (bb_heap b ! q)" for q using lower(4) by (simp add: nth_update_any)
  have heap: "bd_Price (bb_heap ?b ! q) = (if q = r then bd_Price bid else bd_Price (bb_heap b ! q))" for q using lower(4) len by (simp add: nth_update_any)
  have refs: "refs_of ?b = refs_of b" using lower(4) by simp
  have at: "agent_price b (bd_IntentID bid) (bd_AgentID bid) = Some (bd_Price (bb_heap b ! r))" using lower(2) by (simp add: agent_price_def)
  show ?thesis
  proof (cases "i = bd_IntentID bid")
    case True
    have "agent_price ?b i a = offer (agent_price b i) (bd_AgentID bid) (bd_Price bid) a" for a
    proof (cases "a = bd_AgentID bid")
      case True
      then show ?thesis
        using lower(2,3) at \<open>i = bd_IntentID bid\<close> by (simp add: agent_price_def [of ?b] refs agents heap offer_def min_def order.strict_implies_order)
    next
      case False
      then have "q \<noteq> r" if "List.find (\<lambda>r. bd_AgentID (bb_heap b ! r) = a) (refs_of b i) = Some q" for q
        using find_SomeD [OF that] r(2) by auto
      then show ?thesis
        using False by (cases "List.find (\<lambda>r. bd_AgentID (bb_heap b ! r) = a) (refs_of b i)")
          (simp_all add: agent_price_def refs agents heap offer_def)
    qed
    then show ?thesis using True lower(1) by auto
  next
    case False
    then have "r \<notin> set (refs_of b i)" using book_ok_ref [OF ok, of r i] len by auto
    then have "agent_price ?b i = agent_price b i"
      by (intro agent_price_cong) (auto simp: refs agents heap)
    then show ?thesis using False by simp
  qed
next
  case (higher r)
  have at: "agent_price b (bd_IntentID bid) (bd_AgentID bid) = Some (bd_Price (bb_heap b ! r))" using higher(2) by (simp add: agent_price_def)
  have "offer (agent_price b (bd_IntentID bid)) (bd_AgentID bid) (bd_Price bid) = agent_price b (bd_IntentID bid)"
    using at higher(3) by (auto simp: offer_def fun_eq_iff min_def)
  then show ?thesis using higher by auto
qed

text \<open>Bids do not change the window of an intent while it is open.\<close>

definition window :: "BidBook \<Rightarrow> string \<Rightarrow> (bool \<times> int) option" where
  "window b i = map_option (\<lambda>s. (sn_BiddingClosed s, sn_BiddingEndTime s)) (bb_bidsByIntent b i)"

lemma is_open_window: "is_open b i now \<longleftrightarrow> (\<exists>e. window b i = Some (False, e) \<and> now \<le> e)"
  by (auto simp: is_open_def window_def)

lemma AddBid_window:
  assumes "i = bd_IntentID bid \<longrightarrow> is_open b i now"
  shows "window (fst (AddBid b bid now)) i = window b i"
proof (cases rule: AddBid_cases [of b bid now])
  case refused
  with assms have "i \<noteq> bd_IntentID bid" by auto
  then show ?thesis by (auto simp: AddBid_def window_def close_snapshot_def append_bid_def Let_def split: option.splits)
qed (auto simp: window_def append_bid_def Let_def)

definition add_all :: "BidBook \<Rightarrow> (Bid_types \<times> int) list \<Rightarrow> BidBook" where
  "add_all b offers = foldl (\<lambda>b (bid, now). fst (AddBid b bid now)) b offers"

text \<open>The offers of a list that are for an intent.\<close>

definition offers_for :: "string \<Rightarrow> (Bid_types \<times> int) list \<Rightarrow> Bid_types list" where
  "offers_for i offers = filter (\<lambda>bid. bd_IntentID bid = i) (map fst offers)"

lemma add_all_refines:
  assumes "book_ok b" "window b i = Some (False, e)" "\<forall>(bid, now) \<in> set offers. bd_IntentID bid = i \<longrightarrow> now \<le> e"
  shows "agent_price (add_all b offers) i = foldl (\<lambda>m bid. offer m (bd_AgentID bid) (bd_Price bid)) (agent_price b i) (offers_for i offers)"
  using assms
proof (induction offers arbitrary: b)
  case (Cons x offers)
  obtain bid now where x: "x = (bid, now)" by fastforce
  have opened: "i = bd_IntentID bid \<longrightarrow> is_open b i now" using Cons.prems x by (auto simp: is_open_window)
  have "agent_price (add_all (fst (AddBid b bid now)) offers) i =
      foldl (\<lambda>m bid. offer m (bd_AgentID bid) (bd_Price bid)) (agent_price (fst (AddBid b bid now)) i) (offers_for i offers)"
    using Cons AddBid_ok AddBid_window [OF opened] by auto
  then show ?case
    using opened x AddBid_prices [OF Cons.prems(1), of bid now i] by (auto simp: add_all_def offers_for_def)
qed (simp add: add_all_def offers_for_def)

lemma offers_lowest:
  "foldl (\<lambda>m bid. offer m (bd_AgentID bid) (bd_Price bid)) Map.empty bids a =
     (let ps = map bd_Price (filter (\<lambda>bid. bd_AgentID bid = a) bids) in if ps = [] then None else Some (Min (set ps)))"
proof (induction bids rule: rev_induct)
  case (snoc bid bids)
  define m where "m = foldl (\<lambda>m bid. offer m (bd_AgentID bid) (bd_Price bid)) Map.empty bids"
  have m: "m a = (let ps = map bd_Price (filter (\<lambda>bid. bd_AgentID bid = a) bids) in if ps = [] then None else Some (Min (set ps)))"
    using snoc by (simp add: m_def)
  have fold: "foldl (\<lambda>m bid. offer m (bd_AgentID bid) (bd_Price bid)) Map.empty (bids @ [bid]) a = offer m (bd_AgentID bid) (bd_Price bid) a"
    by (simp add: m_def)
  show ?case
  proof (cases "bd_AgentID bid = a")
    case True
    show ?thesis
    proof (cases "filter (\<lambda>bid. bd_AgentID bid = a) bids = []")
      case empty: True
      with m have "m a = None" by simp
      with True empty show ?thesis unfolding fold by (simp add: offer_def)
    next
      case False
      let ?P = "bd_Price ` set (filter (\<lambda>bid. bd_AgentID bid = a) bids)"
      have "?P \<noteq> {}" using False by (simp only: image_is_empty set_empty) simp
      then have "Min (insert (bd_Price bid) ?P) = min (bd_Price bid) (Min ?P)" by (intro Min_insert) simp_all
      moreover from m False have "m a = Some (Min ?P)" by (simp add: Let_def)
      ultimately show ?thesis using True unfolding fold by (simp add: offer_def Let_def)
    qed
  next
    case False
    then show ?thesis unfolding fold using m by (simp add: offer_def)
  qed
qed simp

section \<open>Scores of the bids\<close>

lemma findPriceRange_bounds:
  assumes "findPriceRange bids = (lo, hi)" "bids \<noteq> []"
  shows "lo = Min (bd_Price ` set bids) \<and> hi = Max (bd_Price ` set bids)"
proof -
  obtain bid rest where bids: "bids = bid # rest" using assms(2) by (cases bids) auto
  have "foldl (\<lambda>(l, h) b. (if bd_Price b < l then bd_Price b else l, if bd_Price b > h then bd_Price b else h)) (l, h) xs
      = (Min (insert l (bd_Price ` set xs)), Max (insert h (bd_Price ` set xs)))" for l h and xs :: "Bid_types list"
  proof (induction xs arbitrary: l h)
    case (Cons x xs)
    have "(if bd_Price x < l then bd_Price x else l) = min l (bd_Price x)" "(if bd_Price x > h then bd_Price x else h) = max h (bd_Price x)"
      by (auto simp: min_def max_def)
    moreover have "Min (insert (min l p) A) = Min (insert l (insert p A))" "Max (insert (max h p) A) = Max (insert h (insert p A))"
      if "finite A" for p and A :: "u64 set"
      using that by (cases "A = {}"; simp add: Min_insert Max_insert min.assoc max.assoc)+
    ultimately show ?case by (simp add: Cons)
  qed simp
  then show ?thesis using assms(1) by (simp add: findPriceRange_def bids)
qed

text \<open>A lower price never has a lower score, whatever the rounding, as long as it is monotone.\<close>

lemma calculateScore_antimono:
  assumes fl: "mono fl" "fl 0 = 0" and p: "lo \<le> bd_Price a" "bd_Price a \<le> bd_Price b"
  shows "calculateScore fl b lo hi \<le> calculateScore fl a lo hi"
proof -
  have half: "0 \<le> fl (1 / 2)" using monoD [OF fl(1), of 0 "1 / 2"] fl(2) by simp
  have d: "0 \<le> fl (real (unat (hi - lo)))" using monoD [OF fl(1) of_nat_0_le_iff [of "unat (hi - lo)"]] unfolding fl(2) .
  have "unat (bd_Price a - lo) \<le> unat (bd_Price b - lo)" 
    using p order.trans [OF p] by (simp add: unat_sub word_le_nat_alt [symmetric] diff_le_mono)
  then have "fl (real (unat (bd_Price a - lo))) / fl (real (unat (hi - lo))) \<le> fl (real (unat (bd_Price b - lo))) / fl (real (unat (hi - lo)))"
    by (intro divide_right_mono d monoD [OF fl(1)]) (simp only: of_nat_le_iff)
  then show ?thesis unfolding calculateScore_def Let_def using half
    by (auto intro!: monoD [OF fl(1)] add_right_mono mult_right_mono diff_left_mono)
qed

lemma Match_engine_winner:
  assumes "sorts_scores srt" "Match_engine fl srt m b (Some s) = Some result"
  shows "(mt_WinningBid result, w) \<in> set (scoreBids fl (map ((!) (bb_heap b)) (sn_Bids s)))
    \<Longrightarrow> x \<in> set (scoreBids fl (map ((!) (bb_heap b)) (sn_Bids s))) \<Longrightarrow> snd x \<le> w"
    and "mt_WinningBid result \<in> (!) (bb_heap b) ` set (sn_Bids s)"
proof -
  let ?xs = "scoreBids fl (map ((!) (bb_heap b)) (sn_Bids s))"
  obtain winner others where srt: "srt ?xs = winner # others" using assms(2) by (auto simp: Match_engine_def split: list.splits)
  then have win: "mt_WinningBid result = fst winner" using assms(2) by (simp add: Match_engine_def) auto
  have perm: "set ?xs = set (winner # others)" and sorted: "sorted_wrt (\<lambda>x y. \<not> snd y > snd x) (winner # others)"
    using assms(1) srt unfolding sorts_scores_def by (metis mset_eq_setD)+
  obtain lo hi where range: "findPriceRange (map ((!) (bb_heap b)) (sn_Bids s)) = (lo, hi)" by fastforce
  have score: "snd y = calculateScore fl (fst y) lo hi" if "y \<in> set ?xs" for y using that range by (auto simp: scoreBids_def)
  show "snd x \<le> w" if "(mt_WinningBid result, w) \<in> set ?xs" "x \<in> set ?xs"
    using score [OF that(1)] score [of winner] win perm that sorted by auto
  have "fst winner \<in> fst ` set ?xs" using perm by simp
  then show "mt_WinningBid result \<in> (!) (bb_heap b) ` set (sn_Bids s)" using win range by (auto simp: scoreBids_def)
qed

section \<open>Properties\<close>

text \<open>
  C23: The bid book keeps the lowest price of every agent: after any bids for any intents, made before the window of an intent ends, the
  snapshot of that intent has for every agent that bid the least of its prices, and no entry for the others.
\<close>
theorem bids_keep_lowest_price:
  assumes "book_ok b" "bb_bidsByIntent b i = Some s" "\<not> sn_BiddingClosed s" "sn_Bids s = []"
    and "\<forall>(bid, now) \<in> set offers. bd_IntentID bid = i \<longrightarrow> now \<le> sn_BiddingEndTime s"
  shows "agent_price (add_all b offers) i a =
    (let ps = map bd_Price (filter (\<lambda>bid. bd_AgentID bid = a) (offers_for i offers)) in if ps = [] then None else Some (Min (set ps)))"
proof -
  have "agent_price b i = Map.empty" using assms(2,4) by (simp add: agent_price_def refs_of_def fun_eq_iff)
  moreover have "window b i = Some (False, sn_BiddingEndTime s)" using assms(2,3) by (simp add: window_def)
  ultimately show ?thesis using add_all_refines [OF assms(1) _ assms(5)] by (simp only: offers_lowest)
qed

definition example_intent :: "string \<Rightarrow> Intent_types" where
  "example_intent i = \<lparr>ti_IntentID = i, ti_SubnetID = [], ti_Requester = [], ti_IntentType = [], ti_CreatedAt = 0, ti_Deadline = 0,
     ti_ParamsHash = [], ti_Budget = 0, ti_PaymentToken = [], ti_Status = [], ti_BiddingStartTime = 0, ti_BiddingEndTime = 10,
     ti_IntentData = [], ti_Token = []\<rparr>"

lemma example_intent_sel [simp]:
  "ti_IntentID (example_intent i) = i" "ti_BiddingStartTime (example_intent i) = 0" "ti_BiddingEndTime (example_intent i) = 10"
  by (simp_all add: example_intent_def)

definition example_bid :: "string \<Rightarrow> string \<Rightarrow> u64 \<Rightarrow> Bid_types" where
  "example_bid i a p = \<lparr>bd_BidID = a, bd_IntentID = i, bd_AgentID = a, bd_Price = p, bd_Token = [], bd_SubmittedAt = 1, bd_Nonce = [],
     bd_Signature = [], bd_Metadata = []\<rparr>"

definition example_book :: BidBook where
  "example_book = fst (StartBidding NewBidBook (example_intent ''i''))"

theorem bids_keep_lowest_price_witness:
  "agent_price (add_all example_book [(example_bid ''i'' ''a'' 7, 1), (example_bid ''i'' ''b'' 6, 2), (example_bid ''i'' ''a'' 4, 3), (example_bid ''i'' ''a'' 5, 4)]) ''i'' ''a'' = Some 4"
proof -
  have "book_ok example_book"
    by (auto simp: book_ok_def example_book_def StartBidding_def NewBidBook_def refs_of_def)
  moreover obtain s where "bb_bidsByIntent example_book ''i'' = Some s" "\<not> sn_BiddingClosed s" "sn_Bids s = []" "sn_BiddingEndTime s = 10"
    by (simp add: example_book_def StartBidding_def NewBidBook_def)
  ultimately show ?thesis
    by (subst bids_keep_lowest_price [where s = s]) (simp_all add: offers_for_def example_bid_def)
qed

text \<open>
  The matching engine gives an intent to a bid that no other bid beats: for every monotone rounding the winner has the score of the
  lowest price, and without rounding it has the lowest price itself. (With rounding, a dearer bid can win whose score is rounded to
  that of the cheapest.)
\<close>
theorem weighted_winner:
  assumes "mono fl" "fl 0 = 0" "sorts_scores srt" and result: "Match_engine fl srt m b (Some s) = Some result"
    and bids: "bids = map ((!) (bb_heap b)) (sn_Bids s)" and cheapest: "c \<in> set bids" "\<forall>x \<in> set bids. bd_Price c \<le> bd_Price x"
    and range: "findPriceRange bids = (lo, hi)"
  shows "calculateScore fl (mt_WinningBid result) lo hi = calculateScore fl c lo hi
    \<and> (fl = id \<longrightarrow> bd_Price (mt_WinningBid result) = bd_Price c)"
proof -
  have win: "mt_WinningBid result \<in> set bids" using Match_engine_winner(2) [OF assms(3) result] bids by auto
  have "Min (bd_Price ` set bids) = bd_Price c" using cheapest by (intro Min_eqI) auto
  moreover have nonempty: "bids \<noteq> []" using cheapest(1) by auto
  ultimately have "lo = bd_Price c" using findPriceRange_bounds [OF range] by simp
  have scores: "(x, calculateScore fl x lo hi) \<in> set (scoreBids fl (map ((!) (bb_heap b)) (sn_Bids s)))" if "x \<in> set bids" for x
    using that range bids by (auto simp: scoreBids_def)
  have "calculateScore fl c lo hi \<le> calculateScore fl (mt_WinningBid result) lo hi"
    using Match_engine_winner(1) [OF assms(3) result scores [OF win] scores [OF cheapest(1)]] by simp
  then have eq: "calculateScore fl (mt_WinningBid result) lo hi = calculateScore fl c lo hi"
    using calculateScore_antimono [OF assms(1,2), of lo c "mt_WinningBid result" hi] cheapest(2) win \<open>lo = bd_Price c\<close> by (simp add: order_antisym)
  moreover have "bd_Price (mt_WinningBid result) = bd_Price c" if "fl = id"
  proof (cases "lo < hi")
    case True
    then have "0 < unat (hi - lo)" by (metis gr0I unat_eq_zero right_minus_eq less_irrefl)
    then have "unat (bd_Price (mt_WinningBid result) - lo) = unat (bd_Price c - lo)"
      using eq True that by (simp add: calculateScore_def Let_def divide_cancel_right del: of_nat_unat)
    then show ?thesis by (simp add: word_unat_eq_iff [symmetric])
  next
    case False
    have "lo = Min (bd_Price ` set bids)" "hi = Max (bd_Price ` set bids)" using findPriceRange_bounds [OF range nonempty] by auto
    then have "bd_Price (mt_WinningBid result) \<le> hi" "bd_Price (mt_WinningBid result) \<ge> lo" using win by simp_all
    then show ?thesis using False \<open>lo = bd_Price c\<close> by (simp add: not_less)
  qed
  ultimately show ?thesis by blast
qed

definition by_score :: "(Bid_types \<times> real) list \<Rightarrow> (Bid_types \<times> real) list" where
  "by_score xs = sort_key (\<lambda>x. - snd x) xs"

lemma by_score_sorts: "sorts_scores by_score"
proof -
  have "sorted_wrt (\<lambda>x y. \<not> snd y > snd x) ys" if "sorted (map (\<lambda>x. - snd x) ys)" for ys :: "(Bid_types \<times> real) list"
    using that unfolding sorted_map by (rule sorted_wrt_mono_rel [rotated]) simp
  then show ?thesis by (simp add: sorts_scores_def by_score_def)
qed

theorem weighted_winner_witness:
  "\<exists>result. Match_engine id by_score ''m'' (add_all example_book [(example_bid ''i'' ''a'' 7, 1), (example_bid ''i'' ''b'' 6, 2)])
      (Some \<lparr>sn_IntentID = ''i'', sn_Bids = [0, 1], sn_BiddingStartTime = 0, sn_BiddingEndTime = 10, sn_BiddingClosed = True, sn_Intent = example_intent ''i''\<rparr>)
      = Some result \<and> bd_Price (mt_WinningBid result) = 6"
proof -
  let ?b = "add_all example_book [(example_bid ''i'' ''a'' 7, 1), (example_bid ''i'' ''b'' 6, 2)]"
  let ?s = "\<lparr>sn_IntentID = ''i'', sn_Bids = [0, 1], sn_BiddingStartTime = 0, sn_BiddingEndTime = 10, sn_BiddingClosed = True, sn_Intent = example_intent ''i''\<rparr>"
  have heap: "bb_heap ?b = [example_bid ''i'' ''a'' 7, example_bid ''i'' ''b'' 6]"
    by (simp add: add_all_def example_book_def StartBidding_def NewBidBook_def AddBid_def append_bid_def example_bid_def Let_def)
  have "by_score (scoreBids id [example_bid ''i'' ''a'' 7, example_bid ''i'' ''b'' 6]) \<noteq> []"
    by (simp add: by_score_def scoreBids_def findPriceRange_def split: prod.split)
  then obtain result where result: "Match_engine id by_score ''m'' ?b (Some ?s) = Some result"
    by (cases "by_score (scoreBids id [example_bid ''i'' ''a'' 7, example_bid ''i'' ''b'' 6])") (auto simp: Match_engine_def heap)
  have "findPriceRange [example_bid ''i'' ''a'' 7, example_bid ''i'' ''b'' 6] = (6, 7)" by (simp add: findPriceRange_def example_bid_def)
  then have "bd_Price (mt_WinningBid result) = bd_Price (example_bid ''i'' ''b'' 6)"
    using weighted_winner [of id by_score "''m''" ?b ?s result "[example_bid ''i'' ''a'' 7, example_bid ''i'' ''b'' 6]" "example_bid ''i'' ''b'' 6" 6 7]
      by_score_sorts result
    by (simp add: heap monoI) (simp add: example_bid_def)
  then show ?thesis using result by (auto simp: example_bid_def)
qed

end
