(* ===== verification/Assignment_Manager.thy ===== *)
theory Assignment_Manager
  imports Bid_Book
begin

text \<open>
  The assignment manager (\<open>src/internal/matcher/assignment_manager.go\<close>): assignments made from matching results, their delivery and
  confirmation, and the runner-ups of an intent. An assignment is a pointer that the caller and the map share, so assignments live in a heap
  and the map holds references. The hash of messages and the signing key are arguments, the clock too.
\<close>

section \<open>Model\<close>

record Assignment_types =
  at_AssignmentID :: string
  at_IntentID :: string
  at_AgentID :: string
  at_BidID :: string
  at_AssignedAt :: int
  at_LeaseTTL :: int
  at_Status :: string
  at_MatcherID :: string
  at_Signature :: string

record AgentConnection =
  cn_IsConnected :: bool
  cn_SendAssignment :: "Assignment_types \<Rightarrow> bool"

text \<open>\<open>am_signer\<close> is the signer, if a key is configured; a registered connection may be nil.\<close>

record AssignmentManager =
  am_MatcherID :: string
  am_signer :: "(bytes \<Rightarrow> bytes option) option"
  am_heap :: "Assignment_types list"
  am_assignments :: "string \<rightharpoonup> nat"
  am_assignmentsByIntent :: "string \<rightharpoonup> string"
  am_assignmentsByAgent :: "string \<rightharpoonup> string list"
  am_runnerUps :: "string \<rightharpoonup> Bid_types list"
  am_agentConnections :: "string \<rightharpoonup> AgentConnection option"
  am_pendingQueue :: "string list"

record Mgr_Clock =
  mc_Unix :: int
  mc_UnixNano :: int
  mc_HashMessage :: "bytes \<Rightarrow> bytes"

datatype mgr_error =
    AssignmentIsNil
  | NoConnection string
  | NotConnected string
  | SendFailed string
  | AssignmentNotFound string
  | WrongAgent string string string
  | NoRunnerUps

definition NewAssignmentManager :: "string \<Rightarrow> (bytes \<Rightarrow> bytes option) option \<Rightarrow> AssignmentManager" where
  "NewAssignmentManager matcherID signer =
     \<lparr>am_MatcherID = matcherID, am_signer = signer, am_heap = [], am_assignments = Map.empty, am_assignmentsByIntent = Map.empty,
      am_assignmentsByAgent = Map.empty, am_runnerUps = Map.empty, am_agentConnections = Map.empty, am_pendingQueue = []\<rparr>"

definition generateAssignmentID :: "string \<Rightarrow> string \<Rightarrow> int \<Rightarrow> string" where
  "generateAssignmentID intentID agentID nanos = ''assign_'' @ intentID @ ''_'' @ agentID @ ''_'' @ dec_int nanos"

text \<open>The signature in hexadecimal digits, empty without a key or after an error.\<close>

definition sign_assignment :: "AssignmentManager \<Rightarrow> Mgr_Clock \<Rightarrow> Assignment_types \<Rightarrow> string" where
  "sign_assignment m c a =
     (case am_signer m of
        None \<Rightarrow> []
      | Some sign \<Rightarrow>
          let message = at_AssignmentID a @ '':'' @ at_IntentID a @ '':'' @ at_AgentID a @ '':'' @ dec_int (at_AssignedAt a) in
          case sign (mc_HashMessage c (bytes_of message)) of None \<Rightarrow> [] | Some signature \<Rightarrow> EncodeToString signature)"

definition make_assignment :: "AssignmentManager \<Rightarrow> Mgr_Clock \<Rightarrow> string \<Rightarrow> string \<Rightarrow> string \<Rightarrow> string \<Rightarrow> Assignment_types" where
  "make_assignment m c intentID agentID bidID matcherID =
     (let a = \<lparr>at_AssignmentID = generateAssignmentID intentID agentID (mc_UnixNano c), at_IntentID = intentID, at_AgentID = agentID,
               at_BidID = bidID, at_AssignedAt = mc_Unix c, at_LeaseTTL = 300, at_Status = ''PENDING'', at_MatcherID = matcherID,
               at_Signature = []\<rparr> in
      a\<lparr>at_Signature := sign_assignment m c a\<rparr>)"

definition store_assignment :: "AssignmentManager \<Rightarrow> Assignment_types \<Rightarrow> AssignmentManager" where
  "store_assignment m a =
     m\<lparr>am_heap := am_heap m @ [a],
       am_assignments := (am_assignments m)(at_AssignmentID a \<mapsto> length (am_heap m)),
       am_assignmentsByIntent := (am_assignmentsByIntent m)(at_IntentID a \<mapsto> at_AssignmentID a),
       am_assignmentsByAgent := (am_assignmentsByAgent m)(at_AgentID a \<mapsto>
         (case am_assignmentsByAgent m (at_AgentID a) of None \<Rightarrow> [] | Some ids \<Rightarrow> ids) @ [at_AssignmentID a]),
       am_pendingQueue := am_pendingQueue m @ [at_AssignmentID a]\<rparr>"

text \<open>The second component is the reference that the caller receives; a result without a winning bid is nil.\<close>

definition CreateAssignment :: "AssignmentManager \<Rightarrow> Mgr_Clock \<Rightarrow> MatchingResult_types option \<Rightarrow> AssignmentManager \<times> nat option" where
  "CreateAssignment m c result =
     (case result of
        None \<Rightarrow> (m, None)
      | Some r \<Rightarrow>
          (case am_assignmentsByIntent m (mt_IntentID r) of
             Some existingID \<Rightarrow> (m, am_assignments m existingID)
           | None \<Rightarrow>
               let a = make_assignment m c (mt_IntentID r) (mt_WinningAgentID r) (bd_BidID (mt_WinningBid r)) (mt_MatcherID r);
                   m1 = store_assignment m a in
               (if mt_RunnerUpBids r \<noteq> [] then m1\<lparr>am_runnerUps := (am_runnerUps m1)(mt_IntentID r \<mapsto> mt_RunnerUpBids r)\<rparr> else m1,
                Some (length (am_heap m)))))"

definition set_status :: "AssignmentManager \<Rightarrow> nat \<Rightarrow> string \<Rightarrow> AssignmentManager" where
  "set_status m r st = m\<lparr>am_heap := (am_heap m)[r := (am_heap m ! r)\<lparr>at_Status := st\<rparr>]\<rparr>"

definition SendToAgent :: "AssignmentManager \<Rightarrow> nat option \<Rightarrow> AssignmentManager \<times> mgr_error option" where
  "SendToAgent m ref =
     (case ref of
        None \<Rightarrow> (m, Some AssignmentIsNil)
      | Some r \<Rightarrow>
          let a = am_heap m ! r in
          (case am_agentConnections m (at_AgentID a) of
             Some (Some conn) \<Rightarrow>
               if \<not> cn_IsConnected conn then (m, Some (NotConnected (at_AgentID a)))
               else if \<not> cn_SendAssignment conn a then (m, Some (SendFailed (at_AgentID a)))
               else (set_status m r ''SENT'', None)
           | _ \<Rightarrow> (m, Some (NoConnection (at_AgentID a)))))"

definition removeFromPendingQueue :: "AssignmentManager \<Rightarrow> string \<Rightarrow> AssignmentManager" where
  "removeFromPendingQueue m assignmentID = m\<lparr>am_pendingQueue := filter (\<lambda>i. i \<noteq> assignmentID) (am_pendingQueue m)\<rparr>"

definition ConfirmAssignment :: "AssignmentManager \<Rightarrow> string \<Rightarrow> string \<Rightarrow> AssignmentManager \<times> mgr_error option" where
  "ConfirmAssignment m assignmentID agentID =
     (case am_assignments m assignmentID of
        None \<Rightarrow> (m, Some (AssignmentNotFound assignmentID))
      | Some r \<Rightarrow>
          if at_AgentID (am_heap m ! r) \<noteq> agentID
          then (m, Some (WrongAgent assignmentID (at_AgentID (am_heap m ! r)) agentID))
          else (removeFromPendingQueue (set_status m r ''ACTIVE'') assignmentID, None))"

definition activateRunnerUpInternal :: "AssignmentManager \<Rightarrow> Mgr_Clock \<Rightarrow> string \<Rightarrow> AssignmentManager \<times> mgr_error option" where
  "activateRunnerUpInternal m c intentID =
     (case am_runnerUps m intentID of
        Some (nextBid # rest) \<Rightarrow>
          let m1 = m\<lparr>am_runnerUps := (am_runnerUps m)(intentID \<mapsto> rest)\<rparr> in
          (store_assignment m1 (make_assignment m1 c intentID (bd_AgentID nextBid) (bd_BidID nextBid) (am_MatcherID m1)), None)
      | _ \<Rightarrow> (m, Some NoRunnerUps))"

definition ActivateRunnerUp :: "AssignmentManager \<Rightarrow> Mgr_Clock \<Rightarrow> string \<Rightarrow> AssignmentManager \<times> mgr_error option" where
  "ActivateRunnerUp m c intentID = activateRunnerUpInternal m c intentID"

definition HandleRejection :: "AssignmentManager \<Rightarrow> Mgr_Clock \<Rightarrow> string \<Rightarrow> AssignmentManager \<times> mgr_error option" where
  "HandleRejection m c assignmentID =
     (case am_assignments m assignmentID of
        None \<Rightarrow> (m, Some (AssignmentNotFound assignmentID))
      | Some r \<Rightarrow> activateRunnerUpInternal (set_status m r ''REJECTED'') c (at_IntentID (am_heap m ! r)))"

definition GetPendingAssignments :: "AssignmentManager \<Rightarrow> nat list" where
  "GetPendingAssignments m =
     filter (\<lambda>r. at_Status (am_heap m ! r) = ''PENDING'') (List.map_filter (am_assignments m) (am_pendingQueue m))"

definition GetAssignment_mgr :: "AssignmentManager \<Rightarrow> string \<Rightarrow> Assignment_types option" where
  "GetAssignment_mgr m assignmentID = map_option ((!) (am_heap m)) (am_assignments m assignmentID)"

text \<open>\<open>order\<close> lists the identifiers of the map.\<close>

definition PendingCount :: "AssignmentManager \<Rightarrow> string list \<Rightarrow> nat" where
  "PendingCount m order =
     length (filter (\<lambda>i. case GetAssignment_mgr m i of Some a \<Rightarrow> at_Status a = ''PENDING'' \<or> at_Status a = ''SENT'' | None \<Rightarrow> False) order)"

definition RegisterAgentConnection :: "AssignmentManager \<Rightarrow> string \<Rightarrow> AgentConnection option \<Rightarrow> AssignmentManager" where
  "RegisterAgentConnection m agentID conn = m\<lparr>am_agentConnections := (am_agentConnections m)(agentID \<mapsto> conn)\<rparr>"

definition UnregisterAgentConnection :: "AssignmentManager \<Rightarrow> string \<Rightarrow> AssignmentManager" where
  "UnregisterAgentConnection m agentID = m\<lparr>am_agentConnections := (am_agentConnections m)(agentID := None)\<rparr>"

definition cleanup_assignment :: "int \<Rightarrow> AssignmentManager \<times> nat \<Rightarrow> string \<Rightarrow> AssignmentManager \<times> nat" where
  "cleanup_assignment cutoffTime mk i =
     (case mk of (m, removed) \<Rightarrow>
      case GetAssignment_mgr m i of
        None \<Rightarrow> (m, removed)
      | Some a \<Rightarrow>
          if at_AssignedAt a < cutoffTime \<and> (at_Status a = ''REJECTED'' \<or> at_Status a = ''EXPIRED'')
          then (m\<lparr>am_assignments := (am_assignments m)(i := None),
                  am_assignmentsByIntent := (am_assignmentsByIntent m)(at_IntentID a := None)\<rparr>, removed + 1)
          else (m, removed))"

definition CleanupExpired_assignments :: "AssignmentManager \<Rightarrow> int \<Rightarrow> int \<Rightarrow> string list \<Rightarrow> AssignmentManager \<times> nat" where
  "CleanupExpired_assignments m olderThan now order = foldl (cleanup_assignment (now - olderThan sdiv second)) (m, 0) order"

section \<open>Assignments of an intent\<close>

text \<open>The operations of the manager, except the cleanup.\<close>

inductive mgr_step :: "AssignmentManager \<Rightarrow> AssignmentManager \<Rightarrow> bool" where
  create: "mgr_step m (fst (CreateAssignment m c result))"
| send: "mgr_step m (fst (SendToAgent m ref))"
| confirm: "mgr_step m (fst (ConfirmAssignment m i agent))"
| reject: "mgr_step m (fst (HandleRejection m c i))"
| runner_up: "mgr_step m (fst (ActivateRunnerUp m c i))"
| register: "mgr_step m (RegisterAgentConnection m agent conn)"
| unregister: "mgr_step m (UnregisterAgentConnection m agent)"

definition made_for :: "AssignmentManager \<Rightarrow> string \<Rightarrow> nat" where
  "made_for m i = length (filter (\<lambda>a. at_IntentID a = i) (am_heap m))"

definition runner_ups_left :: "AssignmentManager \<Rightarrow> string \<Rightarrow> nat" where
  "runner_ups_left m i = (case am_runnerUps m i of None \<Rightarrow> 0 | Some bids \<Rightarrow> length bids)"

text \<open>Once an intent has an assignment, every further one uses up a runner-up.\<close>

definition budget :: "AssignmentManager \<Rightarrow> string \<Rightarrow> nat" where
  "budget m i = made_for m i + runner_ups_left m i"

lemma set_status_fields [simp]:
  "made_for (set_status m r st) i = made_for m i" "am_runnerUps (set_status m r st) = am_runnerUps m"
  "am_assignmentsByIntent (set_status m r st) = am_assignmentsByIntent m" "am_assignments (set_status m r st) = am_assignments m"
proof -
  have "map at_IntentID (xs[r := (xs ! r)\<lparr>at_Status := st\<rparr>]) = map at_IntentID xs" for xs :: "Assignment_types list"
    by (rule nth_equalityI) (simp_all add: nth_update_any)
  then have "filter (\<lambda>k. k = i) (map at_IntentID (am_heap (set_status m r st))) = filter (\<lambda>k. k = i) (map at_IntentID (am_heap m))"
    by (simp add: set_status_def)
  then have "length (filter (\<lambda>k. k = i) (map at_IntentID (am_heap (set_status m r st)))) = length (filter (\<lambda>k. k = i) (map at_IntentID (am_heap m)))"
    by (rule arg_cong)
  then show "made_for (set_status m r st) i = made_for m i" by (simp add: made_for_def filter_map comp_def)
qed (simp_all add: set_status_def)

lemma store_assignment_fields [simp]:
  "made_for (store_assignment m a) i = made_for m i + (if at_IntentID a = i then 1 else 0)"
  "am_runnerUps (store_assignment m a) = am_runnerUps m"
  "am_assignmentsByIntent (store_assignment m a) = (am_assignmentsByIntent m)(at_IntentID a \<mapsto> at_AssignmentID a)"
  "am_assignments (store_assignment m a) = (am_assignments m)(at_AssignmentID a \<mapsto> length (am_heap m))"
  by (simp_all add: store_assignment_def made_for_def)

lemma make_assignment_fields [simp]:
  "at_IntentID (make_assignment m c i a b x) = i" "at_AgentID (make_assignment m c i a b x) = a"
  "at_AssignmentID (make_assignment m c i a b x) = generateAssignmentID i a (mc_UnixNano c)" "at_Status (make_assignment m c i a b x) = ''PENDING''"
  by (simp_all add: make_assignment_def Let_def)

lemma made_for_update [simp]: "made_for (m\<lparr>am_runnerUps := r\<rparr>) i = made_for m i" "made_for (m\<lparr>am_pendingQueue := q\<rparr>) i = made_for m i"
  "made_for (m\<lparr>am_agentConnections := cs\<rparr>) i = made_for m i"
  by (simp_all add: made_for_def)

definition assigned_budget :: "AssignmentManager \<Rightarrow> string \<Rightarrow> nat option" where
  "assigned_budget m i = (if am_assignmentsByIntent m i = None then None else Some (budget m i))"

lemma activate_budget: "budget (fst (activateRunnerUpInternal m c j)) i = budget m i"
  by (auto simp: activateRunnerUpInternal_def budget_def runner_ups_left_def Let_def split: option.split list.split)

lemma activate_assigned: "am_assignmentsByIntent m i \<noteq> None \<Longrightarrow> am_assignmentsByIntent (fst (activateRunnerUpInternal m c j)) i \<noteq> None"
  by (auto simp: activateRunnerUpInternal_def Let_def split: option.split list.split)

lemma set_status_budget [simp]: "budget (set_status m r st) i = budget m i"
  by (simp add: budget_def runner_ups_left_def)

lemma mgr_step_budget:
  assumes "mgr_step m m'" "am_assignmentsByIntent m i \<noteq> None"
  shows "am_assignmentsByIntent m' i \<noteq> None \<and> budget m' i = budget m i"
  using assms(1)
proof cases
  case (create c result)
  then show ?thesis
    using assms(2) by (auto simp: CreateAssignment_def budget_def runner_ups_left_def Let_def split: option.splits)
next
  case (send ref)
  then show ?thesis using assms(2) by (auto simp: SendToAgent_def Let_def split: option.splits)
next
  case (confirm j agent)
  then show ?thesis using assms(2)
    by (auto simp: ConfirmAssignment_def removeFromPendingQueue_def budget_def runner_ups_left_def split: option.splits)
next
  case (reject c j)
  then show ?thesis
    using assms(2) activate_budget [of "set_status m _ _" c _ i] activate_assigned [of "set_status m _ _" i c]
    by (auto simp: HandleRejection_def split: option.splits)
next
  case (runner_up c j)
  then show ?thesis using assms(2) by (simp add: ActivateRunnerUp_def activate_budget activate_assigned)
qed (use assms(2) in \<open>auto simp: RegisterAgentConnection_def UnregisterAgentConnection_def budget_def runner_ups_left_def\<close>)

lemma mgr_steps_budget:
  assumes "mgr_step\<^sup>*\<^sup>* m m'" "am_assignmentsByIntent m i \<noteq> None"
  shows "am_assignmentsByIntent m' i \<noteq> None \<and> budget m' i = budget m i"
  using assms by (induction rule: rtranclp_induct) (use mgr_step_budget in \<open>auto dest: mgr_step_budget\<close>)

lemma CreateAssignment_first:
  assumes "am_assignmentsByIntent m (mt_IntentID r) = None" "am_runnerUps m (mt_IntentID r) = None"
  shows "am_assignmentsByIntent (fst (CreateAssignment m c (Some r))) (mt_IntentID r) \<noteq> None"
    and "budget (fst (CreateAssignment m c (Some r))) (mt_IntentID r) = made_for m (mt_IntentID r) + 1 + length (mt_RunnerUpBids r)"
  using assms by (auto simp: CreateAssignment_def budget_def runner_ups_left_def Let_def)

lemma heap_activate:
  "am_runnerUps m i = Some (bid # rest) \<Longrightarrow>
     fst (activateRunnerUpInternal m c i) = store_assignment (m\<lparr>am_runnerUps := (am_runnerUps m)(i \<mapsto> rest)\<rparr>)
       (make_assignment (m\<lparr>am_runnerUps := (am_runnerUps m)(i \<mapsto> rest)\<rparr>) c i (bd_AgentID bid) (bd_BidID bid) (am_MatcherID m))"
  by (simp add: activateRunnerUpInternal_def Let_def)

lemma GetAssignment_mgr_store:
  "GetAssignment_mgr (store_assignment m a) (at_AssignmentID a) = Some a"
  by (simp add: GetAssignment_mgr_def store_assignment_def)

lemma GetAssignment_mgr_store_other:
  "GetAssignment_mgr m k = Some b \<Longrightarrow> am_assignments m k = Some r \<Longrightarrow> r < length (am_heap m) \<Longrightarrow> k \<noteq> at_AssignmentID a \<Longrightarrow>
     GetAssignment_mgr (store_assignment m a) k = Some b"
  by (auto simp: GetAssignment_mgr_def store_assignment_def nth_append)

section \<open>Properties\<close>

text \<open>
  C24: An intent never gets more assignments than the winner and the runner-ups of its matching result, whatever is sent, confirmed,
  rejected or matched again afterwards, as long as the cleanup does not run.
\<close>
theorem assignments_bounded:
  assumes "am_assignmentsByIntent m i = None" "am_runnerUps m i = None" "made_for m i = 0" "mt_IntentID r = i"
    and "mgr_step\<^sup>*\<^sup>* (fst (CreateAssignment m c (Some r))) m'"
  shows "made_for m' i \<le> 1 + length (mt_RunnerUpBids r)"
proof -
  have "budget m' i = budget (fst (CreateAssignment m c (Some r))) i"
    using mgr_steps_budget [OF assms(5)] CreateAssignment_first(1) [of m r c] assms(1,2,4) by auto
  also have "\<dots> = 1 + length (mt_RunnerUpBids r)"
    using CreateAssignment_first(2) [of m r c] assms(1-4) by auto
  finally show ?thesis by (simp add: budget_def)
qed

definition example_result :: MatchingResult_types where
  "example_result = \<lparr>mt_IntentID = ''i'', mt_WinningBid = example_bid ''i'' ''a'' 1, mt_WinningAgentID = ''a'',
     mt_RunnerUpBids = [example_bid ''i'' ''b'' 2, example_bid ''i'' ''d'' 3], mt_MatchedAt = 0, mt_MatcherID = ''m''\<rparr>"

definition example_clock :: "int \<Rightarrow> Mgr_Clock" where
  "example_clock t = \<lparr>mc_Unix = t, mc_UnixNano = t, mc_HashMessage = id\<rparr>"

definition example_manager :: AssignmentManager where
  "example_manager = fst (CreateAssignment (NewAssignmentManager ''m'' None) (example_clock 1) (Some example_result))"

theorem assignments_bounded_witness:
  "made_for (fst (ActivateRunnerUp example_manager (example_clock 2) ''i'')) ''i'' \<le> 3"
proof -
  have step: "mgr_step\<^sup>*\<^sup>* example_manager (fst (ActivateRunnerUp example_manager (example_clock 2) ''i''))"
    by (intro r_into_rtranclp mgr_step.runner_up)
  have fresh: "am_assignmentsByIntent (NewAssignmentManager ''m'' None) ''i'' = None" "am_runnerUps (NewAssignmentManager ''m'' None) ''i'' = None"
    "made_for (NewAssignmentManager ''m'' None) ''i'' = 0"
    by (simp_all add: NewAssignmentManager_def made_for_def)
  have result: "mt_IntentID example_result = ''i''" "length (mt_RunnerUpBids example_result) = 2" by (simp_all add: example_result_def)
  show ?thesis
    using assignments_bounded [OF fresh result(1) step [unfolded example_manager_def]] result(2) unfolding example_manager_def by linarith
qed

text \<open>
  A rejection that arrives twice activates two runner-ups: the second call does not look at the status of the assignment, so that afterwards two
  agents hold a pending assignment of the same intent.
\<close>
theorem repeated_rejection_assigns_twice:
  assumes "am_assignments m aid = Some r" "r < length (am_heap m)" "at_IntentID (am_heap m ! r) = i"
    and "am_runnerUps m i = Some (b1 # b2 # rest)"
    and ids: "k1 = generateAssignmentID i (bd_AgentID b1) (mc_UnixNano c1)" "k2 = generateAssignmentID i (bd_AgentID b2) (mc_UnixNano c2)"
      "distinct [aid, k1, k2]"
    and twice: "m' = fst (HandleRejection (fst (HandleRejection m c1 aid)) c2 aid)"
  shows "\<exists>a1 a2. GetAssignment_mgr m' k1 = Some a1 \<and> GetAssignment_mgr m' k2 = Some a2 \<and> at_IntentID a1 = i \<and> at_IntentID a2 = i
    \<and> at_AgentID a1 = bd_AgentID b1 \<and> at_AgentID a2 = bd_AgentID b2 \<and> at_Status a1 = ''PENDING'' \<and> at_Status a2 = ''PENDING''"
proof -
  define s1 where "s1 = (set_status m r ''REJECTED'')\<lparr>am_runnerUps := (am_runnerUps m)(i \<mapsto> b2 # rest)\<rparr>"
  define a1 where "a1 = make_assignment s1 c1 i (bd_AgentID b1) (bd_BidID b1) (am_MatcherID m)"
  have m1: "fst (HandleRejection m c1 aid) = store_assignment s1 a1"
    using assms(1,3,4) by (simp add: HandleRejection_def heap_activate s1_def a1_def) (simp add: set_status_def)
  have a1: "at_AssignmentID a1 = k1" "at_IntentID a1 = i" "at_AgentID a1 = bd_AgentID b1" "at_Status a1 = ''PENDING''"
    using ids by (simp_all add: a1_def)
  have s1: "length (am_heap s1) = length (am_heap m)" "am_assignments s1 = am_assignments m" by (simp_all add: s1_def) (simp add: set_status_def)
  have ref: "am_assignments (store_assignment s1 a1) aid = Some r" using assms(1) ids(3) a1 s1 by auto
  have intent: "at_IntentID (am_heap (store_assignment s1 a1) ! r) = i"
    using assms(2,3) by (simp add: store_assignment_def s1_def set_status_def nth_append nth_list_update)
  define s2 where "s2 = (set_status (store_assignment s1 a1) r ''REJECTED'')\<lparr>am_runnerUps := (am_runnerUps s1)(i \<mapsto> rest)\<rparr>"
  define a2 where "a2 = make_assignment s2 c2 i (bd_AgentID b2) (bd_BidID b2) (am_MatcherID (set_status (store_assignment s1 a1) r ''REJECTED''))"
  have m2: "m' = store_assignment s2 a2"
    unfolding twice m1 using ref intent by (simp add: HandleRejection_def heap_activate s1_def s2_def a2_def)
  have k1: "am_assignments s2 k1 = Some (length (am_heap m))" and len: "length (am_heap m) < length (am_heap s2)"
    using a1 s1 by (simp_all add: s2_def) (simp add: set_status_def store_assignment_def)
  have "GetAssignment_mgr s2 k1 = Some a1"
    using k1 assms(2) s1 by (simp add: GetAssignment_mgr_def s2_def) (simp add: set_status_def store_assignment_def nth_append)
  then have "GetAssignment_mgr m' k1 = Some a1"
    unfolding m2 using GetAssignment_mgr_store_other [OF _ k1 len] ids by (auto simp: a2_def)
  moreover have "GetAssignment_mgr m' k2 = Some a2" unfolding m2 using GetAssignment_mgr_store [of s2 a2] ids by (simp add: a2_def)
  ultimately show ?thesis using a1 by (intro exI [of _ a1] exI [of _ a2]) (simp add: a2_def)
qed

theorem repeated_rejection_assigns_twice_witness:
  "\<exists>m' a1 a2. m' = fst (HandleRejection (fst (HandleRejection example_manager (example_clock 2) ''assign_i_a_1'')) (example_clock 3) ''assign_i_a_1'')
    \<and> GetAssignment_mgr m' ''assign_i_b_2'' = Some a1 \<and> GetAssignment_mgr m' ''assign_i_d_3'' = Some a2 \<and> at_IntentID a1 = at_IntentID a2
    \<and> at_Status a1 = ''PENDING'' \<and> at_Status a2 = ''PENDING''"
proof -
  have ids: "generateAssignmentID ''i'' ''a'' 1 = ''assign_i_a_1''" "generateAssignmentID ''i'' ''b'' 2 = ''assign_i_b_2''"
    "generateAssignmentID ''i'' ''d'' 3 = ''assign_i_d_3''"
    by code_simp+
  show ?thesis
    using repeated_rejection_assigns_twice [of example_manager "''assign_i_a_1''" 0 "''i''" "example_bid ''i'' ''b'' 2" "example_bid ''i'' ''d'' 3" "[]"
        "''assign_i_b_2''" "example_clock 2" "''assign_i_d_3''" "example_clock 3"] ids
    by (simp add: example_manager_def CreateAssignment_def NewAssignmentManager_def example_result_def Let_def example_clock_def)
      (auto simp: store_assignment_def example_bid_def ids)
qed

end
