(* ===== verification/Task_Manager.thy ===== *)
theory Task_Manager
  imports Matcher_Server
begin

text \<open>
  The simple task manager (\<open>src/internal/matcher/simple_task_manager.go\<close>): a task for the winning agent, the runner-up when sending fails or the
  agent refuses or stays silent, and the time-outs. \<open>CreateAndSendTask\<close> and \<open>tryRunnerUp\<close> call each other, so they take fuel and \<open>None\<close> means
  that it did not suffice; the attempts of one call are numbered, and a run says what the clock and the agent's channel do at each of them.
\<close>

section \<open>Model\<close>

subsection \<open>State\<close>

record PendingTask =
  pt_TaskID :: string
  pt_IntentID :: string
  pt_AgentID :: string
  pt_Intent :: Intent
  pt_CreatedAt :: int
  pt_Responded :: bool
  pt_Accepted :: bool

record SimpleTaskManager =
  tm_pendingTasks :: "string \<rightharpoonup> PendingTask"
  tm_agentTasks :: "string \<rightharpoonup> string list"

definition NewSimpleTaskManager :: SimpleTaskManager where
  "NewSimpleTaskManager = \<lparr>tm_pendingTasks = Map.empty, tm_agentTasks = Map.empty\<rparr>"

text \<open>The timeouts of the server's configuration, if they are set.\<close>

record Task_Timeouts =
  tt_TaskResponseTimeout :: int
  tt_TaskSendTimeout :: int
  tt_RootLayerSubmitTimeout :: int
  tt_TaskCleanupInterval :: int
  tt_TaskReassignMinTime :: int

definition getTaskResponseTimeout :: "Task_Timeouts option \<Rightarrow> int" where
  "getTaskResponseTimeout cfg = (case cfg of Some t \<Rightarrow> tt_TaskResponseTimeout t | None \<Rightarrow> 30 * second)"

definition getTaskSendTimeout :: "Task_Timeouts option \<Rightarrow> int" where
  "getTaskSendTimeout cfg = (case cfg of Some t \<Rightarrow> tt_TaskSendTimeout t | None \<Rightarrow> 5 * second)"

definition getRootLayerSubmitTimeout :: "Task_Timeouts option \<Rightarrow> int" where
  "getRootLayerSubmitTimeout cfg = (case cfg of Some t \<Rightarrow> tt_RootLayerSubmitTimeout t | None \<Rightarrow> 5 * second)"

definition getTaskCleanupInterval :: "Task_Timeouts option \<Rightarrow> int" where
  "getTaskCleanupInterval cfg = (case cfg of Some t \<Rightarrow> tt_TaskCleanupInterval t | None \<Rightarrow> 3600 * second)"

definition getTaskReassignMinTime :: "Task_Timeouts option \<Rightarrow> int" where
  "getTaskReassignMinTime cfg = (case cfg of Some t \<Rightarrow> tt_TaskReassignMinTime t | None \<Rightarrow> 30 * second)"

text \<open>
  \<open>rn_now\<close> is the time of an attempt in nanoseconds (\<open>Unix()\<close> its seconds); \<open>rn_received\<close> says whether the agent's channel takes the task
  before the time-out.
\<close>

record Task_Run =
  rn_now :: "nat \<Rightarrow> int"
  rn_received :: "nat \<Rightarrow> bool"

text \<open>What an operation does outside of the manager: tasks put into channels, goroutines, calls of the root layer.\<close>

datatype task_effect =
    SendTask string ExecutionTask
  | WaitForResponse string int
  | SubmitAssignmentRL Assignment
  | MonitorExecution string int

datatype task_error = IntentExpired string | NoStream string | SendTimeout | UnknownTask string

type_synonym task_result = "SimpleTaskManager \<times> task_effect list \<times> (go_panic + task_error option)"

subsection \<open>Tasks\<close>

definition removeTask :: "SimpleTaskManager \<Rightarrow> string \<Rightarrow> string \<Rightarrow> SimpleTaskManager" where
  "removeTask tm taskID agentID =
     tm\<lparr>tm_pendingTasks := (tm_pendingTasks tm)(taskID := None),
        tm_agentTasks := (case tm_agentTasks tm agentID of
                            None \<Rightarrow> tm_agentTasks tm
                          | Some tasks \<Rightarrow> (tm_agentTasks tm)(agentID \<mapsto> filter (\<lambda>i. i \<noteq> taskID) tasks))\<rparr>"

text \<open>\<open>order\<close> lists the task identifiers in the order of the runtime.\<close>

definition reportIntentFailure :: "SimpleTaskManager \<Rightarrow> string \<Rightarrow> string list \<Rightarrow> SimpleTaskManager" where
  "reportIntentFailure tm intentID order =
     foldl (\<lambda>tm taskID. case tm_pendingTasks tm taskID of
              None \<Rightarrow> tm
            | Some pending \<Rightarrow> if pt_IntentID pending = intentID then removeTask tm taskID (pt_AgentID pending) else tm) tm order"

definition cheaper_bid :: "string \<Rightarrow> Bid option \<Rightarrow> Bid \<Rightarrow> Bid option" where
  "cheaper_bid excludeAgent best bid =
     (if b_AgentId bid = excludeAgent then best
      else if b_Status bid \<noteq> BID_STATUS_SUBMITTED then best
      else case best of None \<Rightarrow> Some bid | Some b \<Rightarrow> if b_Price bid < b_Price b then Some bid else best)"

definition findRunnerUp :: "Server \<Rightarrow> string \<Rightarrow> string \<Rightarrow> Bid option" where
  "findRunnerUp s intentID excludeAgent =
     (case srv_bidsByIntent s intentID of
        None \<Rightarrow> None
      | Some refs \<Rightarrow> foldl (cheaper_bid excludeAgent) None (map ((!) (srv_heap s)) refs))"

definition record_task :: "SimpleTaskManager \<Rightarrow> string \<Rightarrow> string \<Rightarrow> string \<Rightarrow> Intent \<Rightarrow> int \<Rightarrow> SimpleTaskManager" where
  "record_task tm taskID intentID agentID intent now =
     tm\<lparr>tm_pendingTasks := (tm_pendingTasks tm)(taskID \<mapsto>
          \<lparr>pt_TaskID = taskID, pt_IntentID = intentID, pt_AgentID = agentID, pt_Intent = intent, pt_CreatedAt = now,
           pt_Responded = False, pt_Accepted = False\<rparr>),
        tm_agentTasks := (tm_agentTasks tm)(agentID \<mapsto> (case tm_agentTasks tm agentID of None \<Rightarrow> [] | Some ids \<Rightarrow> ids) @ [taskID])\<rparr>"

definition execution_task_tm :: "string \<Rightarrow> string \<Rightarrow> Bid \<Rightarrow> Intent \<Rightarrow> IntentParams \<Rightarrow> int \<Rightarrow> ExecutionTask" where
  "execution_task_tm taskID intentID bid intent params now =
     \<lparr>t_TaskId = taskID, t_IntentId = intentID, t_AgentId = b_AgentId bid, t_BidId = b_BidId bid, t_CreatedAt = now div second,
      t_Deadline = in_Deadline intent, t_IntentData = ip_IntentRaw params, t_IntentType = in_IntentType intent\<rparr>"

definition sendTaskToAgent_tm :: "Server \<Rightarrow> Task_Run \<Rightarrow> nat \<Rightarrow> string \<Rightarrow> task_error option" where
  "sendTaskToAgent_tm s run k agentID =
     (if srv_taskStreams s agentID = None then Some (NoStream agentID)
      else if rn_received run k then None else Some SendTimeout)"

definition expired :: "Intent \<Rightarrow> int \<Rightarrow> bool" where
  "expired intent now \<longleftrightarrow> in_Deadline intent > 0 \<and> now div second > in_Deadline intent"

definition task_id :: "string \<Rightarrow> int \<Rightarrow> string" where
  "task_id intentID nanos = ''task-'' @ intentID @ ''-'' @ dec_int nanos"

fun CreateAndSendTask ::
  "nat \<Rightarrow> Server \<Rightarrow> Task_Timeouts option \<Rightarrow> Task_Run \<Rightarrow> nat \<Rightarrow> SimpleTaskManager \<Rightarrow> string \<Rightarrow> Bid \<Rightarrow> Intent \<Rightarrow> string list \<Rightarrow> task_result option"
and tryRunnerUp ::
  "nat \<Rightarrow> Server \<Rightarrow> Task_Timeouts option \<Rightarrow> Task_Run \<Rightarrow> nat \<Rightarrow> SimpleTaskManager \<Rightarrow> string \<Rightarrow> string \<Rightarrow> string \<Rightarrow> string list \<Rightarrow> task_result option"
where
  "CreateAndSendTask 0 s cfg run k tm intentID winningBid intent order = None"
| "CreateAndSendTask (Suc fuel) s cfg run k tm intentID winningBid intent order =
     (if expired intent (rn_now run k) then Some (tm, [], Inr (Some (IntentExpired intentID)))
      else
        let taskID = task_id intentID (rn_now run k);
            tm1 = record_task tm taskID intentID (b_AgentId winningBid) intent (rn_now run k) in
        case in_Params intent of
          None \<Rightarrow> Some (tm1, [], Inl NilDereference)
        | Some params \<Rightarrow>
            case sendTaskToAgent_tm s run k (b_AgentId winningBid) of
              None \<Rightarrow>
                Some (tm1, [SendTask (b_AgentId winningBid) (execution_task_tm taskID intentID winningBid intent params (rn_now run k)),
                            WaitForResponse taskID (getTaskResponseTimeout cfg)], Inr None)
            | Some err \<Rightarrow>
                (case tryRunnerUp fuel s cfg run (k + 1) tm1 intentID taskID (b_AgentId winningBid) order of
                   None \<Rightarrow> None
                 | Some (tm2, fx, Inl p) \<Rightarrow> Some (tm2, fx, Inl p)
                 | Some (tm2, fx, Inr _) \<Rightarrow> Some (tm2, fx, Inr (Some err))))"
| "tryRunnerUp 0 s cfg run k tm intentID originalTaskID excludeAgent order = None"
| "tryRunnerUp (Suc fuel) s cfg run k tm intentID originalTaskID excludeAgent order =
     (case tm_pendingTasks tm originalTaskID of
        None \<Rightarrow>
          (case findRunnerUp s intentID excludeAgent of
             None \<Rightarrow> Some (reportIntentFailure tm intentID order, [], Inr None)
           | Some runnerUp \<Rightarrow> Some (tm, [], Inl NilDereference))
      | Some pending \<Rightarrow>
          if expired (pt_Intent pending) (rn_now run k) then Some (tm, [], Inr None)
          else case findRunnerUp s intentID excludeAgent of
            None \<Rightarrow> Some (reportIntentFailure tm intentID order, [], Inr None)
          | Some runnerUp \<Rightarrow>
              (case CreateAndSendTask fuel s cfg run k tm intentID runnerUp (pt_Intent pending) order of
                 None \<Rightarrow> None
               | Some (tm2, fx, Inl p) \<Rightarrow> Some (tm2, fx, Inl p)
               | Some (tm2, fx, Inr _) \<Rightarrow> Some (tm2, fx, Inr None)))"

subsection \<open>Responses and time-outs\<close>

definition submitToRootLayer_tm :: "bool \<Rightarrow> PendingTask \<Rightarrow> task_effect list" where
  "submitToRootLayer_tm connected pending =
     (if connected
      then [SubmitAssignmentRL \<lparr>as_AssignmentId = pt_TaskID pending, as_IntentId = pt_IntentID pending, as_AgentId = pt_AgentID pending,
              as_BidId = [], as_Status = 0, as_MatcherId = [], as_Signature = []\<rparr>]
      else [])"

definition HandleAgentResponse ::
  "nat \<Rightarrow> Server \<Rightarrow> Task_Timeouts option \<Rightarrow> bool \<Rightarrow> Task_Run \<Rightarrow> SimpleTaskManager \<Rightarrow> TaskResponse \<Rightarrow> string list \<Rightarrow> task_result option" where
  "HandleAgentResponse fuel s cfg connected run tm response order =
     (case tm_pendingTasks tm (tr_TaskId response) of
        None \<Rightarrow> Some (tm, [], Inr (Some (UnknownTask (tr_TaskId response))))
      | Some pending \<Rightarrow>
          let pending1 = pending\<lparr>pt_Responded := True, pt_Accepted := tr_Accepted response\<rparr>;
              tm1 = tm\<lparr>tm_pendingTasks := (tm_pendingTasks tm)(tr_TaskId response \<mapsto> pending1)\<rparr> in
          if tr_Accepted response
          then Some (tm1, submitToRootLayer_tm connected pending1 @ [MonitorExecution (tr_TaskId response) (in_Deadline (pt_Intent pending1))], Inr None)
          else map_option (\<lambda>(tm2, fx, r). (tm2, fx, case r of Inl p \<Rightarrow> Inl p | Inr _ \<Rightarrow> Inr None))
                 (tryRunnerUp fuel s cfg run 0 tm1 (pt_IntentID pending1) (tr_TaskId response) (tr_AgentId response) order))"

text \<open>After the sleep; \<open>run\<close> starts there.\<close>

definition waitForResponse ::
  "nat \<Rightarrow> Server \<Rightarrow> Task_Timeouts option \<Rightarrow> Task_Run \<Rightarrow> SimpleTaskManager \<Rightarrow> string \<Rightarrow> string list \<Rightarrow> task_result option" where
  "waitForResponse fuel s cfg run tm taskID order =
     (case tm_pendingTasks tm taskID of
        None \<Rightarrow> Some (tm, [], Inr None)
      | Some pending \<Rightarrow>
          if \<not> pt_Responded pending then tryRunnerUp fuel s cfg run 0 tm (pt_IntentID pending) taskID (pt_AgentID pending) order
          else Some (tm, [], Inr None))"

definition handleTaskTimeout ::
  "nat \<Rightarrow> Server \<Rightarrow> Task_Timeouts option \<Rightarrow> Task_Run \<Rightarrow> SimpleTaskManager \<Rightarrow> PendingTask \<Rightarrow> string list \<Rightarrow> task_result option" where
  "handleTaskTimeout fuel s cfg run tm pending order =
     map_option (\<lambda>(tm1, fx, r). (case r of Inl p \<Rightarrow> (tm1, fx, Inl p) | Inr _ \<Rightarrow> (removeTask tm1 (pt_TaskID pending) (pt_AgentID pending), fx, Inr None)))
       (if in_Deadline (pt_Intent pending) > 0 then
          if time_sub (in_Deadline (pt_Intent pending) * second) (rn_now run 0) > getTaskReassignMinTime cfg
          then tryRunnerUp fuel s cfg run 0 tm (pt_IntentID pending) (pt_TaskID pending) (pt_AgentID pending) order
          else Some (reportIntentFailure tm (pt_IntentID pending) order, [], Inr None)
        else tryRunnerUp fuel s cfg run 0 tm (pt_IntentID pending) (pt_TaskID pending) (pt_AgentID pending) order)"

text \<open>\<open>start\<close> is the time when the goroutine computes how long to sleep, \<open>run\<close> starts after the sleep.\<close>

definition monitorExecution ::
  "nat \<Rightarrow> Server \<Rightarrow> Task_Timeouts option \<Rightarrow> int \<Rightarrow> Task_Run \<Rightarrow> SimpleTaskManager \<Rightarrow> string \<Rightarrow> int \<Rightarrow> string list \<Rightarrow> task_result option" where
  "monitorExecution fuel s cfg start run tm taskID deadline order =
     (if deadline > 0 \<and> time_sub (deadline * second) start > 0 then
        (case tm_pendingTasks tm taskID of
           None \<Rightarrow> Some (tm, [], Inr None)
         | Some pending \<Rightarrow> if pt_Accepted pending then handleTaskTimeout fuel s cfg run tm pending order else Some (tm, [], Inr None))
      else Some (tm, [], Inr None))"

definition CleanupOldTasks :: "Task_Timeouts option \<Rightarrow> SimpleTaskManager \<Rightarrow> int \<Rightarrow> string list \<Rightarrow> SimpleTaskManager" where
  "CleanupOldTasks cfg tm now order =
     foldl (\<lambda>tm taskID. case tm_pendingTasks tm taskID of
              None \<Rightarrow> tm
            | Some pending \<Rightarrow>
                if time_sub now (pt_CreatedAt pending) > getTaskCleanupInterval cfg then removeTask tm taskID (pt_AgentID pending) else tm) tm order"

section \<open>Reassignment\<close>

declare CreateAndSendTask.simps(2) [simp del] tryRunnerUp.simps(2) [simp del]

lemma recorded_task [simp]:
  "tm_pendingTasks (record_task tm taskID i a intent now) taskID = Some \<lparr>pt_TaskID = taskID, pt_IntentID = i, pt_AgentID = a, pt_Intent = intent,
     pt_CreatedAt = now, pt_Responded = False, pt_Accepted = False\<rparr>"
  by (simp add: record_task_def)

lemma cheaper_bids_some: "best \<noteq> None \<Longrightarrow> foldl (cheaper_bid a) best bids \<noteq> None"
  by (induction bids arbitrary: best) (auto simp: cheaper_bid_def split: option.split)

lemma findRunnerUp_some:
  assumes "srv_bidsByIntent s i = Some refs" "b \<in> (!) (srv_heap s) ` set refs" "b_AgentId b \<noteq> a" "b_Status b = BID_STATUS_SUBMITTED"
  shows "findRunnerUp s i a \<noteq> None"
proof -
  have "foldl (cheaper_bid a) best bids \<noteq> None" if "b \<in> set bids" for bids best
    using that
  proof (induction bids arbitrary: best)
    case (Cons x bids)
    show ?case
    proof (cases "x = b")
      case True
      then have "cheaper_bid a best x \<noteq> None" using assms(3,4) by (simp add: cheaper_bid_def split: option.split)
      then show ?thesis by (simp only: foldl_Cons cheaper_bids_some not_False_eq_True)
    next
      case False
      with Cons.prems have "b \<in> set bids" by auto
      then show ?thesis unfolding foldl_Cons by (rule Cons.IH)
    qed
  qed simp
  moreover have "b \<in> set (map ((!) (srv_heap s)) refs)" using assms(2) by simp
  ultimately show ?thesis unfolding findRunnerUp_def assms(1) option.case by blast
qed

text \<open>The two calls of one attempt.\<close>

lemma CreateAndSendTask_fails:
  assumes "\<not> expired intent (rn_now run k)" "in_Params intent = Some params" "sendTaskToAgent_tm s run k (b_AgentId bid) \<noteq> None"
  shows "CreateAndSendTask (Suc fuel) s cfg run k tm i bid intent order = None \<longleftrightarrow>
    tryRunnerUp fuel s cfg run (k + 1) (record_task tm (task_id i (rn_now run k)) i (b_AgentId bid) intent (rn_now run k)) i
      (task_id i (rn_now run k)) (b_AgentId bid) order = None"
  using assms by (auto simp: CreateAndSendTask.simps(2) Let_def split: option.splits sum.splits prod.splits)

lemma tryRunnerUp_passes_on:
  assumes "tm_pendingTasks tm taskID = Some pending" "\<not> expired (pt_Intent pending) (rn_now run k)" "findRunnerUp s i a = Some runnerUp"
  shows "tryRunnerUp (Suc fuel) s cfg run k tm i taskID a order = None \<longleftrightarrow>
    CreateAndSendTask fuel s cfg run k tm i runnerUp (pt_Intent pending) order = None"
  using assms by (auto simp: tryRunnerUp.simps(2) split: option.splits sum.splits prod.splits)

section \<open>Properties\<close>

text \<open>
  C25: Looking for a runner-up ends by the deadline: if the clock passes the deadline of the intent by the \<open>n\<close>-th attempt, then \<open>2 * (n - k) + 1\<close> nested calls
  are enough for a task that starts with attempt \<open>k\<close>, whatever the channels and the bids are.
\<close>
theorem reassignment_ends_at_deadline:
  assumes deadline: "\<And>j. n \<le> j \<Longrightarrow> expired intent (rn_now run j)" and fuel: "2 * (n - k) + 1 \<le> fuel"
  shows "CreateAndSendTask fuel s cfg run k tm i bid intent order \<noteq> None"
  using fuel
proof (induction "n - k" arbitrary: k fuel tm bid)
  case 0
  then obtain f where "fuel = Suc f" by (cases fuel) auto
  with 0 deadline [of k] show ?case by (simp add: CreateAndSendTask.simps(2))
next
  case (Suc d)
  then obtain f where f: "fuel = Suc (Suc f)" "2 * (n - (k + 1)) + 1 \<le> f" by (cases fuel; cases "fuel - 1") auto
  let ?id = "task_id i (rn_now run k)" and ?tm = "record_task tm (task_id i (rn_now run k)) i (b_AgentId bid) intent (rn_now run k)"
  have next_create: "\<not> CreateAndSendTask f s cfg run (Suc k) tm' i b intent order = None" for tm' b using Suc f by (intro Suc.hyps) auto
  have "tryRunnerUp (Suc f) s cfg run (k + 1) ?tm i ?id (b_AgentId bid) order \<noteq> None"
  proof (cases "expired intent (rn_now run (k + 1)) \<or> findRunnerUp s i (b_AgentId bid) = None")
    case True
    then show ?thesis by (auto simp: tryRunnerUp.simps(2) split: option.split)
  next
    case False
    then obtain r where "findRunnerUp s i (b_AgentId bid) = Some r" by auto
    with False show ?thesis by (simp add: tryRunnerUp_passes_on next_create del: not_None_eq)
  qed
  then show ?case
    unfolding f(1) by (auto simp: CreateAndSendTask.simps(2) Let_def split: option.split sum.split prod.split)
qed

definition plain_intent :: "int \<Rightarrow> Intent" where
  "plain_intent deadline =
     \<lparr>in_IntentId = ''i'', in_SubnetId = [], in_Requester = [], in_SettleChain = [], in_IntentType = [],
      in_Params = Some \<lparr>ip_IntentRaw = [], ip_Metadata = []\<rparr>, in_ParamsHash = [], in_TipsToken = [], in_Tips = [], in_BudgetToken = [],
      in_Budget = [], in_Deadline = deadline, in_IntentExpiration = 0, in_Status = 0, in_CreatedAt = 0, in_Signature = [],
      in_PendingConfirmed = False, in_ProcessingConfirmed = False, in_ValidationConfirmed = False\<rparr>"

definition plain_bid :: "string \<Rightarrow> u64 \<Rightarrow> Bid" where
  "plain_bid a p =
     \<lparr>b_BidId = a, b_IntentId = ''i'', b_AgentId = a, b_Price = p, b_Token = [], b_SettleChain = [], b_SubmittedAt = 0, b_Nonce = [],
      b_Signature = [], b_Status = BID_STATUS_SUBMITTED, b_Metadata = Map.empty\<rparr>"

text \<open>Two bids and no task streams.\<close>

definition two_bids :: Server where
  "two_bids = (NewServer ''m'' 10 False False)\<lparr>srv_heap := [plain_bid ''a'' 1, plain_bid ''b'' 2], srv_bidsByIntent := [''i'' \<mapsto> [0, 1]]\<rparr>"

definition slow_run :: Task_Run where
  "slow_run = \<lparr>rn_now = (\<lambda>k. int k * second), rn_received = (\<lambda>k. False)\<rparr>"

theorem reassignment_ends_at_deadline_witness:
  "CreateAndSendTask 9 two_bids None slow_run 0 NewSimpleTaskManager ''i'' (plain_bid ''a'' 1) (plain_intent 3) [] \<noteq> None"
proof (rule reassignment_ends_at_deadline [where n = 4])
  show "expired (plain_intent 3) (rn_now slow_run j)" if "4 \<le> j" for j
    using that by (simp add: expired_def plain_intent_def slow_run_def second_def)
qed simp



text \<open>
  A task that is accepted but not finished is never given to another agent: the monitor wakes up at the deadline, where no time is left for a reassignment, so
  the intent is given up; all its tasks are removed and nothing is sent.
\<close>
theorem execution_timeout_gives_up:
  assumes "tm_pendingTasks tm taskID = Some pending" "pt_Accepted pending" "in_Deadline (pt_Intent pending) = deadline" "0 < deadline"
    and "deadline * second \<le> rn_now run 0" "0 \<le> getTaskReassignMinTime cfg" "time_sub (deadline * second) start > 0"
  shows "monitorExecution fuel s cfg start run tm taskID deadline order =
    Some (removeTask (reportIntentFailure tm (pt_IntentID pending) order) (pt_TaskID pending) (pt_AgentID pending), [], Inr None)"
proof -
  have "\<not> time_sub (deadline * second) (rn_now run 0) > getTaskReassignMinTime cfg" using assms(5,6) by (simp add: time_sub_def)
  then show ?thesis using assms by (simp add: monitorExecution_def handleTaskTimeout_def)
qed

definition accepted_task :: PendingTask where
  "accepted_task = \<lparr>pt_TaskID = ''t'', pt_IntentID = ''i'', pt_AgentID = ''a'', pt_Intent = plain_intent 3, pt_CreatedAt = 0, pt_Responded = True,
     pt_Accepted = True\<rparr>"

theorem execution_timeout_gives_up_witness:
  "\<exists>tm'. monitorExecution 1 two_bids None 0 \<lparr>rn_now = (\<lambda>k. 3 * second), rn_received = (\<lambda>k. True)\<rparr>
      \<lparr>tm_pendingTasks = [''t'' \<mapsto> accepted_task], tm_agentTasks = [''a'' \<mapsto> [''t'']]\<rparr> ''t'' 3 [''t''] = Some (tm', [], Inr None)
    \<and> tm_pendingTasks tm' = Map.empty"
proof -
  let ?tm = "\<lparr>tm_pendingTasks = [''t'' \<mapsto> accepted_task], tm_agentTasks = [''a'' \<mapsto> [''t'']]\<rparr>"
  have "monitorExecution 1 two_bids None 0 \<lparr>rn_now = (\<lambda>k. 3 * second), rn_received = (\<lambda>k. True)\<rparr> ?tm ''t'' 3 [''t'']
      = Some (removeTask (reportIntentFailure ?tm (pt_IntentID accepted_task) [''t'']) (pt_TaskID accepted_task) (pt_AgentID accepted_task), [], Inr None)"
    by (rule execution_timeout_gives_up)
      (simp_all add: accepted_task_def plain_intent_def second_def getTaskReassignMinTime_def time_sub_def)
  then show ?thesis by (simp add: reportIntentFailure_def removeTask_def accepted_task_def)
qed

end
