(* ===== verification/Task_Distributor.thy ===== *)
theory Task_Distributor
  imports Task_Manager Complex_Main
begin

text \<open>
  The task distributor (\<open>src/internal/matcher/task_distributor.go\<close>) and its timeouts (\<open>src/internal/matcher/timeout_config.go\<close>). Durations are scaled in
  \<open>float64\<close>: the exact product of the rounded factors is rounded by \<open>fl\<close> and cut off to a whole number of nanoseconds.
\<close>

section \<open>Model\<close>

subsection \<open>Timeouts\<close>

record TimeoutSettings =
  ts_ResponseTimeout :: int
  ts_ExecutionTimeout :: int
  ts_MaxRetries :: int

record TimeoutConfig =
  tc_DefaultResponseTimeout :: int
  tc_DefaultExecutionTimeout :: int
  tc_MinResponseTimeout :: int
  tc_MaxResponseTimeout :: int
  tc_IntentTypeTimeouts :: "string \<rightharpoonup> TimeoutSettings"
  tc_DeadlineResponseRatio :: real
  tc_UrgencyFactor :: real

definition minute :: int where "minute = 60 * second"

definition settings :: "int \<Rightarrow> int \<Rightarrow> int \<Rightarrow> TimeoutSettings" where
  "settings response execution retries = \<lparr>ts_ResponseTimeout = response, ts_ExecutionTimeout = execution, ts_MaxRetries = retries\<rparr>"

definition DefaultTimeoutConfig :: TimeoutConfig where
  "DefaultTimeoutConfig =
     \<lparr>tc_DefaultResponseTimeout = 30 * second, tc_DefaultExecutionTimeout = 5 * minute, tc_MinResponseTimeout = 5 * second,
      tc_MaxResponseTimeout = 2 * minute,
      tc_IntentTypeTimeouts =
        [''real_time'' \<mapsto> settings (5 * second) (30 * second) 1, ''urgent'' \<mapsto> settings (10 * second) (1 * minute) 1,
         ''normal'' \<mapsto> settings (30 * second) (5 * minute) 2, ''batch'' \<mapsto> settings (60 * second) (30 * minute) 3,
         ''long_running'' \<mapsto> settings (2 * minute) (60 * minute) 3],
      tc_DeadlineResponseRatio = 1 / 10, tc_UrgencyFactor = 1 / 2\<rparr>"

text \<open>\<open>time.Duration(float64(d) * r)\<close>: a conversion to an integer drops the fraction.\<close>

definition scale_duration :: "(real \<Rightarrow> real) \<Rightarrow> int \<Rightarrow> real \<Rightarrow> int" where
  "scale_duration fl d r = (let x = fl (fl (real_of_int d) * fl r) in if x < 0 then \<lceil>x\<rceil> else \<lfloor>x\<rfloor>)"

text \<open>\<open>time.Until\<close> of a deadline in seconds.\<close>

definition remaining_time :: "int \<Rightarrow> int \<Rightarrow> int" where
  "remaining_time deadline now = time_sub (deadline * second) now"

definition adjust_deadline :: "(real \<Rightarrow> real) \<Rightarrow> TimeoutConfig \<Rightarrow> int \<Rightarrow> TimeoutSettings \<Rightarrow> TimeoutSettings" where
  "adjust_deadline fl tc remaining st =
     (let calculated = scale_duration fl remaining (tc_DeadlineResponseRatio tc);
          response = (if calculated < tc_MinResponseTimeout tc then tc_MinResponseTimeout tc
                      else if calculated > tc_MaxResponseTimeout tc then tc_MaxResponseTimeout tc else calculated) in
      \<lparr>ts_ResponseTimeout = response, ts_ExecutionTimeout = i64 (remaining - response),
       ts_MaxRetries = (if remaining < 1 * minute then 0 else if remaining < 5 * minute then 1 else ts_MaxRetries st)\<rparr>)"

definition adjust_priority :: "(real \<Rightarrow> real) \<Rightarrow> TimeoutConfig \<Rightarrow> string \<Rightarrow> TimeoutSettings \<Rightarrow> TimeoutSettings" where
  "adjust_priority fl tc priority st =
     (if priority = ''critical''
      then st\<lparr>ts_ResponseTimeout := scale_duration fl (ts_ResponseTimeout st) (3 / 10), ts_MaxRetries := 0\<rparr>
      else if priority = ''high''
      then st\<lparr>ts_ResponseTimeout := scale_duration fl (ts_ResponseTimeout st) (tc_UrgencyFactor tc),
              ts_MaxRetries := (if ts_MaxRetries st > 1 then 1 else ts_MaxRetries st)\<rparr>
      else if priority = ''low''
      then st\<lparr>ts_ResponseTimeout := i64 (ts_ResponseTimeout st * 2), ts_ExecutionTimeout := i64 (ts_ExecutionTimeout st * 2), ts_MaxRetries := 3\<rparr>
      else st)"

definition clamp_response :: "TimeoutConfig \<Rightarrow> TimeoutSettings \<Rightarrow> TimeoutSettings" where
  "clamp_response tc st =
     (let st1 = (if ts_ResponseTimeout st < tc_MinResponseTimeout tc then st\<lparr>ts_ResponseTimeout := tc_MinResponseTimeout tc\<rparr> else st) in
      if ts_ResponseTimeout st1 > tc_MaxResponseTimeout tc then st1\<lparr>ts_ResponseTimeout := tc_MaxResponseTimeout tc\<rparr> else st1)"

definition CalculateTimeouts :: "(real \<Rightarrow> real) \<Rightarrow> TimeoutConfig \<Rightarrow> string \<Rightarrow> int \<Rightarrow> string \<Rightarrow> int \<Rightarrow> TimeoutSettings" where
  "CalculateTimeouts fl tc intentType deadline priority now =
     (let st = (case tc_IntentTypeTimeouts tc intentType of
                  Some typeSettings \<Rightarrow> typeSettings
                | None \<Rightarrow> settings (tc_DefaultResponseTimeout tc) (tc_DefaultExecutionTimeout tc) 2);
          st1 = (if deadline > 0 \<and> remaining_time deadline now > 0 then adjust_deadline fl tc (remaining_time deadline now) st else st) in
      clamp_response tc (adjust_priority fl tc priority st1))"

definition IsUrgent :: "TimeoutConfig \<Rightarrow> int \<Rightarrow> int \<Rightarrow> bool" where
  "IsUrgent tc deadline now \<longleftrightarrow> deadline > 0 \<and> remaining_time deadline now < 1 * minute \<and> remaining_time deadline now > 0"

subsection \<open>Distributor\<close>

text \<open>\<open>RespondedAt\<close> is nil before the first response; \<open>Intent\<close> may be nil.\<close>

record ActiveTask =
  ac_Task :: ExecutionTask
  ac_Intent :: "Intent option"
  ac_AgentID :: string
  ac_Status :: string
  ac_CreatedAt :: int
  ac_RespondedAt :: "int option"
  ac_Retries :: int
  ac_ResponseTimeout :: int

text \<open>The streams as the tasks in their buffers of ten.\<close>

record SimpleTaskDistributor =
  sd_activeTasks :: "string \<rightharpoonup> ActiveTask"
  sd_agentStreams :: "string \<rightharpoonup> ExecutionTask list"
  sd_timeoutConfig :: TimeoutConfig
  sd_maxRetries :: int

definition NewSimpleTaskDistributor :: SimpleTaskDistributor where
  "NewSimpleTaskDistributor =
     \<lparr>sd_activeTasks = Map.empty, sd_agentStreams = Map.empty, sd_timeoutConfig = DefaultTimeoutConfig, sd_maxRetries = 2\<rparr>"

datatype dist_effect = CheckTimeout string int

datatype dist_error = SendTimedOut string | UnknownTaskId string

definition open_stream :: "SimpleTaskDistributor \<Rightarrow> string \<Rightarrow> SimpleTaskDistributor" where
  "open_stream d agentID =
     (if sd_agentStreams d agentID = None then d\<lparr>sd_agentStreams := (sd_agentStreams d)(agentID \<mapsto> [])\<rparr> else d)"

text \<open>A full buffer that nobody reads before the time-out fails the call; the task stays recorded.\<close>

definition SendTaskWithPriority ::
  "(real \<Rightarrow> real) \<Rightarrow> SimpleTaskDistributor \<Rightarrow> string \<Rightarrow> ExecutionTask \<Rightarrow> string \<Rightarrow> int
     \<Rightarrow> SimpleTaskDistributor \<times> dist_effect list \<times> dist_error option" where
  "SendTaskWithPriority fl d agentID task priority now =
     (let st = CalculateTimeouts fl (sd_timeoutConfig d) (t_IntentType task) (t_Deadline task) priority now;
          active = \<lparr>ac_Task = task, ac_Intent = None, ac_AgentID = agentID, ac_Status = ''pending'', ac_CreatedAt = now, ac_RespondedAt = None,
                    ac_Retries = 0, ac_ResponseTimeout = ts_ResponseTimeout st\<rparr>;
          d1 = open_stream (d\<lparr>sd_activeTasks := (sd_activeTasks d)(t_TaskId task \<mapsto> active)\<rparr>) agentID;
          buffer = the (sd_agentStreams d1 agentID) in
      if length buffer < 10 then
        (d1\<lparr>sd_agentStreams := (sd_agentStreams d1)(agentID \<mapsto> buffer @ [task]),
            sd_activeTasks := (if ts_MaxRetries st < sd_maxRetries d
                               then (sd_activeTasks d1)(t_TaskId task \<mapsto> active\<lparr>ac_Retries := sd_maxRetries d - ts_MaxRetries st\<rparr>)
                               else sd_activeTasks d1)\<rparr>,
         [CheckTimeout (t_TaskId task) (ts_ResponseTimeout st)], None)
      else (d1, [], Some (SendTimedOut agentID)))"

definition SendTask_dist ::
  "(real \<Rightarrow> real) \<Rightarrow> SimpleTaskDistributor \<Rightarrow> string \<Rightarrow> ExecutionTask \<Rightarrow> int \<Rightarrow> SimpleTaskDistributor \<times> dist_effect list \<times> dist_error option" where
  "SendTask_dist fl d agentID task now = SendTaskWithPriority fl d agentID task ''normal'' now"

definition best_other_bid :: "string \<Rightarrow> Bid option \<Rightarrow> Bid \<Rightarrow> Bid option" where
  "best_other_bid excludeAgent best bid =
     (if b_AgentId bid = excludeAgent then best
      else case best of None \<Rightarrow> Some bid | Some b \<Rightarrow> if b_Price bid < b_Price b then Some bid else best)"

definition findRunnerUp_dist :: "Server \<Rightarrow> string \<Rightarrow> string \<Rightarrow> Bid option" where
  "findRunnerUp_dist s intentID excludeAgent =
     (case srv_bidsByIntent s intentID of
        None \<Rightarrow> None
      | Some refs \<Rightarrow> foldl (best_other_bid excludeAgent) None (map ((!) (srv_heap s)) refs))"

definition reassignTask ::
  "(real \<Rightarrow> real) \<Rightarrow> Server \<Rightarrow> SimpleTaskDistributor \<Rightarrow> string \<Rightarrow> string \<Rightarrow> string \<Rightarrow> int \<Rightarrow> SimpleTaskDistributor \<times> dist_effect list" where
  "reassignTask fl s d taskID intentID excludeAgent now =
     (case sd_activeTasks d taskID of
        None \<Rightarrow> (d, [])
      | Some active \<Rightarrow>
          if ac_Retries active \<ge> sd_maxRetries d then (d, [])
          else
            let active1 = active\<lparr>ac_Retries := ac_Retries active + 1\<rparr>;
                d1 = d\<lparr>sd_activeTasks := (sd_activeTasks d)(taskID \<mapsto> active1)\<rparr> in
            case findRunnerUp_dist s intentID excludeAgent of
              None \<Rightarrow> (d1, [])
            | Some runnerUp \<Rightarrow>
                let newTask = (ac_Task active1)\<lparr>t_TaskId := taskID @ ''-retry-'' @ dec_int (ac_Retries active1), t_IntentId := intentID,
                                 t_AgentId := b_AgentId runnerUp, t_BidId := b_BidId runnerUp, t_CreatedAt := now div second\<rparr> in
                case SendTaskWithPriority fl d1 (b_AgentId runnerUp) newTask ''normal'' now of (d2, fx, _) \<Rightarrow> (d2, fx))"

text \<open>With a connected client the log line reads the identifier of the intent, which a nil intent has not.\<close>

definition submitToRootLayer_dist :: "bool \<Rightarrow> ActiveTask \<Rightarrow> go_panic + unit" where
  "submitToRootLayer_dist isConnected active = (if isConnected \<and> ac_Intent active = None then Inl NilDereference else Inr ())"

definition HandleResponse ::
  "(real \<Rightarrow> real) \<Rightarrow> Server \<Rightarrow> bool \<Rightarrow> SimpleTaskDistributor \<Rightarrow> TaskResponse \<Rightarrow> int
     \<Rightarrow> SimpleTaskDistributor \<times> dist_effect list \<times> (go_panic + dist_error option)" where
  "HandleResponse fl s isConnected d response now =
     (case sd_activeTasks d (tr_TaskId response) of
        None \<Rightarrow> (d, [], Inr (Some (UnknownTaskId (tr_TaskId response))))
      | Some active \<Rightarrow>
          let active1 = active\<lparr>ac_RespondedAt := Some now, ac_Status := (if tr_Accepted response then ''accepted'' else ''rejected'')\<rparr>;
              d1 = d\<lparr>sd_activeTasks := (sd_activeTasks d)(tr_TaskId response \<mapsto> active1)\<rparr> in
          if tr_Accepted response
          then (case submitToRootLayer_dist isConnected active1 of Inl p \<Rightarrow> (d1, [], Inl p) | Inr _ \<Rightarrow> (d1, [], Inr None))
          else (case reassignTask fl s d1 (tr_TaskId response) (t_IntentId (ac_Task active1)) (tr_AgentId response) now of
                  (d2, fx) \<Rightarrow> (d2, fx, Inr None)))"

definition checkTimeout ::
  "(real \<Rightarrow> real) \<Rightarrow> Server \<Rightarrow> SimpleTaskDistributor \<Rightarrow> string \<Rightarrow> int \<Rightarrow> SimpleTaskDistributor \<times> dist_effect list" where
  "checkTimeout fl s d taskID now =
     (case sd_activeTasks d taskID of
        None \<Rightarrow> (d, [])
      | Some active \<Rightarrow>
          if ac_RespondedAt active = None then reassignTask fl s d taskID (t_IntentId (ac_Task active)) (ac_AgentID active) now else (d, []))"

record DistributorStats =
  ds_ActiveTasks :: nat
  ds_PendingTasks :: nat
  ds_CompletedTasks :: nat
  ds_FailedTasks :: nat
  ds_AgentCount :: nat

definition count_status :: "SimpleTaskDistributor \<Rightarrow> string list \<Rightarrow> string \<Rightarrow> nat" where
  "count_status d order st = length (filter (\<lambda>i. map_option ac_Status (sd_activeTasks d i) = Some st) order)"

definition GetStats :: "SimpleTaskDistributor \<Rightarrow> string list \<Rightarrow> DistributorStats" where
  "GetStats d order =
     \<lparr>ds_ActiveTasks = count_status d order ''accepted'', ds_PendingTasks = count_status d order ''pending'',
      ds_CompletedTasks = count_status d order ''completed'', ds_FailedTasks = count_status d order ''rejected'',
      ds_AgentCount = card (dom (sd_agentStreams d))\<rparr>"

text \<open>The stream of an agent: it opens, takes the next task, or ends and removes the buffer with what is in it.\<close>

definition stream_next :: "SimpleTaskDistributor \<Rightarrow> string \<Rightarrow> SimpleTaskDistributor \<times> ExecutionTask option" where
  "stream_next d agentID =
     (case sd_agentStreams d agentID of
        Some (task # rest) \<Rightarrow> (d\<lparr>sd_agentStreams := (sd_agentStreams d)(agentID \<mapsto> rest)\<rparr>, Some task)
      | _ \<Rightarrow> (d, None))"

definition stream_end :: "SimpleTaskDistributor \<Rightarrow> string \<Rightarrow> SimpleTaskDistributor" where
  "stream_end d agentID = d\<lparr>sd_agentStreams := (sd_agentStreams d)(agentID := None)\<rparr>"

definition SetTimeoutConfig :: "SimpleTaskDistributor \<Rightarrow> TimeoutConfig \<Rightarrow> SimpleTaskDistributor" where
  "SetTimeoutConfig d config = d\<lparr>sd_timeoutConfig := config\<rparr>"

definition Cleanup :: "Task_Timeouts option \<Rightarrow> SimpleTaskDistributor \<Rightarrow> int \<Rightarrow> SimpleTaskDistributor" where
  "Cleanup cfg d now =
     d\<lparr>sd_activeTasks := (\<lambda>i. case sd_activeTasks d i of
          None \<Rightarrow> None
        | Some task \<Rightarrow> if time_sub now (ac_CreatedAt task) > getTaskCleanupInterval cfg then None else Some task)\<rparr>"

subsection \<open>Executions\<close>

inductive dist_step :: "(real \<Rightarrow> real) \<Rightarrow> SimpleTaskDistributor \<Rightarrow> SimpleTaskDistributor \<Rightarrow> bool" for fl where
  send_task: "dist_step fl d (fst (SendTaskWithPriority fl d agent task priority now))"
| response: "dist_step fl d (fst (HandleResponse fl s isConnected d resp now))"
| timeout: "dist_step fl d (fst (checkTimeout fl s d taskID now))"
| opened: "dist_step fl d (open_stream d agent)"
| next_task: "dist_step fl d (fst (stream_next d agent))"
| ended: "dist_step fl d (stream_end d agent)"
| config: "dist_step fl d (SetTimeoutConfig d c)"
| cleaned: "dist_step fl d (Cleanup cfg d now)"

section \<open>No task has an intent\<close>

definition intents_nil :: "SimpleTaskDistributor \<Rightarrow> bool" where
  "intents_nil d \<longleftrightarrow> (\<forall>i active. sd_activeTasks d i = Some active \<longrightarrow> ac_Intent active = None)"

lemma intents_nil_simps [simp]:
  "intents_nil (d\<lparr>sd_agentStreams := s\<rparr>) = intents_nil d" "intents_nil (d\<lparr>sd_timeoutConfig := c\<rparr>) = intents_nil d"
  "intents_nil d \<Longrightarrow> ac_Intent a = None \<Longrightarrow> intents_nil (d\<lparr>sd_activeTasks := (sd_activeTasks d)(i \<mapsto> a)\<rparr>)"
  by (auto simp: intents_nil_def)

lemma intents_nil_open [simp]: "intents_nil (open_stream d agent) = intents_nil d"
  by (simp add: open_stream_def)

lemma SendTaskWithPriority_nil: "intents_nil d \<Longrightarrow> intents_nil (fst (SendTaskWithPriority fl d agent task priority now))"
  by (auto simp: SendTaskWithPriority_def Let_def intents_nil_def open_stream_def)

lemma reassignTask_nil: "intents_nil d \<Longrightarrow> intents_nil (fst (reassignTask fl s d i j a now))"
proof -
  assume nil: "intents_nil d"
  have "intents_nil (d\<lparr>sd_activeTasks := (sd_activeTasks d)(i \<mapsto> active\<lparr>ac_Retries := ac_Retries active + 1\<rparr>)\<rparr>)"
    if "sd_activeTasks d i = Some active" for active
    using nil that by (auto simp: intents_nil_def)
  then show ?thesis
    using nil SendTaskWithPriority_nil by (auto simp: reassignTask_def Let_def case_prod_unfold split: option.split)
qed

lemma dist_step_nil: "dist_step fl d d' \<Longrightarrow> intents_nil d \<Longrightarrow> intents_nil d'"
proof (induction rule: dist_step.induct)
  case (response d s isConnected resp now)
  have "intents_nil (d\<lparr>sd_activeTasks := (sd_activeTasks d)(tr_TaskId resp \<mapsto> active\<lparr>ac_RespondedAt := Some now, ac_Status := st\<rparr>)\<rparr>)"
    if "sd_activeTasks d (tr_TaskId resp) = Some active" for active st
    using response that by (auto simp: intents_nil_def)
  then show ?case
    using response reassignTask_nil by (auto simp: HandleResponse_def Let_def case_prod_unfold split: option.split sum.split)
next
  case (cleaned d cfg now)
  then show ?case by (auto simp: Cleanup_def intents_nil_def split: option.splits if_splits)
qed (auto simp: SendTaskWithPriority_nil checkTimeout_def reassignTask_nil stream_next_def stream_end_def SetTimeoutConfig_def
    split: option.splits list.split if_splits)

lemma dist_steps_nil: "(dist_step fl)\<^sup>*\<^sup>* NewSimpleTaskDistributor d \<Longrightarrow> intents_nil d"
proof (induction rule: rtranclp_induct)
  case base
  show ?case by (simp add: NewSimpleTaskDistributor_def intents_nil_def)
qed (rule dist_step_nil)

section \<open>Properties\<close>

text \<open>
  Whatever the type of an intent, its deadline, the priority, the clock and the rounding are, the time an agent has to answer lies between the configured
  minimum and maximum.
\<close>
theorem CalculateTimeouts_bounds:
  assumes "tc_MinResponseTimeout tc \<le> tc_MaxResponseTimeout tc"
  shows "tc_MinResponseTimeout tc \<le> ts_ResponseTimeout (CalculateTimeouts fl tc intentType deadline priority now)
    \<and> ts_ResponseTimeout (CalculateTimeouts fl tc intentType deadline priority now) \<le> tc_MaxResponseTimeout tc"
  using assms by (simp add: CalculateTimeouts_def clamp_response_def Let_def)

theorem CalculateTimeouts_bounds_witness:
  "5 * second \<le> ts_ResponseTimeout (CalculateTimeouts id DefaultTimeoutConfig ''batch'' 100 ''low'' 0)"
  using CalculateTimeouts_bounds [of DefaultTimeoutConfig id "''batch''" 100 "''low''" 0]
  by (simp add: DefaultTimeoutConfig_def minute_def second_def)

text \<open>
  Accepting a task crashes the distributor: no operation records the intent of a task, so with a connected root-layer client every accepted response of a
  known task, in every reachable state, dereferences a nil intent.
\<close>
theorem accepted_response_panics:
  assumes "(dist_step fl)\<^sup>*\<^sup>* NewSimpleTaskDistributor d" "sd_activeTasks d (tr_TaskId response) \<noteq> None" "tr_Accepted response"
  shows "snd (snd (HandleResponse fl s True d response now)) = Inl NilDereference"
  using assms(2,3) dist_steps_nil [OF assms(1)]
  by (auto simp: HandleResponse_def submitToRootLayer_dist_def intents_nil_def Let_def)

theorem accepted_response_panics_witness:
  "snd (snd (HandleResponse id two_bids True
     (fst (SendTask_dist id NewSimpleTaskDistributor ''a'' (execution_task_tm ''t'' ''i'' (plain_bid ''a'' 1) (plain_intent 0) \<lparr>ip_IntentRaw = [], ip_Metadata = []\<rparr> 0) 0))
     \<lparr>tr_TaskId = ''t'', tr_AgentId = ''a'', tr_Accepted = True, tr_Reason = []\<rparr> 1)) = Inl NilDereference"
proof (rule accepted_response_panics)
  let ?t = "execution_task_tm ''t'' ''i'' (plain_bid ''a'' 1) (plain_intent 0) \<lparr>ip_IntentRaw = [], ip_Metadata = []\<rparr> 0"
  show "(dist_step id)\<^sup>*\<^sup>* NewSimpleTaskDistributor (fst (SendTask_dist id NewSimpleTaskDistributor ''a'' ?t 0))"
    unfolding SendTask_dist_def by (intro r_into_rtranclp dist_step.send_task)
  show "sd_activeTasks (fst (SendTask_dist id NewSimpleTaskDistributor ''a'' ?t 0))
      (tr_TaskId \<lparr>tr_TaskId = ''t'', tr_AgentId = ''a'', tr_Accepted = True, tr_Reason = []\<rparr>) \<noteq> None"
    by (simp add: SendTask_dist_def SendTaskWithPriority_def Let_def execution_task_tm_def open_stream_def NewSimpleTaskDistributor_def)
qed simp

end
