(* ===== verification/Auth_Interceptors.thy ===== *)
theory Auth_Interceptors
  imports Crypto_Signing
begin

text \<open>
  The interceptors that authenticate gRPC calls: of the validator (\<open>src/internal/validator/auth_interceptor.go\<close>), with nonces and a cache
  of keys, of the general library (\<open>src/internal/grpc/interceptors/auth.go\<close>), and the one that signs calls to the root layer
  (\<open>src/internal/rootlayer/auth_interceptor.go\<close>). The metadata of a call is the function \<open>md.Get\<close>. Every reading of the clock in a
  call is its own argument.
\<close>

section \<open>Model\<close>

subsection \<open>The validator's interceptor\<close>

type_synonym MD = "string \<Rightarrow> string list"

record CachedAgent =
  ca_AgentID :: string
  ca_PublicKey :: bytes
  ca_Status :: string
  ca_Stake :: u64
  ca_VerifiedAt :: int

record AuthInterceptor =
  ai_agentCache :: "string \<rightharpoonup> CachedAgent"
  ai_usedNonces :: "string \<rightharpoonup> int"

definition NewAuthInterceptor :: AuthInterceptor where
  "NewAuthInterceptor = \<lparr>ai_agentCache = Map.empty, ai_usedNonces = Map.empty\<rparr>"

datatype auth_error =
    MissingMetadata
  | MissingField string
  | InvalidTimestamp
  | TimestampOutOfRange
  | NonceAlreadyUsed
  | InvalidPublicKey hex_error
  | PublicKeyMismatch
  | AgentNotCached
  | InvalidSignature hex_error
  | RecoveryFailed
  | SignatureMismatch

text \<open>
  The clock of one call, in the order of its readings: at the time stamp, at the clean-up of the nonces, when the nonce is stored, at the
  cache of keys, and when a key is cached.
\<close>

record auth_clock =
  ck_stamp :: int
  ck_clean :: int
  ck_store :: int
  ck_since :: int
  ck_cached :: int

text \<open>\<open>strconv.ParseInt(s, 10, 64)\<close>.\<close>

definition ParseInt :: "string \<Rightarrow> int option" where
  "ParseInt s =
     (let neg = (s \<noteq> [] \<and> hd s = CHR ''-'');
          d = (if s \<noteq> [] \<and> (hd s = CHR ''-'' \<or> hd s = CHR ''+'') then tl s else s);
          v = (if neg then - int (undec d) else int (undec d)) in
      if d = [] \<or> \<not> list_all is_digit d \<or> v < - (2 ^ 63) \<or> v \<ge> 2 ^ 63 then None else Some v)"

definition getMetadataValue :: "MD \<Rightarrow> string \<Rightarrow> string" where
  "getMetadataValue md key = (let values = md key in if length values > 0 then values ! 0 else [])"

definition shouldSkipAuth :: "string \<Rightarrow> bool" where
  "shouldSkipAuth m = list_ex (\<lambda>skip. m = skip) [''/grpc.health.v1.Health/Check'', ''/subnet.ValidatorService/GetStatus'']"

text \<open>The five-minute window, in the 64-bit arithmetic of the code.\<close>

definition stamp_in_window :: "int \<Rightarrow> int \<Rightarrow> bool" where
  "stamp_in_window now timestamp =
     (let timeDiff = i64 (now div second - timestamp);
          timeDiff = (if timeDiff < 0 then i64 (- timeDiff) else timeDiff) in
      \<not> timeDiff > 300)"

definition checkAndStoreNonce :: "int \<Rightarrow> int \<Rightarrow> string \<Rightarrow> AuthInterceptor \<Rightarrow> AuthInterceptor \<times> (auth_error + unit)" where
  "checkAndStoreNonce t_clean t_store nonce a =
     (let cutoff = t_clean - 10 * 60 * second;
          kept = (\<lambda>n. case ai_usedNonces a n of None \<Rightarrow> None | Some t \<Rightarrow> if t < cutoff then None else Some t) in
      if kept nonce \<noteq> None then (a\<lparr>ai_usedNonces := kept\<rparr>, Inl NonceAlreadyUsed)
      else (a\<lparr>ai_usedNonces := kept(nonce \<mapsto> t_store)\<rparr>, Inr ()))"

definition cacheAgent :: "int \<Rightarrow> string \<Rightarrow> bytes \<Rightarrow> AuthInterceptor \<Rightarrow> AuthInterceptor" where
  "cacheAgent now agentID publicKey a =
     a\<lparr>ai_agentCache := (ai_agentCache a)(agentID \<mapsto>
        \<lparr>ca_AgentID = agentID, ca_PublicKey = publicKey, ca_Status = ''active'', ca_Stake = 0, ca_VerifiedAt = now\<rparr>)\<rparr>"

definition getAgentPublicKey ::
  "('sk, 'pk) Crypto_Lib \<Rightarrow> int \<Rightarrow> int \<Rightarrow> string \<Rightarrow> MD \<Rightarrow> AuthInterceptor \<Rightarrow> AuthInterceptor \<times> (auth_error + bytes)" where
  "getAgentPublicKey lib t_since t_cached agentID md a =
     (let fetch =
        (let publicKeyHex = getMetadataValue md ''public-key'' in
         if publicKeyHex \<noteq> [] then
           (case DecodeString publicKeyHex of
              (_, Some e) \<Rightarrow> (a, Inl (InvalidPublicKey e))
            | (publicKey, None) \<Rightarrow>
                if EncodeToString (lib_Keccak256 lib publicKey) \<noteq> agentID then (a, Inl PublicKeyMismatch)
                else (cacheAgent t_cached agentID publicKey a, Inr publicKey))
         else (a, Inl AgentNotCached)) in
      case ai_agentCache a agentID of
        Some cached \<Rightarrow> if time_sub t_since (ca_VerifiedAt cached) < 5 * 60 * second then (a, Inr (ca_PublicKey cached)) else fetch
      | None \<Rightarrow> fetch)"

text \<open>What an agent signs, and the first part of a call, up to the nonce.\<close>

definition signed_text :: "MD \<Rightarrow> string" where
  "signed_text md =
     getMetadataValue md ''agent-id'' @ CHR '':'' # getMetadataValue md ''timestamp'' @ CHR '':''
       # getMetadataValue md ''nonce'' @ CHR '':'' # getMetadataValue md ''method''"

definition required_fields :: "string list" where
  "required_fields = [''agent-id'', ''timestamp'', ''nonce'', ''signature'']"

definition check_fields :: "int \<Rightarrow> MD \<Rightarrow> auth_error option" where
  "check_fields now md =
     (case find (\<lambda>k. getMetadataValue md k = []) required_fields of
        Some k \<Rightarrow> Some (MissingField k)
      | None \<Rightarrow>
          (case ParseInt (getMetadataValue md ''timestamp'') of
             None \<Rightarrow> Some InvalidTimestamp
           | Some timestamp \<Rightarrow> if stamp_in_window now timestamp then None else Some TimestampOutOfRange))"

text \<open>\<open>sigToPub\<close> is \<open>FromECDSAPub\<close> after \<open>SigToPub\<close>.\<close>

definition check_signature ::
  "('sk, 'pk) Crypto_Lib \<Rightarrow> (bytes \<Rightarrow> bytes \<Rightarrow> bytes option) \<Rightarrow> MD \<Rightarrow> bytes \<Rightarrow> auth_error option" where
  "check_signature lib sigToPub md publicKey =
     (case DecodeString (getMetadataValue md ''signature'') of
        (_, Some e) \<Rightarrow> Some (InvalidSignature e)
      | (signature, None) \<Rightarrow>
          (case sigToPub (HashMessage lib (bytes_of (signed_text md))) signature of
             None \<Rightarrow> Some RecoveryFailed
           | Some recovered \<Rightarrow> if recovered \<noteq> publicKey then Some SignatureMismatch else None))"

definition verifyRequest ::
  "('sk, 'pk) Crypto_Lib \<Rightarrow> (bytes \<Rightarrow> bytes \<Rightarrow> bytes option) \<Rightarrow> auth_clock \<Rightarrow> MD option \<Rightarrow> AuthInterceptor \<Rightarrow>
   AuthInterceptor \<times> (auth_error + string)" where
  "verifyRequest lib sigToPub ck ctx a =
     (case ctx of
        None \<Rightarrow> (a, Inl MissingMetadata)
      | Some md \<Rightarrow>
          (case check_fields (ck_stamp ck) md of
             Some e \<Rightarrow> (a, Inl e)
           | None \<Rightarrow>
               (case checkAndStoreNonce (ck_clean ck) (ck_store ck) (getMetadataValue md ''nonce'') a of
                  (a, Inl e) \<Rightarrow> (a, Inl e)
                | (a, Inr _) \<Rightarrow>
                    (case getAgentPublicKey lib (ck_since ck) (ck_cached ck) (getMetadataValue md ''agent-id'') md a of
                       (a, Inl e) \<Rightarrow> (a, Inl e)
                     | (a, Inr publicKey) \<Rightarrow>
                         (case check_signature lib sigToPub md publicKey of
                            Some e \<Rightarrow> (a, Inl e)
                          | None \<Rightarrow> (a, Inr (getMetadataValue md ''agent-id'')))))))"

text \<open>The interceptor: the handler runs with the agent in its context, or without one for the methods that need no authentication.\<close>

definition UnaryServerInterceptor ::
  "('sk, 'pk) Crypto_Lib \<Rightarrow> (bytes \<Rightarrow> bytes \<Rightarrow> bytes option) \<Rightarrow> auth_clock \<Rightarrow> MD option \<Rightarrow> string \<Rightarrow>
   (string option \<Rightarrow> 'r) \<Rightarrow> AuthInterceptor \<Rightarrow> AuthInterceptor \<times> (auth_error + 'r)" where
  "UnaryServerInterceptor lib sigToPub ck ctx fullMethod handler a =
     (if shouldSkipAuth fullMethod then (a, Inr (handler None))
      else case verifyRequest lib sigToPub ck ctx a of
        (a, Inl e) \<Rightarrow> (a, Inl e)
      | (a, Inr agentID) \<Rightarrow> (a, Inr (handler (Some agentID))))"

text \<open>
  The nonces and the cache have a lock each, so the operations of concurrent calls interleave. \<open>auth_step\<close> is one locked operation of any
  call.
\<close>

inductive auth_step :: "('sk, 'pk) Crypto_Lib \<Rightarrow> AuthInterceptor \<Rightarrow> AuthInterceptor \<Rightarrow> bool" for lib where
  nonce_op: "auth_step lib a (fst (checkAndStoreNonce t_clean t_store nonce a))"
| key_op: "auth_step lib a (fst (getAgentPublicKey lib t_since t_cached agentID md a))"

inductive auth_reachable :: "('sk, 'pk) Crypto_Lib \<Rightarrow> AuthInterceptor \<Rightarrow> bool" for lib where
  fresh: "auth_reachable lib NewAuthInterceptor"
| step: "auth_reachable lib a \<Longrightarrow> auth_step lib a b \<Longrightarrow> auth_reachable lib b"

text \<open>Calls in the order in which they take the lock of the nonces.\<close>

primrec run_requests ::
  "('sk, 'pk) Crypto_Lib \<Rightarrow> (bytes \<Rightarrow> bytes \<Rightarrow> bytes option) \<Rightarrow> (auth_clock \<times> MD option) list \<Rightarrow> AuthInterceptor \<Rightarrow> AuthInterceptor" where
  "run_requests lib sigToPub [] a = a"
| "run_requests lib sigToPub (r # rs) a = run_requests lib sigToPub rs (fst (verifyRequest lib sigToPub (fst r) (snd r) a))"

subsection \<open>The general interceptor\<close>

record 'sk AuthInterceptor_grpc =
  ag_signer :: "'sk option"
  ag_chainID :: string
  ag_trustedKeys :: "string \<rightharpoonup> bytes"
  ag_enforceVerification :: bool

definition NewAuthInterceptor_grpc :: "'sk option \<Rightarrow> string \<Rightarrow> bool \<Rightarrow> 'sk AuthInterceptor_grpc" where
  "NewAuthInterceptor_grpc signer chainID enforceVerification =
     \<lparr>ag_signer = signer, ag_chainID = chainID, ag_trustedKeys = Map.empty, ag_enforceVerification = enforceVerification\<rparr>"

definition AddTrustedKey_grpc :: "string \<Rightarrow> bytes \<Rightarrow> 'sk AuthInterceptor_grpc \<Rightarrow> 'sk AuthInterceptor_grpc" where
  "AddTrustedKey_grpc signerID pubKey a = a\<lparr>ag_trustedKeys := (ag_trustedKeys a)(signerID \<mapsto> pubKey)\<rparr>"

definition abs_i64 :: "int \<Rightarrow> int" where
  "abs_i64 n = (if n < 0 then i64 (- n) else n)"

definition MaxTimeDrift :: int where
  "MaxTimeDrift = 5 * 60 * second"

text \<open>Whether the time stamp passes, with \<open>now\<close> in seconds.\<close>

definition verifyTimestamp :: "int \<Rightarrow> int \<Rightarrow> bool" where
  "verifyTimestamp now timestamp = (let diff = i64 (abs_i64 (i64 (now - timestamp)) * second) in \<not> diff > MaxTimeDrift)"

text \<open>
  \<open>marshal\<close> is \<open>json.Marshal\<close> on the request, which the struct holds as an interface value; a stream has no request. The error of the
  encoder is dropped, and its text is empty then.
\<close>

definition createCanonicalMessage_grpc ::
  "('r \<Rightarrow> string option) \<Rightarrow> string \<Rightarrow> string \<Rightarrow> 'r option \<Rightarrow> int \<Rightarrow> string \<Rightarrow> bytes" where
  "createCanonicalMessage_grpc marshal chainID m req timestamp nonce =
     (let fields = json_fields [(''chain_id'', JString chainID), (''method'', JString m), (''timestamp'', JInt timestamp), (''nonce'', JString nonce)] in
      case req of
        None \<Rightarrow> bytes_of (CHR ''{'' # fields @ [CHR ''}''])
      | Some r \<Rightarrow>
          (case marshal r of
             None \<Rightarrow> []
           | Some text \<Rightarrow> bytes_of (CHR ''{'' # fields @ CHR '','' # json_string ''request'' @ CHR '':'' # text @ [CHR ''}''])))"

text \<open>The context of the outgoing call, or the panic or error of the signer; without a signer the context stays as it is.\<close>

definition signRequest_grpc ::
  "('sk, 'pk) Crypto_Lib \<Rightarrow> ('sk \<Rightarrow> string) \<Rightarrow> ('r \<Rightarrow> string option) \<Rightarrow> int \<Rightarrow> string \<Rightarrow> 'sk AuthInterceptor_grpc \<Rightarrow> MD \<Rightarrow> string \<Rightarrow> 'r option \<Rightarrow>
   go_panic + MD option" where
  "signRequest_grpc lib address marshal now nonce a ctx m req =
     (case ag_signer a of
        None \<Rightarrow> Inr (Some ctx)
      | Some sk \<Rightarrow>
          let timestamp = now div second in
          (case SignMessage lib sk (createCanonicalMessage_grpc marshal (ag_chainID a) m req timestamp nonce) of
             Inl p \<Rightarrow> Inl p
           | Inr None \<Rightarrow> Inr None
           | Inr (Some signature) \<Rightarrow>
               Inr (Some ((\<lambda>_. [])(''x-signature'' := [EncodeToString signature], ''x-signer-id'' := [address sk],
                  ''x-timestamp'' := [dec_int timestamp], ''x-nonce'' := [nonce], ''x-chain-id'' := [ag_chainID a])))))"

datatype grpc_auth_error =
    NoMetadata
  | MissingSignatureMetadata
  | BadSignature hex_error
  | ChainMismatch string
  | BadTimestamp
  | DriftTooLarge
  | UnknownSigner string
  | SignatureFailed string

definition verifyRequest_grpc ::
  "('sk, 'pk) Crypto_Lib \<Rightarrow> ('r \<Rightarrow> string option) \<Rightarrow> int \<Rightarrow> 'sk AuthInterceptor_grpc \<Rightarrow> MD option \<Rightarrow> string \<Rightarrow> 'r option \<Rightarrow>
   grpc_auth_error option" where
  "verifyRequest_grpc lib marshal now a ctx m req =
     (case ctx of
        None \<Rightarrow> Some NoMetadata
      | Some md \<Rightarrow>
          if length (md ''x-signature'') = 0 \<or> length (md ''x-signer-id'') = 0 \<or> length (md ''x-timestamp'') = 0
          then Some MissingSignatureMetadata
          else case DecodeString (md ''x-signature'' ! 0) of
            (_, Some e) \<Rightarrow> Some (BadSignature e)
          | (signature, None) \<Rightarrow>
              if length (md ''x-chain-id'') > 0 \<and> md ''x-chain-id'' ! 0 \<noteq> ag_chainID a
              then Some (ChainMismatch (md ''x-chain-id'' ! 0))
              else (case scan_int (md ''x-timestamp'' ! 0) of
                 None \<Rightarrow> Some BadTimestamp
               | Some (timestamp, _) \<Rightarrow>
                   if \<not> verifyTimestamp (now div second) timestamp then Some DriftTooLarge
                   else let signerID = md ''x-signer-id'' ! 0 in
                     (case ag_trustedKeys a signerID of
                        None \<Rightarrow> Some (UnknownSigner signerID)
                      | Some pubKey \<Rightarrow>
                          let nonce = (if length (md ''x-nonce'') > 0 then md ''x-nonce'' ! 0 else []) in
                          if \<not> VerifyMessage lib pubKey (createCanonicalMessage_grpc marshal (ag_chainID a) m req timestamp nonce) signature
                          then Some (SignatureFailed signerID) else None)))"

text \<open>The server side of unary and of streaming calls; a stream is checked without a request.\<close>

definition UnaryServerInterceptor_grpc where
  "UnaryServerInterceptor_grpc lib marshal now a ctx fullMethod req handler =
     (case verifyRequest_grpc lib marshal now a ctx fullMethod (Some req) of
        Some e \<Rightarrow> if ag_enforceVerification a then Inl e else Inr (handler req)
      | None \<Rightarrow> Inr (handler req))"

definition StreamServerInterceptor_grpc where
  "StreamServerInterceptor_grpc lib marshal now a ctx fullMethod handler =
     (case verifyRequest_grpc lib marshal now a ctx fullMethod None of
        Some e \<Rightarrow> if ag_enforceVerification a then Inl e else Inr handler
      | None \<Rightarrow> Inr handler)"

text \<open>The client side: a panic or error of the signer ends the call, otherwise \<open>invoker\<close> runs with the signed context.\<close>

definition UnaryClientInterceptor_grpc where
  "UnaryClientInterceptor_grpc lib address marshal now nonce a ctx m req invoker =
     (case signRequest_grpc lib address marshal now nonce a ctx m (Some req) of
        Inl p \<Rightarrow> Inl p
      | Inr None \<Rightarrow> Inr None
      | Inr (Some signedCtx) \<Rightarrow> Inr (Some (invoker signedCtx m req)))"

definition StreamClientInterceptor_grpc where
  "StreamClientInterceptor_grpc lib address marshal now nonce a ctx m streamer =
     (case signRequest_grpc lib address marshal now nonce a ctx m None of
        Inl p \<Rightarrow> Inl p
      | Inr None \<Rightarrow> Inr None
      | Inr (Some signedCtx) \<Rightarrow> Inr (Some (streamer signedCtx m)))"

subsection \<open>Calls to the root layer\<close>

text \<open>An error of the signer leaves the call unsigned.\<close>

definition signRequest_rootlayer ::
  "('sk, 'pk) Crypto_Lib \<Rightarrow> ('sk \<Rightarrow> string) \<Rightarrow> int \<Rightarrow> 'sk option \<Rightarrow> string \<Rightarrow> MD \<Rightarrow> string \<Rightarrow> go_panic + MD" where
  "signRequest_rootlayer lib address now signer chainID ctx m =
     (case signer of
        None \<Rightarrow> Inr ctx
      | Some sk \<Rightarrow>
          let timestamp = now div second;
              canonical = chainID @ CHR '':'' # m @ CHR '':'' # dec_int timestamp in
          (case SignMessage lib sk (bytes_of canonical) of
             Inl p \<Rightarrow> Inl p
           | Inr None \<Rightarrow> Inr ctx
           | Inr (Some signature) \<Rightarrow>
               Inr ((\<lambda>_. [])(''x-chain-id'' := [chainID], ''x-signer-id'' := [address sk],
                  ''x-timestamp'' := [dec_int timestamp], ''x-signature'' := [EncodeToString signature]))))"

section \<open>Time stamps\<close>

lemma ParseInt_range: "ParseInt s = Some v \<Longrightarrow> - (2 ^ 63) \<le> v \<and> v < 2 ^ 63"
  by (auto simp: ParseInt_def Let_def split: if_splits)

lemma i64_above: "2 ^ 63 \<le> x \<Longrightarrow> x < 2 ^ 64 + 2 ^ 63 \<Longrightarrow> i64 x = x - 2 ^ 64"
proof -
  assume x: "2 ^ 63 \<le> x" "x < 2 ^ 64 + 2 ^ 63"
  have "(x + 2 ^ 63) mod 2 ^ 64 = (x + 2 ^ 63 - 2 ^ 64) mod 2 ^ 64" by (simp only: minus_mod_self2)
  also have "\<dots> = x + 2 ^ 63 - 2 ^ 64" using x by (intro mod_pos_pos_trivial) simp_all
  finally show ?thesis by (simp add: i64_def)
qed

lemma stamp_in_window_iff:
  assumes "0 \<le> now" "now div second < 2 ^ 62" "- (2 ^ 63) \<le> ts" "ts < 2 ^ 63"
  shows "stamp_in_window now ts \<longleftrightarrow> \<bar>now div second - ts\<bar> \<le> 300 \<or> now div second - ts = 2 ^ 63"
proof -
  define d where "d = now div second - ts"
  have s: "0 \<le> now div second" using assms(1) by (simp add: second_def)
  consider "- (2 ^ 63) < d" "d < 2 ^ 63" | "d = 2 ^ 63" | "2 ^ 63 < d" "d < 2 ^ 63 + 2 ^ 62"
    using assms s unfolding d_def by linarith
  then show ?thesis
  proof cases
    case 1
    then show ?thesis by (auto simp: stamp_in_window_def Let_def simp flip: d_def)
  next
    case 2
    then have "i64 d = - (2 ^ 63)" by (simp add: i64_above)
    moreover have "i64 (2 ^ 63) = - (2 ^ 63)" by (simp add: i64_above)
    ultimately show ?thesis using 2 by (simp add: stamp_in_window_def Let_def flip: d_def)
  next
    case 3
    then have "i64 d = d - 2 ^ 64" by (simp add: i64_above)
    with 3 show ?thesis by (simp add: stamp_in_window_def Let_def flip: d_def)
  qed
qed

section \<open>Nonces\<close>

definition remembers :: "AuthInterceptor \<Rightarrow> string \<Rightarrow> int \<Rightarrow> bool" where
  "remembers a nonce s \<longleftrightarrow> (\<exists>t. ai_usedNonces a nonce = Some t \<and> s \<le> t)"

lemma nonce_refused:
  "remembers a nonce s \<Longrightarrow> t_clean \<le> s + 600 * second \<Longrightarrow> snd (checkAndStoreNonce t_clean t_store nonce a) = Inl NonceAlreadyUsed"
  by (auto simp: remembers_def checkAndStoreNonce_def Let_def)

lemma nonce_kept:
  "remembers a n s \<Longrightarrow> t_clean \<le> s + 600 * second \<Longrightarrow> s \<le> t_store \<Longrightarrow>
     remembers (fst (checkAndStoreNonce t_clean t_store nonce a)) n s"
  by (auto simp: remembers_def checkAndStoreNonce_def Let_def)

lemma nonce_stored:
  "snd (checkAndStoreNonce t_clean t_store nonce a) = Inr u \<Longrightarrow>
     ai_usedNonces (fst (checkAndStoreNonce t_clean t_store nonce a)) nonce = Some t_store"
  by (auto simp: checkAndStoreNonce_def Let_def split: if_splits)

lemma keys_keep_nonces [simp]: "ai_usedNonces (fst (getAgentPublicKey lib t_since t_cached agentID md a)) = ai_usedNonces a"
  by (simp add: getAgentPublicKey_def cacheAgent_def Let_def split: option.split prod.split)

lemma keys_keep_nonces': "getAgentPublicKey lib t_since t_cached agentID md a = (b, r) \<Longrightarrow> ai_usedNonces b = ai_usedNonces a"
  by (metis fst_conv keys_keep_nonces)

lemma verifyRequest_nonces:
  "fst (verifyRequest lib sigToPub ck ctx a) = a \<or>
   (\<exists>nonce. ai_usedNonces (fst (verifyRequest lib sigToPub ck ctx a))
      = ai_usedNonces (fst (checkAndStoreNonce (ck_clean ck) (ck_store ck) nonce a)))"
proof (cases ctx)
  case (Some md)
  obtain b r where b: "checkAndStoreNonce (ck_clean ck) (ck_store ck) (getMetadataValue md ''nonce'') a = (b, r)" by fastforce
  then have "fst (verifyRequest lib sigToPub ck ctx a) = a \<or> ai_usedNonces (fst (verifyRequest lib sigToPub ck ctx a)) = ai_usedNonces b"
    using Some by (auto simp: verifyRequest_def dest: keys_keep_nonces' split: option.split prod.split sum.split)
  with b show ?thesis by (metis fst_conv)
qed (simp add: verifyRequest_def)

lemma requests_keep_nonce:
  assumes "remembers a n s"
    and "\<forall>r \<in> set rs. ck_clean (fst r) \<le> s + 600 * second \<and> s \<le> ck_store (fst r)"
  shows "remembers (run_requests lib sigToPub rs a) n s"
  using assms
proof (induction rs arbitrary: a)
  case (Cons r rs)
  have "remembers (fst (verifyRequest lib sigToPub (fst r) (snd r) a)) n s"
    using verifyRequest_nonces [of lib sigToPub "fst r" "snd r" a] Cons.prems nonce_kept [of a n s "ck_clean (fst r)" "ck_store (fst r)"]
    by (auto simp: remembers_def)
  with Cons show ?case by simp
qed simp

lemma accepted_parts:
  assumes "snd (verifyRequest lib sigToPub ck ctx a) = Inr agent"
  obtains md u b key where "ctx = Some md" "agent = getMetadataValue md ''agent-id''" "check_fields (ck_stamp ck) md = None"
    "checkAndStoreNonce (ck_clean ck) (ck_store ck) (getMetadataValue md ''nonce'') a = (b, Inr u)"
    "snd (getAgentPublicKey lib (ck_since ck) (ck_cached ck) agent md b) = Inr key"
    "fst (verifyRequest lib sigToPub ck ctx a) = fst (getAgentPublicKey lib (ck_since ck) (ck_cached ck) agent md b)"
    "check_signature lib sigToPub md key = None"
  using assms by (auto simp: verifyRequest_def split: option.splits prod.splits sum.splits)

lemma accepted_nonce:
  assumes "snd (verifyRequest lib sigToPub ck (Some md) a) = Inr agent"
  shows "ai_usedNonces (fst (verifyRequest lib sigToPub ck (Some md) a)) (getMetadataValue md ''nonce'') = Some (ck_store ck)"
    and "\<not> remembers a (getMetadataValue md ''nonce'') (ck_clean ck - 600 * second)"
proof -
  from assms obtain u b where b: "checkAndStoreNonce (ck_clean ck) (ck_store ck) (getMetadataValue md ''nonce'') a = (b, Inr u)"
    and st: "fst (verifyRequest lib sigToPub ck (Some md) a) = fst (getAgentPublicKey lib (ck_since ck) (ck_cached ck) agent md b)"
    by (rule accepted_parts) auto
  have "ai_usedNonces b (getMetadataValue md ''nonce'') = Some (ck_store ck)"
    using nonce_stored [of "ck_clean ck" "ck_store ck" "getMetadataValue md ''nonce''" a u] b by simp
  then show "ai_usedNonces (fst (verifyRequest lib sigToPub ck (Some md) a)) (getMetadataValue md ''nonce'') = Some (ck_store ck)"
    unfolding st by simp
  show "\<not> remembers a (getMetadataValue md ''nonce'') (ck_clean ck - 600 * second)"
    using nonce_refused [of a "getMetadataValue md ''nonce''" "ck_clean ck - 600 * second" "ck_clean ck" "ck_store ck"] b by auto
qed

lemma accepted_stamp:
  assumes "snd (verifyRequest lib sigToPub ck (Some md) a) = Inr agent"
  shows "\<exists>ts. ParseInt (getMetadataValue md ''timestamp'') = Some ts \<and> stamp_in_window (ck_stamp ck) ts"
  using assms by (rule accepted_parts) (auto simp: check_fields_def split: option.splits if_splits)

section \<open>Keys\<close>

definition keys_ok :: "('sk, 'pk) Crypto_Lib \<Rightarrow> AuthInterceptor \<Rightarrow> bool" where
  "keys_ok lib a \<longleftrightarrow> (\<forall>agent c. ai_agentCache a agent = Some c \<longrightarrow> EncodeToString (lib_Keccak256 lib (ca_PublicKey c)) = agent)"

lemma nonces_keep_keys [simp]: "ai_agentCache (fst (checkAndStoreNonce t_clean t_store nonce a)) = ai_agentCache a"
  by (simp add: checkAndStoreNonce_def Let_def)

lemma getAgentPublicKey_ok:
  assumes "keys_ok lib a"
  shows "keys_ok lib (fst (getAgentPublicKey lib t_since t_cached agent md a))"
    and "snd (getAgentPublicKey lib t_since t_cached agent md a) = Inr key \<Longrightarrow> EncodeToString (lib_Keccak256 lib key) = agent"
  using assms by (auto simp: getAgentPublicKey_def cacheAgent_def keys_ok_def Let_def split: option.splits prod.splits if_splits)

lemma reachable_keys_ok: "auth_reachable lib a \<Longrightarrow> keys_ok lib a"
proof (induction rule: auth_reachable.induct)
  case fresh
  then show ?case by (simp add: keys_ok_def NewAuthInterceptor_def)
next
  case (step a b)
  from step(2,3) show ?case
    by (cases rule: auth_step.cases) (auto simp: keys_ok_def [of lib "fst (checkAndStoreNonce _ _ _ _)"] keys_ok_def [of lib a] intro: getAgentPublicKey_ok(1))
qed

section \<open>Replays\<close>

lemma getMetadataValue_upd [simp]:
  "getMetadataValue (md(k := [v])) k' = (if k' = k then v else getMetadataValue md k')"
  by (simp add: getMetadataValue_def)

text \<open>The clock does not run backwards between the nonce operations of a first call, the calls in between, and a second call.\<close>

definition clock_order :: "auth_clock \<Rightarrow> (auth_clock \<times> MD option) list \<Rightarrow> auth_clock \<Rightarrow> bool" where
  "clock_order c1 rs c2 \<longleftrightarrow> ck_stamp c1 \<le> ck_store c1 \<and> ck_store c1 \<le> ck_clean c2 \<and>
     (\<forall>r \<in> set rs. ck_store c1 \<le> ck_store (fst r) \<and> ck_clean (fst r) \<le> ck_clean c2)"

lemma window_boundary:
  fixes p q ts :: int
  assumes "\<bar>p - ts\<bar> \<le> 300 \<or> p - ts = 2 ^ 63" "\<bar>q - ts\<bar> \<le> 300 \<or> q - ts = 2 ^ 63"
    and "0 \<le> p" "p + 600 \<le> q" "p < 2 ^ 62" "q < 2 ^ 62"
  shows "ts = p + 300 \<and> q = ts + 300"
  using assms by auto

lemma nonce_reused_late:
  assumes "snd (verifyRequest lib sigToPub c1 (Some md1) a) = Inr agent1"
    and "snd (verifyRequest lib sigToPub c2 (Some md2) (run_requests lib sigToPub rs (fst (verifyRequest lib sigToPub c1 (Some md1) a)))) = Inr agent2"
    and "getMetadataValue md1 ''nonce'' = getMetadataValue md2 ''nonce''" and "clock_order c1 rs c2"
  shows "ck_store c1 + 600 * second < ck_clean c2"
proof (rule ccontr)
  assume late: "\<not> ?thesis"
  let ?n = "getMetadataValue md2 ''nonce''" and ?b = "fst (verifyRequest lib sigToPub c1 (Some md1) a)"
  have "remembers ?b ?n (ck_store c1)"
    using accepted_nonce(1) [OF assms(1)] assms(3) by (simp add: remembers_def)
  moreover have "\<forall>r \<in> set rs. ck_clean (fst r) \<le> ck_store c1 + 600 * second \<and> ck_store c1 \<le> ck_store (fst r)"
    using late assms(4) by (force simp: clock_order_def)
  ultimately have "remembers (run_requests lib sigToPub rs ?b) ?n (ck_store c1)" by (rule requests_keep_nonce)
  then have "remembers (run_requests lib sigToPub rs ?b) ?n (ck_clean c2 - 600 * second)"
    using late by (auto simp: remembers_def)
  with accepted_nonce(2) [OF assms(2)] show False by simp
qed

lemma second_div: "t + 600 * second < u \<Longrightarrow> t div second + 600 \<le> u div second"
proof -
  assume "t + 600 * second < u"
  then have "(t + 600 * second) div second \<le> u div second" by (intro zdiv_mono1) (simp_all add: second_def)
  then show ?thesis by (simp add: second_def)
qed

section \<open>Properties\<close>

text \<open>
  C29: However calls interleave, a call that the validator accepts carries a signature from which the key of the returned agent is
  recovered: its Keccak hash is the agent's identifier, and the signed text holds agent, time stamp, nonce and method of the metadata. The
  time stamp is at most 300 seconds off (or, by overflow, exactly 2^63 seconds behind), and the nonce was not stored in the last ten minutes.
\<close>
theorem accepted_call_is_authentic:
  assumes "auth_reachable lib a"
    and "snd (verifyRequest lib sigToPub ck (Some md) a) = Inr agent"
    and "0 \<le> ck_stamp ck" "ck_stamp ck div second < 2 ^ 62"
  shows "agent = getMetadataValue md ''agent-id''
    \<and> (\<exists>signature key. DecodeString (getMetadataValue md ''signature'') = (signature, None)
        \<and> sigToPub (HashMessage lib (bytes_of (signed_text md))) signature = Some key
        \<and> EncodeToString (lib_Keccak256 lib key) = agent)
    \<and> (\<exists>ts. ParseInt (getMetadataValue md ''timestamp'') = Some ts
        \<and> (\<bar>ck_stamp ck div second - ts\<bar> \<le> 300 \<or> ck_stamp ck div second - ts = 2 ^ 63))
    \<and> (\<forall>t. ai_usedNonces a (getMetadataValue md ''nonce'') = Some t \<longrightarrow> t < ck_clean ck - 600 * second)"
proof -
  from assms(2) obtain u b key where p: "agent = getMetadataValue md ''agent-id''"
    "checkAndStoreNonce (ck_clean ck) (ck_store ck) (getMetadataValue md ''nonce'') a = (b, Inr u)"
    "snd (getAgentPublicKey lib (ck_since ck) (ck_cached ck) agent md b) = Inr key"
    "check_signature lib sigToPub md key = None"
    by (rule accepted_parts) auto
  have "ai_agentCache b = ai_agentCache a" using p(2) nonces_keep_keys by (metis fst_conv)
  with reachable_keys_ok [OF assms(1)] have "keys_ok lib b" by (simp add: keys_ok_def)
  from getAgentPublicKey_ok(2) [OF this p(3)] have key: "EncodeToString (lib_Keccak256 lib key) = agent" .
  obtain ts where ts: "ParseInt (getMetadataValue md ''timestamp'') = Some ts" "stamp_in_window (ck_stamp ck) ts"
    using accepted_stamp [OF assms(2)] by blast
  have window: "\<bar>ck_stamp ck div second - ts\<bar> \<le> 300 \<or> ck_stamp ck div second - ts = 2 ^ 63"
    using ts(2) ParseInt_range [OF ts(1)] stamp_in_window_iff [OF assms(3,4), of ts] by blast
  have signed: "\<exists>signature key. DecodeString (getMetadataValue md ''signature'') = (signature, None)
      \<and> sigToPub (HashMessage lib (bytes_of (signed_text md))) signature = Some key \<and> EncodeToString (lib_Keccak256 lib key) = agent"
    using p(4) key by (auto simp: check_signature_def split: prod.splits option.splits if_splits)
  have "\<forall>t. ai_usedNonces a (getMetadataValue md ''nonce'') = Some t \<longrightarrow> t < ck_clean ck - 600 * second"
    using accepted_nonce(2) [OF assms(2)] by (force simp: remembers_def)
  with p(1) signed ts(1) window show ?thesis by blast
qed

definition example_md :: "string \<Rightarrow> string \<Rightarrow> MD" where
  "example_md nonce m = (\<lambda>_. [])(''agent-id'' := [''01''], ''timestamp'' := [''300''], ''nonce'' := [nonce], ''signature'' := [''aa''],
     ''public-key'' := [''01''], ''method'' := [m])"

definition at_time :: "int \<Rightarrow> auth_clock" where
  "at_time t = \<lparr>ck_stamp = t, ck_clean = t, ck_store = t, ck_since = t, ck_cached = t\<rparr>"

abbreviation example_recover :: "bytes \<Rightarrow> bytes \<Rightarrow> bytes option" where
  "example_recover \<equiv> (\<lambda>_ _. Some [1])"

lemma example_md_values:
  "getMetadataValue (example_md nonce m) ''agent-id'' = ''01''" "getMetadataValue (example_md nonce m) ''timestamp'' = ''300''"
  "getMetadataValue (example_md nonce m) ''nonce'' = nonce" "getMetadataValue (example_md nonce m) ''signature'' = ''aa''"
  "getMetadataValue (example_md nonce m) ''public-key'' = ''01''" "getMetadataValue (example_md nonce m) ''method'' = m"
  by (simp_all add: example_md_def getMetadataValue_def)

lemma example_texts: "ParseInt ''300'' = Some 300" "DecodeString ''01'' = ([1], None)" "DecodeString ''aa'' = ([0xaa], None)"
  "EncodeToString [1 :: byte] = ''01''"
  by code_simp+

lemma example_fields:
  assumes "nonce \<noteq> []" "\<bar>t div second - 300\<bar> \<le> 300" "0 \<le> t"
  shows "check_fields t (example_md nonce m) = None"
proof -
  have "stamp_in_window t 300" using assms by (intro iffD2 [OF stamp_in_window_iff]) auto
  then show ?thesis using assms(1) by (simp add: check_fields_def required_fields_def example_md_values example_texts)
qed

lemma example_accepted:
  assumes "nonce \<noteq> []" "\<bar>t div second - 300\<bar> \<le> 300" "0 \<le> t"
    and "\<forall>u. ai_usedNonces a nonce = Some u \<longrightarrow> u < t - 600 * second"
    and "ai_agentCache a ''01'' = None \<or> (\<exists>c. ai_agentCache a ''01'' = Some c \<and> ca_PublicKey c = [1])"
  shows "snd (verifyRequest ideal_lib example_recover (at_time t) (Some (example_md nonce m)) a) = Inr ''01''"
proof -
  obtain b where b: "checkAndStoreNonce t t nonce a = (b, Inr ())" "ai_agentCache b = ai_agentCache a"
    using assms(4) by (fastforce simp: checkAndStoreNonce_def Let_def split: option.splits)
  have "snd (getAgentPublicKey ideal_lib t t ''01'' (example_md nonce m) b) = Inr [1]"
    using assms(5) b(2) by (auto simp: getAgentPublicKey_def Let_def example_md_values example_texts ideal_lib_def simp del: DecodeString.simps)
  moreover obtain b' r where "getAgentPublicKey ideal_lib t t ''01'' (example_md nonce m) b = (b', r)" by fastforce
  ultimately show ?thesis
    using example_fields [OF assms(1-3), of m] b(1)
    by (simp add: verifyRequest_def at_time_def example_md_values check_signature_def example_texts del: DecodeString.simps)
qed

theorem accepted_call_is_authentic_witness:
  "\<exists>signature key. DecodeString ''aa'' = (signature, None)
     \<and> example_recover (HashMessage ideal_lib (bytes_of (signed_text (example_md ''n'' ''/m'')))) signature = Some key
     \<and> EncodeToString (lib_Keccak256 ideal_lib key) = ''01''"
proof -
  have "snd (verifyRequest ideal_lib example_recover (at_time 0) (Some (example_md ''n'' ''/m'')) NewAuthInterceptor) = Inr ''01''"
    by (rule example_accepted) (simp_all add: NewAuthInterceptor_def second_def)
  from accepted_call_is_authentic [OF auth_reachable.fresh this] show ?thesis
    by (simp add: at_time_def second_def example_md_values)
qed



text \<open>
  The signed text does not separate nonce and method: of an accepted call whose nonce contains a colon, the same signature is
  accepted again at once with the part before the colon as the nonce and the rest moved to the method.
\<close>
theorem resplit_nonce_replays:
  assumes "snd (verifyRequest lib sigToPub ck (Some md) a) = Inr agent"
    and "getMetadataValue md ''nonce'' = n @ CHR '':'' # rest" "n \<noteq> []" "ai_usedNonces a n = None"
    and "ck_since ck \<le> ck_cached ck"
  shows "snd (verifyRequest lib sigToPub ck
      (Some (md(''nonce'' := [n], ''method'' := [rest @ CHR '':'' # getMetadataValue md ''method''])))
      (fst (verifyRequest lib sigToPub ck (Some md) a))) = Inr agent"
proof -
  let ?md = "md(''nonce'' := [n], ''method'' := [rest @ CHR '':'' # getMetadataValue md ''method''])"
  from assms(1) obtain u b key where p: "agent = getMetadataValue md ''agent-id''" "check_fields (ck_stamp ck) md = None"
    "checkAndStoreNonce (ck_clean ck) (ck_store ck) (getMetadataValue md ''nonce'') a = (b, Inr u)"
    "snd (getAgentPublicKey lib (ck_since ck) (ck_cached ck) agent md b) = Inr key"
    "fst (verifyRequest lib sigToPub ck (Some md) a) = fst (getAgentPublicKey lib (ck_since ck) (ck_cached ck) agent md b)"
    "check_signature lib sigToPub md key = None"
    by (rule accepted_parts) auto
  let ?c = "fst (getAgentPublicKey lib (ck_since ck) (ck_cached ck) agent md b)"
  have same: "signed_text ?md = signed_text md" by (simp add: signed_text_def assms(2))
  have sig: "check_signature lib sigToPub ?md key = None" using p(6) unfolding check_signature_def same by simp
  have fields: "check_fields (ck_stamp ck) ?md = None"
    using p(2) assms(3) by (auto simp: check_fields_def required_fields_def split: option.splits if_splits)
  have "ai_usedNonces b n = None"
    using p(3) assms(2,4) by (auto simp: checkAndStoreNonce_def Let_def split: if_splits)
  then have free: "ai_usedNonces ?c n = None" by simp
  obtain d where d: "checkAndStoreNonce (ck_clean ck) (ck_store ck) n ?c = (d, Inr ())" "ai_agentCache d = ai_agentCache ?c"
    using free by (simp add: checkAndStoreNonce_def Let_def)
  have "\<exists>c. ai_agentCache ?c agent = Some c \<and> ca_PublicKey c = key \<and> time_sub (ck_since ck) (ca_VerifiedAt c) < 300 * second"
    using p(4) assms(5)
    by (auto simp: getAgentPublicKey_def cacheAgent_def Let_def time_sub_def second_def split: option.splits prod.splits if_splits)
  then have "snd (getAgentPublicKey lib (ck_since ck) (ck_cached ck) agent ?md d) = Inr key"
    by (auto simp: getAgentPublicKey_def d(2))
  then obtain e where "getAgentPublicKey lib (ck_since ck) (ck_cached ck) agent ?md d = (e, Inr key)" by (metis prod.collapse)
  with fields d(1) sig p(1,5) show ?thesis by (simp add: verifyRequest_def)
qed

theorem resplit_nonce_replays_witness:
  "snd (verifyRequest ideal_lib example_recover (at_time 0)
      (Some ((example_md ''a:b'' ''/m'')(''nonce'' := [''a''], ''method'' := [''b:/m''])))
      (fst (verifyRequest ideal_lib example_recover (at_time 0) (Some (example_md ''a:b'' ''/m'')) NewAuthInterceptor))) = Inr ''01''"
proof -
  have one: "snd (verifyRequest ideal_lib example_recover (at_time 0) (Some (example_md ''a:b'' ''/m'')) NewAuthInterceptor) = Inr ''01''"
    by (rule example_accepted) (simp_all add: NewAuthInterceptor_def second_def)
  show ?thesis
    using resplit_nonce_replays [OF one, of "''a''" "''b''"] by (simp add: example_md_values NewAuthInterceptor_def at_time_def)
qed

text \<open>
  The five-minute check of the general interceptor multiplies by nanoseconds in 64 bits: it is exact for time stamps up to
  9223372036 seconds (292 years) off, and accepts every time stamp between 9223372037 and 18446744073 seconds ahead.
\<close>
theorem verifyTimestamp_overflows:
  assumes "0 \<le> now" "now < 2 ^ 62" "- (2 ^ 62) \<le> ts" "ts < 2 ^ 62"
  shows "(\<bar>now - ts\<bar> \<le> 9223372036 \<longrightarrow> verifyTimestamp now ts = (\<bar>now - ts\<bar> \<le> 300))
    \<and> (9223372037 \<le> ts - now \<and> ts - now \<le> 18446744073 \<longrightarrow> verifyTimestamp now ts)"
proof -
  define x where "x = \<bar>now - ts\<bar>"
  have "abs_i64 (i64 (now - ts)) = x" using assms by (auto simp: abs_i64_def x_def)
  then have check: "verifyTimestamp now ts \<longleftrightarrow> i64 (x * second) \<le> MaxTimeDrift" by (simp add: verifyTimestamp_def Let_def not_less)
  have "verifyTimestamp now ts = (x \<le> 300)" if "x \<le> 9223372036"
  proof -
    have "i64 (x * second) = x * second" using that abs_ge_zero [of "now - ts"] by (intro i64_id) (simp_all add: second_def x_def [symmetric])
    then show ?thesis by (simp add: check MaxTimeDrift_def second_def)
  qed
  moreover have "verifyTimestamp now ts" if "9223372037 \<le> ts - now" "ts - now \<le> 18446744073"
  proof -
    have "x = ts - now" using that by (simp add: x_def)
    then have "i64 (x * second) = x * second - 2 ^ 64" using that by (intro i64_above) (simp_all add: second_def)
    with \<open>x = ts - now\<close> that show ?thesis by (simp add: check MaxTimeDrift_def second_def)
  qed
  ultimately show ?thesis by (simp add: x_def)
qed

theorem verifyTimestamp_overflows_witness:
  "\<not> verifyTimestamp 1700000000 1700000301 \<and> verifyTimestamp 1700000000 (1700000000 + 9223372037)"
  using verifyTimestamp_overflows [of 1700000000 1700000301] verifyTimestamp_overflows [of 1700000000 "1700000000 + 9223372037"] by simp

end
