(* ===== verification/Participant_Verifier.thy ===== *)
theory Participant_Verifier
  imports Matching
begin

text \<open>
  The on-chain checks of participants: \<open>src/internal/blockchain/config.go\<close>, \<open>verifier.go\<close> and \<open>verifier_sdk.go\<close>. The verifier asks the
  subnet contract whether an address is active in a role and keeps the answers in a cache with an expiry, a map into a
  \<open>container/list\<close> in the order of use. List elements are pointers that the map and the list share, so they live in a heap and both
  hold references. Counters for metrics are left out. The hexadecimal address functions of go-ethereum, the contract and (for the SDK
  variant) the cache library are arguments.
\<close>

section \<open>Model\<close>

subsection \<open>Configuration\<close>

record VerifierConfig =
  vc_CacheTTL :: int
  vc_CacheSize :: int
  vc_EnableFallback :: bool

definition DefaultVerifierConfig :: VerifierConfig where
  "DefaultVerifierConfig = \<lparr>vc_CacheTTL = 5 * 60 * second, vc_CacheSize = 1024, vc_EnableFallback = True\<rparr>"

definition normalize :: "VerifierConfig \<Rightarrow> VerifierConfig" where
  "normalize c =
     (let c = (if vc_CacheTTL c \<le> 0 then c\<lparr>vc_CacheTTL := vc_CacheTTL DefaultVerifierConfig\<rparr> else c) in
      if vc_CacheSize c \<le> 0 then c\<lparr>vc_CacheSize := vc_CacheSize DefaultVerifierConfig\<rparr> else c)"

subsection \<open>Addresses\<close>

datatype ParticipantType = ParticipantValidator | ParticipantAgent | ParticipantMatcher

primrec participant_code :: "ParticipantType \<Rightarrow> nat" where
  "participant_code ParticipantValidator = 0"
| "participant_code ParticipantAgent = 1"
| "participant_code ParticipantMatcher = 2"

text \<open>\<open>common.IsHexAddress\<close>, \<open>common.HexToAddress\<close> and the method \<open>Hex\<close> of an address.\<close>

record Address_Lib =
  al_IsHexAddress :: "string \<Rightarrow> bool"
  al_HexToAddress :: "string \<Rightarrow> bytes"
  al_Hex :: "bytes \<Rightarrow> string"

datatype participant_error = NotInitialised | MissingAddress | InvalidAddress string | ContractError string

text \<open>\<open>strings.ToLower\<close> on ASCII text.\<close>

definition lower_char :: "char \<Rightarrow> char" where
  "lower_char c = (let n = (of_char c :: nat) in if 65 \<le> n \<and> n \<le> 90 then char_of (n + 32) else c)"

definition ToLower :: "string \<Rightarrow> string" where
  "ToLower s = map lower_char s"

definition normalizeAddress :: "Address_Lib \<Rightarrow> string \<Rightarrow> participant_error + bytes" where
  "normalizeAddress lib addr =
     (let trimmed = TrimSpace addr in
      if trimmed = [] then Inl MissingAddress
      else let trimmed = (if take 2 trimmed = ''0x'' then trimmed else ''0x'' @ trimmed) in
        if \<not> al_IsHexAddress lib trimmed then Inl (InvalidAddress addr)
        else Inr (al_HexToAddress lib trimmed))"

definition cacheKeyFor :: "Address_Lib \<Rightarrow> string \<Rightarrow> ParticipantType \<Rightarrow> bytes \<Rightarrow> string" where
  "cacheKeyFor lib role p addr = role @ CHR '':'' # dec (participant_code p) @ CHR '':'' # ToLower (al_Hex lib addr)"

subsection \<open>The verifier and its cache\<close>

record cacheEntry =
  ce_key :: string
  ce_isActive :: bool
  ce_expires :: int

text \<open>\<open>pv_order\<close> lists the elements from the front to the back.\<close>

record ParticipantVerifier =
  pv_elements :: "cacheEntry list"
  pv_cache :: "string \<rightharpoonup> nat"
  pv_order :: "nat list"
  pv_cacheTTL :: int
  pv_cacheSize :: int
  pv_fallback :: bool

definition NewParticipantVerifier :: "VerifierConfig \<Rightarrow> ParticipantVerifier" where
  "NewParticipantVerifier cfg =
     (let cfg = normalize cfg in
      \<lparr>pv_elements = [], pv_cache = Map.empty, pv_order = [], pv_cacheTTL = vc_CacheTTL cfg,
       pv_cacheSize = vc_CacheSize cfg, pv_fallback = vc_EnableFallback cfg\<rparr>)"

definition MoveToFront :: "nat \<Rightarrow> nat list \<Rightarrow> nat list" where
  "MoveToFront el order = (if el \<in> set order then el # remove1 el order else order)"

definition removeElement :: "nat \<Rightarrow> ParticipantVerifier \<Rightarrow> ParticipantVerifier" where
  "removeElement el v =
     v\<lparr>pv_order := remove1 el (pv_order v), pv_cache := (pv_cache v)(ce_key (pv_elements v ! el) := None)\<rparr>"

definition evictOldest :: "ParticipantVerifier \<Rightarrow> ParticipantVerifier" where
  "evictOldest v = (if pv_order v = [] then v else removeElement (last (pv_order v)) v)"

text \<open>The answer and whether the cache had one.\<close>

definition tryCache :: "string \<Rightarrow> int \<Rightarrow> ParticipantVerifier \<Rightarrow> ParticipantVerifier \<times> bool \<times> bool" where
  "tryCache key now v =
     (case pv_cache v key of
        None \<Rightarrow> (v, False, False)
      | Some element \<Rightarrow>
          let entry = pv_elements v ! element in
          if now > ce_expires entry then (removeElement element v, False, False)
          else (v\<lparr>pv_order := MoveToFront element (pv_order v)\<rparr>, ce_isActive entry, True))"

definition updateCache :: "string \<Rightarrow> bool \<Rightarrow> int \<Rightarrow> ParticipantVerifier \<Rightarrow> ParticipantVerifier" where
  "updateCache key active now v =
     (case pv_cache v key of
        Some element \<Rightarrow>
          v\<lparr>pv_elements := (pv_elements v)[element := (pv_elements v ! element)
               \<lparr>ce_isActive := active, ce_expires := now + pv_cacheTTL v\<rparr>],
            pv_order := MoveToFront element (pv_order v)\<rparr>
      | None \<Rightarrow>
          let entry = \<lparr>ce_key = key, ce_isActive = active, ce_expires = now + pv_cacheTTL v\<rparr>;
              element = length (pv_elements v);
              v = v\<lparr>pv_elements := pv_elements v @ [entry], pv_order := element # pv_order v,
                    pv_cache := (pv_cache v)(key \<mapsto> element)\<rparr> in
          if int (length (pv_order v)) > pv_cacheSize v then evictOldest v else v)"

text \<open>
  One call of \<open>verify\<close>: \<open>t1\<close> is the clock at the cache, \<open>t2\<close> after the contract has answered. The answer of the contract is an error
  or whether the participant is active.
\<close>

definition verify ::
  "Address_Lib \<Rightarrow> (bytes \<Rightarrow> nat \<Rightarrow> string + bool) \<Rightarrow> int \<Rightarrow> int \<Rightarrow> string \<Rightarrow> ParticipantType \<Rightarrow> string \<Rightarrow>
   ParticipantVerifier option \<Rightarrow> ParticipantVerifier option \<times> (participant_error + bool)" where
  "verify lib contract t1 t2 rawAddr participantType roleLabel verifier =
     (case verifier of
        None \<Rightarrow> (None, Inl NotInitialised)
      | Some v \<Rightarrow>
          (case normalizeAddress lib rawAddr of
             Inl _ \<Rightarrow> if pv_fallback v then (Some v, Inr True) else (Some v, Inl MissingAddress)
           | Inr addr \<Rightarrow>
               let cacheKey = cacheKeyFor lib roleLabel participantType addr in
               (case tryCache cacheKey t1 v of
                  (v, ok, hit) \<Rightarrow>
                    if hit then (Some v, Inr ok)
                    else (case contract addr (participant_code participantType) of
                            Inl err \<Rightarrow> if pv_fallback v then (Some v, Inr True) else (Some v, Inl (ContractError err))
                          | Inr active \<Rightarrow> (Some (updateCache cacheKey active t2 v), Inr active)))))"

definition VerifyAgent where
  "VerifyAgent lib contract t1 t2 addr v = verify lib contract t1 t2 addr ParticipantAgent ''agent'' v"

definition VerifyMatcher where
  "VerifyMatcher lib contract t1 t2 addr v = verify lib contract t1 t2 addr ParticipantMatcher ''matcher'' v"

definition VerifyValidator where
  "VerifyValidator lib contract t1 t2 addr v = verify lib contract t1 t2 addr ParticipantValidator ''validator'' v"

text \<open>
  The cache is locked for each of its two operations and not for a whole call, so calls of several goroutines interleave at this grain.
\<close>

datatype cache_call = TryCache string int | UpdateCache string bool int

primrec cache_step :: "ParticipantVerifier \<Rightarrow> cache_call \<Rightarrow> ParticipantVerifier" where
  "cache_step v (TryCache key now) = fst (tryCache key now v)"
| "cache_step v (UpdateCache key active now) = updateCache key active now v"

definition run_cache :: "ParticipantVerifier \<Rightarrow> cache_call list \<Rightarrow> ParticipantVerifier" where
  "run_cache v calls = foldl cache_step v calls"

subsection \<open>The variant over the SDK\<close>

text \<open>The operations of \<open>lru.Cache\<close> that the variant uses.\<close>

record 'c Lru_Lib =
  lru_Get :: "'c \<Rightarrow> string \<Rightarrow> 'c \<times> (bool \<times> int) option"
  lru_Add :: "'c \<Rightarrow> string \<Rightarrow> bool \<times> int \<Rightarrow> 'c"
  lru_Remove :: "'c \<Rightarrow> string \<Rightarrow> 'c"

record 'c ParticipantVerifierSDK =
  sv_cache :: 'c
  sv_cacheTTL :: int
  sv_fallback :: bool

definition normalizeAddress_sdk :: "Address_Lib \<Rightarrow> string \<Rightarrow> participant_error + bytes" where
  "normalizeAddress_sdk lib addr =
     (let trimmed = TrimSpace addr in
      if \<not> al_IsHexAddress lib trimmed then Inl (InvalidAddress addr) else Inr (al_HexToAddress lib trimmed))"

definition VerifyAgent_sdk ::
  "Address_Lib \<Rightarrow> 'c Lru_Lib \<Rightarrow> (bytes \<Rightarrow> string + bool) \<Rightarrow> int \<Rightarrow> int \<Rightarrow> string \<Rightarrow>
   'c ParticipantVerifierSDK \<Rightarrow> 'c ParticipantVerifierSDK \<times> (participant_error + bool)" where
  "VerifyAgent_sdk lib lru sdk t1 t2 addr v =
     (case normalizeAddress_sdk lib addr of
        Inl err \<Rightarrow> if sv_fallback v then (v, Inr True) else (v, Inl err)
      | Inr normalized \<Rightarrow>
          let cacheKey = ''agent:'' @ al_Hex lib normalized in
          (case lru_Get lru (sv_cache v) cacheKey of
             (c, cached) \<Rightarrow>
               let v = v\<lparr>sv_cache := c\<rparr>;
                   ask = (\<lambda>v. case sdk normalized of
                            Inl err \<Rightarrow> if sv_fallback v then (v, Inr True) else (v, Inl (ContractError err))
                          | Inr isActive \<Rightarrow>
                              (v\<lparr>sv_cache := lru_Add lru (sv_cache v) cacheKey (isActive, t2 + sv_cacheTTL v)\<rparr>, Inr isActive)) in
               (case cached of
                  Some (isActive, expires) \<Rightarrow>
                    if t1 < expires then (v, Inr isActive)
                    else ask (v\<lparr>sv_cache := lru_Remove lru (sv_cache v) cacheKey\<rparr>)
                | None \<Rightarrow> ask v)))"

section \<open>The abstract cache\<close>

text \<open>
  What the cache promises: the entries by recency of use, at most \<open>cap\<close> of them, one per key; an answer is dropped when it is looked
  up after its expiry.
\<close>

definition without :: "string \<Rightarrow> cacheEntry list \<Rightarrow> cacheEntry list" where
  "without key xs = filter (\<lambda>e. ce_key e \<noteq> key) xs"

primrec lru_step :: "int \<Rightarrow> int \<Rightarrow> cacheEntry list \<Rightarrow> cache_call \<Rightarrow> cacheEntry list" where
  "lru_step ttl cap xs (TryCache key now) =
     (case find (\<lambda>e. ce_key e = key) xs of
        None \<Rightarrow> xs
      | Some e \<Rightarrow> if now > ce_expires e then without key xs else e # without key xs)"
| "lru_step ttl cap xs (UpdateCache key active now) =
     take (nat cap) (\<lparr>ce_key = key, ce_isActive = active, ce_expires = now + ttl\<rparr> # without key xs)"

definition lru_answer :: "cacheEntry list \<Rightarrow> string \<Rightarrow> int \<Rightarrow> bool \<times> bool" where
  "lru_answer xs key now =
     (case find (\<lambda>e. ce_key e = key) xs of
        None \<Rightarrow> (False, False)
      | Some e \<Rightarrow> if now > ce_expires e then (False, False) else (ce_isActive e, True))"

definition lru_view :: "ParticipantVerifier \<Rightarrow> cacheEntry list" where
  "lru_view v = map ((!) (pv_elements v)) (pv_order v)"

text \<open>The map and the list name the same elements, every key once, and there are at most \<open>cacheSize\<close> of them.\<close>

definition cache_shape :: "ParticipantVerifier \<Rightarrow> bool" where
  "cache_shape v \<longleftrightarrow>
     distinct (pv_order v) \<and> (\<forall>el \<in> set (pv_order v). el < length (pv_elements v)) \<and>
     (\<forall>key el. pv_cache v key = Some el \<longleftrightarrow> el \<in> set (pv_order v) \<and> ce_key (pv_elements v ! el) = key)"

definition cache_ok :: "ParticipantVerifier \<Rightarrow> bool" where
  "cache_ok v \<longleftrightarrow> cache_shape v \<and> int (length (pv_order v)) \<le> pv_cacheSize v \<and> 0 < pv_cacheSize v"

section \<open>Refinement\<close>

lemma normalize_positive: "0 < vc_CacheTTL (normalize c)" "0 < vc_CacheSize (normalize c)"
  by (simp_all add: normalize_def DefaultVerifierConfig_def second_def Let_def)

lemma cache_ok_new: "cache_ok (NewParticipantVerifier cfg)" "lru_view (NewParticipantVerifier cfg) = []"
  using normalize_positive(2) [of cfg]
  by (simp_all add: cache_ok_def cache_shape_def NewParticipantVerifier_def lru_view_def Let_def)

lemma cache_shapeD:
  assumes "cache_shape v"
  shows "distinct (pv_order v)" "el \<in> set (pv_order v) \<Longrightarrow> el < length (pv_elements v)"
    "pv_cache v key = Some el \<longleftrightarrow> el \<in> set (pv_order v) \<and> ce_key (pv_elements v ! el) = key"
  using assms unfolding cache_shape_def by blast+

lemma cache_None:
  assumes "cache_shape v"
  shows "pv_cache v key = None \<longleftrightarrow> (\<forall>el \<in> set (pv_order v). ce_key (pv_elements v ! el) \<noteq> key)"
  using cache_shapeD(3) [OF assms] by (metis not_Some_eq)

lemma key_unique:
  assumes "cache_shape v" "a \<in> set (pv_order v)" "b \<in> set (pv_order v)"
    "ce_key (pv_elements v ! a) = ce_key (pv_elements v ! b)"
  shows "a = b"
  using assms cache_shapeD(3) [OF assms(1)] by (metis option.inject)

lemma find_view:
  assumes "cache_shape v"
  shows "find (\<lambda>e. ce_key e = key) (lru_view v) = map_option ((!) (pv_elements v)) (pv_cache v key)"
proof (cases "pv_cache v key")
  case None
  then have "find (\<lambda>e. ce_key e = key) (lru_view v) = None"
    unfolding find_None_iff lru_view_def using cache_None [OF assms, of key] by auto
  with None show ?thesis by simp
next
  case (Some el)
  then have el: "el \<in> set (pv_order v)" "ce_key (pv_elements v ! el) = key" using cache_shapeD(3) [OF assms] by auto
  then have "find (\<lambda>e. ce_key e = key) (lru_view v) \<noteq> None" by (auto simp: find_None_iff lru_view_def)
  then obtain e where e: "find (\<lambda>e. ce_key e = key) (lru_view v) = Some e" by blast
  then have "e \<in> set (lru_view v)" "ce_key e = key" by (auto simp: find_Some_iff)
  then obtain b where "b \<in> set (pv_order v)" "e = pv_elements v ! b" by (auto simp: lru_view_def)
  with key_unique [OF assms] el \<open>ce_key e = key\<close> have "e = pv_elements v ! el" by metis
  with e Some show ?thesis by simp
qed

lemma without_view:
  assumes "cache_shape v" "el \<in> set (pv_order v)" "ce_key (pv_elements v ! el) = key"
  shows "without key (lru_view v) = map ((!) (pv_elements v)) (remove1 el (pv_order v))"
proof -
  have "filter (\<lambda>a. ce_key (pv_elements v ! a) \<noteq> key) (pv_order v) = filter (\<lambda>a. a \<noteq> el) (pv_order v)"
    using key_unique [OF assms(1)] assms(2,3) by (intro filter_cong) auto
  then show ?thesis
    using cache_shapeD(1) [OF assms(1)] by (simp add: without_def lru_view_def filter_map o_def distinct_remove1_removeAll removeAll_filter_not_eq neq_commute)
qed

lemma removeElement_refines:
  assumes "cache_shape v" "el \<in> set (pv_order v)" "ce_key (pv_elements v ! el) = key"
  shows "cache_shape (removeElement el v) \<and> lru_view (removeElement el v) = without key (lru_view v)"
proof -
  have len: "length (remove1 el (pv_order v)) \<le> length (pv_order v)" by (simp add: length_remove1)
  have "pv_cache (removeElement el v) k = Some b \<longleftrightarrow>
      b \<in> set (pv_order (removeElement el v)) \<and> ce_key (pv_elements (removeElement el v) ! b) = k" for k b
    using cache_shapeD(1) [OF assms(1)] cache_shapeD(3) [OF assms(1), of k b] key_unique [OF assms(1), of b el] assms(2,3)
    by (auto simp: removeElement_def)
  with cache_shapeD [OF assms(1)] len have "cache_shape (removeElement el v)"
    unfolding cache_shape_def by (fastforce simp: removeElement_def)
  moreover have "lru_view (removeElement el v) = without key (lru_view v)"
    using without_view [OF assms] by (simp add: removeElement_def lru_view_def)
  ultimately show ?thesis by blast
qed

lemma touch_refines:
  assumes "cache_shape v" "el \<in> set (pv_order v)" "ce_key (pv_elements v ! el) = key"
  shows "cache_shape (v\<lparr>pv_order := MoveToFront el (pv_order v)\<rparr>)
    \<and> lru_view (v\<lparr>pv_order := MoveToFront el (pv_order v)\<rparr>) = pv_elements v ! el # without key (lru_view v)"
proof -
  have len: "Suc (length (remove1 el (pv_order v))) = length (pv_order v)"
    using assms(2) by (metis One_nat_def Suc_pred length_pos_if_in_set length_remove1)
  have set: "set (MoveToFront el (pv_order v)) = set (pv_order v)"
    using assms(2) cache_shapeD(1) [OF assms(1)] by (auto simp: MoveToFront_def)
  have "distinct (MoveToFront el (pv_order v))" "length (MoveToFront el (pv_order v)) = length (pv_order v)"
    using assms(2) cache_shapeD(1) [OF assms(1)] len by (auto simp: MoveToFront_def)
  with assms(1) set have "cache_shape (v\<lparr>pv_order := MoveToFront el (pv_order v)\<rparr>)" by (simp add: cache_shape_def)
  then show ?thesis
    using without_view [OF assms] assms(2) by (simp add: lru_view_def MoveToFront_def)
qed

lemma update_refines:
  assumes "cache_shape v" "el \<in> set (pv_order v)" "ce_key (pv_elements v ! el) = key" "ce_key e = key"
  defines "w \<equiv> v\<lparr>pv_elements := (pv_elements v)[el := e]\<rparr>"
  shows "cache_shape w" "without key (lru_view w) = without key (lru_view v)" "pv_elements w ! el = e"
proof -
  have nth: "ce_key (pv_elements w ! a) = ce_key (pv_elements v ! a)" for a
    using assms(3,4) by (cases "a = el \<and> a < length (pv_elements v)") (auto simp: w_def nth_list_update list_update_beyond)
  then show shape: "cache_shape w" using assms(1) by (simp add: cache_shape_def) (simp add: w_def)
  have el: "el \<in> set (pv_order w)" "ce_key (pv_elements w ! el) = key" using assms(2,3) nth by (simp_all add: w_def)
  show "pv_elements w ! el = e" using cache_shapeD(2) [OF assms(1,2)] by (simp add: w_def)
  have "map ((!) (pv_elements w)) (remove1 el (pv_order v)) = map ((!) (pv_elements v)) (remove1 el (pv_order v))"
    using cache_shapeD(1) [OF assms(1)] by (auto simp: w_def)
  then show "without key (lru_view w) = without key (lru_view v)"
    using without_view [OF shape el] without_view [OF assms(1-3)] by (simp add: w_def)
qed

lemma tryCache_refines:
  assumes "cache_shape v"
  shows "cache_shape (fst (tryCache key now v))"
    "lru_view (fst (tryCache key now v)) = lru_step ttl cap (lru_view v) (TryCache key now)"
    "snd (tryCache key now v) = lru_answer (lru_view v) key now"
proof -
  have "cache_shape (fst (tryCache key now v)) \<and>
    lru_view (fst (tryCache key now v)) = lru_step ttl cap (lru_view v) (TryCache key now) \<and>
    snd (tryCache key now v) = lru_answer (lru_view v) key now"
  proof (cases "pv_cache v key")
    case None
    with assms show ?thesis by (simp add: tryCache_def find_view lru_answer_def)
  next
    case (Some el)
    then have el: "el \<in> set (pv_order v)" "ce_key (pv_elements v ! el) = key" using cache_shapeD(3) [OF assms] by auto
    from Some show ?thesis
      using removeElement_refines [OF assms el] touch_refines [OF assms el]
      by (simp add: tryCache_def find_view [OF assms] lru_answer_def Let_def)
  qed
  then show "cache_shape (fst (tryCache key now v))"
    "lru_view (fst (tryCache key now v)) = lru_step ttl cap (lru_view v) (TryCache key now)"
    "snd (tryCache key now v) = lru_answer (lru_view v) key now" by blast+
qed

lemma length_lru_view: "length (lru_view v) = length (pv_order v)"
  by (simp add: lru_view_def)

lemma removal_keeps_bound:
  "length (pv_order (removeElement el v)) \<le> length (pv_order v)" "pv_cacheSize (removeElement el v) = pv_cacheSize v"
  "pv_cacheTTL (removeElement el v) = pv_cacheTTL v" "pv_fallback (removeElement el v) = pv_fallback v"
  by (simp_all add: removeElement_def length_remove1)

lemma length_MoveToFront [simp]: "length (MoveToFront el order) = length order"
  by (auto simp: MoveToFront_def length_remove1 dest: length_pos_if_in_set)

lemma tryCache_settings [simp]:
  "pv_cacheSize (fst (tryCache key now v)) = pv_cacheSize v" "pv_cacheTTL (fst (tryCache key now v)) = pv_cacheTTL v"
  "pv_fallback (fst (tryCache key now v)) = pv_fallback v"
  by (simp_all add: tryCache_def removal_keeps_bound Let_def split: option.split)

lemma updateCache_settings [simp]:
  "pv_cacheSize (updateCache key active now v) = pv_cacheSize v" "pv_cacheTTL (updateCache key active now v) = pv_cacheTTL v"
  by (simp_all add: updateCache_def evictOldest_def removal_keeps_bound Let_def split: option.split)

lemma tryCache_ok:
  assumes "cache_ok v"
  shows "cache_ok (fst (tryCache key now v))"
proof -
  have "length (pv_order (fst (tryCache key now v))) \<le> length (pv_order v)"
    using removal_keeps_bound(1) by (simp add: tryCache_def Let_def split: option.split)
  then show ?thesis
    using assms tryCache_refines(1) [of v key now] by (simp add: cache_ok_def)
qed

text \<open>A new element goes to the front; when the list is too long then, its last element goes.\<close>

lemma insert_refines:
  assumes "cache_shape v" "pv_cache v (ce_key e) = None"
  defines "w \<equiv> v\<lparr>pv_elements := pv_elements v @ [e], pv_order := length (pv_elements v) # pv_order v,
                 pv_cache := (pv_cache v)(ce_key e \<mapsto> length (pv_elements v))\<rparr>"
  shows "cache_shape w" "lru_view w = e # lru_view v"
proof -
  note D = cache_shapeD [OF assms(1)]
  have nth: "pv_elements w ! a = pv_elements v ! a" if "a \<in> set (pv_order v)" for a
    using D(2) [OF that] by (simp add: w_def nth_append)
  have new: "pv_elements w ! length (pv_elements v) = e" by (simp add: w_def)
  have "pv_cache w k = Some b \<longleftrightarrow> b \<in> set (pv_order w) \<and> ce_key (pv_elements w ! b) = k" for k b
    using D(2) [of b] D(3) [of k b] D(2) [of "length (pv_elements v)"] nth new assms(2) by (auto simp: w_def)
  moreover have "distinct (pv_order w)" "\<forall>el \<in> set (pv_order w). el < length (pv_elements w)"
    using D(1,2) by (auto simp: w_def less_SucI)
  ultimately show "cache_shape w" by (simp add: cache_shape_def)
  show "lru_view w = e # lru_view v" using nth new by (simp add: lru_view_def) (simp add: w_def)
qed

lemma evictOldest_refines:
  assumes "cache_shape v" "pv_order v \<noteq> []"
  shows "cache_shape (evictOldest v)" "lru_view (evictOldest v) = butlast (lru_view v)"
proof -
  have el: "last (pv_order v) \<in> set (pv_order v)" using assms(2) by simp
  show "cache_shape (evictOldest v)" using removeElement_refines [OF assms(1) el refl] assms(2) by (simp add: evictOldest_def)
  have "remove1 (last (pv_order v)) (pv_order v) = butlast (pv_order v)"
    using cache_shapeD(1) [OF assms(1)] assms(2)
    by (metis append_Nil2 append_butlast_last_id distinct_append distinct_butlast disjoint_insert(1) list.set(2) remove1.simps(2) remove1_append)
  then show "lru_view (evictOldest v) = butlast (lru_view v)"
    using assms(2) by (simp add: evictOldest_def removeElement_def lru_view_def map_butlast)
qed

lemma without_absent: "find (\<lambda>e. ce_key e = key) xs = None \<Longrightarrow> without key xs = xs"
  by (auto simp: without_def find_None_iff filter_id_conv)

lemma updateCache_refines:
  assumes "cache_ok v"
  shows "cache_ok (updateCache key active now v)
    \<and> lru_view (updateCache key active now v) = lru_step (pv_cacheTTL v) (pv_cacheSize v) (lru_view v) (UpdateCache key active now)"
proof (cases "pv_cache v key")
  case (Some el)
  have ok: "cache_shape v" "int (length (pv_order v)) \<le> pv_cacheSize v" "0 < pv_cacheSize v" using assms by (simp_all add: cache_ok_def)
  have el: "el \<in> set (pv_order v)" "ce_key (pv_elements v ! el) = key" using cache_shapeD(3) [OF ok(1)] Some by auto
  define e where "e = \<lparr>ce_key = key, ce_isActive = active, ce_expires = now + pv_cacheTTL v\<rparr>"
  define w where "w = v\<lparr>pv_elements := (pv_elements v)[el := e]\<rparr>"
  have e: "(pv_elements v ! el)\<lparr>ce_isActive := active, ce_expires := now + pv_cacheTTL v\<rparr> = e" using el(2) by (simp add: e_def)
  have u: "cache_shape w" "without key (lru_view w) = without key (lru_view v)" "pv_elements w ! el = e"
    using update_refines [OF ok(1) el, of e] by (simp_all add: w_def e_def)
  have touched: "cache_shape (w\<lparr>pv_order := MoveToFront el (pv_order w)\<rparr>)"
    "lru_view (w\<lparr>pv_order := MoveToFront el (pv_order w)\<rparr>) = e # without key (lru_view v)"
    using touch_refines [OF u(1), of el key] u(2,3) el(1) by (simp_all add: w_def e_def)
  have new: "updateCache key active now v = w\<lparr>pv_order := MoveToFront el (pv_order w)\<rparr>"
    using Some e by (simp add: updateCache_def w_def)
  have "length (without key (lru_view v)) < length (pv_order v)"
    using without_view [OF ok(1) el] length_pos_if_in_set [OF el(1)] el(1) by (simp add: length_remove1)
  then have "take (nat (pv_cacheSize v)) (e # without key (lru_view v)) = e # without key (lru_view v)"
    using ok(2) by (intro take_all) simp
  with touched new ok show ?thesis by (simp add: cache_ok_def e_def w_def)
next
  case None
  have ok: "cache_shape v" "int (length (pv_order v)) \<le> pv_cacheSize v" "0 < pv_cacheSize v" using assms by (simp_all add: cache_ok_def)
  let ?e = "\<lparr>ce_key = key, ce_isActive = active, ce_expires = now + pv_cacheTTL v\<rparr>"
  let ?w = "v\<lparr>pv_elements := pv_elements v @ [?e], pv_order := length (pv_elements v) # pv_order v,
                 pv_cache := (pv_cache v)(key \<mapsto> length (pv_elements v))\<rparr>"
  have w: "cache_shape ?w" "lru_view ?w = ?e # lru_view v" using insert_refines [OF ok(1), of ?e] None by simp_all
  have absent: "without key (lru_view v) = lru_view v"
    using find_view [OF ok(1), of key] None by (intro without_absent) simp
  have len: "length (lru_view v) = length (pv_order v)" by (rule length_lru_view)
  show ?thesis
  proof (cases "int (Suc (length (pv_order v))) > pv_cacheSize v")
    case True
    then have full: "nat (pv_cacheSize v) = length (lru_view v)" using ok(2) len by simp
    have "updateCache key active now v = evictOldest ?w" using None True by (simp add: updateCache_def Let_def)
    moreover have "length (pv_order (evictOldest ?w)) = length (pv_order v)"
      using arg_cong [OF evictOldest_refines(2) [OF w(1)], of length] w(2) len by (simp add: length_lru_view del: butlast.simps)
    moreover have "pv_cacheSize (evictOldest ?w) = pv_cacheSize v" by (simp add: evictOldest_def removal_keeps_bound)
    ultimately show ?thesis
      using evictOldest_refines [OF w(1)] w(2) ok absent full by (simp add: cache_ok_def butlast_conv_take)
  next
    case False
    then have "updateCache key active now v = ?w" using None by (simp add: updateCache_def Let_def)
    with False w ok absent len show ?thesis by (simp add: cache_ok_def)
  qed
qed

lemma run_cache_refines:
  assumes "cache_ok v"
  shows "cache_ok (run_cache v calls) \<and> pv_cacheTTL (run_cache v calls) = pv_cacheTTL v \<and> pv_cacheSize (run_cache v calls) = pv_cacheSize v
    \<and> lru_view (run_cache v calls) = foldl (lru_step (pv_cacheTTL v) (pv_cacheSize v)) (lru_view v) calls"
proof (induction calls rule: rev_induct)
  case Nil
  then show ?case using assms by (simp add: run_cache_def)
next
  case (snoc c calls)
  let ?w = "run_cache v calls"
  have "cache_ok (cache_step ?w c) \<and> lru_view (cache_step ?w c) = lru_step (pv_cacheTTL v) (pv_cacheSize v) (lru_view ?w) c
    \<and> pv_cacheTTL (cache_step ?w c) = pv_cacheTTL ?w \<and> pv_cacheSize (cache_step ?w c) = pv_cacheSize ?w"
  proof (cases c)
    case (TryCache key now)
    with snoc.IH show ?thesis
      using tryCache_ok [of ?w key now] tryCache_refines(2) [of ?w key now "pv_cacheTTL v" "pv_cacheSize v"] by (simp add: cache_ok_def)
  next
    case (UpdateCache key active now)
    with snoc.IH show ?thesis using updateCache_refines [of ?w key active now] by simp
  qed
  with snoc.IH show ?case by (simp add: run_cache_def)
qed

section \<open>Answers and their age\<close>

text \<open>The answers of the contract for a key, with the time they were stored, newest first.\<close>

definition stored :: "string \<Rightarrow> cache_call list \<Rightarrow> (bool \<times> int) list" where
  "stored key calls = rev (concat (map (\<lambda>c. case c of UpdateCache k b t \<Rightarrow> if k = key then [(b, t)] else [] | _ \<Rightarrow> []) calls))"

lemma find_without: "find (\<lambda>e. ce_key e = key) (without k xs) = (if k = key then None else find (\<lambda>e. ce_key e = key) xs)"
  by (induction xs) (auto simp: without_def)

lemma find_ce_key: "find (\<lambda>e. ce_key e = key) xs = Some e \<Longrightarrow> ce_key e = key"
  by (induction xs) (auto split: if_splits)

lemma find_take: "find P (take n xs) = Some e \<Longrightarrow> find P xs = Some e"
  by (induction xs arbitrary: n) (auto simp: take_Cons split: if_splits nat.splits)

lemma stored_snoc:
  "stored key (calls @ [c]) = (case c of UpdateCache k b t \<Rightarrow> if k = key then (b, t) # stored key calls else stored key calls | _ \<Rightarrow> stored key calls)"
  by (simp add: stored_def split: cache_call.split)

lemma lru_entry_newest:
  assumes "find (\<lambda>e. ce_key e = key) (foldl (lru_step ttl cap) [] calls) = Some e"
  shows "\<exists>t rest. stored key calls = (ce_isActive e, t) # rest \<and> ce_expires e = t + ttl"
  using assms
proof (induction calls arbitrary: e rule: rev_induct)
  case Nil
  then show ?case by simp
next
  case (snoc c calls)
  let ?xs = "foldl (lru_step ttl cap) [] calls"
  show ?case
  proof (cases c)
    case (TryCache k now)
    then have "find (\<lambda>e. ce_key e = key) ?xs = Some e"
      using snoc.prems by (auto simp: find_without split: option.splits if_splits dest: find_ce_key)
    with snoc.IH TryCache show ?thesis by (simp add: stored_snoc)
  next
    case (UpdateCache k b t)
    then have "foldl (lru_step ttl cap) [] (calls @ [c])
        = take (nat cap) (\<lparr>ce_key = k, ce_isActive = b, ce_expires = t + ttl\<rparr> # without k ?xs)" by simp
    from find_take [OF snoc.prems [unfolded this]] snoc.IH UpdateCache show ?thesis by (auto simp: stored_snoc find_without split: if_splits)
  qed
qed

lemma cached_answer_newest:
  assumes "snd (tryCache key now (run_cache (NewParticipantVerifier cfg) calls)) = (b, True)"
  shows "\<exists>t rest. stored key calls = (b, t) # rest \<and> now \<le> t + vc_CacheTTL (normalize cfg)"
proof -
  let ?v = "NewParticipantVerifier cfg"
  have ttl: "pv_cacheTTL ?v = vc_CacheTTL (normalize cfg)" by (simp add: NewParticipantVerifier_def Let_def)
  have run: "cache_shape (run_cache ?v calls)"
    "lru_view (run_cache ?v calls) = foldl (lru_step (pv_cacheTTL ?v) (pv_cacheSize ?v)) [] calls"
    using run_cache_refines [OF cache_ok_new(1), of cfg calls] cache_ok_new(2) [of cfg] by (simp_all add: cache_ok_def)
  from assms tryCache_refines(3) [OF run(1)] have "lru_answer (lru_view (run_cache ?v calls)) key now = (b, True)" by simp
  then obtain e where "find (\<lambda>e. ce_key e = key) (lru_view (run_cache ?v calls)) = Some e" "now \<le> ce_expires e" "ce_isActive e = b"
    by (auto simp: lru_answer_def split: option.splits if_splits)
  with lru_entry_newest [of key "pv_cacheTTL ?v" "pv_cacheSize ?v" calls e] show ?thesis unfolding run(2) ttl by auto
qed

section \<open>Properties\<close>

text \<open>
  C27: The verifier's map and recency list together are a bounded least-recently-used cache: after any interleaving of lookups and stores
  by any number of goroutines, they name the same elements, hold every key once and at most the configured number of entries, hold what
  the abstract cache holds in the same order, and a lookup gives the answer of the abstract cache.
\<close>
theorem verifier_cache_is_lru:
  "let v = run_cache (NewParticipantVerifier cfg) calls; cap = vc_CacheSize (normalize cfg);
       xs = foldl (lru_step (vc_CacheTTL (normalize cfg)) cap) [] calls in
   cache_shape v \<and> int (length (pv_order v)) \<le> cap \<and> lru_view v = xs \<and> snd (tryCache key now v) = lru_answer xs key now"
proof -
  let ?v = "NewParticipantVerifier cfg"
  have new: "pv_cacheTTL ?v = vc_CacheTTL (normalize cfg)" "pv_cacheSize ?v = vc_CacheSize (normalize cfg)"
    by (simp_all add: NewParticipantVerifier_def Let_def)
  show ?thesis
    using run_cache_refines [OF cache_ok_new(1), of cfg calls] cache_ok_new(2) [of cfg] new
      tryCache_refines(3) [of "run_cache ?v calls" key now] by (simp add: cache_ok_def Let_def)
qed


definition example_lib :: Address_Lib where
  "example_lib = \<lparr>al_IsHexAddress = (\<lambda>s. True), al_HexToAddress = bytes_of, al_Hex = map (\<lambda>b. char_of (unat b))\<rparr>"


text \<open>
  With the fallback, which is the default, the verifier fails open: a participant whose address cannot be read, or whom the
  contract cannot be asked about, counts as active.
\<close>
theorem fallback_fails_open:
  assumes "pv_fallback v"
    and "normalizeAddress lib rawAddr = Inl e
      \<or> normalizeAddress lib rawAddr = Inr addr \<and> pv_cache v (cacheKeyFor lib role p addr) = None \<and> contract addr (participant_code p) = Inl err"
  shows "verify lib contract t1 t2 rawAddr p role (Some v) = (Some v, Inr True)"
  using assms by (auto simp: verify_def tryCache_def)

theorem fallback_fails_open_witness:
  "verify example_lib (\<lambda>_ _. Inr False) 0 0 ''  '' ParticipantAgent ''agent'' (Some (NewParticipantVerifier DefaultVerifierConfig))
     = (Some (NewParticipantVerifier DefaultVerifierConfig), Inr True)"
proof -
  have "pv_fallback (NewParticipantVerifier DefaultVerifierConfig)"
    by (simp add: NewParticipantVerifier_def DefaultVerifierConfig_def normalize_def Let_def)
  moreover have "normalizeAddress example_lib ''  '' = Inl MissingAddress" by code_simp
  ultimately show ?thesis using fallback_fails_open [of "NewParticipantVerifier DefaultVerifierConfig"] by blast
qed

end
