(* ===== verification/Validator_Service.thy ===== *)
theory Validator_Service
  imports Validator_Node Participant_Verifier Complex_Main
begin

text \<open>
  The gRPC service of a validator (\<open>src/internal/validator/server.go\<close>) and the rest of \<open>handlers.go\<close> that it calls: how a report reaches
  the engine, the scores, and the way to the Raft leader. The state of the service is the node of \<open>Validator_Node\<close>, the participant
  verifier, and the rate limits. The engines, name resolution and the call of the leader are arguments. Floating-point operations of the
  scores are the exact ones followed by the roundings \<open>fl32\<close> and \<open>fl64\<close>.
\<close>

section \<open>Model\<close>

subsection \<open>Reports on the engines\<close>

text \<open>\<open>net.SplitHostPort\<close>; every error is \<open>None\<close>.\<close>

definition last_index :: "char \<Rightarrow> string \<Rightarrow> nat option" where
  "last_index c s = (if c \<in> set s then Some (length s - 1 - length (takeWhile (\<lambda>d. d \<noteq> c) (rev s))) else None)"

definition SplitHostPort :: "string \<Rightarrow> (string \<times> string) option" where
  "SplitHostPort hp =
     (case last_index (CHR '':'') hp of
        None \<Rightarrow> None
      | Some i \<Rightarrow>
          if hd hp = CHR ''['' then
            (if CHR '']'' \<notin> set hp then None
             else let k = length (takeWhile (\<lambda>c. c \<noteq> CHR '']'') hp) in
               if k + 1 \<noteq> i \<or> CHR ''['' \<in> set (drop 1 hp) \<or> CHR '']'' \<in> set (drop (k + 1) hp) then None
               else Some (drop 1 (take k hp), drop (i + 1) hp))
          else if CHR '':'' \<in> set (take i hp) \<or> CHR ''['' \<in> set hp \<or> CHR '']'' \<in> set hp then None
          else Some (take i hp, drop (i + 1) hp))"

text \<open>
  What the node needs of its engine and of the network: leadership, the leader's address, applying a report through Raft or proposing
  it to CometBFT (each may commit it to the node before it returns), the configured peers (identifier and address), name resolution,
  the configured endpoints, and the call of the leader's service.
\<close>

record ('sk, 'd) Engine_Env =
  en_IsLeader :: bool
  en_LeaderAddress :: string
  en_Apply :: "('sk, 'd) Node \<Rightarrow> ExecutionReport \<Rightarrow> ('sk, 'd) Node \<times> string option"
  en_Propose :: "('sk, 'd) Node \<Rightarrow> ExecutionReport \<Rightarrow> string \<Rightarrow> ('sk, 'd) Node \<times> string option"
  en_Peers :: "(string \<times> string) list"
  en_LookupHost :: "string \<Rightarrow> string list option"
  en_Endpoints :: "string \<rightharpoonup> string"
  en_Forward :: "string \<Rightarrow> ExecutionReport \<Rightarrow> string + Receipt"

datatype process_error =
    ReportNil
  | ApplyFailed string
  | ProposeFailed string
  | NoRaftLeader
  | BadLeaderAddress string
  | UnknownLeader string
  | NoEndpoint string
  | ForwardFailed string string

primrec find_peer :: "(string \<Rightarrow> string list option) \<Rightarrow> string \<Rightarrow> string \<Rightarrow> string \<Rightarrow> (string \<times> string) list \<Rightarrow> string option" where
  "find_peer lookup leaderAddr leaderHost leaderPort [] = None"
| "find_peer lookup leaderAddr leaderHost leaderPort (peer # peers) =
     (let next = find_peer lookup leaderAddr leaderHost leaderPort peers in
      if snd peer = leaderAddr then Some (fst peer)
      else case SplitHostPort (snd peer) of
        None \<Rightarrow> next
      | Some (peerHost, peerPort) \<Rightarrow>
          if peerPort = leaderPort then
            (if peerHost = leaderHost then Some (fst peer)
             else case lookup peerHost of
               None \<Rightarrow> next
             | Some peerIPs \<Rightarrow> if leaderHost \<in> set peerIPs then Some (fst peer) else next)
          else next)"

definition getLeaderIDFromRaft :: "('sk, 'd) Engine_Env \<Rightarrow> process_error + string" where
  "getLeaderIDFromRaft eng =
     (let leaderAddr = en_LeaderAddress eng in
      if leaderAddr = [] then Inl NoRaftLeader
      else case SplitHostPort leaderAddr of
        None \<Rightarrow> Inl (BadLeaderAddress leaderAddr)
      | Some (leaderHost, leaderPort) \<Rightarrow>
          (case find_peer (en_LookupHost eng) leaderAddr leaderHost leaderPort (en_Peers eng) of
             None \<Rightarrow> Inl (UnknownLeader leaderAddr)
           | Some vid \<Rightarrow> Inr vid))"

definition forwardReportToLeader :: "('sk, 'd) Engine_Env \<Rightarrow> string \<Rightarrow> ExecutionReport \<Rightarrow> process_error + Receipt" where
  "forwardReportToLeader eng leaderID report =
     (case en_Endpoints eng leaderID of
        None \<Rightarrow> Inl (NoEndpoint leaderID)
      | Some endpoint \<Rightarrow>
          if endpoint = [] then Inl (NoEndpoint leaderID)
          else (case en_Forward eng endpoint report of
                  Inl err \<Rightarrow> Inl (ForwardFailed leaderID err)
                | Inr resp \<Rightarrow> Inr resp))"

definition stamp_report :: "ExecutionReport \<Rightarrow> int \<Rightarrow> ExecutionReport" where
  "stamp_report report now = (if er_Timestamp report = 0 then report\<lparr>er_Timestamp := now div second\<rparr> else report)"

definition engine_receipt :: "('sk, 'd) Node \<Rightarrow> ExecutionReport \<Rightarrow> string \<Rightarrow> int \<Rightarrow> Receipt" where
  "engine_receipt n report status now =
     \<lparr>rc_IntentId = er_IntentId report, rc_ValidatorId = n_id n, rc_ReceivedTs = now div second, rc_Status = status,
      rc_ScoreHint = 0, rc_ReportId = generateReportID report, rc_Phase = []\<rparr>"

text \<open>\<open>t1\<close> stamps the report, \<open>t2\<close> the receipt.\<close>

definition processExecutionReportRaft ::
  "('sk, 'd) Engine_Env \<Rightarrow> ('sk, 'd) Node \<Rightarrow> ExecutionReport option \<Rightarrow> int \<Rightarrow> int \<Rightarrow> ('sk, 'd) Node \<times> (process_error + Receipt)" where
  "processExecutionReportRaft eng n report t1 t2 =
     (case report of
        None \<Rightarrow> (n, Inl ReportNil)
      | Some r0 \<Rightarrow>
          let r = stamp_report r0 t1 in
          if n_pendingReports n (generateReportID r) \<noteq> None then (n, Inr (engine_receipt n r ''duplicate'' t2))
          else if en_IsLeader eng then
            (case en_Apply eng n r of
               (n, Some err) \<Rightarrow> (n, Inl (ApplyFailed err))
             | (n, None) \<Rightarrow> (n, Inr (engine_receipt n r ''accepted'' t2)))
          else (case getLeaderIDFromRaft eng of
                  Inl err \<Rightarrow> (n, Inl err)
                | Inr leaderID \<Rightarrow> (n, forwardReportToLeader eng leaderID r)))"

definition processExecutionReportCometBFT ::
  "('sk, 'd) Engine_Env \<Rightarrow> ('sk, 'd) Node \<Rightarrow> ExecutionReport option \<Rightarrow> int \<Rightarrow> int \<Rightarrow> ('sk, 'd) Node \<times> (process_error + Receipt)" where
  "processExecutionReportCometBFT eng n report t1 t2 =
     (case report of
        None \<Rightarrow> (n, Inl ReportNil)
      | Some r0 \<Rightarrow>
          let r = stamp_report r0 t1 in
          if n_pendingReports n (generateReportID r) \<noteq> None then (n, Inr (engine_receipt n r ''duplicate'' t2))
          else (case en_Propose eng n r (generateReportID r) of
                  (n, Some err) \<Rightarrow> (n, Inl (ProposeFailed err))
                | (n, None) \<Rightarrow> (n, Inr (engine_receipt n r ''accepted'' t2))))"

text \<open>\<open>ProcessExecutionReport\<close> on a report that is not nil.\<close>

definition ProcessExecutionReport_engines ::
  "('sk, 'pk, 'd) Node_Env \<Rightarrow> ('sk, 'd) Engine_Env \<Rightarrow> ('sk, 'd) Node \<Rightarrow> ExecutionReport \<Rightarrow> int \<Rightarrow> int \<Rightarrow>
   ('sk, 'd) Node \<times> (process_error + Receipt)" where
  "ProcessExecutionReport_engines env eng n report t1 t2 =
     (if n_raft n then processExecutionReportRaft eng n (Some report) t1 t2
      else if n_comet n then processExecutionReportCometBFT eng n (Some report) t1 t2
      else (case ProcessExecutionReport env n report t2 of (n, receipt) \<Rightarrow> (n, Inr receipt)))"

subsection \<open>Policies and metrics\<close>

record ValidationPolicy =
  vp_PolicyId :: string
  vp_Version :: string

definition GetValidationPolicy :: "ValidationPolicy option \<Rightarrow> ValidationPolicy" where
  "GetValidationPolicy configured =
     (case configured of Some p \<Rightarrow> p | None \<Rightarrow> \<lparr>vp_PolicyId = ''default'', vp_Version = ''1.0.0''\<rparr>)"

record ScorePolicy =
  sp_MinExecutionTime :: int
  sp_MaxExecutionTime :: int
  sp_RequireProofOfExecution :: bool
  sp_MinConfidenceScore :: real

definition i32 :: "int \<Rightarrow> int" where
  "i32 x = sint (word_of_int x :: 32 word)"

text \<open>The conversion to \<open>int32\<close> cuts towards zero; outside the range of the type its result, \<open>out\<close>, depends on the machine.\<close>

definition to_i32 :: "(real \<Rightarrow> int) \<Rightarrow> real \<Rightarrow> int" where
  "to_i32 out x =
     (let t = (if x \<ge> 0 then \<lfloor>x\<rfloor> else \<lceil>x\<rceil>) in if - (2 ^ 31) \<le> t \<and> t < 2 ^ 31 then t else i32 (out x))"

definition scoreReport ::
  "(real \<Rightarrow> real) \<Rightarrow> (real \<Rightarrow> real) \<Rightarrow> (real \<Rightarrow> int) \<Rightarrow> ScorePolicy option \<Rightarrow> ExecutionReport \<Rightarrow> int \<Rightarrow> int" where
  "scoreReport fl32 fl64 out policy report now =
     (let score =
        (case policy of
           None \<Rightarrow> 100
         | Some p \<Rightarrow>
             let executionTime = i64 (now div second - er_Timestamp report);
                 optimalTime = i64 (sp_MinExecutionTime p + sp_MaxExecutionTime p) sdiv 2;
                 timed =
                   (if sp_MinExecutionTime p > 0 \<or> sp_MaxExecutionTime p > 0 then
                      if executionTime \<ge> sp_MinExecutionTime p \<and> executionTime \<le> sp_MaxExecutionTime p then
                        (let deviation = fl32 (real_of_int (i64 (executionTime - optimalTime))) in
                         if optimalTime > 0
                         then i32 (100 - to_i32 out (fl64 (fl64 (\<bar>deviation\<bar> * 10) / fl64 (real_of_int optimalTime))))
                         else 100)
                      else 50
                    else 100);
                 proved = (if sp_RequireProofOfExecution p \<and> length (er_ResultData report) > 0 then i32 (timed + 20) else timed) in
             if sp_MinConfidenceScore p > 0 then
               (let confidence = fl32 (95 / 100) in
                if confidence \<ge> sp_MinConfidenceScore p then i32 (proved + to_i32 out (fl32 (confidence * 10)))
                else i32 (proved - 30))
             else proved) in
      if score < 0 then 0 else if score > 200 then 200 else score)"

definition GetValidatorSet_node :: "('sk, 'd) Node \<Rightarrow> ValidatorSet" where
  "GetValidatorSet_node n = n_validatorSet n"

definition GetMetrics :: "('sk, 'd) Node \<Rightarrow> string" where
  "GetMetrics n = n_id n"

subsection \<open>The service\<close>

record ('sk, 'd) Service =
  sv_node :: "('sk, 'd) Node"
  sv_verifier :: "ParticipantVerifier option"
  sv_allowUnverified :: bool
  sv_reportRateLimit :: "string \<rightharpoonup> int"

definition NewServer_validator :: "('sk, 'd) Node \<Rightarrow> ('sk, 'd) Service" where
  "NewServer_validator node = \<lparr>sv_node = node, sv_verifier = None, sv_allowUnverified = False, sv_reportRateLimit = Map.empty\<rparr>"

definition AttachBlockchainVerifier ::
  "ParticipantVerifier option \<Rightarrow> bool \<Rightarrow> ('sk, 'd) Service option \<Rightarrow> ('sk, 'd) Service option" where
  "AttachBlockchainVerifier verifier allowUnverified s =
     map_option (\<lambda>s. s\<lparr>sv_verifier := verifier, sv_allowUnverified := allowUnverified\<rparr>) s"

text \<open>The environment of a call: the node's, the engine's, addresses and the subnet contract.\<close>

record ('sk, 'pk, 'd) Service_Env =
  se_node :: "('sk, 'pk, 'd) Node_Env"
  se_engine :: "('sk, 'd) Engine_Env"
  se_addresses :: Address_Lib
  se_contract :: "bytes \<Rightarrow> nat \<Rightarrow> string + bool"

text \<open>The readings of the clock while one report is processed.\<close>

record service_clock =
  sc_verify :: int
  sc_verified :: int
  sc_rate :: int
  sc_stamp :: int
  sc_receipt :: int
  sc_reject :: int

datatype service_error =
    ReportRequired
  | FieldRequired string
  | AgentVerificationFailed
  | AgentNotRegistered
  | RateLimitExceeded
  | ProcessFailed process_error

definition validateExecutionReport :: "ExecutionReport \<Rightarrow> service_error option" where
  "validateExecutionReport report =
     (if er_AssignmentId report = [] then Some (FieldRequired ''assignment ID'')
      else if er_AgentId report = [] then Some (FieldRequired ''agent ID'')
      else if er_Timestamp report = 0 then Some (FieldRequired ''execution timestamp'')
      else None)"

definition extractChainAddressFromReport :: "ExecutionReport option \<Rightarrow> string" where
  "extractChainAddressFromReport report = (case report of None \<Rightarrow> [] | Some r \<Rightarrow> TrimSpace (er_AgentId r))"

definition checkRateLimit :: "string \<Rightarrow> int \<Rightarrow> ('sk, 'd) Service \<Rightarrow> ('sk, 'd) Service \<times> bool" where
  "checkRateLimit agentID now s =
     (if \<exists>lastTime \<in> set_option (sv_reportRateLimit s agentID). time_sub now lastTime < second then (s, False)
      else (s\<lparr>sv_reportRateLimit := (sv_reportRateLimit s)(agentID \<mapsto> now)\<rparr>, True))"

text \<open>The on-chain check: the service with the cache as the check leaves it, and the reason to refuse the report, if any.\<close>

definition verify_reporter ::
  "('sk, 'pk, 'd) Service_Env \<Rightarrow> service_clock \<Rightarrow> ExecutionReport \<Rightarrow> ('sk, 'd) Service \<Rightarrow> ('sk, 'd) Service \<times> service_error option" where
  "verify_reporter env ck report s =
     (case sv_verifier s of
        None \<Rightarrow> (s, None)
      | Some v \<Rightarrow>
          (case VerifyAgent (se_addresses env) (se_contract env) (sc_verify ck) (sc_verified ck)
                  (extractChainAddressFromReport (Some report)) (Some v) of
             (v, result) \<Rightarrow>
               (s\<lparr>sv_verifier := v\<rparr>,
                (case result of
                   Inl err \<Rightarrow> if \<not> sv_allowUnverified s then Some AgentVerificationFailed else None
                 | Inr verified \<Rightarrow> if \<not> verified \<and> \<not> sv_allowUnverified s then Some AgentNotRegistered else None))))"

definition processSingleReport ::
  "('sk, 'pk, 'd) Service_Env \<Rightarrow> service_clock \<Rightarrow> ExecutionReport option \<Rightarrow> ('sk, 'd) Service \<Rightarrow> ('sk, 'd) Service \<times> (service_error + Receipt)" where
  "processSingleReport env ck report s =
     (case report of
        None \<Rightarrow> (s, Inl ReportRequired)
      | Some r \<Rightarrow>
          (case validateExecutionReport r of
             Some err \<Rightarrow> (s, Inl err)
           | None \<Rightarrow>
               (case verify_reporter env ck r s of
                  (s, Some err) \<Rightarrow> (s, Inl err)
                | (s, None) \<Rightarrow>
                    (case checkRateLimit (er_AgentId r) (sc_rate ck) s of
                       (s, False) \<Rightarrow> (s, Inl RateLimitExceeded)
                     | (s, True) \<Rightarrow>
                         (case ProcessExecutionReport_engines (se_node env) (se_engine env) (sv_node s) r (sc_stamp ck) (sc_receipt ck) of
                            (n, Inl err) \<Rightarrow> (s\<lparr>sv_node := n\<rparr>, Inl (ProcessFailed err))
                          | (n, Inr receipt) \<Rightarrow> (s\<lparr>sv_node := n\<rparr>, Inr receipt))))))"

definition SubmitExecutionReport where
  "SubmitExecutionReport env ck report s = processSingleReport env ck report s"

subsection \<open>Batches\<close>

record Batch_Response =
  br_Receipts :: "Receipt list"
  br_Success :: "32 word"
  br_Failed :: "32 word"

definition rejected_receipt :: "('sk, 'd) Node \<Rightarrow> ExecutionReport \<Rightarrow> int \<Rightarrow> Receipt" where
  "rejected_receipt n report now =
     \<lparr>rc_IntentId = er_IntentId report, rc_ValidatorId = n_id n, rc_ReceivedTs = now div second, rc_Status = ''rejected'',
      rc_ScoreHint = 0, rc_ReportId = er_ReportId report, rc_Phase = ''REJECTED''\<rparr>"

text \<open>
  The loop over the reports, each with its own clock: the first failure rejects the rest of the batch unless a partial success is
  allowed. The receipt of a report that is nil cannot be written.
\<close>

primrec report_batch_loop ::
  "('sk, 'pk, 'd) Service_Env \<Rightarrow> bool \<Rightarrow> (service_clock \<times> ExecutionReport option) list \<Rightarrow> ('sk, 'd) Service \<Rightarrow>
   ('sk, 'd) Service \<times> (go_panic + Batch_Response)" where
  "report_batch_loop env partialOk [] s = (s, Inr \<lparr>br_Receipts = [], br_Success = 0, br_Failed = 0\<rparr>)"
| "report_batch_loop env partialOk (x # xs) s =
     (case processSingleReport env (fst x) (snd x) s of
        (s, Inl err) \<Rightarrow>
          (case snd x of
             None \<Rightarrow> (s, Inl NilDereference)
           | Some r \<Rightarrow>
               let receipt = rejected_receipt (sv_node s) r (sc_reject (fst x)) in
               if \<not> partialOk then
                 (if None \<in> snd ` set xs then (s, Inl NilDereference)
                  else (s, Inr \<lparr>br_Receipts = receipt # map (\<lambda>y. rejected_receipt (sv_node s) (the (snd y)) (sc_reject (fst y))) xs,
                                br_Success = 0, br_Failed = 1 + word_of_nat (length xs)\<rparr>))
               else (case report_batch_loop env partialOk xs s of
                       (s, Inl p) \<Rightarrow> (s, Inl p)
                     | (s, Inr b) \<Rightarrow> (s, Inr (b\<lparr>br_Receipts := receipt # br_Receipts b, br_Failed := br_Failed b + 1\<rparr>))))
      | (s, Inr receipt) \<Rightarrow>
          (case report_batch_loop env partialOk xs s of
             (s, Inl p) \<Rightarrow> (s, Inl p)
           | (s, Inr b) \<Rightarrow> (s, Inr (b\<lparr>br_Receipts := receipt # br_Receipts b, br_Success := br_Success b + 1\<rparr>))))"

text \<open>\<open>None\<close> is the refusal of an empty batch.\<close>

definition SubmitExecutionReportBatch ::
  "('sk, 'pk, 'd) Service_Env \<Rightarrow> bool option \<Rightarrow> (service_clock \<times> ExecutionReport option) list \<Rightarrow> ('sk, 'd) Service \<Rightarrow>
   ('sk, 'd) Service \<times> (go_panic + Batch_Response) option" where
  "SubmitExecutionReportBatch env partialOk reports s =
     (if reports = [] then (s, None)
      else map_prod id Some (report_batch_loop env (partialOk = Some True) reports s))"

subsection \<open>Checkpoints and queries\<close>

datatype rpc_error = NotFound | PermissionDenied | Internal | InvalidArgument

definition GetCheckpoint_service :: "u64 \<Rightarrow> ('sk, 'd) Service \<Rightarrow> ('sk, 'd) Service \<times> (rpc_error + CheckpointHeader)" where
  "GetCheckpoint_service epoch s =
     (case GetCheckpoint_node (sv_node s) epoch of
        (n, None) \<Rightarrow> (s\<lparr>sv_node := n\<rparr>, Inl NotFound)
      | (n, Some cp) \<Rightarrow> (s\<lparr>sv_node := n\<rparr>, Inr cp))"

definition ProposeHeader_service ::
  "('sk, 'pk, 'd) Service_Env \<Rightarrow> CheckpointHeader \<Rightarrow> int \<Rightarrow> ('sk, 'd) Service \<Rightarrow> ('sk, 'd) Service \<times> (go_panic + rpc_error option)" where
  "ProposeHeader_service env header now s =
     (case IsLeader (sv_node s) (h_Epoch header) of
        (n, False) \<Rightarrow> (s\<lparr>sv_node := n\<rparr>, Inr (Some PermissionDenied))
      | (n, True) \<Rightarrow>
          (case HandleProposal (se_node env) n header now of
             (n, Inl p) \<Rightarrow> (s\<lparr>sv_node := n\<rparr>, Inl p)
           | (n, Inr (Some err)) \<Rightarrow> (s\<lparr>sv_node := n\<rparr>, Inr (Some Internal))
           | (n, Inr None) \<Rightarrow> (s\<lparr>sv_node := n\<rparr>, Inr None)))"

text \<open>A submission without a signature reaches a log call that reads its signer.\<close>

definition SubmitSignature ::
  "('sk, 'pk, 'd) Service_Env \<Rightarrow> Signature option \<Rightarrow> int \<Rightarrow> ('sk, 'd) Service \<Rightarrow> ('sk, 'd) Service \<times> (go_panic + rpc_error option)" where
  "SubmitSignature env signature now s =
     (case signature of
        None \<Rightarrow> (s, Inl NilDereference)
      | Some sig \<Rightarrow>
          (case AddSignature_node (se_node env) (sv_node s) sig now of
             (n, Inl p) \<Rightarrow> (s\<lparr>sv_node := n\<rparr>, Inl p)
           | (n, Inr (Some err)) \<Rightarrow> (s\<lparr>sv_node := n\<rparr>, Inr (Some InvalidArgument))
           | (n, Inr None) \<Rightarrow> (s\<lparr>sv_node := n\<rparr>, Inr None)))"

text \<open>A stream sends its items until one fails: what was sent, and whether all were.\<close>

definition stream_out :: "('x \<Rightarrow> bool) \<Rightarrow> 'x list \<Rightarrow> 'x list \<times> bool" where
  "stream_out send xs = (takeWhile send xs, list_all send xs)"

definition GetSignatures_service :: "(Signature \<Rightarrow> bool) \<Rightarrow> u64 \<Rightarrow> string list \<Rightarrow> ('sk, 'd) Service \<Rightarrow> Signature list \<times> bool" where
  "GetSignatures_service send epoch order s = stream_out send (GetSignatures_node (sv_node s) epoch order)"

record PB_ValidatorSet =
  ps_Validators :: "(string \<times> bytes \<times> u64) list"
  ps_MinValidators :: "32 word"
  ps_ThresholdNum :: "32 word"
  ps_ThresholdDenom :: "32 word"

definition GetValidatorSet_service :: "('sk, 'd) Service \<Rightarrow> PB_ValidatorSet" where
  "GetValidatorSet_service s =
     (let vset = GetValidatorSet_node (sv_node s) in
      \<lparr>ps_Validators = map (\<lambda>v. (v_ID v, v_PubKey v, v_Weight v)) (vs_Validators vset),
       ps_MinValidators = word_of_int (vs_MinValidators vset), ps_ThresholdNum = word_of_int (vs_ThresholdNum vset),
       ps_ThresholdDenom = word_of_int (vs_ThresholdDenom vset)\<rparr>)"

definition GetDoubleSignEvidences_service ::
  "('sk, 'pk, 'd) Service_Env \<Rightarrow> (DoubleSignEvidence \<Rightarrow> bool) \<Rightarrow> string \<Rightarrow> u64 \<Rightarrow> ('sk, 'd) Service \<Rightarrow> DoubleSignEvidence list \<times> bool" where
  "GetDoubleSignEvidences_service env send validatorID epoch s =
     stream_out send (GetDoubleSignEvidences (se_node env) (sv_node s) validatorID epoch 0)"

definition GetVerificationRecords_service where
  "GetVerificationRecords_service send intentID order now s =
     stream_out send (GetVerificationRecords (sv_node s) intentID 0 0 order now)"

definition GetExecutionReport_service ::
  "('sk, 'pk, 'd) Service_Env \<Rightarrow> string \<Rightarrow> ('sk, 'd) Service \<Rightarrow> rpc_error + ExecutionReport" where
  "GetExecutionReport_service env reportID s =
     (if reportID = [] then Inl InvalidArgument
      else case GetExecutionReportByID (se_node env) (sv_node s) reportID of None \<Rightarrow> Inl NotFound | Some r \<Rightarrow> Inr r)"

text \<open>\<open>order\<close> is the order in which the runtime visits the reports found.\<close>

definition ListExecutionReports_service ::
  "('sk, 'pk, 'd) Service_Env \<Rightarrow> string \<Rightarrow> u32 \<Rightarrow> string list \<Rightarrow> ('sk, 'd) Service \<Rightarrow> rpc_error + (string \<times> ExecutionReport) list \<times> u32" where
  "ListExecutionReports_service env intentID reqLimit order s =
     (let limit = (if reqLimit = 0 then 100 else reqLimit) in
      case ListExecutionReports (se_node env) (sv_node s) intentID (int (unat limit)) of
        None \<Rightarrow> Inl Internal
      | Some reports \<Rightarrow>
          let entries = List.map_filter (\<lambda>reportID. map_option (Pair reportID) (reports reportID)) order in
          Inr (entries, word_of_nat (length entries)))"

section \<open>Rate limits\<close>

lemma verify_reporter_frame:
  assumes "verify_reporter env ck r s = (s', e)"
  shows "sv_reportRateLimit s' = sv_reportRateLimit s" "sv_node s' = sv_node s"
  using assms by (auto simp: verify_reporter_def split: option.splits prod.splits)

lemma IsLeader_again: "snd (IsLeader (fst (IsLeader n e)) e) = snd (IsLeader n e)"
  by (simp add: IsLeader_def Leader_def switch_epoch_def Let_def)

text \<open>The last report of the agent that passed lies less than a second before every reading of the clock in the batch.\<close>

definition rate_limited :: "string \<Rightarrow> int \<Rightarrow> ('sk, 'd) Service \<Rightarrow> bool" where
  "rate_limited agent t s \<longleftrightarrow> sv_reportRateLimit s agent = Some t"

lemma process_limited:
  assumes "rate_limited agent t s" "er_AgentId r = agent" "sc_rate ck - t < second"
  shows "rate_limited agent t (fst (processSingleReport env ck (Some r) s)) \<and> (\<exists>err. snd (processSingleReport env ck (Some r) s) = Inl err)"
proof -
  obtain s' e where v: "verify_reporter env ck r s = (s', e)" by fastforce
  have l: "sv_reportRateLimit s' agent = Some t" using verify_reporter_frame(1) [OF v] assms(1) by (simp add: rate_limited_def)
  then have "checkRateLimit (er_AgentId r) (sc_rate ck) s' = (s', False)"
    using assms(2,3) by (simp add: checkRateLimit_def time_sub_def second_def)
  with v l assms(1) show ?thesis
    by (auto simp: processSingleReport_def rate_limited_def split: option.splits)
qed

lemma process_accepts:
  assumes "snd (processSingleReport env ck (Some r) s) = Inr receipt"
  shows "rate_limited (er_AgentId r) (sc_rate ck) (fst (processSingleReport env ck (Some r) s))"
  using assms
  by (auto simp: processSingleReport_def rate_limited_def checkRateLimit_def split: option.splits prod.splits if_splits sum.splits)

lemma batch_limited:
  assumes "rate_limited agent t s" "\<forall>(ck, x) \<in> set xs. \<exists>r. x = Some r \<and> er_AgentId r = agent \<and> sc_rate ck - t < second"
    and "report_batch_loop env partialOk xs s = (s', Inr b)"
  shows "br_Success b = 0"
  using assms
proof (induction xs arbitrary: s s' b)
  case (Cons x xs)
  obtain ck r where x: "x = (ck, Some r)" and r: "er_AgentId r = agent" "sc_rate ck - t < second"
    using Cons.prems(2) by (cases x) auto
  obtain s1 err where p: "processSingleReport env ck (Some r) s = (s1, Inl err)" "rate_limited agent t s1"
    using process_limited [OF Cons.prems(1) r] by (metis prod.collapse)
  have rest: "\<forall>(ck, x) \<in> set xs. \<exists>r. x = Some r \<and> er_AgentId r = agent \<and> sc_rate ck - t < second" using Cons.prems(2) by simp
  show ?case
    using Cons.prems(3) x p(1) Cons.IH [OF p(2) rest] by (auto simp: Let_def split: if_splits prod.splits sum.splits)
qed simp

lemma batch_at_most_one:
  assumes "\<forall>(ck, x) \<in> set xs. \<exists>r. x = Some r \<and> er_AgentId r = agent \<and> lo \<le> sc_rate ck \<and> sc_rate ck < lo + second"
    and "report_batch_loop env partialOk xs s = (s', Inr b)"
  shows "br_Success b = 0 \<or> br_Success b = 1"
  using assms
proof (induction xs arbitrary: s s' b)
  case (Cons x xs)
  obtain ck r where x: "x = (ck, Some r)" and r: "er_AgentId r = agent" "lo \<le> sc_rate ck" "sc_rate ck < lo + second"
    using Cons.prems(1) by (cases x) auto
  have rest: "\<forall>(ck, x) \<in> set xs. \<exists>r. x = Some r \<and> er_AgentId r = agent \<and> lo \<le> sc_rate ck \<and> sc_rate ck < lo + second"
    using Cons.prems(1) by simp
  obtain s1 res where p: "processSingleReport env ck (Some r) s = (s1, res)" by fastforce
  show ?case
  proof (cases res)
    case (Inl err)
    then show ?thesis using Cons.prems(2) x p Cons.IH [OF rest, of s1] by (auto simp: Let_def split: if_splits prod.splits sum.splits)
  next
    case (Inr receipt)
    have "rate_limited agent (sc_rate ck) s1" using process_accepts [of env ck r s receipt] p Inr r(1) by simp
    moreover have "\<forall>(ck', x) \<in> set xs. \<exists>r. x = Some r \<and> er_AgentId r = agent \<and> sc_rate ck' - sc_rate ck < second"
      using rest r(2) by fastforce
    ultimately show ?thesis
      using Cons.prems(2) x p Inr batch_limited [of agent "sc_rate ck" s1 xs env partialOk] by (auto split: prod.splits sum.splits)
  qed
qed simp

lemma report_batch_counts:
  assumes "report_batch_loop env partialOk xs s = (s', Inr b)"
  shows "length (br_Receipts b) = length xs \<and> br_Success b + br_Failed b = word_of_nat (length xs)"
  using assms
proof (induction xs arbitrary: s s' b)
  case (Cons x xs)
  obtain s1 res where p: "processSingleReport env (fst x) (snd x) s = (s1, res)" by fastforce
  show ?case
  proof (cases res)
    case (Inl err)
    then show ?thesis
      using Cons.prems p Cons.IH [of s1]
      by (auto simp: Let_def algebra_simps split: option.splits if_splits prod.splits sum.splits)
  next
    case (Inr receipt)
    then show ?thesis
      using Cons.prems p Cons.IH [of s1] by (auto simp: algebra_simps split: prod.splits sum.splits)
  qed
qed simp

lemma batch_no_panic:
  assumes "\<forall>x \<in> set xs. snd x \<noteq> None"
  shows "\<exists>b. snd (report_batch_loop env partialOk xs s) = Inr b"
  using assms
proof (induction xs arbitrary: s)
  case (Cons x xs)
  obtain s1 res where p: "processSingleReport env (fst x) (snd x) s = (s1, res)" by fastforce
  obtain s2 b where "report_batch_loop env partialOk xs s1 = (s2, Inr b)" using Cons.IH [of s1] Cons.prems by (metis list.set_intros(2) prod.collapse)
  moreover obtain r where "snd x = Some r" using Cons.prems by auto
  ultimately show ?case using p Cons.prems by (cases res) (auto simp: Let_def)
qed simp

section \<open>Properties\<close>

text \<open>
  A batch without empty entries always gets one receipt per report, and its two counters add up to the number of reports. Of a
  batch of one agent at most one report is accepted if the rate limit is checked within one second: the limit of one report per second
  applies inside a batch as well.
\<close>
theorem batch_of_one_agent:
  assumes "reports \<noteq> []"
    and "\<forall>(ck, x) \<in> set reports. \<exists>r. x = Some r \<and> er_AgentId r = agent \<and> lo \<le> sc_rate ck \<and> sc_rate ck < lo + second"
  shows "\<exists>b. snd (SubmitExecutionReportBatch env partialOk reports s) = Some (Inr b)
    \<and> length (br_Receipts b) = length reports \<and> br_Success b + br_Failed b = word_of_nat (length reports)
    \<and> (br_Success b = 0 \<or> br_Success b = 1)"
proof -
  have "\<forall>x \<in> set reports. snd x \<noteq> None" using assms(2) by fastforce
  then obtain s' b where b: "report_batch_loop env (partialOk = Some True) reports s = (s', Inr b)"
    using batch_no_panic [of reports env "partialOk = Some True" s] by (metis prod.collapse)
  show ?thesis
    using b assms(1) report_batch_counts [OF b] batch_at_most_one [OF assms(2) b] by (simp add: SubmitExecutionReportBatch_def)
qed

definition example_engine :: "(unit, (bytes \<times> bytes) list) Engine_Env" where
  "example_engine = \<lparr>en_IsLeader = False, en_LeaderAddress = [], en_Apply = (\<lambda>n r. (n, None)), en_Propose = (\<lambda>n r i. (n, None)),
     en_Peers = [], en_LookupHost = (\<lambda>h. None), en_Endpoints = Map.empty, en_Forward = (\<lambda>e r. Inl ''unreachable'')\<rparr>"

definition example_service_env :: "(unit, unit, (bytes \<times> bytes) list) Service_Env" where
  "example_service_env = \<lparr>se_node = example_env, se_engine = example_engine, se_addresses = example_lib, se_contract = (\<lambda>_ _. Inr True)\<rparr>"

definition example_service :: "(unit, (bytes \<times> bytes) list) Service" where
  "example_service = NewServer_validator (fresh_node ''v1'' () single_set False False False example_config [])"

definition service_time :: "int \<Rightarrow> service_clock" where
  "service_time t = \<lparr>sc_verify = t, sc_verified = t, sc_rate = t, sc_stamp = t, sc_receipt = t, sc_reject = t\<rparr>"

theorem batch_of_one_agent_witness:
  "\<exists>b. snd (SubmitExecutionReportBatch example_service_env (Some True)
      [(service_time 0, Some signed_example_report), (service_time 1, Some signed_example_report)] example_service) = Some (Inr b)
    \<and> length (br_Receipts b) = 2 \<and> br_Success b + br_Failed b = 2 \<and> (br_Success b = 0 \<or> br_Success b = 1)"
  using batch_of_one_agent [of "[(service_time 0, Some signed_example_report), (service_time 1, Some signed_example_report)]" "''g''" 0
      example_service_env "Some True" example_service]
  by (simp add: service_time_def signed_example_report_def second_def numeral_2_eq_2)

text \<open>
  C31: A proposal that arrives by the service changes the round, the signatures or the checkpoint only at the leader of its epoch, and only
  if the leader's round is idle: the service asks whether the receiver is the leader, so every follower refuses the proposals of the leader.
\<close>
theorem proposals_only_at_idle_leader:
  assumes "ProposeHeader_service env header now s = (s', r)"
    and "n_fsm (sv_node s') \<noteq> n_fsm (sv_node s) \<or> n_signatures (sv_node s') \<noteq> n_signatures (sv_node s)
      \<or> n_currentCheckpoint (sv_node s') \<noteq> n_currentCheckpoint (sv_node s)"
  shows "snd (IsLeader (sv_node s) (h_Epoch header)) \<and> sm_state (n_fsm (sv_node s)) = StateIdle"
proof -
  obtain n l where n: "IsLeader (sv_node s) (h_Epoch header) = (n, l)" by fastforce
  then have same: "n_fsm n = n_fsm (sv_node s)" "n_signatures n = n_signatures (sv_node s)" "n_currentCheckpoint n = n_currentCheckpoint (sv_node s)"
    using IsLeader_fields [of "sv_node s" "h_Epoch header"] by simp_all
  have "snd (IsLeader n (h_Epoch header)) = l" using IsLeader_again [of "sv_node s" "h_Epoch header"] by (simp add: n)
  then obtain n2 where n2: "IsLeader n (h_Epoch header) = (n2, l)" by (cases "IsLeader n (h_Epoch header)") auto
  then have same2: "n_fsm n2 = n_fsm n" "n_signatures n2 = n_signatures n" "n_currentCheckpoint n2 = n_currentCheckpoint n"
    using IsLeader_fields [of n "h_Epoch header"] by simp_all
  show ?thesis
  proof (rule ccontr)
    assume not: "\<not> ?thesis"
    show False
    proof (cases l)
      case False
      then show False using assms n same by (auto simp: ProposeHeader_service_def)
    next
      case True
      then have "sm_state (n_fsm n) \<noteq> StateIdle" using not n same by simp
      then have "HandleProposal (se_node env) n header now = (n2, Inr None)" using n2 True same2 by (simp add: HandleProposal_def)
      then show False using assms n True same same2 by (auto simp: ProposeHeader_service_def)
    qed
  qed
qed

theorem proposals_only_at_idle_leader_witness:
  "snd (IsLeader (sv_node example_service) (h_Epoch (example_proto_header 0))) \<and> sm_state (n_fsm (sv_node example_service)) = StateIdle"
proof -
  let ?n = "fresh_node ''v1'' () single_set False False False example_config ([] :: (bytes \<times> bytes) list)"
  have leader: "IsLeader ?n 0 = (?n, True)"
    by (simp add: IsLeader_def fresh_node_def Leader_def switch_epoch_def NewLeaderTracker_def SelectLeader_def validator_at_def
        single_set_def example_validator_def)
  have node: "single_node = fst (HandleProposal example_env ?n (example_proto_header 0) 1)"
    by (simp add: single_node_def NewNode_example)
  have idle: "sm_state (n_fsm ?n) = StateIdle" by (simp add: fresh_node_def NewStateMachineWithConfig_def Let_def)
  have "h_Epoch (example_proto_header 0) = 0" by (simp add: example_proto_header_def)
  then have "sv_node (fst (ProposeHeader_service example_service_env (example_proto_header 0) 1 example_service)) = single_node"
    by (simp add: ProposeHeader_service_def example_service_def NewServer_validator_def leader node example_service_env_def split: prod.split sum.split option.split)
  moreover have "n_fsm single_node \<noteq> n_fsm ?n" using single_node_facts(2) idle by auto
  ultimately show ?thesis
    using proposals_only_at_idle_leader [of example_service_env "example_proto_header 0" 1 example_service, OF prod.collapse [symmetric]]
    by (simp add: example_service_def NewServer_validator_def)
qed

end
