(* ===== verification/Intent_Fanout.thy ===== *)
theory Intent_Fanout
  imports Bid_Book Matching
begin

text \<open>
  How intents and bid events reach the agents: the broadcasters of \<open>src/internal/matcher/broadcaster.go\<close> and the intent puller of
  \<open>src/internal/matcher/intent_puller.go\<close>. Channels are shared by the maps and by goroutines, so they live in a heap. A send on a closed
  channel panics, a send to a full channel drops the value (or times out).
\<close>

section \<open>Model\<close>

subsection \<open>Broadcasters\<close>

record 'u Channel =
  ch_buffer :: "'u list"
  ch_capacity :: nat
  ch_closed :: bool

definition make_channel :: "nat \<Rightarrow> 'u Channel" where
  "make_channel capacity = \<lparr>ch_buffer = [], ch_capacity = capacity, ch_closed = False\<rparr>"

text \<open>\<open>intentBroadcaster\<close> and \<open>bidBroadcaster\<close> differ in the type of the events and in the capacity, 32 and 64.\<close>

record 'u Broadcaster =
  bc_channels :: "'u Channel list"
  bc_subs :: "u64 \<rightharpoonup> nat"
  bc_next :: u64

definition newBroadcaster :: "'u Broadcaster" where
  "newBroadcaster = \<lparr>bc_channels = [], bc_subs = Map.empty, bc_next = 0\<rparr>"

definition subscribe :: "nat \<Rightarrow> 'u Broadcaster \<Rightarrow> 'u Broadcaster \<times> u64 \<times> nat" where
  "subscribe capacity b =
     (let sid = bc_next b; ch = length (bc_channels b) in
      (b\<lparr>bc_channels := bc_channels b @ [make_channel capacity], bc_subs := (bc_subs b)(sid \<mapsto> ch), bc_next := sid + 1\<rparr>, sid, ch))"

definition close_channel :: "nat \<Rightarrow> 'u Broadcaster \<Rightarrow> 'u Broadcaster \<times> go_panic option" where
  "close_channel ch b =
     (if ch_closed (bc_channels b ! ch) then (b, Some CloseOfClosedChannel)
      else (b\<lparr>bc_channels := (bc_channels b)[ch := (bc_channels b ! ch)\<lparr>ch_closed := True\<rparr>]\<rparr>, None))"

definition unsubscribe :: "u64 \<Rightarrow> 'u Broadcaster \<Rightarrow> 'u Broadcaster \<times> go_panic option" where
  "unsubscribe sid b =
     (case bc_subs b sid of
        None \<Rightarrow> (b, None)
      | Some ch \<Rightarrow> close_channel ch (b\<lparr>bc_subs := (bc_subs b)(sid := None)\<rparr>))"

text \<open>\<open>broadcast\<close> copies the channels under the lock, in some order, and sends after it has released the lock.\<close>

definition copy_subs :: "u64 list \<Rightarrow> 'u Broadcaster \<Rightarrow> nat list" where
  "copy_subs order b = List.map_filter (bc_subs b) order"

definition send_or_drop :: "'u \<Rightarrow> 'u Channel \<Rightarrow> go_panic + 'u Channel" where
  "send_or_drop x c =
     (if ch_closed c then Inl SendOnClosedChannel
      else Inr (if length (ch_buffer c) < ch_capacity c then c\<lparr>ch_buffer := ch_buffer c @ [x]\<rparr> else c))"

primrec send_all :: "'u \<Rightarrow> nat list \<Rightarrow> 'u Broadcaster \<Rightarrow> 'u Broadcaster \<times> go_panic option" where
  "send_all x [] b = (b, None)"
| "send_all x (ch # chs) b =
     (case send_or_drop x (bc_channels b ! ch) of
        Inl p \<Rightarrow> (b, Some p)
      | Inr c \<Rightarrow> send_all x chs (b\<lparr>bc_channels := (bc_channels b)[ch := c]\<rparr>))"

definition broadcast :: "'u \<Rightarrow> u64 list \<Rightarrow> 'u Broadcaster \<Rightarrow> 'u Broadcaster \<times> go_panic option" where
  "broadcast x order b = send_all x (copy_subs order b) b"

text \<open>What other goroutines do meanwhile: subscribe, unsubscribe, and receive.\<close>

datatype bc_call = Subscribe | Unsubscribe u64 | Receive nat

primrec bc_step :: "nat \<Rightarrow> 'u Broadcaster \<Rightarrow> bc_call \<Rightarrow> 'u Broadcaster" where
  "bc_step capacity b Subscribe = fst (subscribe capacity b)"
| "bc_step capacity b (Unsubscribe sid) = fst (unsubscribe sid b)"
| "bc_step capacity b (Receive ch) =
     b\<lparr>bc_channels := (bc_channels b)[ch := (bc_channels b ! ch)\<lparr>ch_buffer := tl (ch_buffer (bc_channels b ! ch))\<rparr>]\<rparr>"

definition bc_run :: "nat \<Rightarrow> 'u Broadcaster \<Rightarrow> bc_call list \<Rightarrow> 'u Broadcaster" where
  "bc_run capacity b calls = foldl (bc_step capacity) b calls"

subsection \<open>The intent puller\<close>

record IntentSubscription =
  is_AgentID :: string
  is_Capabilities :: "string list"
  is_updates :: "Intent_types list"
  is_closed :: bool

record IntentPuller =
  ip_objects :: "IntentSubscription list"
  ip_subscriptions :: "string \<rightharpoonup> nat"
  ip_pendingIntents :: "string \<rightharpoonup> Intent_types"
  ip_processedIntents :: "string \<rightharpoonup> bool"

definition NewIntentPuller :: IntentPuller where
  "NewIntentPuller = \<lparr>ip_objects = [], ip_subscriptions = Map.empty, ip_pendingIntents = Map.empty, ip_processedIntents = Map.empty\<rparr>"

definition intent_status_text :: "int \<Rightarrow> string" where
  "intent_status_text s =
     (if s = 0 then ''INTENT_STATUS_UNSPECIFIED'' else if s = 1 then ''INTENT_STATUS_PENDING''
      else if s = 2 then ''INTENT_STATUS_CHAINED'' else if s = 3 then ''INTENT_STATUS_PROCESSING''
      else if s = 4 then ''INTENT_STATUS_COMPLETED'' else if s = 5 then ''INTENT_STATUS_EXPIRED''
      else if s = 6 then ''INTENT_STATUS_FAILED'' else dec_int s)"

text \<open>The budget is the number at the start of its text, or 0.\<close>

definition convert_intent :: "Intent \<Rightarrow> Intent_types" where
  "convert_intent ri =
     \<lparr>ti_IntentID = in_IntentId ri, ti_SubnetID = in_SubnetId ri, ti_Requester = in_Requester ri, ti_IntentType = in_IntentType ri,
      ti_CreatedAt = in_CreatedAt ri, ti_Deadline = in_Deadline ri,
      ti_ParamsHash = (case in_Params ri of None \<Rightarrow> [] | Some _ \<Rightarrow> string_of (in_ParamsHash ri)),
      ti_Budget = (case scan_uint (in_Budget ri) of None \<Rightarrow> 0 | Some (budget, _) \<Rightarrow> budget),
      ti_PaymentToken = in_BudgetToken ri, ti_Status = intent_status_text (in_Status ri), ti_BiddingStartTime = 0, ti_BiddingEndTime = 0,
      ti_IntentData = (case in_Params ri of None \<Rightarrow> [] | Some p \<Rightarrow> ip_IntentRaw p), ti_Token = []\<rparr>"

definition take_new :: "Intent_types \<Rightarrow> IntentPuller \<times> Intent_types list \<Rightarrow> IntentPuller \<times> Intent_types list" where
  "take_new intent st =
     (case st of (p, newIntents) \<Rightarrow>
      if ip_processedIntents p (ti_IntentID intent) \<noteq> Some True then
        (p\<lparr>ip_pendingIntents := (ip_pendingIntents p)(ti_IntentID intent \<mapsto> intent),
           ip_processedIntents := (ip_processedIntents p)(ti_IntentID intent \<mapsto> True)\<rparr>, newIntents @ [intent])
      else st)"

text \<open>\<open>response\<close>: no client, or what the root layer answered, an error or its pending intents.\<close>

definition PullPendingIntents :: "(unit + Intent list) option \<Rightarrow> IntentPuller \<Rightarrow> IntentPuller \<times> Intent_types list" where
  "PullPendingIntents response p =
     (let intents = (case response of Some (Inr rootIntents) \<Rightarrow> map convert_intent rootIntents | _ \<Rightarrow> []) in
      fold take_new intents (p, []))"

definition Close :: "nat \<Rightarrow> IntentPuller \<Rightarrow> IntentPuller" where
  "Close obj p =
     (if \<not> is_closed (ip_objects p ! obj)
      then p\<lparr>ip_objects := (ip_objects p)[obj := (ip_objects p ! obj)\<lparr>is_closed := True\<rparr>]\<rparr> else p)"

text \<open>The new subscription; a goroutine then runs \<open>sendPendingIntents\<close> on it.\<close>

definition Subscribe_puller :: "string \<Rightarrow> string list \<Rightarrow> IntentPuller \<Rightarrow> IntentPuller \<times> nat" where
  "Subscribe_puller agentID capabilities p =
     (let p = (case ip_subscriptions p agentID of Some existing \<Rightarrow> Close existing p | None \<Rightarrow> p);
          sub = length (ip_objects p) in
      (p\<lparr>ip_objects := ip_objects p @ [\<lparr>is_AgentID = agentID, is_Capabilities = capabilities, is_updates = [], is_closed = False\<rparr>],
         ip_subscriptions := (ip_subscriptions p)(agentID \<mapsto> sub)\<rparr>, sub))"

definition Unsubscribe_puller :: "string \<Rightarrow> IntentPuller \<Rightarrow> IntentPuller" where
  "Unsubscribe_puller agentID p =
     (case ip_subscriptions p agentID of
        Some sub \<Rightarrow> (Close sub p)\<lparr>ip_subscriptions := (ip_subscriptions p)(agentID := None)\<rparr>
      | None \<Rightarrow> p)"

definition matchesCapabilities :: "Intent_types \<Rightarrow> string list \<Rightarrow> bool" where
  "matchesCapabilities intent capabilities =
     (if length capabilities = 0 then False else list_ex (\<lambda>c. c = ti_IntentType intent \<or> c = ''*'') capabilities)"

text \<open>A buffered channel of 100 intents.\<close>

definition push_or_skip :: "Intent_types \<Rightarrow> nat \<Rightarrow> IntentPuller \<Rightarrow> go_panic + IntentPuller" where
  "push_or_skip intent obj p =
     (let sub = ip_objects p ! obj in
      if is_closed sub then Inl SendOnClosedChannel
      else Inr (if length (is_updates sub) < 100
                then p\<lparr>ip_objects := (ip_objects p)[obj := sub\<lparr>is_updates := is_updates sub @ [intent]\<rparr>]\<rparr> else p))"

primrec broadcast_to :: "Intent_types \<Rightarrow> string list \<Rightarrow> IntentPuller \<Rightarrow> go_panic + IntentPuller" where
  "broadcast_to intent [] p = Inr p"
| "broadcast_to intent (agentID # agents) p =
     (case ip_subscriptions p agentID of
        None \<Rightarrow> broadcast_to intent agents p
      | Some sub \<Rightarrow>
          if matchesCapabilities intent (is_Capabilities (ip_objects p ! sub))
          then (case push_or_skip intent sub p of Inl e \<Rightarrow> Inl e | Inr p \<Rightarrow> broadcast_to intent agents p)
          else broadcast_to intent agents p)"

definition BroadcastIntent :: "Intent_types \<Rightarrow> string list \<Rightarrow> IntentPuller \<Rightarrow> go_panic + IntentPuller" where
  "BroadcastIntent intent order p = broadcast_to intent order p"

text \<open>
  The goroutine of a new subscription: it copies the matching pending intents under the lock and then sends them one by one; a send to a
  full channel waits a second and gives up. \<open>pending_copy\<close> is the copy, \<open>push_next\<close> one send, \<open>None\<close> the time-out.
\<close>

definition pending_copy :: "string list \<Rightarrow> nat \<Rightarrow> IntentPuller \<Rightarrow> Intent_types list" where
  "pending_copy order sub p =
     filter (\<lambda>intent. matchesCapabilities intent (is_Capabilities (ip_objects p ! sub))) (List.map_filter (ip_pendingIntents p) order)"

definition push_next :: "Intent_types \<Rightarrow> nat \<Rightarrow> IntentPuller \<Rightarrow> go_panic + IntentPuller option" where
  "push_next intent obj p =
     (let sub = ip_objects p ! obj in
      if is_closed sub then Inl SendOnClosedChannel
      else if length (is_updates sub) < 100
      then Inr (Some (p\<lparr>ip_objects := (ip_objects p)[obj := sub\<lparr>is_updates := is_updates sub @ [intent]\<rparr>]\<rparr>))
      else Inr None)"

text \<open>\<open>order\<close> is the order in which the runtime visits the records: half of them go, whichever come first.\<close>

definition CleanupProcessed :: "string list \<Rightarrow> IntentPuller \<Rightarrow> IntentPuller \<times> nat" where
  "CleanupProcessed order p =
     (if length order > 1000
      then (p\<lparr>ip_processedIntents := foldl (\<lambda>m k. m(k := None)) (ip_processedIntents p) (take 500 order)\<rparr>, 500)
      else (p, 0))"

definition GetSubscriberCount :: "string list \<Rightarrow> nat" where
  "GetSubscriberCount order = length order"

text \<open>The calls on a puller and the sends of its goroutines; a panic ends the process.\<close>

inductive puller_step :: "IntentPuller \<Rightarrow> IntentPuller \<Rightarrow> bool" where
  pull: "puller_step p (fst (PullPendingIntents response p))"
| subscribe: "puller_step p (fst (Subscribe_puller agentID capabilities p))"
| unsubscribe: "puller_step p (Unsubscribe_puller agentID p)"
| broadcast: "BroadcastIntent intent order p = Inr p' \<Longrightarrow> puller_step p p'"
| push: "sub < length (ip_objects p) \<Longrightarrow> push_next intent sub p = Inr (Some p') \<Longrightarrow> puller_step p p'"
| receive: "sub < length (ip_objects p) \<Longrightarrow>
    puller_step p (p\<lparr>ip_objects := (ip_objects p)[sub := (ip_objects p ! sub)\<lparr>is_updates := tl (is_updates (ip_objects p ! sub))\<rparr>]\<rparr>)"
| cleanup: "range_order (ip_processedIntents p) order \<Longrightarrow> puller_step p (fst (CleanupProcessed order p))"

inductive puller_reachable :: "IntentPuller \<Rightarrow> bool" where
  start: "puller_reachable NewIntentPuller"
| step: "puller_reachable p \<Longrightarrow> puller_step p p' \<Longrightarrow> puller_reachable p'"

section \<open>Broadcasters\<close>

text \<open>Every subscribed channel is open, every other one is closed, and \<open>k\<close> identifiers have been given out.\<close>

definition bc_ok :: "nat \<Rightarrow> 'u Broadcaster \<Rightarrow> bool" where
  "bc_ok k b \<longleftrightarrow> k < 2 ^ 64 \<and> bc_next b = word_of_nat k \<and>
     (\<forall>sid ch. bc_subs b sid = Some ch \<longrightarrow> unat sid < k \<and> ch < length (bc_channels b)) \<and>
     inj_on (bc_subs b) (dom (bc_subs b)) \<and>
     (\<forall>ch < length (bc_channels b). ch_closed (bc_channels b ! ch) \<longleftrightarrow> ch \<notin> ran (bc_subs b))"

lemma bc_ok_new: "bc_ok 0 newBroadcaster"
  by (simp add: bc_ok_def newBroadcaster_def)

lemma bc_okD:
  assumes "bc_ok k b"
  shows "bc_next b = word_of_nat k" "k < 2 ^ 64"
    "bc_subs b sid = Some ch \<Longrightarrow> unat sid < k" "bc_subs b sid = Some ch \<Longrightarrow> ch < length (bc_channels b)"
    "inj_on (bc_subs b) (dom (bc_subs b))"
    "ch < length (bc_channels b) \<Longrightarrow> ch_closed (bc_channels b ! ch) \<longleftrightarrow> ch \<notin> ran (bc_subs b)"
  using assms unfolding bc_ok_def by blast+

lemma fresh_id:
  assumes "bc_ok k b"
  shows "bc_subs b (bc_next b) = None"
proof (rule ccontr)
  assume "bc_subs b (bc_next b) \<noteq> None"
  then obtain ch where "bc_subs b (bc_next b) = Some ch" by blast
  from bc_okD(3) [OF assms this] have "unat (bc_next b) < k" .
  with bc_okD(1,2) [OF assms] show False by (simp add: unat_of_nat take_bit_nat_eq_self)
qed

lemma subscribe_ok:
  assumes "bc_ok k b" "Suc k < 2 ^ 64"
  shows "bc_ok (Suc k) (fst (subscribe capacity b))"
proof -
  note D = bc_okD [OF assms(1)]
  have next_id: "unat (bc_next b) = k" using D(1,2) by (simp add: unat_of_nat take_bit_nat_eq_self)
  have ran: "length (bc_channels b) \<notin> ran (bc_subs b)" using D(4) by (force simp: ran_def)
  have inj: "inj_on ((bc_subs b)(bc_next b \<mapsto> length (bc_channels b))) (dom ((bc_subs b)(bc_next b \<mapsto> length (bc_channels b))))"
    using D(5) D(4) by (fastforce simp: inj_on_def)
  show ?thesis
    using D assms(2) next_id ran inj fresh_id [OF assms(1)]
    by (auto simp: bc_ok_def subscribe_def make_channel_def Let_def nth_append less_Suc_eq ran_map_upd split: if_splits)
qed

lemma ran_removed:
  assumes "inj_on m (dom m)" "m k = Some c"
  shows "ran (m(k := None)) = ran m - {c}"
proof (intro equalityI subsetI)
  fix x assume "x \<in> ran (m(k := None))"
  then obtain a where a: "a \<noteq> k" "m a = Some x" by (auto simp: ran_def split: if_splits)
  then have "x \<noteq> c" using assms by (metis domI inj_onD)
  with a show "x \<in> ran m - {c}" by (auto simp: ran_def)
next
  fix x assume "x \<in> ran m - {c}"
  then obtain a where "m a = Some x" "x \<noteq> c" by (auto simp: ran_def)
  with assms(2) have "(m(k := None)) a = Some x" by auto
  then show "x \<in> ran (m(k := None))" by (rule ranI)
qed

lemma unsubscribe_ok:
  assumes "bc_ok k b"
  shows "bc_ok k (fst (unsubscribe sid b))" "snd (unsubscribe sid b) = None"
proof -
  note D = bc_okD [OF assms]
  have "bc_ok k (fst (unsubscribe sid b)) \<and> snd (unsubscribe sid b) = None"
  proof (cases "bc_subs b sid")
    case None
    with assms show ?thesis by (simp add: unsubscribe_def)
  next
    case (Some ch)
    then have ch: "ch < length (bc_channels b)" "\<not> ch_closed (bc_channels b ! ch)" using D(4,6) by (auto simp: ran_def)
    have inj: "inj_on ((bc_subs b)(sid := None)) (dom ((bc_subs b)(sid := None)))" using D(5) by (auto simp: inj_on_def dom_def)
    show ?thesis
      using D ch Some inj ran_removed [OF D(5) Some]
      by (auto simp: bc_ok_def unsubscribe_def close_channel_def nth_list_update split: if_splits)
  qed
  then show "bc_ok k (fst (unsubscribe sid b))" "snd (unsubscribe sid b) = None" by blast+
qed

lemma field_kept: "f c = f (xs ! i) \<Longrightarrow> f (xs[i := c] ! j) = f (xs ! j)"
  by (cases "i < length xs"; cases "j = i") (simp_all add: list_update_beyond)

lemma receive_ok: "bc_ok k b \<Longrightarrow> bc_ok k (bc_step capacity b (Receive ch))"
  by (simp add: bc_ok_def field_kept [of ch_closed])

lemma bc_step_ok:
  assumes "bc_ok k b" "Suc k < 2 ^ 64"
  shows "\<exists>k' \<le> Suc k. bc_ok k' (bc_step capacity b call)"
  using assms subscribe_ok [OF assms] unsubscribe_ok(1) [OF assms(1)] receive_ok [OF assms(1)]
  by (cases call) (auto intro: le_SucI)

lemma bc_run_ok:
  assumes "bc_ok k b" "k + length calls < 2 ^ 64"
  shows "\<exists>k' \<le> k + length calls. bc_ok k' (bc_run capacity b calls)"
  using assms
proof (induction calls arbitrary: k b)
  case Nil
  then show ?case by (auto simp: bc_run_def)
next
  case (Cons call calls)
  then obtain k' where k': "k' \<le> Suc k" "bc_ok k' (bc_step capacity b call)" using bc_step_ok [of k b capacity call] by auto
  with Cons.prems Cons.IH [OF k'(2)] obtain k'' where "k'' \<le> k' + length calls" "bc_ok k'' (bc_run capacity (bc_step capacity b call) calls)"
    by auto
  with k'(1) show ?case by (intro exI [of _ k'']) (simp add: bc_run_def)
qed

lemma bc_run_length: "length (bc_channels b) \<le> length (bc_channels (bc_run capacity b calls))"
proof (induction calls arbitrary: b)
  case (Cons call calls)
  have "length (bc_channels b) \<le> length (bc_channels (bc_step capacity b call))"
    by (cases call) (simp_all add: subscribe_def unsubscribe_def close_channel_def Let_def split: option.split)
  with Cons [of "bc_step capacity b call"] show ?case by (simp add: bc_run_def)
qed (simp add: bc_run_def)

lemma send_all_panics:
  "snd (send_all x chs b) = (if \<exists>ch \<in> set chs. ch_closed (bc_channels b ! ch) then Some SendOnClosedChannel else None)"
proof (induction chs arbitrary: b)
  case (Cons ch chs)
  show ?case
  proof (cases "ch_closed (bc_channels b ! ch)")
    case True
    then show ?thesis by (simp add: send_or_drop_def)
  next
    case False
    then obtain c where c: "send_or_drop x (bc_channels b ! ch) = Inr c" "ch_closed c = ch_closed (bc_channels b ! ch)"
      by (simp add: send_or_drop_def)
    with False show ?thesis by (simp add: Cons field_kept [of ch_closed, OF c(2)])
  qed
qed simp

lemma copied_channels: "range_order (bc_subs b) order \<Longrightarrow> set (copy_subs order b) = ran (bc_subs b)"
  by (force simp: copy_subs_def range_order_def ran_def List.map_filter_def dom_def)

section \<open>The puller\<close>

definition puller_ok :: "IntentPuller \<Rightarrow> bool" where
  "puller_ok p \<longleftrightarrow> (\<forall>agent sub. ip_subscriptions p agent = Some sub \<longrightarrow>
     sub < length (ip_objects p) \<and> \<not> is_closed (ip_objects p ! sub) \<and> is_AgentID (ip_objects p ! sub) = agent)"

lemma puller_okD:
  assumes "puller_ok p" "ip_subscriptions p agent = Some sub"
  shows "sub < length (ip_objects p)" "\<not> is_closed (ip_objects p ! sub)" "is_AgentID (ip_objects p ! sub) = agent"
  using assms by (simp_all add: puller_ok_def)

lemma object_update:
  assumes "puller_ok p" "is_closed s = is_closed (ip_objects p ! i)" "is_AgentID s = is_AgentID (ip_objects p ! i)"
  shows "puller_ok (p\<lparr>ip_objects := (ip_objects p)[i := s]\<rparr>)"
  using assms(1) by (simp add: puller_ok_def field_kept [of is_closed, OF assms(2)] field_kept [of is_AgentID, OF assms(3)])

lemma puller_ok_fields:
  "puller_ok (p\<lparr>ip_pendingIntents := x\<rparr>) = puller_ok p" "puller_ok (p\<lparr>ip_processedIntents := y\<rparr>) = puller_ok p"
  by (simp_all add: puller_ok_def)

lemma take_new_ok: "puller_ok (fst st) \<Longrightarrow> puller_ok (fst (take_new i st))"
  by (cases st) (simp add: take_new_def puller_ok_fields)

lemma pull_ok: "puller_ok p \<Longrightarrow> puller_ok (fst (PullPendingIntents response p))"
proof -
  have "puller_ok (fst st) \<Longrightarrow> puller_ok (fst (fold take_new is st))" for st and "is" :: "Intent_types list"
    by (induction "is" arbitrary: st) (simp_all add: take_new_ok)
  then show "puller_ok p \<Longrightarrow> ?thesis" by (simp add: PullPendingIntents_def Let_def)
qed

lemma Close_fields [simp]: "ip_subscriptions (Close i p) = ip_subscriptions p" "length (ip_objects (Close i p)) = length (ip_objects p)"
  by (simp_all add: Close_def)

lemma Close_objects:
  assumes "i < length (ip_objects p)" "\<not> is_closed (ip_objects p ! i)"
  shows "ip_objects (Close i p) ! j = (if j = i then (ip_objects p ! i)\<lparr>is_closed := True\<rparr> else ip_objects p ! j)"
  using assms by (simp add: Close_def nth_list_update)

lemma Close_others:
  assumes "puller_ok p" "ip_subscriptions p agent = Some i" "ip_subscriptions p other = Some j" "other \<noteq> agent"
  shows "j < length (ip_objects (Close i p))" "\<not> is_closed (ip_objects (Close i p) ! j)" "is_AgentID (ip_objects (Close i p) ! j) = other"
  using puller_okD [OF assms(1,2)] puller_okD [OF assms(1,3)] assms(4) Close_objects [of i p j] by auto

lemma add_subscription:
  assumes "\<And>a sub. a \<noteq> agent \<Longrightarrow> ip_subscriptions q a = Some sub \<Longrightarrow>
      sub < length (ip_objects q) \<and> \<not> is_closed (ip_objects q ! sub) \<and> is_AgentID (ip_objects q ! sub) = a"
    and "is_AgentID s = agent" "\<not> is_closed s" "m = (ip_subscriptions q)(agent \<mapsto> length (ip_objects q))"
  shows "puller_ok (q\<lparr>ip_objects := ip_objects q @ [s], ip_subscriptions := m\<rparr>)"
  using assms by (auto simp: puller_ok_def nth_append less_SucI)

lemma Subscribe_ok:
  assumes "puller_ok p"
  shows "puller_ok (fst (Subscribe_puller agent caps p))"
proof (cases "ip_subscriptions p agent")
  case None
  then show ?thesis
    using puller_okD [OF assms] by (auto simp: Subscribe_puller_def Let_def intro!: add_subscription)
next
  case (Some i)
  then show ?thesis
    using Close_others [OF assms Some] by (auto simp: Subscribe_puller_def Let_def intro!: add_subscription)
qed

lemma Unsubscribe_ok:
  assumes "puller_ok p"
  shows "puller_ok (Unsubscribe_puller agent p)"
proof (cases "ip_subscriptions p agent")
  case None
  with assms show ?thesis by (simp add: Unsubscribe_puller_def)
next
  case (Some i)
  show ?thesis
    using Close_others [OF assms Some] Some unfolding Unsubscribe_puller_def puller_ok_def by auto
qed

lemma push_or_skip_ok:
  assumes "puller_ok p" "\<not> is_closed (ip_objects p ! i)"
  shows "\<exists>p'. push_or_skip intent i p = Inr p' \<and> puller_ok p' \<and> ip_subscriptions p' = ip_subscriptions p"
  using assms object_update [OF assms(1), of "(ip_objects p ! i)\<lparr>is_updates := is_updates (ip_objects p ! i) @ [intent]\<rparr>" i]
  by (simp add: push_or_skip_def Let_def)

lemma broadcast_to_ok:
  assumes "puller_ok p"
  shows "\<exists>p'. broadcast_to intent agents p = Inr p' \<and> puller_ok p'"
  using assms
proof (induction agents arbitrary: p)
  case (Cons agent agents)
  show ?case
  proof (cases "ip_subscriptions p agent")
    case None
    with Cons show ?thesis by simp
  next
    case (Some i)
    from push_or_skip_ok [OF Cons.prems puller_okD(2) [OF Cons.prems Some]]
    obtain p' where "push_or_skip intent i p = Inr p'" "puller_ok p'" by blast
    with Some Cons show ?thesis by simp
  qed
qed simp

lemma push_next_ok: "puller_ok p \<Longrightarrow> push_next intent i p = Inr (Some p') \<Longrightarrow> puller_ok p'"
  by (auto simp: push_next_def Let_def intro: object_update split: if_splits)

lemma puller_step_ok: "puller_step p p' \<Longrightarrow> puller_ok p \<Longrightarrow> puller_ok p'"
proof (induction rule: puller_step.induct)
  case (broadcast intent order p p')
  then show ?case using broadcast_to_ok [of p intent order] by (auto simp: BroadcastIntent_def)
next
  case (cleanup p order)
  then show ?case by (simp add: CleanupProcessed_def puller_ok_fields)
qed (auto simp: pull_ok Subscribe_ok Unsubscribe_ok push_next_ok intro: object_update)

lemma puller_reachable_ok: "puller_reachable p \<Longrightarrow> puller_ok p"
proof (induction rule: puller_reachable.induct)
  case start
  then show ?case by (simp add: puller_ok_def NewIntentPuller_def)
next
  case (step p p')
  then show ?case by (simp add: puller_step_ok)
qed

section \<open>Pulled intents\<close>

primrec run_pulls :: "(unit + Intent list) option list \<Rightarrow> IntentPuller \<Rightarrow> Intent_types list" where
  "run_pulls [] p = []"
| "run_pulls (response # responses) p = snd (PullPendingIntents response p) @ run_pulls responses (fst (PullPendingIntents response p))"

definition offered :: "(unit + Intent list) option \<Rightarrow> string list" where
  "offered response = (case response of Some (Inr intents) \<Rightarrow> map in_IntentId intents | _ \<Rightarrow> [])"

definition known :: "IntentPuller \<Rightarrow> string set" where
  "known p = {i. ip_processedIntents p i = Some True}"

lemma fold_take_new:
  "known (fst (fold take_new is (p, out))) = known p \<union> ti_IntentID ` set is \<and>
   (\<exists>new. snd (fold take_new is (p, out)) = out @ new \<and> distinct (map ti_IntentID new)
      \<and> ti_IntentID ` set new = ti_IntentID ` set is - known p)"
proof (induction "is" arbitrary: p out)
  case (Cons i "is")
  show ?case
  proof (cases "ti_IntentID i \<in> known p")
    case True
    then have "take_new i (p, out) = (p, out)" by (simp add: take_new_def known_def)
    with Cons [of p out] True show ?thesis by auto
  next
    case False
    define q where "q = p\<lparr>ip_pendingIntents := (ip_pendingIntents p)(ti_IntentID i \<mapsto> i),
                           ip_processedIntents := (ip_processedIntents p)(ti_IntentID i \<mapsto> True)\<rparr>"
    have q: "take_new i (p, out) = (q, out @ [i])" "known q = insert (ti_IntentID i) (known p)"
      using False by (auto simp: take_new_def known_def q_def)
    from Cons [of q "out @ [i]"] obtain new where new: "snd (fold take_new is (q, out @ [i])) = (out @ [i]) @ new"
      "distinct (map ti_IntentID new)" "ti_IntentID ` set new = ti_IntentID ` set is - known q"
      "known (fst (fold take_new is (q, out @ [i]))) = known q \<union> ti_IntentID ` set is" by blast
    have fresh: "ti_IntentID i \<notin> ti_IntentID ` set new" using new(3) q(2) by blast
    show ?thesis
    proof (intro conjI exI [of _ "i # new"])
      show "known (fst (fold take_new (i # is) (p, out))) = known p \<union> ti_IntentID ` set (i # is)" using new(4) q by simp
      show "snd (fold take_new (i # is) (p, out)) = out @ i # new" using new(1) q(1) by simp
      show "distinct (map ti_IntentID (i # new))" using new(2) fresh by simp
      show "ti_IntentID ` set (i # new) = ti_IntentID ` set (i # is) - known p" using new(3) q(2) False by auto
    qed
  qed
qed simp

lemma pull_result:
  "known (fst (PullPendingIntents response p)) = known p \<union> set (offered response) \<and>
   distinct (map ti_IntentID (snd (PullPendingIntents response p))) \<and>
   ti_IntentID ` set (snd (PullPendingIntents response p)) = set (offered response) - known p"
proof -
  let ?is = "case response of Some (Inr rootIntents) \<Rightarrow> map convert_intent rootIntents | _ \<Rightarrow> []"
  have "ti_IntentID ` set ?is = set (offered response)"
    by (auto simp: offered_def convert_intent_def image_image split: option.split sum.split)
  with fold_take_new [of ?is p "[]"] show ?thesis by (auto simp: PullPendingIntents_def Let_def)
qed

lemma run_pulls_result:
  "distinct (map ti_IntentID (run_pulls responses p)) \<and>
   ti_IntentID ` set (run_pulls responses p) = set (concat (map offered responses)) - known p"
proof (induction responses arbitrary: p)
  case (Cons r responses)
  let ?q = "fst (PullPendingIntents r p)" and ?new = "snd (PullPendingIntents r p)"
  note rest = Cons [of ?q] and pulled = pull_result [of r p]
  have "ti_IntentID ` set ?new \<inter> ti_IntentID ` set (run_pulls responses ?q) = {}" using rest pulled by blast
  then have "distinct (map ti_IntentID (run_pulls (r # responses) p))" using rest pulled by simp
  moreover have "ti_IntentID ` set (run_pulls (r # responses) p) = set (offered r) - known p \<union> (set (concat (map offered responses)) - known ?q)"
    using rest pulled by (simp add: image_Un)
  ultimately show ?case using pulled by auto
qed simp

section \<open>Properties\<close>


definition one_subscriber :: "nat Broadcaster" where
  "one_subscriber = bc_run 32 newBroadcaster [Subscribe]"


text \<open>
  Until the records of processed intents are cleaned up, the puller returns every intent that the root layer offers exactly once, in
  whatever portions and however often it is offered.
\<close>
theorem intents_pulled_once:
  "distinct (map ti_IntentID (run_pulls responses NewIntentPuller)) \<and>
   set (map ti_IntentID (run_pulls responses NewIntentPuller)) = set (concat (map offered responses))"
  using run_pulls_result [of responses NewIntentPuller] by (simp add: known_def NewIntentPuller_def)

text \<open>
  As long as agents close their subscriptions through the puller, a broadcast of an intent never panics; but the goroutine that still
  pushes pending intents to a subscription panics as soon as the agent has subscribed again or has left.
\<close>
theorem puller_panics_only_while_pushing:
  assumes "puller_reachable p"
  shows "(\<exists>p'. BroadcastIntent intent order p = Inr p') \<and>
    (ip_subscriptions p agent = Some sub \<longrightarrow>
       push_next intent sub (fst (Subscribe_puller agent capabilities p)) = Inl SendOnClosedChannel \<and>
       push_next intent sub (Unsubscribe_puller agent p) = Inl SendOnClosedChannel)"
proof -
  note ok = puller_reachable_ok [OF assms]
  show ?thesis
    using broadcast_to_ok [OF ok, of intent order] puller_okD [OF ok, of agent sub]
    by (auto simp: BroadcastIntent_def push_next_def Subscribe_puller_def Unsubscribe_puller_def Let_def Close_objects nth_append)
qed

theorem puller_panics_only_while_pushing_witness:
  "push_next i 0 (Unsubscribe_puller ''a'' (fst (Subscribe_puller ''a'' [''*''] NewIntentPuller))) = Inl SendOnClosedChannel"
proof -
  let ?p = "fst (Subscribe_puller ''a'' [''*''] NewIntentPuller)"
  have "puller_reachable ?p" by (rule puller_reachable.step [OF puller_reachable.start puller_step.subscribe])
  moreover have "ip_subscriptions ?p ''a'' = Some 0" by (simp add: Subscribe_puller_def NewIntentPuller_def Let_def)
  ultimately show ?thesis using puller_panics_only_while_pushing [of ?p i "[]" "''a''" 0] by blast
qed

end
