(* ===== verification/App_Config.thy ===== *)
theory App_Config
  imports Auth_Interceptors Participant_Verifier Validator_Set
begin

text \<open>
  The configuration of the services (\<open>src/internal/config\<close>): the structures and their defaults (\<open>timeouts.go\<close>, \<open>blockchain.go\<close>), reading
  nested values (\<open>safe_access.go\<close>), merging and normalising (\<open>loader.go\<close>), and the checks for production (\<open>validator.go\<close>). The file reader
  (viper), \<open>time.ParseDuration\<close> and the address check of go-ethereum are arguments. Messages are constructors instead of texts.
\<close>

section \<open>Structures\<close>

record TimeoutConfig_app =
  tc_ProposeTimeout :: int
  tc_CollectTimeout :: int
  tc_FinalizeTimeout :: int
  tc_CheckpointInterval :: int
  tc_AuthCacheTTL :: int
  tc_AuthCacheCleanup :: int
  tc_AuthMaxTimeDrift :: int
  tc_TaskResponseTimeout :: int
  tc_TaskSendTimeout :: int
  tc_TaskCleanupInterval :: int
  tc_TaskReassignMinTime :: int
  tc_RootLayerSubmitTimeout :: int
  tc_NATSReconnectWait :: int
  tc_WindowCheckInterval :: int
  tc_RetryInterval :: int
  tc_SDKTaskTimeout :: int
  tc_SDKStreamRetryInterval :: int
  tc_SDKSubmitBidTimeout :: int
  tc_SDKClientTimeout :: int
  tc_HealthCheckInterval :: int
  tc_MetricsInterval :: int
  tc_IntentGenerateInterval :: int
  tc_StatusReportInterval :: int
  tc_MaxExecutionTime :: int
  tc_MaxTimeDrift :: int

definition minute :: int where "minute = 60 * second"
definition hour :: int where "hour = 60 * minute"
definition millisecond :: int where "millisecond = 1000000"

definition DefaultTimeoutConfig_app :: TimeoutConfig_app where
  "DefaultTimeoutConfig_app =
     \<lparr>tc_ProposeTimeout = 5 * second, tc_CollectTimeout = 10 * second, tc_FinalizeTimeout = 2 * second,
      tc_CheckpointInterval = 30 * second, tc_AuthCacheTTL = 5 * minute, tc_AuthCacheCleanup = 10 * minute,
      tc_AuthMaxTimeDrift = 5 * minute, tc_TaskResponseTimeout = 30 * second, tc_TaskSendTimeout = 5 * second,
      tc_TaskCleanupInterval = hour, tc_TaskReassignMinTime = 30 * second, tc_RootLayerSubmitTimeout = 5 * second,
      tc_NATSReconnectWait = 2 * second, tc_WindowCheckInterval = second, tc_RetryInterval = 5 * second,
      tc_SDKTaskTimeout = 30 * second, tc_SDKStreamRetryInterval = 5 * second, tc_SDKSubmitBidTimeout = 5 * second,
      tc_SDKClientTimeout = 5 * second, tc_HealthCheckInterval = 30 * second, tc_MetricsInterval = 30 * second,
      tc_IntentGenerateInterval = 15 * second, tc_StatusReportInterval = 30 * second, tc_MaxExecutionTime = 30 * minute,
      tc_MaxTimeDrift = 5 * minute\<rparr>"

record NetworkConfig =
  nw_ValidatorGRPCPort :: string
  nw_MatcherGRPCPort :: string
  nw_MetricsPort :: string
  nw_MatcherDefaultAddr :: string
  nw_ValidatorDefaultAddr :: string
  nw_RootLayerDefaultAddr :: string

definition DefaultNetworkConfig :: NetworkConfig where
  "DefaultNetworkConfig =
     \<lparr>nw_ValidatorGRPCPort = '':9090'', nw_MatcherGRPCPort = '':8090'', nw_MetricsPort = '':9095'',
      nw_MatcherDefaultAddr = ''localhost:8090'', nw_ValidatorDefaultAddr = ''localhost:9090'', nw_RootLayerDefaultAddr = ''localhost:9090''\<rparr>"

record IdentityConfig =
  id_SubnetID :: string
  id_ValidatorID :: string
  id_MatcherID :: string
  id_AgentID :: string

definition DefaultIdentityConfig :: IdentityConfig where
  "DefaultIdentityConfig = \<lparr>id_SubnetID = [], id_ValidatorID = [], id_MatcherID = [], id_AgentID = []\<rparr>"

record LimitsConfig =
  lm_MaxBidsPerIntent :: int
  lm_BiddingWindowSec :: int
  lm_MaxRetries :: int
  lm_MaxConcurrentTasks :: int
  lm_DuplicateCheckWindow :: int

definition DefaultLimitsConfig :: LimitsConfig where
  "DefaultLimitsConfig =
     \<lparr>lm_MaxBidsPerIntent = 100, lm_BiddingWindowSec = 10, lm_MaxRetries = 3, lm_MaxConcurrentTasks = 100, lm_DuplicateCheckWindow = second\<rparr>"

record BlockchainConfig =
  bk_Enabled :: bool
  bk_RPCURL :: string
  bk_SubnetContract :: string
  bk_CacheTTLRaw :: string
  bk_CacheSize :: int
  bk_EnableFallback :: bool
  bk_AllowUnverified :: bool
  bk_CacheTTL :: int

definition DefaultBlockchainConfig :: BlockchainConfig where
  "DefaultBlockchainConfig =
     \<lparr>bk_Enabled = False, bk_RPCURL = [], bk_SubnetContract = [], bk_CacheTTLRaw = ''5m'', bk_CacheSize = 1024,
      bk_EnableFallback = True, bk_AllowUnverified = True, bk_CacheTTL = 0\<rparr>"

datatype config_error =
    InvalidDuration string
  | NonPositiveTTL
  | InvalidValidatorSet vset_error
  | ReadFailed string
  | ValidationFailed

definition Normalize_blockchain :: "(string \<Rightarrow> int option) \<Rightarrow> BlockchainConfig \<Rightarrow> config_error + BlockchainConfig" where
  "Normalize_blockchain ParseDuration c =
     (let c = (if TrimSpace (bk_CacheTTLRaw c) = [] then c\<lparr>bk_CacheTTLRaw := ''5m''\<rparr> else c) in
      case ParseDuration (bk_CacheTTLRaw c) of
        None \<Rightarrow> Inl (InvalidDuration ''blockchain.cache_ttl'')
      | Some ttl \<Rightarrow>
          if ttl \<le> 0 then Inl NonPositiveTTL
          else let c = c\<lparr>bk_CacheTTL := ttl\<rparr> in Inr (if bk_CacheSize c \<le> 0 then c\<lparr>bk_CacheSize := 1024\<rparr> else c))"

definition SubnetAddress :: "BlockchainConfig option \<Rightarrow> string" where
  "SubnetAddress c = (case c of None \<Rightarrow> [] | Some b \<Rightarrow> TrimSpace (bk_SubnetContract b))"

section \<open>Nested values\<close>

text \<open>Values of a decoded YAML file; maps keep their entries in a list, a floating-point number its bits.\<close>

datatype yaml = YString string | YBool bool | YInt int | YInt64 int | YFloat u64 | YMap "(string \<times> yaml) list" | YOther

fun walk :: "yaml \<Rightarrow> string list \<Rightarrow> yaml option" where
  "walk current [] = Some current"
| "walk (YMap m) (key # keys) = (case map_of m key of None \<Rightarrow> None | Some val \<Rightarrow> walk val keys)"
| "walk _ (key # keys) = None"

definition safe_walk :: "(string \<times> yaml) list option \<Rightarrow> string list \<Rightarrow> yaml option" where
  "safe_walk m keys = (case m of None \<Rightarrow> None | Some entries \<Rightarrow> if keys = [] then None else walk (YMap entries) keys)"

definition SafeGetString :: "(string \<times> yaml) list option \<Rightarrow> string list \<Rightarrow> string \<times> bool" where
  "SafeGetString m keys = (case safe_walk m keys of Some (YString s) \<Rightarrow> (s, True) | _ \<Rightarrow> ([], False))"

definition SafeGetBool :: "(string \<times> yaml) list option \<Rightarrow> string list \<Rightarrow> bool \<times> bool" where
  "SafeGetBool m keys = (case safe_walk m keys of Some (YBool b) \<Rightarrow> (b, True) | _ \<Rightarrow> (False, False))"

text \<open>\<open>truncate_float\<close> is Go's conversion of a floating-point number to an integer.\<close>

definition SafeGetInt :: "(u64 \<Rightarrow> int) \<Rightarrow> (string \<times> yaml) list option \<Rightarrow> string list \<Rightarrow> int \<times> bool" where
  "SafeGetInt truncate_float m keys =
     (case safe_walk m keys of
        Some (YInt v) \<Rightarrow> (v, True)
      | Some (YInt64 v) \<Rightarrow> (v, True)
      | Some (YFloat v) \<Rightarrow> (truncate_float v, True)
      | _ \<Rightarrow> (0, False))"

definition SafeGetMap :: "(string \<times> yaml) list option \<Rightarrow> string list \<Rightarrow> (string \<times> yaml) list option \<times> bool" where
  "SafeGetMap m keys = (case safe_walk m keys of Some (YMap r) \<Rightarrow> (Some r, True) | _ \<Rightarrow> (None, False))"

section \<open>The application's configuration\<close>

record ValidatorConfig_app =
  va_ID :: string
  va_Endpoint :: string
  va_Pubkey :: string
  va_GRPCEndpoint :: string
  va_RaftAddress :: string
  va_GossipAddress :: string

record ValidatorSetConfig =
  vsc_MinValidators :: int
  vsc_ThresholdNum :: int
  vsc_ThresholdDenom :: int
  vsc_Validators :: "ValidatorConfig_app list"

definition ToValidatorSet :: "ValidatorSetConfig \<Rightarrow> config_error + ValidatorSet" where
  "ToValidatorSet cfg =
     (let vs = \<lparr>vs_Validators = map (\<lambda>v. \<lparr>v_ID = va_ID v, v_PubKey = [], v_Weight = 0, v_Endpoint = va_Endpoint v\<rparr>) (vsc_Validators cfg),
                vs_MinValidators = vsc_MinValidators cfg, vs_ThresholdNum = vsc_ThresholdNum cfg,
                vs_ThresholdDenom = vsc_ThresholdDenom cfg, vs_EffectiveEpoch = 0\<rparr> in
      case Validate vs of
        Inl err \<Rightarrow> Inl (InvalidValidatorSet err)
      | Inr _ \<Rightarrow> Inr (SortValidators vs))"

record ConsensusConfig =
  cc_ProposeTimeoutMs :: int
  cc_CollectTimeoutMs :: int
  cc_ChallengeWindowMs :: int

definition ProposeTimeout :: "ConsensusConfig \<Rightarrow> int" where
  "ProposeTimeout c = i64 (cc_ProposeTimeoutMs c * millisecond)"
definition CollectTimeout :: "ConsensusConfig \<Rightarrow> int" where
  "CollectTimeout c = i64 (cc_CollectTimeoutMs c * millisecond)"
definition ChallengeWindow :: "ConsensusConfig \<Rightarrow> int" where
  "ChallengeWindow c = i64 (cc_ChallengeWindowMs c * millisecond)"

record RaftConfig_app =
  rf_Enable :: bool
  rf_Bootstrap :: bool
  rf_Bind :: string
  rf_Advertise :: string
  rf_DataDir :: string
  rf_Peers :: "(string \<times> string) list"

record GossipConfig_app =
  gs_Enable :: bool
  gs_BindAddress :: string
  gs_BindPort :: int
  gs_Seeds :: "string list"
  gs_GossipInterval :: string
  gs_ProbeInterval :: string

record AgentConfig =
  ac_ExecutorType :: string
  ac_ExecutorConfig :: "(string \<times> yaml) list option"
  ac_Strategy :: string
  ac_MatcherConfig :: "(string \<times> yaml) list option"
  ac_SignerType :: string
  ac_SignerPrivateKey :: string
  ac_SignerConfig :: "(string \<times> yaml) list option"

definition normalize_agent :: "AgentConfig \<Rightarrow> AgentConfig" where
  "normalize_agent c =
     (let fill = (\<lambda>m. case m of None \<Rightarrow> Some [] | Some x \<Rightarrow> Some x) in
      c\<lparr>ac_ExecutorConfig := fill (ac_ExecutorConfig c), ac_MatcherConfig := fill (ac_MatcherConfig c),
        ac_SignerConfig := fill (ac_SignerConfig c)\<rparr>)"

record RootLayerConfig =
  rl_HTTPURL :: string
  rl_WSURL :: string
  rl_AuthToken :: string
  rl_GRPCAddr :: string
  rl_GRPCEndpoint :: string
  rl_GRPCTLS :: bool
  rl_GRPCDialTimeoutRaw :: string
  rl_ConnectTimeoutRaw :: string
  rl_RequestTimeoutRaw :: string
  rl_RetryDelayRaw :: string
  rl_MaxRetries :: int
  rl_ConnectTimeout :: int
  rl_RequestTimeout :: int
  rl_RetryDelay :: int
  rl_GRPCDialTimeout :: int

definition parse_or :: "(string \<Rightarrow> int option) \<Rightarrow> string \<Rightarrow> int \<Rightarrow> int option" where
  "parse_or ParseDuration raw fallback = (if raw = [] then Some fallback else ParseDuration raw)"

definition normalize_rootlayer :: "(string \<Rightarrow> int option) \<Rightarrow> RootLayerConfig \<Rightarrow> config_error + RootLayerConfig" where
  "normalize_rootlayer ParseDuration c =
     (case parse_or ParseDuration (rl_ConnectTimeoutRaw c) (10 * second) of
        None \<Rightarrow> Inl (InvalidDuration ''rootlayer.connect_timeout'')
      | Some connect \<Rightarrow>
     (case parse_or ParseDuration (rl_RequestTimeoutRaw c) (30 * second) of
        None \<Rightarrow> Inl (InvalidDuration ''rootlayer.request_timeout'')
      | Some request \<Rightarrow>
     (case parse_or ParseDuration (rl_RetryDelayRaw c) second of
        None \<Rightarrow> Inl (InvalidDuration ''rootlayer.retry_delay'')
      | Some retry \<Rightarrow>
     (case parse_or ParseDuration (rl_GRPCDialTimeoutRaw c) (5 * second) of
        None \<Rightarrow> Inl (InvalidDuration ''rootlayer.grpc_dial_timeout'')
      | Some dial \<Rightarrow>
          Inr (c\<lparr>rl_ConnectTimeout := connect, rl_RequestTimeout := request, rl_RetryDelay := retry, rl_GRPCDialTimeout := dial,
                 rl_MaxRetries := (if rl_MaxRetries c < 0 then 0 else rl_MaxRetries c)\<rparr>)))))"

text \<open>
  The sections of the application. The URL and the subjects of NATS, the certificate files, the address of the RPC server and the recovery mode
  are not read by the code below and left out. \<open>app_Validator\<close> is the free-form section of the validator.
\<close>

record AppConfig =
  app_SubnetID :: string
  app_Identity :: IdentityConfig
  app_Timeouts :: TimeoutConfig_app
  app_Network :: NetworkConfig
  app_Limits :: LimitsConfig
  app_ValidatorSet :: ValidatorSetConfig
  app_Consensus :: ConsensusConfig
  app_LevelDBPath :: string
  app_RPCAuthEnabled :: bool
  app_BearerTokens :: "string list"
  app_MetricsEnabled :: bool
  app_MetricsListenAddr :: string
  app_TLSEnabled :: bool
  app_DemoSigners :: "(string \<times> string) list"
  app_Agent :: AgentConfig
  app_Validator :: "(string \<times> yaml) list option"
  app_RootLayer :: RootLayerConfig
  app_Blockchain :: "BlockchainConfig option"
  app_Raft :: RaftConfig_app
  app_Gossip :: GossipConfig_app

section \<open>Validation\<close>

datatype ValidationMode = ModeProduction | ModeDevelopment | ModeTest

datatype issue =
    SubnetIDRequired
  | InvalidID string string
  | PrivilegedPort string int
  | PortOutOfRange string int
  | TimeoutTooShort string
  | TimeoutVeryLong string
  | NoExecutor
  | DummyExecutor
  | SandboxDisabled
  | SandboxMissing
  | NoSigner
  | NoopSigner
  | NoPrivateKey
  | ExamplePrivateKey
  | PrivateKeyInFile
  | DefaultPolicy
  | TLSDisabled
  | RPCAuthDisabled
  | NoBearerTokens
  | NoRPCURL
  | NoSubnetContract
  | InvalidSubnetContract string
  | AllowsUnverified
  | DemoSignersUsed nat
  | WeakDemoKey string

record ConfigValidator =
  cv_mode :: ValidationMode
  cv_errors :: "issue list"
  cv_warnings :: "issue list"

definition NewConfigValidator :: "string \<Rightarrow> ConfigValidator" where
  "NewConfigValidator envMode =
     (let m = ToLower envMode in
      \<lparr>cv_mode = (if m = ''production'' \<or> m = ''prod'' then ModeProduction
                  else if m = ''test'' \<or> m = ''testing'' then ModeTest else ModeDevelopment),
       cv_errors = [], cv_warnings = []\<rparr>)"

definition add_error :: "issue \<Rightarrow> ConfigValidator \<Rightarrow> ConfigValidator" where
  "add_error i v = v\<lparr>cv_errors := cv_errors v @ [i]\<rparr>"

definition add_warning :: "issue \<Rightarrow> ConfigValidator \<Rightarrow> ConfigValidator" where
  "add_warning i v = v\<lparr>cv_warnings := cv_warnings v @ [i]\<rparr>"

text \<open>An error in production, a warning otherwise.\<close>

definition add_graded :: "issue \<Rightarrow> ConfigValidator \<Rightarrow> ConfigValidator" where
  "add_graded i v = (if cv_mode v = ModeProduction then add_error i v else add_warning i v)"

definition add_when :: "bool \<Rightarrow> (ConfigValidator \<Rightarrow> ConfigValidator) \<Rightarrow> ConfigValidator \<Rightarrow> ConfigValidator" where
  "add_when b f v = (if b then f v else v)"

definition isValidID :: "string \<Rightarrow> bool" where
  "isValidID s \<longleftrightarrow>
     list_all (\<lambda>c. let n = (of_char c :: nat) in 97 \<le> n \<and> n \<le> 122 \<or> 65 \<le> n \<and> n \<le> 90 \<or> 48 \<le> n \<and> n \<le> 57 \<or> n = 45 \<or> n = 95) s
     \<and> 0 < length s \<and> length s \<le> 64"

definition validateIdentity :: "AppConfig \<Rightarrow> ConfigValidator \<Rightarrow> ConfigValidator" where
  "validateIdentity cfg v =
     (let ident = app_Identity cfg; bad = (\<lambda>s. s \<noteq> [] \<and> \<not> isValidID s) in
      add_when (bad (id_AgentID ident)) (add_error (InvalidID ''agent_id'' (id_AgentID ident)))
        (add_when (bad (id_MatcherID ident)) (add_error (InvalidID ''matcher_id'' (id_MatcherID ident)))
          (add_when (bad (id_ValidatorID ident)) (add_error (InvalidID ''validator_id'' (id_ValidatorID ident)))
            (add_when (bad (id_SubnetID ident)) (add_error (InvalidID ''subnet_id'' (id_SubnetID ident)))
              (add_when (id_SubnetID ident = []) (add_error SubnetIDRequired) v)))))"

text \<open>A port that is not a number passes.\<close>

definition validatePort :: "string \<Rightarrow> string \<Rightarrow> ConfigValidator \<Rightarrow> ConfigValidator" where
  "validatePort name port v =
     (if port = [] then v
      else case ParseInt (rev (takeWhile (\<lambda>c. c \<noteq> CHR '':'') (rev port))) of
        None \<Rightarrow> v
      | Some portNum \<Rightarrow>
          add_when (portNum > 65535) (add_error (PortOutOfRange name portNum))
            (add_when (portNum < 1024) (add_warning (PrivilegedPort name portNum)) v))"

definition validateNetwork :: "AppConfig \<Rightarrow> ConfigValidator \<Rightarrow> ConfigValidator" where
  "validateNetwork cfg v =
     validatePort ''metrics_port'' (nw_MetricsPort (app_Network cfg))
       (validatePort ''matcher_grpc_port'' (nw_MatcherGRPCPort (app_Network cfg))
         (validatePort ''validator_grpc_port'' (nw_ValidatorGRPCPort (app_Network cfg)) v))"

definition validateTimeouts_app :: "AppConfig \<Rightarrow> ConfigValidator \<Rightarrow> ConfigValidator" where
  "validateTimeouts_app cfg v =
     (let t = app_Timeouts cfg in
      add_when (tc_AuthCacheTTL t > hour) (add_warning (TimeoutVeryLong ''auth_cache_ttl''))
        (add_when (tc_TaskCleanupInterval t > 24 * hour) (add_warning (TimeoutVeryLong ''task_cleanup_interval''))
          (add_when (tc_TaskSendTimeout t > 0 \<and> tc_TaskSendTimeout t < 100 * millisecond) (add_error (TimeoutTooShort ''task_send_timeout''))
            (add_when (tc_CollectTimeout t > 0 \<and> tc_CollectTimeout t < 2 * second) (add_error (TimeoutTooShort ''collect_timeout''))
              (add_when (tc_ProposeTimeout t > 0 \<and> tc_ProposeTimeout t < second) (add_error (TimeoutTooShort ''propose_timeout'')) v)))))"

definition validateExecutor :: "AppConfig \<Rightarrow> ConfigValidator \<Rightarrow> ConfigValidator" where
  "validateExecutor cfg v =
     (let execType = TrimSpace (ac_ExecutorType (app_Agent cfg)) in
      if execType = [] then add_warning NoExecutor v
      else
        let v = add_when (execType = ''dummy'') (add_graded DummyExecutor) v in
        if execType = ''script'' then
          (case Option.bind (ac_ExecutorConfig (app_Agent cfg)) (\<lambda>m. map_of m ''enable_sandbox'') of
             Some raw \<Rightarrow> add_when (raw = YBool False) (add_warning SandboxDisabled) v
           | None \<Rightarrow> add_warning SandboxMissing v)
        else v)"

definition HasPrefix :: "string \<Rightarrow> string \<Rightarrow> bool" where
  "HasPrefix s pre \<longleftrightarrow> take (length pre) s = pre"

definition Contains :: "string \<Rightarrow> string \<Rightarrow> bool" where
  "Contains s sub \<longleftrightarrow> list_ex (\<lambda>i. HasPrefix (drop i s) sub) [0..<Suc (length s)]"

definition validateSigner :: "AppConfig \<Rightarrow> ConfigValidator \<Rightarrow> ConfigValidator" where
  "validateSigner cfg v =
     (let signerType = TrimSpace (ac_SignerType (app_Agent cfg)) in
      if signerType = [] then add_when (cv_mode v = ModeProduction) (add_error NoSigner) v
      else
        let v = add_when (signerType = ''noop'') (add_graded NoopSigner) v in
        if signerType = ''ecdsa'' then
          (let privKey = TrimSpace (ac_SignerPrivateKey (app_Agent cfg)) in
           if privKey = [] then add_error NoPrivateKey v
           else add_when (cv_mode v = ModeProduction) (add_warning PrivateKeyInFile)
                  (add_when (HasPrefix privKey ''0x01234567'') (add_error ExamplePrivateKey) v))
        else v)"

definition validateValidatorPolicy :: "AppConfig \<Rightarrow> ConfigValidator \<Rightarrow> ConfigValidator" where
  "validateValidatorPolicy cfg v =
     (if app_Validator cfg = None then v
      else case SafeGetString (app_Validator cfg) [''policy'', ''type''] of
        (policyType, hasType) \<Rightarrow> add_when (hasType \<and> (policyType = ''default'' \<or> policyType = ''dummy'')) (add_graded DefaultPolicy) v)"

definition validateSecurity :: "AppConfig \<Rightarrow> ConfigValidator \<Rightarrow> ConfigValidator" where
  "validateSecurity cfg v =
     add_when (app_RPCAuthEnabled cfg \<and> app_BearerTokens cfg = []) (add_warning NoBearerTokens)
       (add_when (\<not> app_RPCAuthEnabled cfg \<and> cv_mode v = ModeProduction) (add_warning RPCAuthDisabled)
         (add_when (\<not> app_TLSEnabled cfg \<and> cv_mode v = ModeProduction) (add_error TLSDisabled) v))"

definition validateBlockchain :: "(string \<Rightarrow> bool) \<Rightarrow> AppConfig \<Rightarrow> ConfigValidator \<Rightarrow> ConfigValidator" where
  "validateBlockchain isHexAddress cfg v =
     (case app_Blockchain cfg of
        None \<Rightarrow> v
      | Some b \<Rightarrow>
          if \<not> bk_Enabled b then v
          else
            let addr = SubnetAddress (Some b);
                v = add_when (TrimSpace (bk_RPCURL b) = []) (add_error NoRPCURL) v;
                v = (if addr = [] then add_error NoSubnetContract v
                     else add_when (\<not> isHexAddress addr) (add_error (InvalidSubnetContract addr)) v) in
            add_when (cv_mode v = ModeProduction \<and> bk_AllowUnverified b) (add_warning AllowsUnverified) v)"

definition validateDemoSigners :: "AppConfig \<Rightarrow> ConfigValidator \<Rightarrow> ConfigValidator" where
  "validateDemoSigners cfg v =
     (if length (app_DemoSigners cfg) > 0 then
        foldl (\<lambda>v s. add_when (Contains (snd s) ''01234567'' \<or> Contains (snd s) ''abcdef'') (add_warning (WeakDemoKey (fst s))) v)
          (add_graded (DemoSignersUsed (length (app_DemoSigners cfg))) v) (app_DemoSigners cfg)
      else v)"

text \<open>The validator keeps what it found; \<open>False\<close> is the error.\<close>

definition Validate_app :: "(string \<Rightarrow> bool) \<Rightarrow> AppConfig \<Rightarrow> ConfigValidator \<Rightarrow> ConfigValidator \<times> bool" where
  "Validate_app isHexAddress cfg v =
     (let v = v\<lparr>cv_errors := [], cv_warnings := []\<rparr>;
          v = validateDemoSigners cfg (validateBlockchain isHexAddress cfg (validateSecurity cfg (validateValidatorPolicy cfg
                (validateSigner cfg (validateExecutor cfg (validateTimeouts_app cfg (validateNetwork cfg (validateIdentity cfg v)))))))) in
      (v, \<not> (cv_mode v = ModeProduction \<and> length (cv_errors v) > 0)))"

definition ValidateProductionReadiness :: "(string \<Rightarrow> bool) \<Rightarrow> AppConfig \<Rightarrow> bool" where
  "ValidateProductionReadiness isHexAddress cfg =
     snd (Validate_app isHexAddress cfg \<lparr>cv_mode = ModeProduction, cv_errors = [], cv_warnings = []\<rparr>)"

section \<open>Loading\<close>

text \<open>\<open>Load\<close> and \<open>LoadSplit\<close> end in the same way: normalise, then validate in the mode of the environment.\<close>

definition normalize_and_validate :: "(string \<Rightarrow> int option) \<Rightarrow> (string \<Rightarrow> bool) \<Rightarrow> string \<Rightarrow> AppConfig \<Rightarrow> config_error + AppConfig" where
  "normalize_and_validate ParseDuration isHexAddress envMode cfg =
     (let cfg = cfg\<lparr>app_Agent := normalize_agent (app_Agent cfg)\<rparr> in
      case normalize_rootlayer ParseDuration (app_RootLayer cfg) of
        Inl err \<Rightarrow> Inl err
      | Inr rootlayer \<Rightarrow>
     (case Normalize_blockchain ParseDuration (case app_Blockchain cfg of None \<Rightarrow> DefaultBlockchainConfig | Some b \<Rightarrow> b) of
        Inl err \<Rightarrow> Inl err
      | Inr b \<Rightarrow>
          let cfg = cfg\<lparr>app_RootLayer := rootlayer, app_Blockchain := Some b\<rparr> in
          if snd (Validate_app isHexAddress cfg (NewConfigValidator envMode)) then Inr cfg else Inl ValidationFailed))"

text \<open>\<open>file\<close> is what viper has read from the file, or its error.\<close>

definition Load :: "(string \<Rightarrow> int option) \<Rightarrow> (string \<Rightarrow> bool) \<Rightarrow> string \<Rightarrow> config_error + AppConfig \<Rightarrow> config_error + AppConfig" where
  "Load ParseDuration isHexAddress envMode file =
     (case file of Inl err \<Rightarrow> Inl err | Inr cfg \<Rightarrow> normalize_and_validate ParseDuration isHexAddress envMode cfg)"

definition override :: "'v list \<Rightarrow> 'v list \<Rightarrow> 'v list" where
  "override specific shared = (if specific \<noteq> [] then specific else shared)"

definition mergeConfigs :: "AppConfig \<Rightarrow> AppConfig \<Rightarrow> AppConfig" where
  "mergeConfigs subnet validator =
     (let r = app_Raft validator; g = app_Gossip validator in
      subnet\<lparr>
        app_Identity := (app_Identity subnet)\<lparr>id_ValidatorID := override (id_ValidatorID (app_Identity validator)) (id_ValidatorID (app_Identity subnet))\<rparr>,
        app_Network := (app_Network subnet)\<lparr>
          nw_ValidatorGRPCPort := override (nw_ValidatorGRPCPort (app_Network validator)) (nw_ValidatorGRPCPort (app_Network subnet)),
          nw_MetricsPort := override (nw_MetricsPort (app_Network validator)) (nw_MetricsPort (app_Network subnet))\<rparr>,
        app_LevelDBPath := override (app_LevelDBPath validator) (app_LevelDBPath subnet),
        app_Raft := (app_Raft subnet)\<lparr>
          rf_Enable := (if rf_Enable r then rf_Enable r else rf_Enable (app_Raft subnet)),
          rf_Bootstrap := (if rf_Bootstrap r then rf_Bootstrap r else rf_Bootstrap (app_Raft subnet)),
          rf_Bind := override (rf_Bind r) (rf_Bind (app_Raft subnet)),
          rf_Advertise := override (rf_Advertise r) (rf_Advertise (app_Raft subnet)),
          rf_DataDir := override (rf_DataDir r) (rf_DataDir (app_Raft subnet)),
          rf_Peers := override (rf_Peers r) (rf_Peers (app_Raft subnet))\<rparr>,
        app_Gossip := (app_Gossip subnet)\<lparr>
          gs_Enable := (if gs_Enable g then gs_Enable g else gs_Enable (app_Gossip subnet)),
          gs_BindAddress := override (gs_BindAddress g) (gs_BindAddress (app_Gossip subnet)),
          gs_BindPort := (if gs_BindPort g \<noteq> 0 then gs_BindPort g else gs_BindPort (app_Gossip subnet)),
          gs_Seeds := override (gs_Seeds g) (gs_Seeds (app_Gossip subnet)),
          gs_GossipInterval := override (gs_GossipInterval g) (gs_GossipInterval (app_Gossip subnet)),
          gs_ProbeInterval := override (gs_ProbeInterval g) (gs_ProbeInterval (app_Gossip subnet))\<rparr>,
        app_MetricsEnabled := (if app_MetricsEnabled validator then app_MetricsEnabled validator else app_MetricsEnabled subnet),
        app_MetricsListenAddr := override (app_MetricsListenAddr validator) (app_MetricsListenAddr subnet)\<rparr>)"

definition extractValidatorRaftAddress :: "string \<Rightarrow> AppConfig \<Rightarrow> string" where
  "extractValidatorRaftAddress validatorID cfg =
     (case find (\<lambda>v. va_ID v = validatorID) (vsc_Validators (app_ValidatorSet cfg)) of None \<Rightarrow> [] | Some v \<Rightarrow> va_RaftAddress v)"

definition extractValidatorGossipAddress :: "string \<Rightarrow> AppConfig \<Rightarrow> string" where
  "extractValidatorGossipAddress validatorID cfg =
     (case find (\<lambda>v. va_ID v = validatorID) (vsc_Validators (app_ValidatorSet cfg)) of None \<Rightarrow> [] | Some v \<Rightarrow> va_GossipAddress v)"

definition populate_peers :: "AppConfig \<Rightarrow> AppConfig \<Rightarrow> AppConfig" where
  "populate_peers subnetCfg cfg =
     (if rf_Enable (app_Raft cfg) \<and> length (rf_Peers (app_Raft cfg)) = 0
      then cfg\<lparr>app_Raft := (app_Raft cfg)\<lparr>rf_Peers :=
             List.map_filter (\<lambda>v. let raftAddr = extractValidatorRaftAddress (va_ID v) subnetCfg in
                                  if raftAddr \<noteq> [] then Some (va_ID v, raftAddr) else None) (vsc_Validators (app_ValidatorSet cfg))\<rparr>\<rparr>
      else cfg)"

definition populate_seeds :: "AppConfig \<Rightarrow> AppConfig \<Rightarrow> AppConfig" where
  "populate_seeds subnetCfg cfg =
     (if gs_Enable (app_Gossip cfg) \<and> length (gs_Seeds (app_Gossip cfg)) = 0
      then cfg\<lparr>app_Gossip := (app_Gossip cfg)\<lparr>gs_Seeds :=
             List.map_filter (\<lambda>v. let gossipAddr = extractValidatorGossipAddress (va_ID v) subnetCfg in
                                  if gossipAddr \<noteq> [] then Some gossipAddr else None) (vsc_Validators (app_ValidatorSet cfg))\<rparr>\<rparr>
      else cfg)"

definition LoadSplit :: "(string \<Rightarrow> int option) \<Rightarrow> (string \<Rightarrow> bool) \<Rightarrow> string \<Rightarrow> config_error + AppConfig \<Rightarrow> config_error + AppConfig
    \<Rightarrow> config_error + AppConfig" where
  "LoadSplit ParseDuration isHexAddress envMode subnetFile validatorFile =
     (case subnetFile of
        Inl err \<Rightarrow> Inl err
      | Inr subnetCfg \<Rightarrow>
     (case validatorFile of
        Inl err \<Rightarrow> Inl err
      | Inr validatorCfg \<Rightarrow>
          normalize_and_validate ParseDuration isHexAddress envMode
            (populate_seeds subnetCfg (populate_peers subnetCfg (mergeConfigs subnetCfg validatorCfg)))))"

section \<open>Validation\<close>

named_theorems checks

lemma add_checks [checks]:
  "cv_mode (add_error i v) = cv_mode v" "cv_errors (add_error i v) = cv_errors v @ [i]"
  "cv_mode (add_warning i v) = cv_mode v" "cv_errors (add_warning i v) = cv_errors v"
  "cv_mode (add_graded i v) = cv_mode v"
  "cv_errors (add_graded i v) = (if cv_mode v = ModeProduction then cv_errors v @ [i] else cv_errors v)"
  by (simp_all add: add_error_def add_warning_def add_graded_def)

lemma add_when_checks [checks]:
  "(\<And>v. cv_mode (f v) = cv_mode v) \<Longrightarrow> cv_mode (add_when b f v) = cv_mode v"
  "cv_errors (add_when b f v) = (if b then cv_errors (f v) else cv_errors v)"
  by (simp_all add: add_when_def)

lemma mode_kept [checks]:
  "cv_mode (validateIdentity cfg v) = cv_mode v"
  "cv_mode (validatePort name port v) = cv_mode v"
  "cv_mode (validateNetwork cfg v) = cv_mode v"
  "cv_mode (validateTimeouts_app cfg v) = cv_mode v"
  "cv_mode (validateExecutor cfg v) = cv_mode v"
  "cv_mode (validateSigner cfg v) = cv_mode v"
  "cv_mode (validateValidatorPolicy cfg v) = cv_mode v"
  "cv_mode (validateSecurity cfg v) = cv_mode v"
  "cv_mode (validateBlockchain isHexAddress cfg v) = cv_mode v"
  by (simp_all add: validateIdentity_def validatePort_def validateNetwork_def validateTimeouts_app_def validateExecutor_def validateSigner_def
      validateValidatorPolicy_def validateSecurity_def validateBlockchain_def Let_def checks split: option.split prod.split)

lemma weak_keys:
  "cv_mode (foldl (\<lambda>v s. add_when (weak s) (add_warning (issue s)) v) v ss) = cv_mode v"
  "cv_errors (foldl (\<lambda>v s. add_when (weak s) (add_warning (issue s)) v) v ss) = cv_errors v"
  by (induction ss arbitrary: v) (simp_all add: checks)

lemma demo_mode [checks]: "cv_mode (validateDemoSigners cfg v) = cv_mode v"
  by (simp add: validateDemoSigners_def weak_keys checks)

text \<open>What each check asks for in production.\<close>

definition port_ok :: "string \<Rightarrow> bool" where
  "port_ok port \<longleftrightarrow> port = [] \<or>
     (case ParseInt (rev (takeWhile (\<lambda>c. c \<noteq> CHR '':'') (rev port))) of None \<Rightarrow> True | Some n \<Rightarrow> n \<le> 65535)"

definition optional_id :: "string \<Rightarrow> bool" where
  "optional_id s \<longleftrightarrow> s = [] \<or> isValidID s"

definition signer_ok :: "AgentConfig \<Rightarrow> bool" where
  "signer_ok a \<longleftrightarrow> TrimSpace (ac_SignerType a) \<notin> {[], ''noop''} \<and>
     (TrimSpace (ac_SignerType a) = ''ecdsa'' \<longrightarrow>
        TrimSpace (ac_SignerPrivateKey a) \<noteq> [] \<and> \<not> HasPrefix (TrimSpace (ac_SignerPrivateKey a)) ''0x01234567'')"

definition chain_ok :: "(string \<Rightarrow> bool) \<Rightarrow> BlockchainConfig option \<Rightarrow> bool" where
  "chain_ok isHexAddress c \<longleftrightarrow>
     (case c of None \<Rightarrow> True
      | Some b \<Rightarrow> \<not> bk_Enabled b \<or> TrimSpace (bk_RPCURL b) \<noteq> [] \<and> SubnetAddress c \<noteq> [] \<and> isHexAddress (SubnetAddress c))"

text \<open>Zero stands for a timeout that is not set.\<close>

definition not_between :: "int \<Rightarrow> int \<Rightarrow> bool" where
  "not_between least t \<longleftrightarrow> t \<le> 0 \<or> least \<le> t"

lemma errors_identity:
  "cv_errors (validateIdentity cfg v) = [] \<longleftrightarrow> cv_errors v = [] \<and> isValidID (id_SubnetID (app_Identity cfg)) \<and>
     optional_id (id_ValidatorID (app_Identity cfg)) \<and> optional_id (id_MatcherID (app_Identity cfg)) \<and> optional_id (id_AgentID (app_Identity cfg))"
  by (auto simp: validateIdentity_def Let_def checks optional_id_def isValidID_def)

lemma errors_port: "cv_errors (validatePort name port v) = [] \<longleftrightarrow> cv_errors v = [] \<and> port_ok port"
  by (auto simp: validatePort_def port_ok_def checks split: option.split)

lemma errors_network:
  "cv_errors (validateNetwork cfg v) = [] \<longleftrightarrow> cv_errors v = [] \<and> port_ok (nw_ValidatorGRPCPort (app_Network cfg)) \<and>
     port_ok (nw_MatcherGRPCPort (app_Network cfg)) \<and> port_ok (nw_MetricsPort (app_Network cfg))"
  by (auto simp: validateNetwork_def errors_port)

lemma errors_timeouts:
  "cv_errors (validateTimeouts_app cfg v) = [] \<longleftrightarrow> cv_errors v = [] \<and> not_between second (tc_ProposeTimeout (app_Timeouts cfg)) \<and>
     not_between (2 * second) (tc_CollectTimeout (app_Timeouts cfg)) \<and> not_between (100 * millisecond) (tc_TaskSendTimeout (app_Timeouts cfg))"
  by (auto simp: validateTimeouts_app_def Let_def checks not_between_def)

lemma errors_executor:
  "cv_mode v = ModeProduction \<Longrightarrow>
   cv_errors (validateExecutor cfg v) = [] \<longleftrightarrow> cv_errors v = [] \<and> TrimSpace (ac_ExecutorType (app_Agent cfg)) \<noteq> ''dummy''"
  by (auto simp: validateExecutor_def Let_def checks split: option.split)

lemma errors_signer:
  "cv_mode v = ModeProduction \<Longrightarrow> cv_errors (validateSigner cfg v) = [] \<longleftrightarrow> cv_errors v = [] \<and> signer_ok (app_Agent cfg)"
  by (auto simp: validateSigner_def signer_ok_def Let_def checks)

lemma errors_policy:
  "cv_mode v = ModeProduction \<Longrightarrow>
   cv_errors (validateValidatorPolicy cfg v) = [] \<longleftrightarrow> cv_errors v = [] \<and>
     SafeGetString (app_Validator cfg) [''policy'', ''type''] \<notin> {(''default'', True), (''dummy'', True)}"
  by (auto simp: validateValidatorPolicy_def SafeGetString_def safe_walk_def checks split: prod.split option.splits)

lemma errors_security:
  "cv_mode v = ModeProduction \<Longrightarrow> cv_errors (validateSecurity cfg v) = [] \<longleftrightarrow> cv_errors v = [] \<and> app_TLSEnabled cfg"
  by (auto simp: validateSecurity_def checks)

lemma errors_blockchain:
  "cv_errors (validateBlockchain isHexAddress cfg v) = [] \<longleftrightarrow> cv_errors v = [] \<and> chain_ok isHexAddress (app_Blockchain cfg)"
  by (auto simp: validateBlockchain_def chain_ok_def Let_def checks split: option.split)

lemma errors_demo:
  "cv_mode v = ModeProduction \<Longrightarrow> cv_errors (validateDemoSigners cfg v) = [] \<longleftrightarrow> cv_errors v = [] \<and> app_DemoSigners cfg = []"
  by (auto simp: validateDemoSigners_def weak_keys checks)

lemmas production_errors = errors_identity errors_network errors_timeouts errors_executor errors_signer errors_policy errors_security
  errors_blockchain errors_demo

lemma validated_mode: "cv_mode (fst (Validate_app isHexAddress cfg v)) = cv_mode v"
  by (simp add: Validate_app_def Let_def checks)

lemma validated_ok: "snd (Validate_app isHexAddress cfg v) \<longleftrightarrow> cv_mode v \<noteq> ModeProduction \<or> cv_errors (fst (Validate_app isHexAddress cfg v)) = []"
  by (auto simp: Validate_app_def Let_def checks)

lemma production_ok:
  "cv_mode v = ModeProduction \<Longrightarrow> snd (Validate_app isHexAddress cfg v) = ValidateProductionReadiness isHexAddress cfg"
  by (simp add: validated_ok ValidateProductionReadiness_def) (simp add: Validate_app_def Let_def checks production_errors)

section \<open>Loading\<close>

lemma normalized:
  assumes "normalize_and_validate ParseDuration isHexAddress envMode cfg = Inr out"
  obtains rootlayer b where "normalize_rootlayer ParseDuration (app_RootLayer cfg) = Inr rootlayer"
    and "Normalize_blockchain ParseDuration (case app_Blockchain cfg of None \<Rightarrow> DefaultBlockchainConfig | Some b \<Rightarrow> b) = Inr b"
    and "out = cfg\<lparr>app_Agent := normalize_agent (app_Agent cfg), app_RootLayer := rootlayer, app_Blockchain := Some b\<rparr>"
    and "snd (Validate_app isHexAddress out (NewConfigValidator envMode))"
  using assms by (auto simp: normalize_and_validate_def Let_def split: sum.splits if_splits)

lemma blockchain_normalized: "Normalize_blockchain ParseDuration c = Inr b \<Longrightarrow> 0 < bk_CacheTTL b \<and> 0 < bk_CacheSize b"
  by (auto simp: Normalize_blockchain_def Let_def split: option.splits if_splits)

lemma retries_normalized: "normalize_rootlayer ParseDuration c = Inr r \<Longrightarrow> 0 \<le> rl_MaxRetries r"
  by (auto simp: normalize_rootlayer_def split: option.splits)

lemma agent_normalized:
  "ac_ExecutorConfig (normalize_agent c) \<noteq> None" "ac_MatcherConfig (normalize_agent c) \<noteq> None" "ac_SignerConfig (normalize_agent c) \<noteq> None"
  by (simp_all add: normalize_agent_def Let_def split: option.split)

lemma find_distinct:
  "distinct (map va_ID vs) \<Longrightarrow> v \<in> set vs \<Longrightarrow> find (\<lambda>w. va_ID w = va_ID v) vs = Some v"
  by (induction vs) auto

lemma addresses:
  assumes "distinct (map va_ID (vsc_Validators (app_ValidatorSet cfg)))" "v \<in> set (vsc_Validators (app_ValidatorSet cfg))"
  shows "extractValidatorRaftAddress (va_ID v) cfg = va_RaftAddress v" "extractValidatorGossipAddress (va_ID v) cfg = va_GossipAddress v"
  by (simp_all add: extractValidatorRaftAddress_def extractValidatorGossipAddress_def find_distinct [OF assms])

lemma map_filter_cond:
  "(\<And>x. x \<in> set xs \<Longrightarrow> g x = (if P x then Some (f x) else None)) \<Longrightarrow> List.map_filter g xs = map f (filter P xs)"
  by (induction xs) (simp_all add: List.map_filter_simps)

section \<open>A configuration\<close>

text \<open>The shared file of a subnet with three validators, of which the second takes no part in Raft, and the file of one validator.\<close>

definition subnet_file :: AppConfig where
  "subnet_file =
     \<lparr>app_SubnetID = ''s1'', app_Identity = DefaultIdentityConfig\<lparr>id_SubnetID := ''s1''\<rparr>, app_Timeouts = DefaultTimeoutConfig_app,
      app_Network = DefaultNetworkConfig, app_Limits = DefaultLimitsConfig,
      app_ValidatorSet = \<lparr>vsc_MinValidators = 1, vsc_ThresholdNum = 2, vsc_ThresholdDenom = 3,
        vsc_Validators = [ValidatorConfig_app.make ''v1'' ''e1'' [] [] ''r1'' ''g1'', ValidatorConfig_app.make ''v2'' ''e2'' [] [] [] ''g2'',
                          ValidatorConfig_app.make ''v3'' ''e3'' [] [] ''r3'' []]\<rparr>,
      app_Consensus = \<lparr>cc_ProposeTimeoutMs = 5000, cc_CollectTimeoutMs = 10000, cc_ChallengeWindowMs = 0\<rparr>,
      app_LevelDBPath = [], app_RPCAuthEnabled = False, app_BearerTokens = [], app_MetricsEnabled = False, app_MetricsListenAddr = [],
      app_TLSEnabled = True, app_DemoSigners = [],
      app_Agent = \<lparr>ac_ExecutorType = ''script'', ac_ExecutorConfig = None, ac_Strategy = [], ac_MatcherConfig = None, ac_SignerType = ''ecdsa'',
        ac_SignerPrivateKey = ''0x5e1f'', ac_SignerConfig = None\<rparr>,
      app_Validator = None,
      app_RootLayer = \<lparr>rl_HTTPURL = [], rl_WSURL = [], rl_AuthToken = [], rl_GRPCAddr = [], rl_GRPCEndpoint = [], rl_GRPCTLS = False,
        rl_GRPCDialTimeoutRaw = [], rl_ConnectTimeoutRaw = [], rl_RequestTimeoutRaw = [], rl_RetryDelayRaw = [], rl_MaxRetries = -1,
        rl_ConnectTimeout = 0, rl_RequestTimeout = 0, rl_RetryDelay = 0, rl_GRPCDialTimeout = 0\<rparr>,
      app_Blockchain = None,
      app_Raft = \<lparr>rf_Enable = True, rf_Bootstrap = False, rf_Bind = [], rf_Advertise = [], rf_DataDir = [], rf_Peers = []\<rparr>,
      app_Gossip = \<lparr>gs_Enable = False, gs_BindAddress = [], gs_BindPort = 0, gs_Seeds = [], gs_GossipInterval = [], gs_ProbeInterval = []\<rparr>\<rparr>"

definition own_file :: AppConfig where
  "own_file = subnet_file\<lparr>app_Identity := DefaultIdentityConfig\<lparr>id_ValidatorID := ''v1''\<rparr>,
     app_Gossip := (app_Gossip subnet_file)\<lparr>gs_Enable := True\<rparr>\<rparr>"

definition five_minutes :: "string \<Rightarrow> int option" where
  "five_minutes raw = (if raw = ''5m'' then Some (5 * minute) else None)"

lemma example_loads: "LoadSplit five_minutes (\<lambda>_. True) ''PROD'' (Inr subnet_file) (Inr own_file) \<noteq> Inl err"
  by code_simp

section \<open>Properties\<close>


text \<open>
  Whatever the two files say, a configuration that \<open>LoadSplit\<close> returns is normalised: the on-chain cache has a positive life time and
  capacity, the number of retries is not negative and the free-form sections of the agent exist. In production it is also ready for
  production; in every other mode nothing has been enforced.
\<close>
theorem loaded_config_is_normalized:
  assumes "LoadSplit ParseDuration isHexAddress envMode subnetFile validatorFile = Inr cfg"
  shows "(\<exists>b. app_Blockchain cfg = Some b \<and> 0 < bk_CacheTTL b \<and> 0 < bk_CacheSize b) \<and> 0 \<le> rl_MaxRetries (app_RootLayer cfg) \<and>
    ac_ExecutorConfig (app_Agent cfg) \<noteq> None \<and> ac_MatcherConfig (app_Agent cfg) \<noteq> None \<and> ac_SignerConfig (app_Agent cfg) \<noteq> None \<and>
    (ToLower envMode \<in> {''production'', ''prod''} \<longrightarrow> ValidateProductionReadiness isHexAddress cfg)"
proof -
  obtain base where "normalize_and_validate ParseDuration isHexAddress envMode base = Inr cfg"
    using assms by (auto simp: LoadSplit_def split: sum.splits)
  then obtain rootlayer b where "normalize_rootlayer ParseDuration (app_RootLayer base) = Inr rootlayer"
    and "Normalize_blockchain ParseDuration (case app_Blockchain base of None \<Rightarrow> DefaultBlockchainConfig | Some b \<Rightarrow> b) = Inr b"
    and out: "cfg = base\<lparr>app_Agent := normalize_agent (app_Agent base), app_RootLayer := rootlayer, app_Blockchain := Some b\<rparr>"
    and ok: "snd (Validate_app isHexAddress cfg (NewConfigValidator envMode))" by (rule normalized)
  then have "0 \<le> rl_MaxRetries rootlayer" "0 < bk_CacheTTL b \<and> 0 < bk_CacheSize b"
    by (simp_all add: retries_normalized blockchain_normalized)
  moreover have "ValidateProductionReadiness isHexAddress cfg" if "ToLower envMode \<in> {''production'', ''prod''}"
    using ok that production_ok [of "NewConfigValidator envMode" isHexAddress cfg] by (auto simp: NewConfigValidator_def Let_def)
  ultimately show ?thesis by (simp add: out agent_normalized)
qed

theorem loaded_config_is_normalized_witness:
  "\<exists>cfg. LoadSplit five_minutes (\<lambda>_. True) ''PROD'' (Inr subnet_file) (Inr own_file) = Inr cfg \<and> 0 \<le> rl_MaxRetries (app_RootLayer cfg) \<and>
     ValidateProductionReadiness (\<lambda>_. True) cfg"
proof -
  obtain cfg where "LoadSplit five_minutes (\<lambda>_. True) ''PROD'' (Inr subnet_file) (Inr own_file) = Inr cfg"
    using example_loads by (cases "LoadSplit five_minutes (\<lambda>_. True) ''PROD'' (Inr subnet_file) (Inr own_file)") auto
  moreover have "ToLower ''PROD'' = ''prod''" by code_simp
  ultimately show ?thesis using loaded_config_is_normalized [of five_minutes "\<lambda>_. True" "''PROD''" "Inr subnet_file" "Inr own_file"] by auto
qed

text \<open>
  If Raft is enabled in one of the files and neither names peers, the peers of a loaded configuration are the validators of the subnet's
  file that have a Raft address, in order, each with its own address; the same holds for the seeds of gossip.
\<close>
theorem peers_from_validator_set:
  assumes "LoadSplit ParseDuration isHexAddress envMode (Inr subnet) (Inr own) = Inr cfg"
    and "distinct (map va_ID (vsc_Validators (app_ValidatorSet subnet)))"
    and "rf_Enable (app_Raft subnet) \<or> rf_Enable (app_Raft own)" "rf_Peers (app_Raft subnet) = []" "rf_Peers (app_Raft own) = []"
    and "gs_Enable (app_Gossip subnet) \<or> gs_Enable (app_Gossip own)" "gs_Seeds (app_Gossip subnet) = []" "gs_Seeds (app_Gossip own) = []"
  shows "rf_Peers (app_Raft cfg) =
      map (\<lambda>v. (va_ID v, va_RaftAddress v)) (filter (\<lambda>v. va_RaftAddress v \<noteq> []) (vsc_Validators (app_ValidatorSet subnet))) \<and>
    gs_Seeds (app_Gossip cfg) =
      map va_GossipAddress (filter (\<lambda>v. va_GossipAddress v \<noteq> []) (vsc_Validators (app_ValidatorSet subnet)))"
proof -
  let ?base = "populate_seeds subnet (populate_peers subnet (mergeConfigs subnet own))"
  have "app_Raft cfg = app_Raft ?base \<and> app_Gossip cfg = app_Gossip ?base"
    using assms(1) by (auto simp: LoadSplit_def elim!: normalized)
  moreover have "List.map_filter (\<lambda>v. let a = extractValidatorRaftAddress (va_ID v) subnet in if a \<noteq> [] then Some (va_ID v, a) else None)
      (vsc_Validators (app_ValidatorSet subnet)) =
    map (\<lambda>v. (va_ID v, va_RaftAddress v)) (filter (\<lambda>v. va_RaftAddress v \<noteq> []) (vsc_Validators (app_ValidatorSet subnet)))"
    by (rule map_filter_cond) (simp add: addresses [OF assms(2)] Let_def)
  moreover have "List.map_filter (\<lambda>v. let a = extractValidatorGossipAddress (va_ID v) subnet in if a \<noteq> [] then Some a else None)
      (vsc_Validators (app_ValidatorSet subnet)) =
    map va_GossipAddress (filter (\<lambda>v. va_GossipAddress v \<noteq> []) (vsc_Validators (app_ValidatorSet subnet)))"
    by (rule map_filter_cond) (simp add: addresses [OF assms(2)] Let_def)
  ultimately show ?thesis
    using assms(3-8) by (auto simp: populate_seeds_def populate_peers_def mergeConfigs_def override_def Let_def)
qed

theorem peers_from_validator_set_witness:
  "\<exists>cfg. LoadSplit five_minutes (\<lambda>_. True) ''PROD'' (Inr subnet_file) (Inr own_file) = Inr cfg \<and>
     rf_Peers (app_Raft cfg) = [(''v1'', ''r1''), (''v3'', ''r3'')] \<and> gs_Seeds (app_Gossip cfg) = [''g1'', ''g2'']"
proof -
  obtain cfg where "LoadSplit five_minutes (\<lambda>_. True) ''PROD'' (Inr subnet_file) (Inr own_file) = Inr cfg"
    using example_loads by (cases "LoadSplit five_minutes (\<lambda>_. True) ''PROD'' (Inr subnet_file) (Inr own_file)") auto
  then show ?thesis
    using peers_from_validator_set [of five_minutes "\<lambda>_. True" "''PROD''" subnet_file own_file cfg]
    by (simp add: subnet_file_def own_file_def ValidatorConfig_app.defs)
qed

end
