(* ===== verification/Node_Setup.thy ===== *)
theory Node_Setup
  imports App_Config ABCI_App
begin

text \<open>
  The configuration of a validator node: checks and defaults of \<open>Config\<close> in \<open>src/internal/validator/node.go\<close>, the configurations it builds for
  Raft (\<open>consensus/raft/raft_consensus.go\<close>), gossip (\<open>gossip_config.go\<close>, \<open>consensus/raft/gossip_manager.go\<close>) and CometBFT
  (\<open>consensus/cometbft/config.go\<close>), and the settings that reach the libraries.
\<close>

section \<open>Model\<close>

subsection \<open>Texts\<close>

text \<open>\<open>strings.Split\<close> and \<open>strings.Join\<close> for a separator of one character.\<close>

fun split_char :: "char \<Rightarrow> string \<Rightarrow> string list" where
  "split_char c [] = [[]]"
| "split_char c (x # xs) =
     (if x = c then [] # split_char c xs
      else case split_char c xs of [] \<Rightarrow> [[x]] | p # ps \<Rightarrow> (x # p) # ps)"

fun join_char :: "char \<Rightarrow> string list \<Rightarrow> string" where
  "join_char c [] = []"
| "join_char c [p] = p"
| "join_char c (p # q # ps) = p @ c # join_char c (q # ps)"

text \<open>\<open>filepath.Clean\<close> on Unix, and \<open>filepath.Join\<close> of a path that is not empty and a name.\<close>

definition clean_part :: "bool \<Rightarrow> string list \<Rightarrow> string \<Rightarrow> string list" where
  "clean_part rooted out part =
     (if part = [] \<or> part = ''.'' then out
      else if part = ''..'' then
        (if out \<noteq> [] \<and> last out \<noteq> ''..'' then butlast out else if rooted then out else out @ [part])
      else out @ [part])"

definition Clean :: "string \<Rightarrow> string" where
  "Clean path =
     (if path = [] then ''.''
      else
        let rooted = (hd path = CHR ''/'');
            body = join_char (CHR ''/'') (foldl (clean_part rooted) [] (split_char (CHR ''/'') path)) in
        if rooted then CHR ''/'' # body else if body = [] then ''.'' else body)"

definition join_path :: "string \<Rightarrow> string \<Rightarrow> string" where
  "join_path path name = Clean (path @ CHR ''/'' # name)"

subsection \<open>Gossip\<close>

record GossipConfig_node =
  gc_Enable :: bool
  gc_BindAddress :: string
  gc_BindPort :: int
  gc_AdvertiseAddress :: string
  gc_AdvertisePort :: int
  gc_Seeds :: "string list"
  gc_GossipInterval :: int
  gc_ProbeInterval :: int

datatype setup_error =
    ValidatorIDRequired
  | PrivateKeyRequired
  | ValidatorSetRequired
  | ValidatorSetInvalid vset_error
  | RaftNotEnabled
  | RaftDataDirRequired
  | RaftBindAddressRequired
  | RaftPeerIncomplete
  | RaftNodeIDRequired
  | CometNotEnabled
  | CometHomeDirRequired
  | GossipBindAddressRequired
  | GossipBindPort int
  | GossipAdvertisePort int

definition GossipConfig_Validate :: "GossipConfig_node \<Rightarrow> setup_error option" where
  "GossipConfig_Validate c =
     (if \<not> gc_Enable c then None
      else if gc_BindAddress c = [] then Some GossipBindAddressRequired
      else if gc_BindPort c \<le> 0 \<or> gc_BindPort c > 65535 then Some (GossipBindPort (gc_BindPort c))
      else if gc_AdvertisePort c > 65535 then Some (GossipAdvertisePort (gc_AdvertisePort c))
      else None)"

definition ApplyDefaults :: "GossipConfig_node \<Rightarrow> GossipConfig_node" where
  "ApplyDefaults c =
     c\<lparr>gc_BindAddress := (if gc_BindAddress c = [] then ''0.0.0.0'' else gc_BindAddress c),
       gc_BindPort := (if gc_BindPort c = 0 then 7946 else gc_BindPort c),
       gc_GossipInterval := (if gc_GossipInterval c = 0 then 200 * millisecond else gc_GossipInterval c),
       gc_ProbeInterval := (if gc_ProbeInterval c = 0 then second else gc_ProbeInterval c)\<rparr>"

record GossipConfig_consensus =
  gm_NodeName :: string
  gm_BindAddress :: string
  gm_BindPort :: int
  gm_AdvertiseAddr :: string
  gm_AdvertisePort :: int
  gm_Seeds :: "string list"
  gm_GossipInterval :: int
  gm_ProbeInterval :: int

definition ToConsensusConfig :: "string \<Rightarrow> GossipConfig_node \<Rightarrow> GossipConfig_consensus" where
  "ToConsensusConfig nodeID c =
     \<lparr>gm_NodeName = nodeID, gm_BindAddress = gc_BindAddress c, gm_BindPort = gc_BindPort c, gm_AdvertiseAddr = gc_AdvertiseAddress c,
      gm_AdvertisePort = gc_AdvertisePort c, gm_Seeds = gc_Seeds c, gm_GossipInterval = gc_GossipInterval c,
      gm_ProbeInterval = gc_ProbeInterval c\<rparr>"

text \<open>The fields of memberlist's configuration that \<open>NewGossipManager\<close> sets, over the defaults of the library.\<close>

record Memberlist_Config =
  ml_Name :: string
  ml_BindAddr :: string
  ml_BindPort :: int
  ml_AdvertiseAddr :: string
  ml_AdvertisePort :: int
  ml_GossipInterval :: int
  ml_ProbeInterval :: int

definition memberlist_config :: "Memberlist_Config \<Rightarrow> GossipConfig_consensus \<Rightarrow> Memberlist_Config" where
  "memberlist_config lan cfg =
     lan\<lparr>ml_Name := gm_NodeName cfg, ml_BindAddr := gm_BindAddress cfg, ml_BindPort := gm_BindPort cfg,
         ml_AdvertiseAddr := (if gm_AdvertiseAddr cfg \<noteq> [] then gm_AdvertiseAddr cfg else ml_AdvertiseAddr lan),
         ml_AdvertisePort := (if gm_AdvertisePort cfg > 0 then gm_AdvertisePort cfg else ml_AdvertisePort lan),
         ml_GossipInterval := (if gm_GossipInterval cfg > 0 then gm_GossipInterval cfg else 200 * millisecond),
         ml_ProbeInterval := (if gm_ProbeInterval cfg > 0 then gm_ProbeInterval cfg else second)\<rparr>"

subsection \<open>The node\<close>

text \<open>Peers are pairs of identifier and address.\<close>

record RaftConfig_node =
  nr_Enable :: bool
  nr_DataDir :: string
  nr_BindAddress :: string
  nr_AdvertiseAddress :: string
  nr_Bootstrap :: bool
  nr_Peers :: "(string \<times> string) list"
  nr_HeartbeatTimeout :: int
  nr_ElectionTimeout :: int
  nr_CommitTimeout :: int
  nr_MaxPool :: int

definition empty_raft :: RaftConfig_node where
  "empty_raft =
     \<lparr>nr_Enable = False, nr_DataDir = [], nr_BindAddress = [], nr_AdvertiseAddress = [], nr_Bootstrap = False, nr_Peers = [],
      nr_HeartbeatTimeout = 0, nr_ElectionTimeout = 0, nr_CommitTimeout = 0, nr_MaxPool = 0\<rparr>"

record CometBFTConfig_node =
  nb_Enable :: bool
  nb_HomeDir :: string
  nb_Moniker :: string
  nb_ChainID :: string
  nb_P2PPort :: int
  nb_RPCPort :: int
  nb_ProxyPort :: int
  nb_Seeds :: string
  nb_PersistentPeers :: string
  nb_GenesisFile :: string
  nb_PrivValidatorKey :: string
  nb_NodeKey :: string
  nb_GenesisValidators :: "string \<rightharpoonup> int"

text \<open>Without the policy of validation (see \<open>ScorePolicy\<close> in \<open>Validator_Service\<close>) and the decay of scores, which nothing reads.\<close>

record Config_node =
  nn_ValidatorID :: string
  nn_SubnetID :: string
  nn_PrivateKey :: string
  nn_ValidatorSet :: "ValidatorSet option"
  nn_StoragePath :: string
  nn_GRPCPort :: int
  nn_MetricsPort :: int
  nn_Timeouts :: "TimeoutConfig_app option"
  nn_Network :: "NetworkConfig option"
  nn_Identity :: "IdentityConfig option"
  nn_Limits :: "LimitsConfig option"
  nn_ProposeTimeout :: int
  nn_CollectTimeout :: int
  nn_FinalizeTimeout :: int
  nn_CheckpointInterval :: int
  nn_MaxReportsPerEpoch :: int
  nn_RootLayerEndpoint :: string
  nn_EnableRootLayerSubmit :: bool
  nn_EnableChainSubmit :: bool
  nn_ChainRPCURL :: string
  nn_ChainNetwork :: string
  nn_IntentManagerAddr :: string
  nn_Raft :: "RaftConfig_node option"
  nn_Gossip :: "GossipConfig_node option"
  nn_CometBFT :: "CometBFTConfig_node option"
  nn_ConsensusType :: string
  nn_ValidatorEndpoints :: "string \<rightharpoonup> string"

definition or_default :: "'v \<Rightarrow> 'v option \<Rightarrow> 'v" where
  "or_default d x = (case x of None \<Rightarrow> d | Some v \<Rightarrow> v)"

definition raft_defaults :: "string \<Rightarrow> RaftConfig_node \<Rightarrow> RaftConfig_node" where
  "raft_defaults storagePath r =
     r\<lparr>nr_DataDir := (if nr_DataDir r = [] then (if storagePath \<noteq> [] then join_path storagePath ''raft'' else ''./data/raft'') else nr_DataDir r),
       nr_BindAddress := (if nr_BindAddress r = [] then ''127.0.0.1:7000'' else nr_BindAddress r),
       nr_HeartbeatTimeout := (if nr_HeartbeatTimeout r = 0 then second else nr_HeartbeatTimeout r),
       nr_ElectionTimeout := (if nr_ElectionTimeout r = 0 then second else nr_ElectionTimeout r),
       nr_CommitTimeout := (if nr_CommitTimeout r = 0 then 50 * millisecond else nr_CommitTimeout r),
       nr_MaxPool := (if nr_MaxPool r \<le> 0 then 3 else nr_MaxPool r)\<rparr>"

definition applyDefaults_node :: "Config_node \<Rightarrow> Config_node" where
  "applyDefaults_node c =
     (let t = or_default DefaultTimeoutConfig_app (nn_Timeouts c); i = or_default DefaultIdentityConfig (nn_Identity c) in
      c\<lparr>nn_Timeouts := Some t, nn_Network := Some (or_default DefaultNetworkConfig (nn_Network c)), nn_Identity := Some i,
        nn_Limits := Some (or_default DefaultLimitsConfig (nn_Limits c)),
        nn_ProposeTimeout := (if nn_ProposeTimeout c = 0 then tc_ProposeTimeout t else nn_ProposeTimeout c),
        nn_CollectTimeout := (if nn_CollectTimeout c = 0 then tc_CollectTimeout t else nn_CollectTimeout c),
        nn_FinalizeTimeout := (if nn_FinalizeTimeout c = 0 then tc_FinalizeTimeout t else nn_FinalizeTimeout c),
        nn_CheckpointInterval := (if nn_CheckpointInterval c = 0 then tc_CheckpointInterval t else nn_CheckpointInterval c),
        nn_SubnetID := (if nn_SubnetID c = [] then id_SubnetID i else nn_SubnetID c),
        nn_Raft := Some (raft_defaults (nn_StoragePath c) (or_default empty_raft (nn_Raft c)))\<rparr>)"

record RaftConfig_consensus =
  rk_NodeID :: string
  rk_DataDir :: string
  rk_BindAddress :: string
  rk_AdvertiseAddress :: string
  rk_Bootstrap :: bool
  rk_Peers :: "(string \<times> string) list"
  rk_HeartbeatTimeout :: int
  rk_ElectionTimeout :: int
  rk_CommitTimeout :: int
  rk_MaxPool :: int

definition buildRaftConsensusConfig :: "Config_node \<Rightarrow> setup_error + RaftConfig_consensus" where
  "buildRaftConsensusConfig c =
     (case nn_Raft c of
        None \<Rightarrow> Inl RaftNotEnabled
      | Some r \<Rightarrow>
          if \<not> nr_Enable r then Inl RaftNotEnabled
          else if nr_DataDir r = [] then Inl RaftDataDirRequired
          else if nr_BindAddress r = [] then Inl RaftBindAddressRequired
          else if list_ex (\<lambda>peer. fst peer = [] \<or> snd peer = []) (nr_Peers r) then Inl RaftPeerIncomplete
          else Inr \<lparr>rk_NodeID = nn_ValidatorID c, rk_DataDir = nr_DataDir r, rk_BindAddress = nr_BindAddress r,
                    rk_AdvertiseAddress = nr_AdvertiseAddress r, rk_Bootstrap = nr_Bootstrap r, rk_Peers = nr_Peers r,
                    rk_HeartbeatTimeout = nr_HeartbeatTimeout r, rk_ElectionTimeout = nr_ElectionTimeout r,
                    rk_CommitTimeout = nr_CommitTimeout r, rk_MaxPool = nr_MaxPool r\<rparr>)"

text \<open>\<open>Validate\<close> changes the configuration; the second component is its error.\<close>

definition Config_node_Validate :: "Config_node \<Rightarrow> Config_node \<times> setup_error option" where
  "Config_node_Validate c =
     (if nn_ValidatorID c = [] then (c, Some ValidatorIDRequired)
      else if nn_PrivateKey c = [] then (c, Some PrivateKeyRequired)
      else case nn_ValidatorSet c of
        None \<Rightarrow> (c, Some ValidatorSetRequired)
      | Some vs \<Rightarrow>
     (case Validate vs of
        Inl err \<Rightarrow> (c, Some (ValidatorSetInvalid err))
      | Inr _ \<Rightarrow>
          let c = applyDefaults_node c in
          if (\<exists>r \<in> set_option (nn_Raft c). nr_Enable r)
          then (case buildRaftConsensusConfig c of Inl err \<Rightarrow> (c, Some err) | Inr _ \<Rightarrow> (c, None))
          else (c, None)))"

definition split_list :: "string \<Rightarrow> string list" where
  "split_list s = (if s \<noteq> [] then split_char (CHR '','') s else [])"

definition default_chain_id :: "string \<Rightarrow> string" where
  "default_chain_id subnetID =
     ''subnet-'' @ (if length subnetID > 12 then drop (length subnetID - 12) subnetID else subnetID)"

definition buildCometBFTConfig_node :: "Config_node \<Rightarrow> setup_error + Config" where
  "buildCometBFTConfig_node c =
     (case nn_CometBFT c of
        None \<Rightarrow> Inl CometNotEnabled
      | Some b \<Rightarrow>
          if \<not> nb_Enable b then Inl CometNotEnabled
          else if nb_HomeDir b = [] then Inl CometHomeDirRequired
          else
            Inr \<lparr>cfg_HomeDir = nb_HomeDir b,
                 cfg_Moniker = (if nb_Moniker b = [] then nn_ValidatorID c else nb_Moniker b),
                 cfg_ChainID = (if nb_ChainID b = [] then default_chain_id (nn_SubnetID c) else nb_ChainID b),
                 cfg_P2PListenAddress = ''tcp://0.0.0.0:'' @ dec_int (nb_P2PPort b),
                 cfg_RPCListenAddress = ''tcp://127.0.0.1:'' @ dec_int (nb_RPCPort b),
                 cfg_Seeds = split_list (nb_Seeds b), cfg_PersistentPeers = split_list (nb_PersistentPeers b),
                 cfg_TimeoutPropose = 3 * second, cfg_TimeoutPrevote = 1 * second, cfg_TimeoutPrecommit = 1 * second,
                 cfg_TimeoutCommit = 5 * second, cfg_CreateEmptyBlocks = True, cfg_CreateEmptyBlocksInterval = 0,
                 cfg_MaxBlockSizeBytes = 22020096, cfg_MempoolSize = 5000, cfg_MempoolRecheck = True, cfg_MempoolBroadcast = True,
                 cfg_StateSyncEnable = False, cfg_DBBackend = ''goleveldb'', cfg_DBDir = [], cfg_LogLevel = ''error'',
                 cfg_LogFormat = ''plain'', cfg_GenesisValidators = nb_GenesisValidators b\<rparr>)"

subsection \<open>Raft\<close>

text \<open>
  What \<open>NewRaftConsensus\<close> passes to the library, over the timeouts of its default configuration; \<open>lib_servers\<close> is the cluster it
  bootstraps, if it does. Opening the stores and the transport is left out.
\<close>

record Raft_Settings =
  lib_LocalID :: string
  lib_BindAddress :: string
  lib_Advertise :: string
  lib_MaxPool :: int
  lib_Heartbeat :: int
  lib_Election :: int
  lib_Commit :: int
  lib_servers :: "(string \<times> string) list option"

definition raft_settings :: "int \<Rightarrow> int \<Rightarrow> int \<Rightarrow> RaftConfig_consensus \<Rightarrow> setup_error + Raft_Settings" where
  "raft_settings heartbeat election commit cfg =
     (if rk_NodeID cfg = [] then Inl RaftNodeIDRequired
      else if rk_DataDir cfg = [] then Inl RaftDataDirRequired
      else if rk_BindAddress cfg = [] then Inl RaftBindAddressRequired
      else Inr
        \<lparr>lib_LocalID = rk_NodeID cfg, lib_BindAddress = rk_BindAddress cfg,
         lib_Advertise = (if rk_AdvertiseAddress cfg = [] then rk_BindAddress cfg else rk_AdvertiseAddress cfg),
         lib_MaxPool = (if rk_MaxPool cfg \<le> 0 then 3 else rk_MaxPool cfg),
         lib_Heartbeat = (if rk_HeartbeatTimeout cfg > 0 then rk_HeartbeatTimeout cfg else heartbeat),
         lib_Election = (if rk_ElectionTimeout cfg > 0 then rk_ElectionTimeout cfg else election),
         lib_Commit = (if rk_CommitTimeout cfg > 0 then rk_CommitTimeout cfg else commit),
         lib_servers = (if rk_Bootstrap cfg \<and> length (rk_Peers cfg) > 0 then Some (rk_Peers cfg) else None)\<rparr>)"

section \<open>Facts\<close>

lemma split_char_nonempty [simp]: "split_char c s \<noteq> []"
  by (induction s) (auto split: list.split)

lemma join_split [simp]: "join_char c (split_char c s) = s"
proof (induction s)
  case (Cons x s)
  then show ?case by (cases "split_char c s"; cases "tl (split_char c s)") auto
qed simp

lemma Clean_nonempty: "Clean path \<noteq> []"
  by (simp add: Clean_def Let_def)

lemma or_default_Some [simp]: "or_default d (Some x) = x"
  by (simp add: or_default_def)

lemma raft_defaults_set:
  "nr_DataDir (raft_defaults p r) \<noteq> []" "nr_BindAddress (raft_defaults p r) \<noteq> []" "nr_MaxPool (raft_defaults p r) > 0"
  "nr_HeartbeatTimeout (raft_defaults p r) \<noteq> 0" "nr_ElectionTimeout (raft_defaults p r) \<noteq> 0" "nr_CommitTimeout (raft_defaults p r) \<noteq> 0"
  "nr_Enable (raft_defaults p r) = nr_Enable r" "nr_Peers (raft_defaults p r) = nr_Peers r"
  by (simp_all add: raft_defaults_def join_path_def Clean_nonempty second_def millisecond_def)

lemma raft_defaults_stable:
  "nr_DataDir r \<noteq> [] \<Longrightarrow> nr_BindAddress r \<noteq> [] \<Longrightarrow> nr_MaxPool r > 0 \<Longrightarrow> nr_HeartbeatTimeout r \<noteq> 0 \<Longrightarrow> nr_ElectionTimeout r \<noteq> 0 \<Longrightarrow>
   nr_CommitTimeout r \<noteq> 0 \<Longrightarrow> raft_defaults p r = r"
  by (simp add: raft_defaults_def)

lemma applyDefaults_idempotent: "applyDefaults_node (applyDefaults_node c) = applyDefaults_node c"
proof -
  let ?r = "raft_defaults (nn_StoragePath c) (or_default empty_raft (nn_Raft c))"
  have "raft_defaults (nn_StoragePath c) ?r = ?r" by (rule raft_defaults_stable) (simp_all add: raft_defaults_set)
  then show ?thesis by (simp add: applyDefaults_node_def Let_def)
qed

lemma applyDefaults_fields [simp]:
  "nn_ValidatorID (applyDefaults_node c) = nn_ValidatorID c" "nn_PrivateKey (applyDefaults_node c) = nn_PrivateKey c"
  "nn_ValidatorSet (applyDefaults_node c) = nn_ValidatorSet c" "nn_StoragePath (applyDefaults_node c) = nn_StoragePath c"
  "nn_Raft (applyDefaults_node c) = Some (raft_defaults (nn_StoragePath c) (or_default empty_raft (nn_Raft c)))"
  by (simp_all add: applyDefaults_node_def Let_def)

lemma node_valid:
  assumes "Config_node_Validate c = (c', None)"
  shows "c' = applyDefaults_node c" "nn_ValidatorID c \<noteq> []" "nn_PrivateKey c \<noteq> []" "\<exists>vs. nn_ValidatorSet c = Some vs \<and> Validate vs = Inr ()"
    "nn_Raft c' = Some r \<Longrightarrow> nr_Enable r \<Longrightarrow> \<exists>k. buildRaftConsensusConfig c' = Inr k"
  using assms by (auto simp: Config_node_Validate_def Let_def split: if_splits option.splits sum.splits)

lemma built_raft:
  assumes "buildRaftConsensusConfig c = Inr k" "nn_Raft c = Some r"
  shows "k = \<lparr>rk_NodeID = nn_ValidatorID c, rk_DataDir = nr_DataDir r, rk_BindAddress = nr_BindAddress r,
              rk_AdvertiseAddress = nr_AdvertiseAddress r, rk_Bootstrap = nr_Bootstrap r, rk_Peers = nr_Peers r,
              rk_HeartbeatTimeout = nr_HeartbeatTimeout r, rk_ElectionTimeout = nr_ElectionTimeout r,
              rk_CommitTimeout = nr_CommitTimeout r, rk_MaxPool = nr_MaxPool r\<rparr>"
    "\<forall>peer \<in> set (nr_Peers r). fst peer \<noteq> [] \<and> snd peer \<noteq> []"
  using assms by (auto simp: buildRaftConsensusConfig_def list_ex_iff split: if_splits)

lemma dec_int_nonempty [simp]: "dec_int i \<noteq> []"
  by (simp add: dec_int_def)

section \<open>Properties\<close>


definition three_validators :: ValidatorSet where
  "three_validators =
     \<lparr>vs_Validators = map (\<lambda>i. \<lparr>v_ID = i, v_PubKey = [], v_Weight = 1, v_Endpoint = []\<rparr>) [''v1'', ''v2'', ''v3''],
      vs_MinValidators = 3, vs_ThresholdNum = 2, vs_ThresholdDenom = 3, vs_EffectiveEpoch = 0\<rparr>"

definition small_config :: Config_node where
  "small_config =
     \<lparr>nn_ValidatorID = ''v1'', nn_SubnetID = ''0x00000000000000000003'', nn_PrivateKey = ''ab'', nn_ValidatorSet = Some three_validators,
      nn_StoragePath = ''data/../n1'', nn_GRPCPort = 9090, nn_MetricsPort = 9095, nn_Timeouts = None, nn_Network = None, nn_Identity = None,
      nn_Limits = None, nn_ProposeTimeout = 0, nn_CollectTimeout = 0, nn_FinalizeTimeout = 0, nn_CheckpointInterval = 0,
      nn_MaxReportsPerEpoch = 100, nn_RootLayerEndpoint = [], nn_EnableRootLayerSubmit = False, nn_EnableChainSubmit = False,
      nn_ChainRPCURL = [], nn_ChainNetwork = [], nn_IntentManagerAddr = [],
      nn_Raft = Some (empty_raft\<lparr>nr_Enable := True, nr_Peers := [(''v2'', ''h:7000'')]\<rparr>), nn_Gossip = None,
      nn_CometBFT = Some \<lparr>nb_Enable = True, nb_HomeDir = ''home'', nb_Moniker = [], nb_ChainID = [], nb_P2PPort = 26656, nb_RPCPort = 26657,
        nb_ProxyPort = 26658, nb_Seeds = [], nb_PersistentPeers = [], nb_GenesisFile = [], nb_PrivValidatorKey = [], nb_NodeKey = [],
        nb_GenesisValidators = Map.empty\<rparr>,
      nn_ConsensusType = ''raft-gossip'', nn_ValidatorEndpoints = Map.empty\<rparr>"


text \<open>
  The CometBFT configuration that a node builds passes the checks of the engine. A chain identifier that is not configured has at most 19
  characters, within the bound of 50, and two subnets get the same one exactly if their identifiers end in the same twelve characters.
\<close>
theorem built_cometbft_config_is_valid:
  assumes "buildCometBFTConfig_node c = Inr k" "buildCometBFTConfig_node d = Inr l"
    and "nn_CometBFT c = Some b" "nb_ChainID b = []" "nn_CometBFT d = Some b'" "nb_ChainID b' = []"
  shows "Config_Validate k = None \<and> length (cfg_ChainID k) \<le> 19 \<and>
    (cfg_ChainID k = cfg_ChainID l \<longleftrightarrow> rev (take 12 (rev (nn_SubnetID c))) = rev (take 12 (rev (nn_SubnetID d))))"
proof -
  have cut: "(if length s > 12 then drop (length s - 12) s else s) = rev (take 12 (rev s))" for s :: string
    by (simp add: rev_take)
  show ?thesis
    using assms by (auto simp: buildCometBFTConfig_node_def Config_Validate_def default_chain_id_def cut second_def split: if_splits)
qed

theorem built_cometbft_config_is_valid_witness:
  "\<exists>k. buildCometBFTConfig_node small_config = Inr k \<and> Config_Validate k = None \<and> cfg_ChainID k = ''subnet-000000000003''"
proof -
  obtain k where k: "buildCometBFTConfig_node small_config = Inr k"
    by (simp add: buildCometBFTConfig_node_def small_config_def)
  obtain b where b: "nn_CometBFT small_config = Some b" "nb_ChainID b = []" by (simp add: small_config_def)
  have "cfg_ChainID k = ''subnet-000000000003''"
    using k by (auto simp: buildCometBFTConfig_node_def small_config_def default_chain_id_def)
  with k built_cometbft_config_is_valid [OF k k b b] show ?thesis by blast
qed

end
