(* ===== verification/Validator_Main.thy ===== *)
theory Validator_Main
  imports Node_Setup
begin

text \<open>
  How the program \<open>src/cmd/validator/main.go\<close> turns its flags and configuration files into the configuration of the node: the lists it
  writes and reads as texts, the set of validators, and what a configuration file can change. Generating keys, the public key of a private
  key, and the duration parser are arguments; starting and stopping the node and the server is left out.
\<close>

section \<open>Model\<close>

subsection \<open>Lists as texts\<close>

definition is_white :: "char \<Rightarrow> bool" where
  "is_white c \<longleftrightarrow> (of_char c :: nat) \<in> {9, 10, 13, 32}"

definition trimWhitespace :: "string \<Rightarrow> string" where
  "trimWhitespace s = rev (dropWhile is_white (rev (dropWhile is_white s)))"

text \<open>All separators in use are single characters.\<close>

definition splitString :: "string \<Rightarrow> char \<Rightarrow> string list" where
  "splitString s sep = (if s = [] then [] else split_char sep s)"

definition splitAndTrim :: "string \<Rightarrow> char \<Rightarrow> string list" where
  "splitAndTrim s sep = filter (\<lambda>p. p \<noteq> []) (map trimWhitespace (splitString s sep))"

text \<open>One entry: the first part is the identifier, the others form the address. A malformed entry is skipped with a warning.\<close>

definition parse_pair :: "string \<Rightarrow> (string \<times> string) option" where
  "parse_pair pair =
     (let parts = splitAndTrim pair (CHR '':'') in
      if length parts \<ge> 2 then Some (hd parts, join_char (CHR '':'') (tl parts)) else None)"

definition parseRaftPeers :: "string \<Rightarrow> (string \<times> string) list" where
  "parseRaftPeers peerStr =
     (if peerStr = [] then [] else List.map_filter parse_pair (splitAndTrim peerStr (CHR '','')))"

definition parseValidatorEndpoints :: "string \<Rightarrow> (string \<rightharpoonup> string)" where
  "parseValidatorEndpoints endpointStr =
     (if endpointStr = [] then Map.empty
      else foldl (\<lambda>m p. m(fst p \<mapsto> snd p)) Map.empty (List.map_filter parse_pair (splitAndTrim endpointStr (CHR '',''))))"

definition parseGossipSeeds :: "string \<Rightarrow> string list" where
  "parseGossipSeeds seedsStr = (if seedsStr = [] then [] else splitAndTrim seedsStr (CHR '',''))"

definition parseGenesisValidators :: "ValidatorSet \<Rightarrow> (string \<rightharpoonup> int)" where
  "parseGenesisValidators vs = foldl (\<lambda>m v. m(v_ID v \<mapsto> 10)) Map.empty (vs_Validators vs)"

text \<open>How the lists of a configuration file become flags.\<close>

definition peers_flag :: "(string \<times> string) list \<Rightarrow> string" where
  "peers_flag peers = join_char (CHR '','') (map (\<lambda>p. fst p @ CHR '':'' # snd p) peers)"

definition seeds_flag :: "string list \<Rightarrow> string" where
  "seeds_flag seeds = join_char (CHR '','') seeds"

text \<open>\<open>fmt.Sscanf(s, ":%d", &port)\<close>: the port stays 0 if the text does not match or the number is out of range.\<close>

definition scan_port :: "string \<Rightarrow> int" where
  "scan_port s =
     (if s = [] \<or> hd s \<noteq> CHR '':'' then 0
      else
        let t = dropWhile (\<lambda>c. is_space c \<and> c \<noteq> CHR 0x0A) (tl s);
            signed = (t \<noteq> [] \<and> (hd t = CHR ''-'' \<or> hd t = CHR ''+''));
            sgn = (if signed then [hd t] else []) in
        or_default 0 (ParseInt (sgn @ takeWhile is_digit (if signed then tl t else t))))"

subsection \<open>The set of validators\<close>

datatype main_error =
    BothFilesRequired
  | ConfigFailed config_error
  | InvalidConsensusType string
  | NoValidatorID
  | KeyGenerationFailed
  | NegativeCapacity
  | NilSigner
  | ChainRPCRequired
  | InvalidContract string
  | InvalidCacheTTL string
  | InvalidCacheSize int

definition strip_0x :: "string \<Rightarrow> string" where
  "strip_0x s = (if length s \<ge> 2 \<and> take 2 s = ''0x'' then drop 2 s else s)"

definition add_pubkey :: "(string \<rightharpoonup> bytes) \<times> string list \<Rightarrow> string \<Rightarrow> (string \<rightharpoonup> bytes) \<times> string list" where
  "add_pubkey st pair =
     (let parts = splitAndTrim pair (CHR '':'') in
      if length parts = 2 then
        (case DecodeString (strip_0x (parts ! 1)) of
           (_, Some _) \<Rightarrow> st
         | (pubkey, None) \<Rightarrow> ((fst st)(parts ! 0 \<mapsto> pubkey), snd st @ [parts ! 0]))
      else st)"

definition parse_pubkeys :: "string \<Rightarrow> (string \<rightharpoonup> bytes) \<times> string list" where
  "parse_pubkeys validatorPubkeys =
     (if validatorPubkeys \<noteq> [] then foldl add_pubkey (Map.empty, []) (splitAndTrim validatorPubkeys (CHR '','')) else (Map.empty, []))"

text \<open>
  \<open>mine\<close> is the public key of the node's own key, \<open>None\<close> if that cannot be read; \<open>dummy\<close> are the keys that are generated for validators
  without one.
\<close>

definition createValidatorSet ::
  "(nat \<Rightarrow> bytes) \<Rightarrow> int \<Rightarrow> int \<Rightarrow> int \<Rightarrow> string \<Rightarrow> bytes option \<Rightarrow> string \<Rightarrow> main_error + ValidatorSet" where
  "createValidatorSet dummy cnt thresholdNum thresholdDenom myID mine validatorPubkeys =
     (if cnt < 0 then Inl NegativeCapacity
      else
        let keys = parse_pubkeys validatorPubkeys; pubkeyMap = fst keys;
            ids = (if snd keys = [] then map (\<lambda>i. ''validator-e2e-'' @ dec i) [1..<nat cnt + 1] else snd keys) in
        if myID \<in> set ids \<and> mine = None then Inl NilSigner
        else Inr
          \<lparr>vs_Validators = map (\<lambda>(i, vid).
             \<lparr>v_ID = vid,
              v_PubKey = (if vid = myID then or_default [] mine
                          else case pubkeyMap vid of Some pubkey \<Rightarrow> pubkey | None \<Rightarrow> dummy i),
              v_Weight = 1, v_Endpoint = []\<rparr>) (List.enumerate 0 ids),
           vs_MinValidators = cnt, vs_ThresholdNum = thresholdNum, vs_ThresholdDenom = thresholdDenom, vs_EffectiveEpoch = 0\<rparr>)"

subsection \<open>Flags\<close>

record Flags =
  fl_id :: string
  fl_key :: string
  fl_grpc :: int
  fl_storage :: string
  fl_metrics :: int
  fl_raftEnable :: bool
  fl_raftBootstrap :: bool
  fl_raftBind :: string
  fl_raftAdvertise :: string
  fl_raftDataDir :: string
  fl_raftPeers :: string
  fl_validatorEndpoints :: string
  fl_gossipEnable :: bool
  fl_gossipBind :: string
  fl_gossipPort :: int
  fl_gossipSeeds :: string
  fl_consensusType :: string
  fl_cometbftHome :: string
  fl_cometbftMoniker :: string
  fl_cometbftP2PPort :: int
  fl_cometbftRPCPort :: int
  fl_cometbftProxyPort :: int
  fl_cometbftSeeds :: string
  fl_cometbftPersistentPeers :: string
  fl_cometbftGenesisFile :: string
  fl_cometbftPrivValidatorKey :: string
  fl_cometbftNodeKey :: string
  fl_validatorCount :: int
  fl_thresholdNum :: int
  fl_thresholdDenom :: int
  fl_validatorPubkey :: string
  fl_chainEnabled :: bool
  fl_chainRPCURL :: string
  fl_subnetContract :: string
  fl_chainCacheTTL :: string
  fl_chainCacheSize :: int
  fl_chainFallback :: bool
  fl_allowUnverified :: bool
  fl_rootlayerEndpoint :: string
  fl_enableRootlayer :: bool
  fl_subnetID :: string
  fl_enableChainSubmit :: bool
  fl_valChainRPCURL :: string
  fl_valChainNetwork :: string
  fl_intentManagerAddr :: string

definition default_subnet :: string where
  "default_subnet = ''0x'' @ replicate 63 (CHR ''0'') @ ''3''"

definition default_flags :: Flags where
  "default_flags =
     \<lparr>fl_id = [], fl_key = [], fl_grpc = 9090, fl_storage = ''./data'', fl_metrics = 9095, fl_raftEnable = False, fl_raftBootstrap = False,
      fl_raftBind = ''127.0.0.1:7000'', fl_raftAdvertise = [], fl_raftDataDir = ''./data/raft'', fl_raftPeers = [], fl_validatorEndpoints = [],
      fl_gossipEnable = False, fl_gossipBind = ''127.0.0.1'', fl_gossipPort = 7946, fl_gossipSeeds = [], fl_consensusType = ''raft'',
      fl_cometbftHome = ''./cometbft-data'', fl_cometbftMoniker = [], fl_cometbftP2PPort = 26656, fl_cometbftRPCPort = 26657,
      fl_cometbftProxyPort = 26658, fl_cometbftSeeds = [], fl_cometbftPersistentPeers = [], fl_cometbftGenesisFile = [],
      fl_cometbftPrivValidatorKey = [], fl_cometbftNodeKey = [], fl_validatorCount = 4, fl_thresholdNum = 3, fl_thresholdDenom = 4,
      fl_validatorPubkey = [], fl_chainEnabled = False, fl_chainRPCURL = [], fl_subnetContract = [], fl_chainCacheTTL = ''5m'',
      fl_chainCacheSize = 1024, fl_chainFallback = True, fl_allowUnverified = True, fl_rootlayerEndpoint = [], fl_enableRootlayer = False,
      fl_subnetID = default_subnet, fl_enableChainSubmit = False, fl_valChainRPCURL = [], fl_valChainNetwork = [], fl_intentManagerAddr = []\<rparr>"

text \<open>A flag that still has its default, and a setting of the file that counts.\<close>

definition fill :: "'v \<Rightarrow> bool \<Rightarrow> 'v \<Rightarrow> 'v \<Rightarrow> 'v" where
  "fill dflt counts setting flag = (if flag = dflt \<and> counts then setting else flag)"

definition fill_port :: "int \<Rightarrow> string \<Rightarrow> int \<Rightarrow> int" where
  "fill_port dflt text flag = fill dflt (text \<noteq> [] \<and> scan_port text > 0) (scan_port text) flag"

definition apply_identity :: "AppConfig \<Rightarrow> Flags \<Rightarrow> Flags" where
  "apply_identity cfg f =
     (let vs = app_ValidatorSet cfg; nw = app_Network cfg in
      f\<lparr>fl_id := fill [] (id_ValidatorID (app_Identity cfg) \<noteq> []) (id_ValidatorID (app_Identity cfg)) (fl_id f),
        fl_subnetID := fill default_subnet (app_SubnetID cfg \<noteq> []) (app_SubnetID cfg) (fl_subnetID f),
        fl_storage := fill ''./data'' (app_LevelDBPath cfg \<noteq> []) (app_LevelDBPath cfg) (fl_storage f),
        fl_validatorCount := fill 4 (vsc_MinValidators vs > 0) (vsc_MinValidators vs) (fl_validatorCount f),
        fl_thresholdNum := fill 3 (vsc_ThresholdNum vs > 0) (vsc_ThresholdNum vs) (fl_thresholdNum f),
        fl_thresholdDenom := fill 4 (vsc_ThresholdDenom vs > 0) (vsc_ThresholdDenom vs) (fl_thresholdDenom f),
        fl_validatorEndpoints := fill [] (length (vsc_Validators vs) > 0) (peers_flag (map (\<lambda>v. (va_ID v, va_Endpoint v)) (vsc_Validators vs)))
          (fl_validatorEndpoints f),
        fl_grpc := fill_port 9090 (nw_ValidatorGRPCPort nw) (fl_grpc f), fl_metrics := fill_port 9095 (nw_MetricsPort nw) (fl_metrics f)\<rparr>)"

definition apply_rootlayer :: "AppConfig \<Rightarrow> Flags \<Rightarrow> Flags" where
  "apply_rootlayer cfg f =
     (let r = app_RootLayer cfg in
      f\<lparr>fl_rootlayerEndpoint :=
          (if fl_rootlayerEndpoint f = [] then
             (if rl_GRPCEndpoint r \<noteq> [] then rl_GRPCEndpoint r else if rl_GRPCAddr r \<noteq> [] then rl_GRPCAddr r else fl_rootlayerEndpoint f)
           else fl_rootlayerEndpoint f),
        fl_enableRootlayer := (if \<not> fl_enableRootlayer f then rl_GRPCEndpoint r \<noteq> [] \<or> rl_GRPCAddr r \<noteq> [] else fl_enableRootlayer f)\<rparr>)"

definition apply_blockchain :: "AppConfig \<Rightarrow> Flags \<Rightarrow> Flags" where
  "apply_blockchain cfg f =
     (case app_Blockchain cfg of
        None \<Rightarrow> f
      | Some b \<Rightarrow>
          if bk_Enabled b then
            f\<lparr>fl_chainEnabled := True, fl_chainRPCURL := fill [] (bk_RPCURL b \<noteq> []) (bk_RPCURL b) (fl_chainRPCURL f),
              fl_subnetContract := fill [] (bk_SubnetContract b \<noteq> []) (bk_SubnetContract b) (fl_subnetContract f)\<rparr>
          else f)"

definition apply_raft :: "AppConfig \<Rightarrow> Flags \<Rightarrow> Flags" where
  "apply_raft cfg f =
     (let r = app_Raft cfg in
      if rf_Enable r then
        f\<lparr>fl_raftEnable := True, fl_raftBootstrap := (fl_raftBootstrap f \<or> rf_Bootstrap r),
          fl_raftBind := fill ''127.0.0.1:7000'' (rf_Bind r \<noteq> []) (rf_Bind r) (fl_raftBind f),
          fl_raftAdvertise := fill [] (rf_Advertise r \<noteq> []) (rf_Advertise r) (fl_raftAdvertise f),
          fl_raftDataDir := fill ''./data/raft'' (rf_DataDir r \<noteq> []) (rf_DataDir r) (fl_raftDataDir f),
          fl_raftPeers := fill [] (length (rf_Peers r) > 0) (peers_flag (rf_Peers r)) (fl_raftPeers f)\<rparr>
      else f)"

definition apply_gossip :: "AppConfig \<Rightarrow> Flags \<Rightarrow> Flags" where
  "apply_gossip cfg f =
     (let g = app_Gossip cfg in
      if gs_Enable g then
        f\<lparr>fl_gossipEnable := True, fl_gossipBind := fill ''127.0.0.1'' (gs_BindAddress g \<noteq> []) (gs_BindAddress g) (fl_gossipBind f),
          fl_gossipPort := fill 7946 (gs_BindPort g > 0) (gs_BindPort g) (fl_gossipPort f),
          fl_gossipSeeds := fill [] (length (gs_Seeds g) > 0) (seeds_flag (gs_Seeds g)) (fl_gossipSeeds f)\<rparr>
      else f)"

definition apply_config :: "AppConfig option \<Rightarrow> Flags \<Rightarrow> Flags" where
  "apply_config cfg f =
     (case cfg of None \<Rightarrow> f
      | Some cfg \<Rightarrow> apply_gossip cfg (apply_raft cfg (apply_blockchain cfg (apply_rootlayer cfg (apply_identity cfg f)))))"

subsection \<open>The program\<close>

text \<open>The files named by the flags; each is loaded only if it is used.\<close>

definition load_files ::
  "string \<Rightarrow> string \<Rightarrow> string \<Rightarrow> config_error + AppConfig \<Rightarrow> config_error + AppConfig \<Rightarrow> main_error + AppConfig option" where
  "load_files subnetFile validatorFile file split_result single_result =
     (if subnetFile \<noteq> [] \<and> validatorFile \<noteq> [] then (case split_result of Inl e \<Rightarrow> Inl (ConfigFailed e) | Inr cfg \<Rightarrow> Inr (Some cfg))
      else if file \<noteq> [] then (case single_result of Inl e \<Rightarrow> Inl (ConfigFailed e) | Inr cfg \<Rightarrow> Inr (Some cfg))
      else if subnetFile \<noteq> [] \<or> validatorFile \<noteq> [] then Inl BothFilesRequired
      else Inr None)"

definition consensus_type :: "string \<Rightarrow> main_error + string" where
  "consensus_type t =
     (if t = ''raft'' then Inr ''raft-gossip'' else if t = ''raft-gossip'' \<or> t = ''cometbft'' then Inr t else Inl (InvalidConsensusType t))"

definition node_config :: "Flags \<Rightarrow> string \<Rightarrow> string \<Rightarrow> ValidatorSet \<Rightarrow> Config_node" where
  "node_config f consensusType privateKey vs =
     \<lparr>nn_ValidatorID = fl_id f, nn_SubnetID = fl_subnetID f, nn_PrivateKey = privateKey, nn_ValidatorSet = Some vs,
      nn_StoragePath = fl_storage f, nn_GRPCPort = fl_grpc f, nn_MetricsPort = fl_metrics f, nn_Timeouts = None, nn_Network = None,
      nn_Identity = None, nn_Limits = None, nn_ProposeTimeout = 5 * second, nn_CollectTimeout = 10 * second, nn_FinalizeTimeout = 2 * second,
      nn_CheckpointInterval = 0, nn_MaxReportsPerEpoch = 100, nn_RootLayerEndpoint = fl_rootlayerEndpoint f,
      nn_EnableRootLayerSubmit = fl_enableRootlayer f, nn_EnableChainSubmit = fl_enableChainSubmit f, nn_ChainRPCURL = fl_valChainRPCURL f,
      nn_ChainNetwork = fl_valChainNetwork f, nn_IntentManagerAddr = fl_intentManagerAddr f,
      nn_Raft = Some \<lparr>nr_Enable = fl_raftEnable f, nr_DataDir = fl_raftDataDir f, nr_BindAddress = fl_raftBind f,
        nr_AdvertiseAddress = fl_raftAdvertise f, nr_Bootstrap = fl_raftBootstrap f, nr_Peers = parseRaftPeers (fl_raftPeers f),
        nr_HeartbeatTimeout = second, nr_ElectionTimeout = 2 * second, nr_CommitTimeout = 500 * millisecond, nr_MaxPool = 0\<rparr>,
      nn_Gossip = Some \<lparr>gc_Enable = fl_gossipEnable f, gc_BindAddress = fl_gossipBind f, gc_BindPort = fl_gossipPort f, gc_AdvertiseAddress = [],
        gc_AdvertisePort = 0, gc_Seeds = parseGossipSeeds (fl_gossipSeeds f), gc_GossipInterval = 200 * millisecond,
        gc_ProbeInterval = second\<rparr>,
      nn_CometBFT = Some \<lparr>nb_Enable = (consensusType = ''cometbft''), nb_HomeDir = fl_cometbftHome f,
        nb_Moniker = (if consensusType = ''cometbft'' \<and> fl_cometbftMoniker f = [] then fl_id f else fl_cometbftMoniker f), nb_ChainID = [],
        nb_P2PPort = fl_cometbftP2PPort f, nb_RPCPort = fl_cometbftRPCPort f, nb_ProxyPort = fl_cometbftProxyPort f,
        nb_Seeds = fl_cometbftSeeds f, nb_PersistentPeers = fl_cometbftPersistentPeers f, nb_GenesisFile = fl_cometbftGenesisFile f,
        nb_PrivValidatorKey = fl_cometbftPrivValidatorKey f, nb_NodeKey = fl_cometbftNodeKey f,
        nb_GenesisValidators = parseGenesisValidators vs\<rparr>,
      nn_ConsensusType = consensusType, nn_ValidatorEndpoints = parseValidatorEndpoints (fl_validatorEndpoints f)\<rparr>"

text \<open>The URL, the contract and the settings of the on-chain check, if it is enabled.\<close>

definition chain_verifier ::
  "(string \<Rightarrow> int option) \<Rightarrow> (string \<Rightarrow> bool) \<Rightarrow> Flags \<Rightarrow> main_error + (string \<times> string \<times> VerifierConfig) option" where
  "chain_verifier ParseDuration isHexAddress f =
     (if \<not> fl_chainEnabled f then Inr None
      else if fl_chainRPCURL f = [] then Inl ChainRPCRequired
      else if \<not> isHexAddress (fl_subnetContract f) then Inl (InvalidContract (fl_subnetContract f))
      else case ParseDuration (fl_chainCacheTTL f) of
        None \<Rightarrow> Inl (InvalidCacheTTL (fl_chainCacheTTL f))
      | Some ttl \<Rightarrow>
          if fl_chainCacheSize f \<le> 0 then Inl (InvalidCacheSize (fl_chainCacheSize f))
          else Inr (Some (fl_chainRPCURL f, fl_subnetContract f,
                 \<lparr>vc_CacheTTL = ttl, vc_CacheSize = fl_chainCacheSize f, vc_EnableFallback = fl_chainFallback f\<rparr>)))"

record Main_Setup =
  ms_node :: Config_node
  ms_verifier :: "(string \<times> string \<times> VerifierConfig) option"
  ms_allowUnverified :: bool

text \<open>Arguments: the keys that are generated, the public key of a private key.\<close>

record Main_Env =
  me_ParseDuration :: "string \<Rightarrow> int option"
  me_isHexAddress :: "string \<Rightarrow> bool"
  me_generated :: "string option"
  me_public :: "string \<Rightarrow> bytes option"
  me_dummy :: "nat \<Rightarrow> bytes"

text \<open>With the flags as the configuration file has left them.\<close>

definition setup_from :: "Main_Env \<Rightarrow> Flags \<Rightarrow> main_error + Main_Setup" where
  "setup_from env f =
     (case consensus_type (fl_consensusType f) of
        Inl e \<Rightarrow> Inl e
      | Inr consensusType \<Rightarrow>
          if fl_id f = [] then Inl NoValidatorID
          else
            (case (if fl_key f = [] then me_generated env else Some (fl_key f)) of
               None \<Rightarrow> Inl KeyGenerationFailed
             | Some privateKey \<Rightarrow>
                 (case createValidatorSet (me_dummy env) (fl_validatorCount f) (fl_thresholdNum f) (fl_thresholdDenom f) (fl_id f)
                         (me_public env privateKey) (fl_validatorPubkey f) of
                    Inl e \<Rightarrow> Inl e
                  | Inr vs \<Rightarrow>
                      (case chain_verifier (me_ParseDuration env) (me_isHexAddress env) f of
                         Inl e \<Rightarrow> Inl e
                       | Inr verifier \<Rightarrow>
                           Inr \<lparr>ms_node = node_config f consensusType privateKey vs, ms_verifier = verifier,
                                ms_allowUnverified = fl_allowUnverified f\<rparr>))))"

definition main_setup :: "Main_Env \<Rightarrow> AppConfig option \<Rightarrow> Flags \<Rightarrow> main_error + Main_Setup" where
  "main_setup env cfg flags = setup_from env (apply_config cfg flags)"

section \<open>Texts\<close>

lemma split_part: "c \<notin> set p \<Longrightarrow> split_char c (p @ c # s) = p # split_char c s"
  by (induction p) auto

lemma split_single: "c \<notin> set p \<Longrightarrow> split_char c p = [p]"
  by (induction p) auto

lemma split_join: "ps \<noteq> [] \<Longrightarrow> \<forall>p \<in> set ps. c \<notin> set p \<Longrightarrow> split_char c (join_char c ps) = ps"
  by (induction c ps rule: join_char.induct) (simp_all add: split_part split_single)

lemma split_parts: "p \<in> set (split_char c s) \<Longrightarrow> c \<notin> set p"
proof (induction s arbitrary: p)
  case (Cons x s)
  then show ?case by (cases "split_char c s") (auto split: if_splits)
qed simp

lemma join_Cons: "ps \<noteq> [] \<Longrightarrow> join_char c (p # ps) = p @ c # join_char c ps"
  by (cases ps) simp_all

lemma join_set: "set (join_char c ps) \<subseteq> insert c (\<Union> (set ` set ps))"
  by (induction c ps rule: join_char.induct) auto

lemma join_nonempty: "ps \<noteq> [] \<Longrightarrow> \<forall>p \<in> set ps. p \<noteq> [] \<Longrightarrow> join_char c ps \<noteq> []"
  by (induction c ps rule: join_char.induct) auto

lemma join_hd: "ps \<noteq> [] \<Longrightarrow> \<forall>p \<in> set ps. p \<noteq> [] \<Longrightarrow> hd (join_char c ps) = hd (hd ps)"
  by (induction c ps rule: join_char.induct) auto

lemma join_last: "ps \<noteq> [] \<Longrightarrow> \<forall>p \<in> set ps. p \<noteq> [] \<Longrightarrow> last (join_char c ps) = last (last ps)"
  by (induction c ps rule: join_char.induct) (auto simp: join_nonempty)

lemma trim_subset: "set (trimWhitespace s) \<subseteq> set s"
  by (auto simp: trimWhitespace_def dest!: set_dropWhileD)

text \<open>A text that trimming leaves alone begins and ends with other characters than white space.\<close>

definition tight :: "string \<Rightarrow> bool" where
  "tight s \<longleftrightarrow> s \<noteq> [] \<and> \<not> is_white (hd s) \<and> \<not> is_white (last s)"

lemma drop_white: "s \<noteq> [] \<Longrightarrow> \<not> P (hd s) \<Longrightarrow> dropWhile P s = s"
  by (cases s) simp_all

lemma tight_trim: "tight s \<Longrightarrow> trimWhitespace s = s"
  by (simp add: tight_def trimWhitespace_def drop_white hd_rev)

lemma tight_join: "ps \<noteq> [] \<Longrightarrow> \<forall>p \<in> set ps. tight p \<Longrightarrow> tight (join_char c ps)"
  by (auto simp: tight_def join_nonempty join_hd join_last)

lemma split_trim_join:
  assumes "\<forall>p \<in> set ps. tight p \<and> c \<notin> set p"
  shows "splitAndTrim (join_char c ps) c = ps"
proof (cases "ps = []")
  case False
  have "map trimWhitespace ps = ps" using assms by (simp add: map_idI tight_trim)
  moreover have "filter (\<lambda>p. p \<noteq> []) ps = ps" using assms by (simp add: filter_id_conv tight_def)
  ultimately show ?thesis
    using False assms by (simp add: splitAndTrim_def splitString_def join_nonempty split_join tight_def)
qed (simp add: splitAndTrim_def splitString_def)

text \<open>Entries that survive: the identifier and every part of the address between colons is tight and has no comma.\<close>

definition good_part :: "string \<Rightarrow> bool" where
  "good_part p \<longleftrightarrow> tight p \<and> CHR '','' \<notin> set p \<and> CHR '':'' \<notin> set p"

definition good_peer :: "string \<times> string \<Rightarrow> bool" where
  "good_peer peer \<longleftrightarrow> good_part (fst peer) \<and> list_all good_part (split_char (CHR '':'') (snd peer))"

lemma pair_text: "fst peer @ CHR '':'' # snd peer = join_char (CHR '':'') (fst peer # split_char (CHR '':'') (snd peer))"
  by (simp add: join_Cons)

lemma good_pair:
  assumes "good_peer peer"
  shows "parse_pair (fst peer @ CHR '':'' # snd peer) = Some peer" "tight (fst peer @ CHR '':'' # snd peer)"
    "CHR '','' \<notin> set (fst peer @ CHR '':'' # snd peer)"
proof -
  let ?ps = "fst peer # split_char (CHR '':'') (snd peer)"
  have parts: "\<forall>p \<in> set ?ps. tight p \<and> CHR '':'' \<notin> set p \<and> CHR '','' \<notin> set p"
    using assms by (auto simp: good_peer_def good_part_def list_all_iff)
  have "2 \<le> length ?ps" by (cases "split_char (CHR '':'') (snd peer)") simp_all
  then show "parse_pair (fst peer @ CHR '':'' # snd peer) = Some peer"
    unfolding pair_text using parts by (simp add: parse_pair_def split_trim_join)
  show "tight (fst peer @ CHR '':'' # snd peer)"
    unfolding pair_text by (rule tight_join) (use parts in auto)
  show "CHR '','' \<notin> set (fst peer @ CHR '':'' # snd peer)"
    unfolding pair_text using parts join_set [of "CHR '':''" ?ps] by auto
qed

lemma entries_round_trip:
  assumes "\<forall>peer \<in> set peers. good_peer peer"
  shows "List.map_filter parse_pair (splitAndTrim (peers_flag peers) (CHR '','')) = peers"
proof -
  let ?text = "\<lambda>p. fst p @ CHR '':'' # snd p"
  have "splitAndTrim (peers_flag peers) (CHR '','') = map ?text peers"
    unfolding peers_flag_def by (rule split_trim_join) (use assms good_pair(2,3) in auto)
  moreover have "List.map_filter parse_pair (map ?text peers) = peers"
    using assms by (induction peers) (simp_all add: List.map_filter_simps good_pair(1))
  ultimately show ?thesis by simp
qed

lemma peers_round_trip: "\<forall>peer \<in> set peers. good_peer peer \<Longrightarrow> parseRaftPeers (peers_flag peers) = peers"
  using entries_round_trip [of peers] by (cases "peers_flag peers = []") (auto simp: parseRaftPeers_def splitAndTrim_def splitString_def List.map_filter_simps)

lemma split_trim_parts: "p \<in> set (splitAndTrim s c) \<Longrightarrow> p \<noteq> [] \<and> c \<notin> set p"
  using trim_subset by (fastforce simp: splitAndTrim_def splitString_def dest: split_parts split: if_splits)

lemma parsed_address:
  assumes "peer \<in> set (parseRaftPeers s)"
  shows "[] \<notin> set (split_char (CHR '':'') (snd peer))"
proof -
  obtain pair where "parse_pair pair = Some peer"
    using assms by (auto simp: parseRaftPeers_def List.map_filter_def split: if_splits)
  then obtain i a as where parts: "splitAndTrim pair (CHR '':'') = i # a # as" "snd peer = join_char (CHR '':'') (a # as)"
    by (auto simp: parse_pair_def Let_def numeral_2_eq_2 Suc_le_length_iff split: if_splits)
  have "\<forall>p \<in> set (a # as). p \<noteq> [] \<and> CHR '':'' \<notin> set p" using split_trim_parts [of _ pair "CHR '':''"] parts(1) by auto
  then have "split_char (CHR '':'') (snd peer) = a # as" unfolding parts(2) by (intro split_join) auto
  then show ?thesis using \<open>\<forall>p \<in> set (a # as). p \<noteq> [] \<and> _\<close> by auto
qed

section \<open>Keys\<close>

lemma keys_known: "\<forall>vid \<in> set (snd st). fst st vid \<noteq> None \<Longrightarrow> \<forall>vid \<in> set (snd (foldl add_pubkey st ps)). fst (foldl add_pubkey st ps) vid \<noteq> None"
proof (induction ps arbitrary: st)
  case (Cons p ps)
  have "\<forall>vid \<in> set (snd (add_pubkey st p)). fst (add_pubkey st p) vid \<noteq> None"
    using Cons.prems by (auto simp: add_pubkey_def Let_def split: prod.split option.split)
  then show ?case using Cons.IH by simp
qed simp

lemma parsed_keys: "vid \<in> set (snd (parse_pubkeys s)) \<Longrightarrow> \<exists>k. fst (parse_pubkeys s) vid = Some k"
  using keys_known [of "(Map.empty, [])"] by (fastforce simp: parse_pubkeys_def split: if_splits)

lemma listed_validators:
  assumes "createValidatorSet dummy cnt num den myID mine pubkeys = Inr vs" "snd (parse_pubkeys pubkeys) \<noteq> []"
    and "myID \<in> set (snd (parse_pubkeys pubkeys)) \<Longrightarrow> mine = fst (parse_pubkeys pubkeys) myID"
  shows "vs = \<lparr>vs_Validators = map (\<lambda>vid. \<lparr>v_ID = vid, v_PubKey = the (fst (parse_pubkeys pubkeys) vid), v_Weight = 1, v_Endpoint = []\<rparr>)
                 (snd (parse_pubkeys pubkeys)),
               vs_MinValidators = cnt, vs_ThresholdNum = num, vs_ThresholdDenom = den, vs_EffectiveEpoch = 0\<rparr>"
proof -
  let ?m = "fst (parse_pubkeys pubkeys)" and ?ids = "snd (parse_pubkeys pubkeys)"
  have "map (\<lambda>(i, vid). \<lparr>v_ID = vid, v_PubKey = (if vid = myID then or_default [] mine
            else case ?m vid of Some pubkey \<Rightarrow> pubkey | None \<Rightarrow> dummy i), v_Weight = 1, v_Endpoint = []\<rparr>) (List.enumerate 0 ?ids) =
        map (\<lambda>vid. \<lparr>v_ID = vid, v_PubKey = the (?m vid), v_Weight = 1, v_Endpoint = []\<rparr>) (map snd (List.enumerate 0 ?ids))"
    unfolding map_map
  proof (intro map_cong refl)
    fix x
    assume "x \<in> set (List.enumerate 0 ?ids)"
    then have "snd x \<in> set (map snd (List.enumerate 0 ?ids))" by (simp only: set_map imageI)
    then obtain i vid where x: "x = (i, vid)" and "vid \<in> set ?ids" by (cases x) (simp add: map_snd_enumerate del: set_map)
    then obtain k where "?m vid = Some k" using parsed_keys by blast
    with x assms(3) \<open>vid \<in> set ?ids\<close> show "(case x of (i, vid) \<Rightarrow> \<lparr>v_ID = vid, v_PubKey = (if vid = myID then or_default [] mine
            else case ?m vid of Some pubkey \<Rightarrow> pubkey | None \<Rightarrow> dummy i), v_Weight = 1, v_Endpoint = []\<rparr>) =
        ((\<lambda>vid. \<lparr>v_ID = vid, v_PubKey = the (?m vid), v_Weight = 1, v_Endpoint = []\<rparr>) \<circ> snd) x" by auto
  qed
  then show ?thesis using assms(1,2) by (auto simp: createValidatorSet_def Let_def split: if_splits)
qed

section \<open>Configuration files\<close>

text \<open>What the sections of a file leave alone.\<close>

lemma untouched_identity:
  "fl_allowUnverified (apply_identity cfg f) = fl_allowUnverified f" "fl_chainFallback (apply_identity cfg f) = fl_chainFallback f"
  "fl_consensusType (apply_identity cfg f) = fl_consensusType f"
  "fl_chainEnabled (apply_identity cfg f) = fl_chainEnabled f"
  "fl_chainRPCURL (apply_identity cfg f) = fl_chainRPCURL f"
  "fl_chainCacheTTL (apply_identity cfg f) = fl_chainCacheTTL f" "fl_chainCacheSize (apply_identity cfg f) = fl_chainCacheSize f"
  "fl_raftPeers (apply_identity cfg f) = fl_raftPeers f"
  by (simp_all add: apply_identity_def Let_def)

lemma untouched_rootlayer:
  "fl_allowUnverified (apply_rootlayer cfg f) = fl_allowUnverified f" "fl_chainFallback (apply_rootlayer cfg f) = fl_chainFallback f"
  "fl_consensusType (apply_rootlayer cfg f) = fl_consensusType f"
  "fl_id (apply_rootlayer cfg f) = fl_id f"
  "fl_validatorCount (apply_rootlayer cfg f) = fl_validatorCount f"
  "fl_chainEnabled (apply_rootlayer cfg f) = fl_chainEnabled f"
  "fl_chainRPCURL (apply_rootlayer cfg f) = fl_chainRPCURL f"
  "fl_chainCacheTTL (apply_rootlayer cfg f) = fl_chainCacheTTL f" "fl_chainCacheSize (apply_rootlayer cfg f) = fl_chainCacheSize f"
  "fl_raftPeers (apply_rootlayer cfg f) = fl_raftPeers f"
  by (simp_all add: apply_rootlayer_def Let_def)

lemma untouched_blockchain:
  "fl_allowUnverified (apply_blockchain cfg f) = fl_allowUnverified f" "fl_chainFallback (apply_blockchain cfg f) = fl_chainFallback f"
  "fl_consensusType (apply_blockchain cfg f) = fl_consensusType f"
  "fl_id (apply_blockchain cfg f) = fl_id f"
  "fl_validatorCount (apply_blockchain cfg f) = fl_validatorCount f"
  "fl_chainCacheTTL (apply_blockchain cfg f) = fl_chainCacheTTL f" "fl_chainCacheSize (apply_blockchain cfg f) = fl_chainCacheSize f"
  "fl_raftPeers (apply_blockchain cfg f) = fl_raftPeers f"
  by (simp_all add: apply_blockchain_def split: option.split)

lemma untouched_raft:
  "fl_allowUnverified (apply_raft cfg f) = fl_allowUnverified f" "fl_chainFallback (apply_raft cfg f) = fl_chainFallback f"
  "fl_consensusType (apply_raft cfg f) = fl_consensusType f"
  "fl_id (apply_raft cfg f) = fl_id f"
  "fl_validatorCount (apply_raft cfg f) = fl_validatorCount f"
  "fl_chainEnabled (apply_raft cfg f) = fl_chainEnabled f"
  "fl_chainRPCURL (apply_raft cfg f) = fl_chainRPCURL f"
  "fl_chainCacheTTL (apply_raft cfg f) = fl_chainCacheTTL f" "fl_chainCacheSize (apply_raft cfg f) = fl_chainCacheSize f"
  by (simp_all add: apply_raft_def Let_def)

lemma untouched_gossip:
  "fl_allowUnverified (apply_gossip cfg f) = fl_allowUnverified f" "fl_chainFallback (apply_gossip cfg f) = fl_chainFallback f"
  "fl_consensusType (apply_gossip cfg f) = fl_consensusType f"
  "fl_id (apply_gossip cfg f) = fl_id f"
  "fl_validatorCount (apply_gossip cfg f) = fl_validatorCount f"
  "fl_chainEnabled (apply_gossip cfg f) = fl_chainEnabled f"
  "fl_chainRPCURL (apply_gossip cfg f) = fl_chainRPCURL f"
  "fl_chainCacheTTL (apply_gossip cfg f) = fl_chainCacheTTL f" "fl_chainCacheSize (apply_gossip cfg f) = fl_chainCacheSize f"
  "fl_raftPeers (apply_gossip cfg f) = fl_raftPeers f"
  by (simp_all add: apply_gossip_def Let_def)

lemmas untouched_sections = untouched_identity untouched_rootlayer untouched_blockchain untouched_raft untouched_gossip

lemma untouched:
  "fl_allowUnverified (apply_config cfg f) = fl_allowUnverified f" "fl_chainFallback (apply_config cfg f) = fl_chainFallback f"
  "fl_chainCacheTTL (apply_config cfg f) = fl_chainCacheTTL f" "fl_chainCacheSize (apply_config cfg f) = fl_chainCacheSize f"
  by (cases cfg; simp add: apply_config_def untouched_sections)+

lemma raft_flag_section:
  "rf_Enable (app_Raft cfg) \<Longrightarrow> fl_raftPeers f = [] \<Longrightarrow> fl_raftPeers (apply_raft cfg f) = peers_flag (rf_Peers (app_Raft cfg))"
  by (simp add: apply_raft_def Let_def fill_def peers_flag_def)

lemma raft_flag:
  "rf_Enable (app_Raft cfg) \<Longrightarrow> fl_raftPeers f = [] \<Longrightarrow> fl_raftPeers (apply_config (Some cfg) f) = peers_flag (rf_Peers (app_Raft cfg))"
  by (simp add: apply_config_def untouched_sections raft_flag_section)

lemma setup_from_parts:
  assumes "setup_from env f = Inr s"
  obtains ct key vs where "ms_node s = node_config f ct key vs" "ms_allowUnverified s = fl_allowUnverified f"
    and "chain_verifier (me_ParseDuration env) (me_isHexAddress env) f = Inr (ms_verifier s)"
proof -
  obtain ct where ct: "consensus_type (fl_consensusType f) = Inr ct"
    using assms by (cases "consensus_type (fl_consensusType f)") (simp_all add: setup_from_def)
  obtain key where key: "(if fl_key f = [] then me_generated env else Some (fl_key f)) = Some key"
    using assms ct by (cases "if fl_key f = [] then me_generated env else Some (fl_key f)") (simp_all add: setup_from_def split: if_splits)
  let ?set = "createValidatorSet (me_dummy env) (fl_validatorCount f) (fl_thresholdNum f) (fl_thresholdDenom f) (fl_id f)
    (me_public env key) (fl_validatorPubkey f)"
  obtain vs where vs: "?set = Inr vs"
    using assms ct key by (cases ?set) (simp_all add: setup_from_def split: if_splits)
  let ?v = "chain_verifier (me_ParseDuration env) (me_isHexAddress env) f"
  obtain v where v: "?v = Inr v"
    using assms ct key vs by (cases ?v) (simp_all add: setup_from_def split: if_splits)
  have "s = \<lparr>ms_node = node_config f ct key vs, ms_verifier = v, ms_allowUnverified = fl_allowUnverified f\<rparr>"
    using assms ct key vs v by (simp add: setup_from_def split: if_splits)
  then show ?thesis using v by (intro that) simp_all
qed

section \<open>Examples\<close>

definition two_peers :: AppConfig where
  "two_peers = subnet_file\<lparr>app_Identity := DefaultIdentityConfig\<lparr>id_ValidatorID := ''v1''\<rparr>,
     app_Raft := (app_Raft subnet_file)\<lparr>rf_Peers := [(''v1'', ''h1:7000''), (''v2'', ''h2:7000'')]\<rparr>\<rparr>"

definition example_main :: Main_Env where
  "example_main = \<lparr>me_ParseDuration = five_minutes, me_isHexAddress = (\<lambda>_. True), me_generated = Some ''00'', me_public = (\<lambda>_. Some [1]),
     me_dummy = (\<lambda>_. [])\<rparr>"

definition strict_file :: AppConfig where
  "strict_file = two_peers\<lparr>app_Blockchain := Some (DefaultBlockchainConfig\<lparr>bk_Enabled := True, bk_RPCURL := ''rpc'',
     bk_SubnetContract := ''0x1'', bk_EnableFallback := False, bk_AllowUnverified := False\<rparr>)\<rparr>"

lemma setup_from_succeeds:
  assumes "consensus_type (fl_consensusType f) = Inr ct" "fl_id f \<noteq> []" "me_generated env \<noteq> None" "\<forall>key. me_public env key \<noteq> None"
    and "0 \<le> fl_validatorCount f" "chain_verifier (me_ParseDuration env) (me_isHexAddress env) f = Inr v"
  shows "\<exists>s. setup_from env f = Inr s"
proof -
  obtain key where key: "(if fl_key f = [] then me_generated env else Some (fl_key f)) = Some key"
    using assms(3) by (cases "fl_key f = []") auto
  obtain vs where "createValidatorSet (me_dummy env) (fl_validatorCount f) (fl_thresholdNum f) (fl_thresholdDenom f) (fl_id f)
      (me_public env key) (fl_validatorPubkey f) = Inr vs" using assms(4,5) by (simp add: createValidatorSet_def Let_def)
  then show ?thesis using assms(1,2,6) key by (simp add: setup_from_def)
qed

lemma blockchain_off: "app_Blockchain cfg = None \<Longrightarrow> apply_blockchain cfg f = f"
  by (simp add: apply_blockchain_def)

lemma blockchain_on:
  assumes "app_Blockchain cfg = Some b" "bk_Enabled b"
  shows "fl_chainEnabled (apply_blockchain cfg f)"
    "fl_chainRPCURL (apply_blockchain cfg f) = fill [] (bk_RPCURL b \<noteq> []) (bk_RPCURL b) (fl_chainRPCURL f)"
  using assms by (simp_all add: apply_blockchain_def)

lemma example_identity:
  "fl_consensusType default_flags = ''raft''" "fl_id (apply_identity two_peers default_flags) = ''v1''"
  "fl_validatorCount (apply_identity two_peers default_flags) = 1" "apply_identity strict_file = apply_identity two_peers"
  by (simp_all add: apply_identity_def fill_def strict_file_def two_peers_def subnet_file_def default_flags_def Let_def fun_eq_iff)

lemma example_setups:
  "\<exists>s. main_setup example_main (Some two_peers) default_flags = Inr s" "\<exists>s. main_setup example_main (Some strict_file) default_flags = Inr s"
proof -
  have env: "me_generated example_main \<noteq> None" "\<forall>key. me_public example_main key \<noteq> None"
    "me_ParseDuration example_main = five_minutes" "me_isHexAddress example_main = (\<lambda>_. True)" by (simp_all add: example_main_def)
  have flags: "\<not> fl_chainEnabled default_flags" "fl_chainRPCURL default_flags = []" "fl_chainCacheTTL default_flags = ''5m''"
    "fl_chainCacheSize default_flags = 1024" by (simp_all add: default_flags_def)
  have "app_Blockchain two_peers = None" by (simp add: two_peers_def subnet_file_def)
  then have "chain_verifier five_minutes (\<lambda>_. True) (apply_config (Some two_peers) default_flags) = Inr None"
    by (simp add: chain_verifier_def apply_config_def untouched_sections blockchain_off flags)
  then show "\<exists>s. main_setup example_main (Some two_peers) default_flags = Inr s"
    unfolding main_setup_def using env
    by (intro setup_from_succeeds [where ct = "''raft-gossip''"])
      (simp_all add: consensus_type_def apply_config_def untouched_sections example_identity)
  obtain b where b: "app_Blockchain strict_file = Some b" "bk_Enabled b" "bk_RPCURL b = ''rpc''" by (simp add: strict_file_def)
  then obtain v where "chain_verifier five_minutes (\<lambda>_. True) (apply_config (Some strict_file) default_flags) = Inr (Some v)"
    by (simp add: chain_verifier_def untouched)
      (simp add: apply_config_def untouched_sections blockchain_on [OF b(1,2)] flags fill_def five_minutes_def)
  then show "\<exists>s. main_setup example_main (Some strict_file) default_flags = Inr s"
    unfolding main_setup_def using env
    by (intro setup_from_succeeds [where ct = "''raft-gossip''"])
      (simp_all add: consensus_type_def apply_config_def untouched_sections example_identity)
qed

section \<open>Properties\<close>

text \<open>
  C35: The Raft peers of a configuration file reach the node unchanged through the text of the flag, if identifiers and the parts of the
  addresses between colons are free of commas, colons and outer white space; but no address with an empty part, as every abbreviated IPv6
  address has, ever reaches the node.
\<close>
theorem raft_peers_reach_the_node:
  assumes "main_setup env (Some cfg) flags = Inr s" "fl_raftPeers flags = []" "rf_Enable (app_Raft cfg)"
  shows "\<exists>r. nn_Raft (ms_node s) = Some r \<and>
    ((\<forall>peer \<in> set (rf_Peers (app_Raft cfg)). good_peer peer) \<longrightarrow> nr_Peers r = rf_Peers (app_Raft cfg)) \<and>
    (\<forall>peer \<in> set (nr_Peers r). [] \<notin> set (split_char (CHR '':'') (snd peer)))"
proof -
  from assms(1) have "setup_from env (apply_config (Some cfg) flags) = Inr s" by (simp add: main_setup_def)
  then obtain ct key vs where "ms_node s = node_config (apply_config (Some cfg) flags) ct key vs" by (rule setup_from_parts)
  then obtain r where r: "nn_Raft (ms_node s) = Some r" "nr_Peers r = parseRaftPeers (peers_flag (rf_Peers (app_Raft cfg)))"
    by (simp add: node_config_def raft_flag [OF assms(3,2)])
  then show ?thesis using peers_round_trip [of "rf_Peers (app_Raft cfg)"] parsed_address by auto
qed

theorem raft_peers_reach_the_node_witness:
  "(\<exists>s r. main_setup example_main (Some two_peers) default_flags = Inr s \<and> nn_Raft (ms_node s) = Some r \<and>
      nr_Peers r = [(''v1'', ''h1:7000''), (''v2'', ''h2:7000'')]) \<and> parseRaftPeers ''v1:[::1]:7000'' = [(''v1'', ''[:1]:7000'')]"
proof
  obtain s where s: "main_setup example_main (Some two_peers) default_flags = Inr s"
    using example_setups(1) by blast
  have facts: "fl_raftPeers default_flags = []" "rf_Enable (app_Raft two_peers)"
    "rf_Peers (app_Raft two_peers) = [(''v1'', ''h1:7000''), (''v2'', ''h2:7000'')]"
    by (simp_all add: default_flags_def two_peers_def subnet_file_def)
  have "good_peer (''v1'', ''h1:7000'')" "good_peer (''v2'', ''h2:7000'')" by code_simp+
  then show "\<exists>s r. main_setup example_main (Some two_peers) default_flags = Inr s \<and> nn_Raft (ms_node s) = Some r \<and>
      nr_Peers r = [(''v1'', ''h1:7000''), (''v2'', ''h2:7000'')]"
    using raft_peers_reach_the_node [OF s facts(1,2)] s facts(3) by auto
  show "parseRaftPeers ''v1:[::1]:7000'' = [(''v1'', ''[:1]:7000'')]" by code_simp
qed

text \<open>
  C36: Two nodes that are started with the same list of public keys, each with the key that the list names for it, have the same set of validators,
  in the order of the list; the generated keys play no role.
\<close>
theorem nodes_agree_on_validators:
  assumes "createValidatorSet dummy cnt num den myID mine pubkeys = Inr vs" "createValidatorSet dummy' cnt num den myID' mine' pubkeys = Inr vs'"
    and "snd (parse_pubkeys pubkeys) \<noteq> []"
    and "myID \<in> set (snd (parse_pubkeys pubkeys)) \<Longrightarrow> mine = fst (parse_pubkeys pubkeys) myID"
    and "myID' \<in> set (snd (parse_pubkeys pubkeys)) \<Longrightarrow> mine' = fst (parse_pubkeys pubkeys) myID'"
  shows "vs = vs' \<and> map v_ID (vs_Validators vs) = snd (parse_pubkeys pubkeys)"
  using listed_validators [OF assms(1,3,4)] listed_validators [OF assms(2,3,5)] by (simp add: comp_def)

theorem nodes_agree_on_validators_witness:
  "\<exists>vs. createValidatorSet (\<lambda>_. []) 2 1 2 ''b'' (Some [1]) ''b:01, a:0x02'' = Inr vs \<and>
     createValidatorSet (\<lambda>_. [7]) 2 1 2 ''a'' (Some [2]) ''b:01, a:0x02'' = Inr vs \<and> map v_ID (vs_Validators vs) = [''b'', ''a'']"
proof -
  have keys: "snd (parse_pubkeys ''b:01, a:0x02'') = [''b'', ''a'']" "fst (parse_pubkeys ''b:01, a:0x02'') ''b'' = Some [1]"
    "fst (parse_pubkeys ''b:01, a:0x02'') ''a'' = Some [2]" by code_simp+
  obtain vs where vs: "createValidatorSet (\<lambda>_. []) 2 1 2 ''b'' (Some [1]) ''b:01, a:0x02'' = Inr vs"
    by (simp add: createValidatorSet_def Let_def)
  obtain vs' where vs': "createValidatorSet (\<lambda>_. [7]) 2 1 2 ''a'' (Some [2]) ''b:01, a:0x02'' = Inr vs'"
    by (simp add: createValidatorSet_def Let_def)
  show ?thesis using nodes_agree_on_validators [OF vs vs'] vs vs' keys by auto
qed

text \<open>
  A configuration file cannot make a validator stricter: whether unverified agents are allowed, the fallback, the life time and the size
  of the cache are always those of the flags, and the timeouts of a node that passes its checks are always the built-in ones.
\<close>
theorem config_file_cannot_restrict:
  assumes "main_setup env cfg flags = Inr s"
  shows "ms_allowUnverified s = fl_allowUnverified flags \<and>
    (\<forall>url contract v. ms_verifier s = Some (url, contract, v) \<longrightarrow>
       vc_EnableFallback v = fl_chainFallback flags \<and> vc_CacheSize v = fl_chainCacheSize flags \<and>
       me_ParseDuration env (fl_chainCacheTTL flags) = Some (vc_CacheTTL v)) \<and>
    (\<forall>c. Config_node_Validate (ms_node s) = (c, None) \<longrightarrow>
       nn_Timeouts c = Some DefaultTimeoutConfig_app \<and> nn_CheckpointInterval c = tc_CheckpointInterval DefaultTimeoutConfig_app)"
proof -
  from assms have "setup_from env (apply_config cfg flags) = Inr s" by (simp add: main_setup_def)
  then obtain ct key vs where node: "ms_node s = node_config (apply_config cfg flags) ct key vs"
    and allow: "ms_allowUnverified s = fl_allowUnverified flags"
    and verifier: "chain_verifier (me_ParseDuration env) (me_isHexAddress env) (apply_config cfg flags) = Inr (ms_verifier s)"
    by (rule setup_from_parts) (simp add: untouched)
  have "nn_Timeouts c = Some DefaultTimeoutConfig_app \<and> nn_CheckpointInterval c = tc_CheckpointInterval DefaultTimeoutConfig_app"
    if "Config_node_Validate (ms_node s) = (c, None)" for c
    using node_valid(1) [OF that] by (simp add: node node_config_def applyDefaults_node_def Let_def or_default_def)
  moreover have "vc_EnableFallback v = fl_chainFallback flags \<and> vc_CacheSize v = fl_chainCacheSize flags \<and>
       me_ParseDuration env (fl_chainCacheTTL flags) = Some (vc_CacheTTL v)" if "ms_verifier s = Some (url, contract, v)" for url contract v
    using verifier that by (auto simp: chain_verifier_def untouched split: if_splits option.splits)
  ultimately show ?thesis using allow by blast
qed

theorem config_file_cannot_restrict_witness:
  "\<exists>s. main_setup example_main (Some strict_file) default_flags = Inr s \<and> ms_allowUnverified s \<and>
     (\<exists>b. app_Blockchain strict_file = Some b \<and> bk_Enabled b \<and> \<not> bk_AllowUnverified b)"
proof -
  obtain s where s: "main_setup example_main (Some strict_file) default_flags = Inr s" using example_setups(2) by blast
  have "fl_allowUnverified default_flags" "\<exists>b. app_Blockchain strict_file = Some b \<and> bk_Enabled b \<and> \<not> bk_AllowUnverified b"
    by (simp_all add: default_flags_def strict_file_def)
  with s config_file_cannot_restrict [OF s] show ?thesis by blast
qed

end
