(* ===== verification/Matcher_Main.thy ===== *)
theory Matcher_Main
  imports App_Config Matcher_Server Task_Distributor
begin

text \<open>
  How the matcher is set up: its configuration (\<open>src/internal/matcher/config.go\<close>), what the program \<open>src/cmd/matcher/main.go\<close> takes from
  flags, file and environment, the checks of \<open>NewServerWithStrategy\<close> in \<open>server.go\<close>, and the metadata that an intent can carry
  (\<open>intent_metadata.go\<close>). The file reader (viper), the duration parser, loading a key, and the JSON decoder are arguments.
\<close>

section \<open>Model\<close>

subsection \<open>Configuration\<close>

record Config_matcher =
  mc_Timeouts :: "TimeoutConfig_app option"
  mc_Network :: "NetworkConfig option"
  mc_Identity :: "IdentityConfig option"
  mc_Limits :: "LimitsConfig option"
  mc_BiddingWindowSec :: int
  mc_MaxBidsPerIntent :: int
  mc_MatchingStrategy :: string
  mc_DefaultLeaseTTL :: int
  mc_MinLeaseTTL :: int
  mc_MaxLeaseTTL :: int
  mc_MatcherID :: string
  mc_PrivateKey :: string
  mc_RootLayerEndpoint :: string
  mc_IntentPullInterval :: int
  mc_ChainRPCURL :: string
  mc_ChainNetwork :: string
  mc_IntentManagerAddr :: string
  mc_EnableChainSubmit :: bool

definition applyDefaults_matcher :: "Config_matcher \<Rightarrow> Config_matcher" where
  "applyDefaults_matcher c =
     (let t = (case mc_Timeouts c of None \<Rightarrow> DefaultTimeoutConfig_app | Some t \<Rightarrow> t);
          i = (case mc_Identity c of None \<Rightarrow> DefaultIdentityConfig | Some i \<Rightarrow> i);
          l = (case mc_Limits c of None \<Rightarrow> DefaultLimitsConfig | Some l \<Rightarrow> l) in
      c\<lparr>mc_Timeouts := Some t, mc_Network := Some (case mc_Network c of None \<Rightarrow> DefaultNetworkConfig | Some n \<Rightarrow> n),
        mc_Identity := Some i, mc_Limits := Some l,
        mc_BiddingWindowSec := (if mc_BiddingWindowSec c = 0 then lm_BiddingWindowSec l else mc_BiddingWindowSec c),
        mc_MaxBidsPerIntent := (if mc_MaxBidsPerIntent c = 0 then lm_MaxBidsPerIntent l else mc_MaxBidsPerIntent c),
        mc_MatcherID := (if mc_MatcherID c = [] then id_MatcherID i else mc_MatcherID c),
        mc_IntentPullInterval := (if mc_IntentPullInterval c = 0 then tc_IntentGenerateInterval t else mc_IntentPullInterval c)\<rparr>)"

definition DefaultConfig_matcher :: Config_matcher where
  "DefaultConfig_matcher = applyDefaults_matcher
     \<lparr>mc_Timeouts = Some DefaultTimeoutConfig_app, mc_Network = Some DefaultNetworkConfig, mc_Identity = Some DefaultIdentityConfig,
      mc_Limits = Some DefaultLimitsConfig, mc_BiddingWindowSec = 0, mc_MaxBidsPerIntent = 0, mc_MatchingStrategy = ''lowest_price'',
      mc_DefaultLeaseTTL = 5 * 60 * second, mc_MinLeaseTTL = 60 * second, mc_MaxLeaseTTL = 30 * 60 * second, mc_MatcherID = [],
      mc_PrivateKey = [], mc_RootLayerEndpoint = [], mc_IntentPullInterval = 0, mc_ChainRPCURL = [], mc_ChainNetwork = [],
      mc_IntentManagerAddr = [], mc_EnableChainSubmit = False\<rparr>"

datatype matcher_setup_error =
    SubnetIDMissing
  | MatcherIDMissing
  | KeyLength nat
  | KeyNotHex
  | WindowNotPositive
  | MaxBidsNotPositive
  | MatcherTimeoutTooShort string
  | KeyRequired
  | SignerFailed
  | ChainFieldRequired string
  | SDKFailed
  | UnknownStrategy string
  | BlockchainUnmarshal
  | BlockchainInvalid config_error
  | InvalidContractAddress string

definition is_hex :: "char \<Rightarrow> bool" where
  "is_hex c \<longleftrightarrow> (let n = (of_char c :: nat) in 48 \<le> n \<and> n \<le> 57 \<or> 97 \<le> n \<and> n \<le> 102 \<or> 65 \<le> n \<and> n \<le> 70)"

definition validatePrivateKey :: "string \<Rightarrow> matcher_setup_error option" where
  "validatePrivateKey key =
     (let key = (if length key \<ge> 2 \<and> take 2 key = ''0x'' then drop 2 key else key) in
      if length key \<noteq> 64 then Some (KeyLength (length key))
      else if \<not> list_all is_hex key then Some KeyNotHex else None)"

definition timeouts_error :: "TimeoutConfig_app \<Rightarrow> matcher_setup_error option" where
  "timeouts_error t =
     (if tc_TaskSendTimeout t < second then Some (MatcherTimeoutTooShort ''task_send_timeout'')
      else if tc_TaskResponseTimeout t < 5 * second then Some (MatcherTimeoutTooShort ''task_response_timeout'')
      else if tc_RootLayerSubmitTimeout t < second then Some (MatcherTimeoutTooShort ''rootlayer_submit_timeout'')
      else None)"

definition Config_matcher_Validate :: "Config_matcher \<Rightarrow> matcher_setup_error option" where
  "Config_matcher_Validate c =
     (if (\<exists>i \<in> set_option (mc_Identity c). id_SubnetID i = []) then Some SubnetIDMissing
      else if mc_MatcherID c = [] \<and> (case mc_Identity c of None \<Rightarrow> True | Some i \<Rightarrow> id_MatcherID i = []) then Some MatcherIDMissing
      else if mc_PrivateKey c \<noteq> [] \<and> validatePrivateKey (mc_PrivateKey c) \<noteq> None then validatePrivateKey (mc_PrivateKey c)
      else if mc_BiddingWindowSec c \<le> 0 then Some WindowNotPositive
      else if mc_MaxBidsPerIntent c \<le> 0 then Some MaxBidsNotPositive
      else case mc_Timeouts c of None \<Rightarrow> None | Some t \<Rightarrow> timeouts_error t)"

datatype strategy = LowestPrice

definition CreateStrategy :: "Config_matcher \<Rightarrow> matcher_setup_error + strategy" where
  "CreateStrategy c =
     (if mc_MatchingStrategy c = ''lowest_price'' \<or> mc_MatchingStrategy c = [] then Inr LowestPrice
      else Inl (UnknownStrategy (mc_MatchingStrategy c)))"

subsection \<open>Server\<close>

text \<open>\<open>loads\<close>: the key can be parsed; \<open>sdk\<close>: the chain client can be created.\<close>

definition NewServerWithStrategy :: "(string \<Rightarrow> bool) \<Rightarrow> bool \<Rightarrow> Config_matcher option \<Rightarrow> matcher_setup_error + Server" where
  "NewServerWithStrategy loads sdk config =
     (let c = (case config of None \<Rightarrow> DefaultConfig_matcher | Some c \<Rightarrow> c) in
      case Config_matcher_Validate c of
        Some e \<Rightarrow> Inl e
      | None \<Rightarrow>
          if mc_PrivateKey c = [] then Inl KeyRequired
          else if \<not> loads (mc_PrivateKey c) then Inl SignerFailed
          else if (case mc_Identity c of None \<Rightarrow> True | Some i \<Rightarrow> id_SubnetID i = []) then Inl SubnetIDMissing
          else if mc_EnableChainSubmit c \<and> mc_ChainRPCURL c = [] then Inl (ChainFieldRequired ''chain_rpc_url'')
          else if mc_EnableChainSubmit c \<and> mc_ChainNetwork c = [] then Inl (ChainFieldRequired ''chain_network'')
          else if mc_EnableChainSubmit c \<and> mc_IntentManagerAddr c = [] then Inl (ChainFieldRequired ''intent_manager_addr'')
          else if mc_EnableChainSubmit c \<and> \<not> sdk then Inl SDKFailed
          else Inr (NewServer (mc_MatcherID c) (mc_BiddingWindowSec c) (mc_EnableChainSubmit c) False))"

definition AttachBlockchainVerifier_matcher :: "bool \<Rightarrow> Server \<Rightarrow> Server" where
  "AttachBlockchainVerifier_matcher allowUnverified s = s\<lparr>srv_allowUnverified := allowUnverified\<rparr>"

subsection \<open>The program\<close>

text \<open>The file as viper presents it, and the environment.\<close>

record Viper =
  vi_ReadOk :: bool
  vi_IsSet :: "string \<Rightarrow> bool"
  vi_GetString :: "string \<Rightarrow> string"
  vi_GetInt :: "string \<Rightarrow> int"
  vi_GetBool :: "string \<Rightarrow> bool"
  vi_Blockchain :: "(BlockchainConfig \<Rightarrow> BlockchainConfig option) option"

definition string_setting :: "Viper \<Rightarrow> string \<Rightarrow> string \<Rightarrow> string" where
  "string_setting vi key old = (if vi_IsSet vi key then vi_GetString vi key else old)"

definition load_file :: "Viper \<Rightarrow> (string \<Rightarrow> string option) \<Rightarrow> Config_matcher \<Rightarrow> Config_matcher" where
  "load_file vi env c =
     (let i = (case mc_Identity c of None \<Rightarrow> DefaultIdentityConfig | Some i \<Rightarrow> i);
          key = string_setting vi ''private_key'' (string_setting vi ''agent.matcher.signer.private_key'' (mc_PrivateKey c));
          endpoint = (if vi_IsSet vi ''rootlayer.grpc_endpoint'' then vi_GetString vi ''rootlayer.grpc_endpoint''
                      else if vi_IsSet vi ''rootlayer.http_url'' then vi_GetString vi ''rootlayer.http_url'' else []) in
      c\<lparr>mc_Identity := Some (i\<lparr>id_SubnetID := string_setting vi ''identity.subnet_id'' (id_SubnetID i),
                              id_MatcherID := string_setting vi ''identity.matcher_id'' (id_MatcherID i)\<rparr>),
        mc_MatcherID := string_setting vi ''agent.matcher.id'' (mc_MatcherID c),
        mc_BiddingWindowSec := (if vi_IsSet vi ''agent.matcher.config.default_lease_seconds''
                                then vi_GetInt vi ''agent.matcher.config.default_lease_seconds'' sdiv 30 else mc_BiddingWindowSec c),
        mc_MatchingStrategy := string_setting vi ''agent.matcher.strategy'' (mc_MatchingStrategy c),
        mc_PrivateKey := (case env ''TEST_PRIVATE_KEY'' of None \<Rightarrow> key | Some k \<Rightarrow> if k \<noteq> [] then k else key),
        mc_EnableChainSubmit := (if vi_IsSet vi ''enable_chain_submit'' then vi_GetBool vi ''enable_chain_submit'' else mc_EnableChainSubmit c),
        mc_ChainRPCURL := string_setting vi ''chain_rpc_url'' (mc_ChainRPCURL c),
        mc_ChainNetwork := string_setting vi ''chain_network'' (mc_ChainNetwork c),
        mc_IntentManagerAddr := string_setting vi ''intent_manager_addr'' (mc_IntentManagerAddr c),
        mc_RootLayerEndpoint := (if endpoint \<noteq> [] then endpoint else mc_RootLayerEndpoint c)\<rparr>)"

definition ParseBool :: "string \<Rightarrow> bool option" where
  "ParseBool s =
     (if s \<in> {''1'', ''t'', ''T'', ''true'', ''TRUE'', ''True''} then Some True
      else if s \<in> {''0'', ''f'', ''F'', ''false'', ''FALSE'', ''False''} then Some False else None)"

definition lookupEnvBool :: "(string \<Rightarrow> string option) \<Rightarrow> string \<Rightarrow> bool \<times> bool" where
  "lookupEnvBool env key =
     (case env key of None \<Rightarrow> (False, False)
      | Some val \<Rightarrow> (case ParseBool val of None \<Rightarrow> (False, False) | Some parsed \<Rightarrow> (parsed, True)))"

definition env_bool :: "(string \<Rightarrow> string option) \<Rightarrow> string \<Rightarrow> bool \<Rightarrow> bool" where
  "env_bool env key old = (case lookupEnvBool env key of (val, ok) \<Rightarrow> if ok then val else old)"

definition env_string :: "(string \<Rightarrow> string option) \<Rightarrow> string \<Rightarrow> string \<Rightarrow> string" where
  "env_string env key old = (case env key of None \<Rightarrow> old | Some val \<Rightarrow> if val \<noteq> [] then val else old)"

definition env_size :: "(string \<Rightarrow> string option) \<Rightarrow> int \<Rightarrow> int" where
  "env_size env old =
     (case env ''CHAIN_CACHE_SIZE'' of
        None \<Rightarrow> old
      | Some val \<Rightarrow> (case ParseInt val of None \<Rightarrow> old | Some n \<Rightarrow> if val \<noteq> [] \<and> n > 0 then n else old))"

definition applyBlockchainEnvOverrides :: "(string \<Rightarrow> string option) \<Rightarrow> BlockchainConfig \<Rightarrow> BlockchainConfig" where
  "applyBlockchainEnvOverrides env b =
     b\<lparr>bk_Enabled := env_bool env ''CHAIN_ENABLED'' (bk_Enabled b), bk_RPCURL := env_string env ''CHAIN_RPC_URL'' (bk_RPCURL b),
       bk_SubnetContract := env_string env ''SUBNET_CONTRACT_ADDRESS'' (bk_SubnetContract b),
       bk_CacheTTLRaw := env_string env ''CHAIN_CACHE_TTL'' (bk_CacheTTLRaw b), bk_CacheSize := env_size env (bk_CacheSize b),
       bk_EnableFallback := env_bool env ''CHAIN_ENABLE_FALLBACK'' (bk_EnableFallback b),
       bk_AllowUnverified := env_bool env ''ALLOW_UNVERIFIED_AGENTS'' (bk_AllowUnverified b)\<rparr>"

text \<open>What a failing \<open>Normalize\<close> has already written is kept.\<close>

definition partly_normalized :: "(string \<Rightarrow> int option) \<Rightarrow> BlockchainConfig \<Rightarrow> BlockchainConfig" where
  "partly_normalized ParseDuration b = (if TrimSpace (bk_CacheTTLRaw b) = [] then b\<lparr>bk_CacheTTLRaw := ''5m''\<rparr> else b)"

definition loadBlockchainConfig ::
  "(string \<Rightarrow> int option) \<Rightarrow> Viper \<Rightarrow> (string \<Rightarrow> string option) \<Rightarrow> string \<Rightarrow> matcher_setup_error + BlockchainConfig" where
  "loadBlockchainConfig ParseDuration vi env configPath =
     (case (if configPath \<noteq> [] then (case vi_Blockchain vi of None \<Rightarrow> Some DefaultBlockchainConfig | Some unmarshal \<Rightarrow> unmarshal DefaultBlockchainConfig)
            else Some DefaultBlockchainConfig) of
        None \<Rightarrow> Inl BlockchainUnmarshal
      | Some b0 \<Rightarrow>
          let b = applyBlockchainEnvOverrides env b0 in
          (case Normalize_blockchain ParseDuration b of
             Inr b \<Rightarrow> Inr b
           | Inl err \<Rightarrow>
               if bk_Enabled b then Inl (BlockchainInvalid err)
               else
                 let defaults = (case Normalize_blockchain ParseDuration DefaultBlockchainConfig of
                                   Inr d \<Rightarrow> d | Inl _ \<Rightarrow> partly_normalized ParseDuration DefaultBlockchainConfig) in
                 Inr ((partly_normalized ParseDuration b)\<lparr>bk_Enabled := False, bk_CacheTTL := bk_CacheTTL defaults, bk_CacheSize := bk_CacheSize defaults,
                        bk_EnableFallback := bk_EnableFallback defaults, bk_AllowUnverified := bk_AllowUnverified defaults\<rparr>)))"

record Matcher_Flags =
  mf_id :: string
  mf_window :: int
  mf_config :: string

definition matcher_config :: "Viper \<Rightarrow> (string \<Rightarrow> string option) \<Rightarrow> Matcher_Flags \<Rightarrow> Config_matcher" where
  "matcher_config vi env flags =
     (let c = (if mf_config flags \<noteq> [] \<and> vi_ReadOk vi then load_file vi env DefaultConfig_matcher else DefaultConfig_matcher) in
      c\<lparr>mc_MatcherID := (if mf_id flags \<noteq> [] then mf_id flags else mc_MatcherID c),
        mc_BiddingWindowSec := (if mf_window flags > 0 then mf_window flags else mc_BiddingWindowSec c)\<rparr>)"

text \<open>The server, and the settings of its on-chain check if it is enabled.\<close>

definition matcher_main ::
  "(string \<Rightarrow> int option) \<Rightarrow> (string \<Rightarrow> bool) \<Rightarrow> (string \<Rightarrow> bool) \<Rightarrow> bool \<Rightarrow> Viper \<Rightarrow> (string \<Rightarrow> string option) \<Rightarrow> Matcher_Flags
   \<Rightarrow> matcher_setup_error + Server \<times> VerifierConfig option" where
  "matcher_main ParseDuration isHexAddress loads sdk vi env flags =
     (case loadBlockchainConfig ParseDuration vi env (mf_config flags) of
        Inl e \<Rightarrow> Inl e
      | Inr b \<Rightarrow>
     (case NewServerWithStrategy loads sdk (Some (matcher_config vi env flags)) of
        Inl e \<Rightarrow> Inl e
      | Inr s \<Rightarrow>
          if bk_Enabled b then
            (if \<not> isHexAddress (SubnetAddress (Some b)) then Inl (InvalidContractAddress (SubnetAddress (Some b)))
             else Inr (AttachBlockchainVerifier_matcher (bk_AllowUnverified b) s,
                       Some \<lparr>vc_CacheTTL = bk_CacheTTL b, vc_CacheSize = bk_CacheSize b, vc_EnableFallback = bk_EnableFallback b\<rparr>))
          else Inr (s, None)))"

subsection \<open>Metadata of intents\<close>

text \<open>Decoded JSON; a number is a floating-point number, given by its bits.\<close>

datatype json = JStr string | JNum u64 | JBoolean bool | JObject "(string \<times> json) list" | JArray "json list" | JNull

record IntentMetadata =
  im_Priority :: string
  im_ResponseTimeout :: int
  im_MaxRetries :: int
  im_RequireConfirm :: bool
  im_Tags :: "string list"

text \<open>\<open>trunc\<close> is Go's conversion of a floating-point number to an integer.\<close>

definition parseMetadataMap :: "(u64 \<Rightarrow> int) \<Rightarrow> (string \<times> json) list \<Rightarrow> IntentMetadata \<Rightarrow> IntentMetadata" where
  "parseMetadataMap trunc m md =
     md\<lparr>im_Priority := (case map_of m ''priority'' of Some (JStr s) \<Rightarrow> s | _ \<Rightarrow> im_Priority md),
        im_ResponseTimeout := (case map_of m ''response_timeout'' of Some (JNum x) \<Rightarrow> i64 (trunc x * second) | _ \<Rightarrow> im_ResponseTimeout md),
        im_MaxRetries := (case map_of m ''max_retries'' of Some (JNum x) \<Rightarrow> trunc x | _ \<Rightarrow> im_MaxRetries md),
        im_RequireConfirm := (case map_of m ''require_confirm'' of Some (JBoolean b) \<Rightarrow> b | _ \<Rightarrow> im_RequireConfirm md),
        im_Tags := (case map_of m ''tags'' of
                      Some (JArray ts) \<Rightarrow> im_Tags md @ List.map_filter (\<lambda>t. case t of JStr s \<Rightarrow> Some s | _ \<Rightarrow> None) ts
                    | _ \<Rightarrow> im_Tags md)\<rparr>"

definition base_priority :: "Intent \<Rightarrow> int \<Rightarrow> string" where
  "base_priority intent now =
     (let p = (if HasPrefix (in_IntentType intent) ''urgent:'' then ''high''
               else if HasPrefix (in_IntentType intent) ''critical:'' then ''critical''
               else if HasPrefix (in_IntentType intent) ''batch:'' then ''low'' else ''normal'');
          remaining = remaining_time (in_Deadline intent) now in
      if in_Deadline intent > 0 then
        (if remaining > 0 \<and> remaining < 60 * second then ''critical''
         else if remaining > 0 \<and> remaining < 5 * 60 * second then (if p = ''normal'' then ''high'' else p)
         else p)
      else p)"

text \<open>\<open>decode\<close> is \<open>json.Unmarshal\<close> into a map.\<close>

definition ParseIntentMetadata :: "(bytes \<Rightarrow> (string \<times> json) list option) \<Rightarrow> (u64 \<Rightarrow> int) \<Rightarrow> Intent \<Rightarrow> int \<Rightarrow> IntentMetadata" where
  "ParseIntentMetadata decode trunc intent now =
     (let md = \<lparr>im_Priority = base_priority intent now, im_ResponseTimeout = 0, im_MaxRetries = -1, im_RequireConfirm = True, im_Tags = []\<rparr> in
      case Option.bind (in_Params intent) (\<lambda>p. decode (ip_IntentRaw p)) of
        None \<Rightarrow> md
      | Some raw \<Rightarrow>
          let md = (case map_of raw ''_metadata'' of Some (JObject m) \<Rightarrow> parseMetadataMap trunc m md | _ \<Rightarrow> md);
              md = (case map_of raw ''priority'' of Some (JStr s) \<Rightarrow> md\<lparr>im_Priority := s\<rparr> | _ \<Rightarrow> md) in
          (case map_of raw ''timeout'' of Some (JNum x) \<Rightarrow> md\<lparr>im_ResponseTimeout := i64 (trunc x * second)\<rparr> | _ \<Rightarrow> md))"

definition GetEffectiveTimeout ::
  "(bytes \<Rightarrow> (string \<times> json) list option) \<Rightarrow> (u64 \<Rightarrow> int) \<Rightarrow> (real \<Rightarrow> real) \<Rightarrow> TimeoutConfig \<Rightarrow> Intent \<Rightarrow> int \<Rightarrow> int \<Rightarrow> TimeoutSettings" where
  "GetEffectiveTimeout decode trunc fl tc intent t1 t2 =
     (let md = ParseIntentMetadata decode trunc intent t1;
          st = CalculateTimeouts fl tc (in_IntentType intent) (in_Deadline intent) (im_Priority md) t2;
          st = (if im_ResponseTimeout md > 0 then st\<lparr>ts_ResponseTimeout := im_ResponseTimeout md\<rparr> else st) in
      if im_MaxRetries md \<ge> 0 then st\<lparr>ts_MaxRetries := im_MaxRetries md\<rparr> else st)"

section \<open>Facts\<close>

lemma matcher_valid:
  assumes "Config_matcher_Validate c = None"
  shows "0 < mc_BiddingWindowSec c" "0 < mc_MaxBidsPerIntent c" "mc_PrivateKey c \<noteq> [] \<Longrightarrow> validatePrivateKey (mc_PrivateKey c) = None"
  using assms by (auto simp: Config_matcher_Validate_def split: if_splits)

lemma server_created:
  assumes "NewServerWithStrategy loads sdk (Some c) = Inr s"
  shows "s = NewServer (mc_MatcherID c) (mc_BiddingWindowSec c) (mc_EnableChainSubmit c) False" "Config_matcher_Validate c = None"
    "mc_PrivateKey c \<noteq> []" "loads (mc_PrivateKey c)" "\<exists>i. mc_Identity c = Some i \<and> id_SubnetID i \<noteq> []"
    "mc_EnableChainSubmit c \<Longrightarrow> mc_ChainRPCURL c \<noteq> [] \<and> mc_ChainNetwork c \<noteq> [] \<and> mc_IntentManagerAddr c \<noteq> []"
  using assms by (auto simp: NewServerWithStrategy_def split: option.splits if_splits)

lemma main_server:
  assumes "matcher_main ParseDuration isHexAddress loads sdk vi env flags = Inr (s, v)"
  obtains b s0 where "loadBlockchainConfig ParseDuration vi env (mf_config flags) = Inr b"
    and "NewServerWithStrategy loads sdk (Some (matcher_config vi env flags)) = Inr s0"
    and "s = (if bk_Enabled b then AttachBlockchainVerifier_matcher (bk_AllowUnverified b) s0 else s0)"
    and "v = (if bk_Enabled b then Some \<lparr>vc_CacheTTL = bk_CacheTTL b, vc_CacheSize = bk_CacheSize b, vc_EnableFallback = bk_EnableFallback b\<rparr> else None)"
  using assms by (auto simp: matcher_main_def split: sum.splits if_splits)

lemma default_matcher:
  "mc_MatcherID DefaultConfig_matcher = []" "mc_BiddingWindowSec DefaultConfig_matcher = 10" "mc_MaxBidsPerIntent DefaultConfig_matcher = 100"
  "mc_Identity DefaultConfig_matcher = Some DefaultIdentityConfig" "mc_PrivateKey DefaultConfig_matcher = []"
  "mc_Timeouts DefaultConfig_matcher = Some DefaultTimeoutConfig_app" "\<not> mc_EnableChainSubmit DefaultConfig_matcher"
  by (simp_all add: DefaultConfig_matcher_def applyDefaults_matcher_def Let_def DefaultLimitsConfig_def DefaultIdentityConfig_def)

lemma hex_x: "\<not> is_hex (CHR ''x'')"
  by (simp add: is_hex_def)

text \<open>A key that is written with \<open>0x\<close> passes the check of the configuration, but the library that loads it accepts hexadecimal digits only.\<close>

theorem prefixed_key_never_starts:
  assumes "\<And>key. loads key \<Longrightarrow> list_all is_hex key" "take 2 (mc_PrivateKey c) = ''0x''"
  shows "\<exists>e. NewServerWithStrategy loads sdk (Some c) = Inl e"
proof (rule ccontr)
  assume "\<nexists>e. NewServerWithStrategy loads sdk (Some c) = Inl e"
  then obtain s where "NewServerWithStrategy loads sdk (Some c) = Inr s" by (cases "NewServerWithStrategy loads sdk (Some c)") auto
  then have "list_all is_hex (take 2 (mc_PrivateKey c))"
    using server_created(4) assms(1) by (metis append_take_drop_id list_all_append)
  then show False by (simp add: assms(2) hex_x)
qed

section \<open>Properties\<close>

text \<open>
  C37: The identifier of a matcher that starts is that of the command line, else \<open>agent.matcher.id\<close> of the file, else empty: the
  setting \<open>identity.matcher_id\<close> is checked but never used. Its bidding window is positive, its key loads, it has a subnet, and if it
  submits to the chain, all settings of the chain are there.
\<close>
theorem started_matcher:
  assumes "matcher_main ParseDuration isHexAddress loads sdk vi env flags = Inr (s, v)"
  shows "srv_MatcherID s = (if mf_id flags \<noteq> [] then mf_id flags
      else if mf_config flags \<noteq> [] \<and> vi_ReadOk vi \<and> vi_IsSet vi ''agent.matcher.id'' then vi_GetString vi ''agent.matcher.id'' else []) \<and>
    0 < srv_BiddingWindowSec s \<and> loads (mc_PrivateKey (matcher_config vi env flags)) \<and>
    (\<exists>i. mc_Identity (matcher_config vi env flags) = Some i \<and> id_SubnetID i \<noteq> []) \<and>
    (srv_EnableChainSubmit s \<longrightarrow> mc_ChainRPCURL (matcher_config vi env flags) \<noteq> [] \<and>
       mc_ChainNetwork (matcher_config vi env flags) \<noteq> [] \<and> mc_IntentManagerAddr (matcher_config vi env flags) \<noteq> [])"
proof -
  let ?c = "matcher_config vi env flags"
  obtain b :: BlockchainConfig and s0 where s0: "NewServerWithStrategy loads sdk (Some ?c) = Inr s0"
    and s: "s = (if bk_Enabled b then AttachBlockchainVerifier_matcher (bk_AllowUnverified b) s0 else s0)"
    by (rule main_server [OF assms]) (rule that; assumption)
  note created = server_created [OF s0]
  have fields: "srv_MatcherID s = mc_MatcherID ?c" "srv_BiddingWindowSec s = mc_BiddingWindowSec ?c" "srv_EnableChainSubmit s = mc_EnableChainSubmit ?c"
    by (simp_all add: s created(1) NewServer_def AttachBlockchainVerifier_matcher_def)
  have "mc_MatcherID ?c = (if mf_id flags \<noteq> [] then mf_id flags
      else if mf_config flags \<noteq> [] \<and> vi_ReadOk vi \<and> vi_IsSet vi ''agent.matcher.id'' then vi_GetString vi ''agent.matcher.id'' else [])"
    by (auto simp: matcher_config_def load_file_def Let_def string_setting_def default_matcher)
  then show ?thesis using fields created matcher_valid(1) [OF created(2)] by simp
qed

definition identity_only :: Viper where
  "identity_only =
     \<lparr>vi_ReadOk = True, vi_IsSet = (\<lambda>k. k \<in> {''identity.subnet_id'', ''identity.matcher_id'', ''private_key''}),
      vi_GetString = (\<lambda>k. if k = ''identity.matcher_id'' then ''m1'' else if k = ''private_key'' then replicate 64 (CHR ''a'') else ''s1''),
      vi_GetInt = (\<lambda>_. 0), vi_GetBool = (\<lambda>_. False), vi_Blockchain = None\<rparr>"

theorem started_matcher_witness:
  "\<exists>s v. matcher_main five_minutes (\<lambda>_. True) (list_all is_hex) True identity_only (\<lambda>_. None) \<lparr>mf_id = [], mf_window = 0, mf_config = ''f''\<rparr>
       = Inr (s, v) \<and> srv_MatcherID s = [] \<and> vi_GetString identity_only ''identity.matcher_id'' = ''m1''"
proof -
  let ?flags = "\<lparr>mf_id = [], mf_window = 0, mf_config = ''f''\<rparr>"
  let ?c = "matcher_config identity_only (\<lambda>_. None) ?flags"
  have c: "mc_Identity ?c = Some \<lparr>id_SubnetID = ''s1'', id_ValidatorID = [], id_MatcherID = ''m1'', id_AgentID = []\<rparr>"
    "mc_MatcherID ?c = []" "mc_PrivateKey ?c = replicate 64 (CHR ''a'')" "mc_BiddingWindowSec ?c = 10" "mc_MaxBidsPerIntent ?c = 100"
    "mc_Timeouts ?c = Some DefaultTimeoutConfig_app" "\<not> mc_EnableChainSubmit ?c"
    by (simp_all add: matcher_config_def load_file_def Let_def string_setting_def default_matcher identity_only_def DefaultIdentityConfig_def)
  have key: "validatePrivateKey (replicate 64 (CHR ''a'')) = None" "list_all is_hex (replicate 64 (CHR ''a''))" by code_simp+
  have "timeouts_error DefaultTimeoutConfig_app = None" by (simp add: timeouts_error_def DefaultTimeoutConfig_app_def second_def)
  then have "Config_matcher_Validate ?c = None" using key by (simp add: Config_matcher_Validate_def c)
  then have server: "NewServerWithStrategy (list_all is_hex) True (Some ?c) = Inr (NewServer [] 10 False False)"
    using key by (simp add: NewServerWithStrategy_def c)
  have "\<exists>b. loadBlockchainConfig five_minutes identity_only (\<lambda>_. None) ''f'' = Inr b \<and> \<not> bk_Enabled b"
    by (simp add: loadBlockchainConfig_def identity_only_def applyBlockchainEnvOverrides_def env_bool_def env_string_def env_size_def lookupEnvBool_def
        Normalize_blockchain_def DefaultBlockchainConfig_def five_minutes_def Let_def TrimSpace_def is_space_def minute_def App_Config.minute_def
        second_def)
  then obtain s v where main: "matcher_main five_minutes (\<lambda>_. True) (list_all is_hex) True identity_only (\<lambda>_. None) ?flags = Inr (s, v)"
    by (auto simp: matcher_main_def server)
  have "srv_MatcherID s = []" using started_matcher [OF main] by (simp add: identity_only_def)
  then show ?thesis using main by (auto simp: identity_only_def)
qed

text \<open>
  Whatever file and environment say, a loaded configuration of the on-chain check has a positive life time and capacity, and it is
  enabled only if the last setting that counts enables it and every setting is valid; an invalid setting of a disabled check is replaced by the default.
\<close>
theorem loaded_blockchain_is_normalized:
  assumes "loadBlockchainConfig ParseDuration vi env configPath = Inr b"
    and "ParseDuration ''5m'' = Some ttl" "0 < ttl"
  shows "0 < bk_CacheTTL b \<and> 0 < bk_CacheSize b \<and>
    (bk_Enabled b \<longrightarrow> ParseDuration (bk_CacheTTLRaw b) = Some (bk_CacheTTL b) \<and>
       (case lookupEnvBool env ''CHAIN_ENABLED'' of (val, ok) \<Rightarrow> ok \<longrightarrow> val))"
proof -
  let ?d = "DefaultBlockchainConfig"
  have default: "Normalize_blockchain ParseDuration ?d = Inr (?d\<lparr>bk_CacheTTL := ttl\<rparr>)"
    using assms(2,3) by (simp add: Normalize_blockchain_def DefaultBlockchainConfig_def TrimSpace_def is_space_def)
  obtain b0 where b0: "(if configPath \<noteq> [] then (case vi_Blockchain vi of None \<Rightarrow> Some ?d | Some unmarshal \<Rightarrow> unmarshal ?d) else Some ?d) = Some b0"
    using assms(1) by (auto simp: loadBlockchainConfig_def split: option.splits if_splits)
  let ?b = "applyBlockchainEnvOverrides env b0"
  have enabled: "bk_Enabled ?b \<Longrightarrow> (case lookupEnvBool env ''CHAIN_ENABLED'' of (val, ok) \<Rightarrow> ok \<longrightarrow> val)"
    by (auto simp: applyBlockchainEnvOverrides_def env_bool_def split: prod.splits if_splits)
  show ?thesis
  proof (cases "Normalize_blockchain ParseDuration ?b")
    case (Inr b')
    then have "b = b'" using assms(1) Inr unfolding loadBlockchainConfig_def b0 by simp
    then show ?thesis
      using blockchain_normalized [OF Inr] Inr enabled by (auto simp: Normalize_blockchain_def Let_def split: option.splits if_splits)
  next
    case (Inl err)
    then have "b = (partly_normalized ParseDuration ?b)\<lparr>bk_Enabled := False, bk_CacheTTL := ttl, bk_CacheSize := bk_CacheSize ?d,
        bk_EnableFallback := bk_EnableFallback ?d, bk_AllowUnverified := bk_AllowUnverified ?d\<rparr>"
      using assms(1) Inl unfolding loadBlockchainConfig_def b0 by (simp add: default Let_def split: if_splits)
    then show ?thesis using assms(3) by (simp add: DefaultBlockchainConfig_def)
  qed
qed

theorem loaded_blockchain_is_normalized_witness:
  "\<exists>b. loadBlockchainConfig five_minutes identity_only [''CHAIN_CACHE_TTL'' \<mapsto> ''soon''] ''f'' = Inr b \<and> 0 < bk_CacheTTL b \<and> \<not> bk_Enabled b"
proof -
  let ?env = "[''CHAIN_CACHE_TTL'' \<mapsto> ''soon'']"
  have ttl: "five_minutes ''5m'' = Some (5 * App_Config.minute)" "0 < 5 * App_Config.minute"
    by (simp_all add: five_minutes_def App_Config.minute_def second_def)
  obtain b where b: "loadBlockchainConfig five_minutes identity_only ?env ''f'' = Inr b" "\<not> bk_Enabled b"
    by (simp add: loadBlockchainConfig_def identity_only_def applyBlockchainEnvOverrides_def env_bool_def env_string_def env_size_def lookupEnvBool_def
        Normalize_blockchain_def DefaultBlockchainConfig_def five_minutes_def TrimSpace_def is_space_def App_Config.minute_def second_def)
  show ?thesis using loaded_blockchain_is_normalized [OF b(1) ttl] b by blast
qed

end
