(* ===== verification/RootLayer_Client.thy ===== *)
theory RootLayer_Client
  imports Validation_Bundles
begin

text \<open>
  The client of the root layer (\<open>src/internal/rootlayer/complete_client.go\<close>, with the configuration of \<open>client.go\<close>): its connection, what it
  submits, and the streams it forwards. The calls of the generated gRPC client, the signer, the clock and the dialler are arguments; an
  error of theirs is a text.
\<close>

section \<open>Model\<close>

subsection \<open>Connection\<close>

record Config_rootlayer =
  rc_Endpoint :: string
  rc_SubnetID :: string
  rc_MatcherID :: string
  rc_RetryTimeout :: int
  rc_MaxRetries :: int

definition DefaultConfig_rootlayer :: Config_rootlayer where
  "DefaultConfig_rootlayer =
     \<lparr>rc_Endpoint = ''localhost:9090'', rc_SubnetID = ''subnet-1'', rc_MatcherID = ''matcher-1'', rc_RetryTimeout = 5 * second, rc_MaxRetries = 3\<rparr>"

record CompleteClientConfig =
  ccc_Endpoint :: string
  ccc_SubnetID :: string
  ccc_NodeID :: string
  ccc_NodeType :: string
  ccc_PrivateKey :: string

text \<open>\<open>cl_conn\<close>: the connection and both service clients are there; \<open>cl_signer\<close> signs a message.\<close>

record CompleteClient =
  cl_cfg :: Config_rootlayer
  cl_connected :: bool
  cl_conn :: bool
  cl_signer :: "(bytes \<Rightarrow> string + bytes) option"

datatype client_error =
    SignerLoadFailed string
  | DialFailed string
  | CloseFailed string
  | NotConnected
  | NotHealthy
  | ConnectionState string
  | NilBundle
  | EmptyBatch
  | CallFailed string
  | Rejected string
  | SignFailed_client string

definition NewBaseClient :: "Config_rootlayer option \<Rightarrow> Config_rootlayer" where
  "NewBaseClient cfg = (case cfg of None \<Rightarrow> DefaultConfig_rootlayer | Some c \<Rightarrow> c)"

definition NewCompleteClient ::
  "(string \<Rightarrow> string + (bytes \<Rightarrow> string + bytes)) \<Rightarrow> CompleteClientConfig \<Rightarrow> client_error + CompleteClient" where
  "NewCompleteClient load cfg =
     (let base = \<lparr>rc_Endpoint = ccc_Endpoint cfg, rc_SubnetID = ccc_SubnetID cfg, rc_MatcherID = ccc_NodeID cfg,
                  rc_RetryTimeout = 5 * second, rc_MaxRetries = 3\<rparr>;
          client = \<lparr>cl_cfg = NewBaseClient (Some base), cl_connected = False, cl_conn = False, cl_signer = None\<rparr> in
      if ccc_PrivateKey cfg \<noteq> [] then
        (case load (ccc_PrivateKey cfg) of
           Inl e \<Rightarrow> Inl (SignerLoadFailed e)
         | Inr signer \<Rightarrow> Inr (client\<lparr>cl_signer := Some signer\<rparr>))
      else Inr client)"

text \<open>\<open>dial\<close> and \<open>close\<close> are the errors of the library, if any.\<close>

definition Connect :: "string option \<Rightarrow> CompleteClient \<Rightarrow> CompleteClient \<times> client_error option" where
  "Connect dial c =
     (if cl_connected c then (c, None)
      else case dial of
        Some e \<Rightarrow> (c, Some (DialFailed e))
      | None \<Rightarrow> (c\<lparr>cl_conn := True, cl_connected := True\<rparr>, None))"

definition Close_client :: "string option \<Rightarrow> CompleteClient \<Rightarrow> CompleteClient \<times> client_error option" where
  "Close_client closing c =
     (if cl_conn c then (c\<lparr>cl_conn := False, cl_connected := False\<rparr>, map_option CloseFailed closing) else (c, None))"

definition IsConnected :: "CompleteClient \<Rightarrow> bool" where
  "IsConnected c = cl_connected c"

definition HealthCheck :: "string \<Rightarrow> CompleteClient \<Rightarrow> client_error option" where
  "HealthCheck state c =
     (if \<not> cl_connected c \<or> \<not> cl_conn c then Some NotHealthy
      else if state \<noteq> ''READY'' \<and> state \<noteq> ''IDLE'' then Some (ConnectionState state) else None)"

subsection \<open>Validation\<close>

text \<open>An answer that says whether the call was accepted, and a message.\<close>

definition SubmitValidationBundle ::
  "(ValidationBundle \<Rightarrow> string + bool \<times> string) \<Rightarrow> ValidationBundle option \<Rightarrow> CompleteClient \<Rightarrow> client_error option" where
  "SubmitValidationBundle call bundle c =
     (if \<not> cl_conn c then Some NotConnected
      else case bundle of
        None \<Rightarrow> Some NilBundle
      | Some b \<Rightarrow> (case call b of
            Inl e \<Rightarrow> Some (CallFailed e)
          | Inr (ok, msg) \<Rightarrow> if ok then None else Some (Rejected msg)))"

definition SubmitValidationBundleBatch ::
  "(ValidationBatchGroup list \<Rightarrow> string \<Rightarrow> bool \<Rightarrow> string + 'resp) \<Rightarrow> ValidationBatchGroup list \<Rightarrow> string \<Rightarrow> bool \<Rightarrow> CompleteClient
   \<Rightarrow> client_error + 'resp" where
  "SubmitValidationBundleBatch call groups batchID partialOk c =
     (if \<not> cl_conn c then Inl NotConnected
      else if length groups = 0 then Inl EmptyBatch
      else case call groups batchID partialOk of Inl e \<Rightarrow> Inl (CallFailed e) | Inr resp \<Rightarrow> Inr resp)"

text \<open>The client's own bundle: one signature without content in the name of the node.\<close>

definition client_bundle ::
  "(bytes \<Rightarrow> bytes) \<Rightarrow> (bytes \<Rightarrow> bytes) \<Rightarrow> ExecutionReport \<Rightarrow> CheckpointHeader_types \<Rightarrow> int \<Rightarrow> CompleteClient \<Rightarrow> ValidationBundle" where
  "client_bundle H keccak primaryReport checkpoint now c =
     \<lparr>bu_SubnetId = rc_SubnetID (cl_cfg c), bu_IntentId = er_IntentId primaryReport, bu_AssignmentId = er_AssignmentId primaryReport,
      bu_AgentId = er_AgentId primaryReport, bu_RootHeight = th_Epoch checkpoint,
      bu_RootHash = ''0x'' @ CanonicalHashHex H checkpoint, bu_ExecutedAt = er_Timestamp primaryReport,
      bu_ResultHash = keccak (er_ResultData primaryReport), bu_ProofHash = [],
      bu_Signatures = (case cl_signer c of None \<Rightarrow> [] | Some _ \<Rightarrow> [\<lparr>vsg_Validator = rc_MatcherID (cl_cfg c), vsg_Signature = []\<rparr>]),
      bu_SignerBitmap = replicate 32 0, bu_TotalWeight = (case cl_signer c of None \<Rightarrow> 0 | Some _ \<Rightarrow> 1),
      bu_AggregatorId = rc_MatcherID (cl_cfg c), bu_CompletedAt = now div second\<rparr>"

definition buildValidationBundle_client ::
  "(bytes \<Rightarrow> bytes) \<Rightarrow> (bytes \<Rightarrow> bytes) \<Rightarrow> ExecutionReport list \<Rightarrow> CheckpointHeader_types \<Rightarrow> int \<Rightarrow> CompleteClient \<Rightarrow> ValidationBundle option" where
  "buildValidationBundle_client H keccak reports checkpoint now c =
     (case reports of [] \<Rightarrow> None | primaryReport # _ \<Rightarrow> Some (client_bundle H keccak primaryReport checkpoint now c))"

definition buildValidationBundleForIntent_client ::
  "(bytes \<Rightarrow> bytes) \<Rightarrow> (bytes \<Rightarrow> bytes) \<Rightarrow> ExecutionReport list \<Rightarrow> CheckpointHeader_types \<Rightarrow> int \<Rightarrow> CompleteClient \<Rightarrow> ValidationBundle option" where
  "buildValidationBundleForIntent_client H keccak reports checkpoint now c =
     (case reports of
        [] \<Rightarrow> None
      | primaryReport # _ \<Rightarrow>
          if er_IntentId primaryReport = [] \<or> er_AssignmentId primaryReport = [] \<or> er_AgentId primaryReport = [] then None
          else Some (client_bundle H keccak primaryReport checkpoint now c))"

definition group_key :: "ExecutionReport \<Rightarrow> string" where
  "group_key report = er_IntentId report @ '':'' @ er_AssignmentId report @ '':'' @ er_AgentId report"

definition groupReportsByIntent_client :: "ExecutionReport list \<Rightarrow> (string \<rightharpoonup> ExecutionReport list)" where
  "groupReportsByIntent_client reports =
     foldl (\<lambda>grouped report. grouped(group_key report \<mapsto> (case grouped (group_key report) of None \<Rightarrow> [] | Some rs \<Rightarrow> rs) @ [report]))
       Map.empty reports"

subsection \<open>Intents\<close>

definition SubmitIntentBatch ::
  "('req list \<Rightarrow> string \<Rightarrow> bool \<Rightarrow> bool \<Rightarrow> string + 'resp) \<Rightarrow> 'req list \<Rightarrow> string \<Rightarrow> bool \<Rightarrow> bool \<Rightarrow> CompleteClient \<Rightarrow> client_error + 'resp" where
  "SubmitIntentBatch call intents batchID partialOk treatExistsAsOk c =
     (if \<not> cl_conn c then Inl NotConnected
      else if length intents = 0 then Inl EmptyBatch
      else case call intents batchID partialOk treatExistsAsOk of Inl e \<Rightarrow> Inl (CallFailed e) | Inr resp \<Rightarrow> Inr resp)"

definition subnet_or_default :: "string \<Rightarrow> CompleteClient \<Rightarrow> string" where
  "subnet_or_default subnetID c = (if subnetID = [] then rc_SubnetID (cl_cfg c) else subnetID)"

text \<open>The request names subnet, status, page and page size.\<close>

definition GetPendingIntents ::
  "(string \<Rightarrow> string \<Rightarrow> int \<Rightarrow> int \<Rightarrow> string + Intent list) \<Rightarrow> string \<Rightarrow> CompleteClient \<Rightarrow> client_error + Intent list" where
  "GetPendingIntents call subnetID c =
     (if \<not> cl_conn c then Inl NotConnected
      else case call (subnet_or_default subnetID c) ''PENDING'' 1 100 of Inl e \<Rightarrow> Inl (CallFailed e) | Inr intents \<Rightarrow> Inr intents)"

text \<open>
  One turn of the forwarding goroutine: cancelled before it reads; an error of the stream; or an event, whose intent may be missing, and
  whether it was forwarded before a cancellation. \<open>StreamIntents\<close> looks at the cancellation before it reads, \<open>SubscribeToIntents\<close> only while forwarding.
\<close>

datatype stream_turn = Cancelled | StreamError string | Event "Intent option" bool

primrec forward_intents :: "stream_turn list \<Rightarrow> Intent list" where
  "forward_intents [] = []"
| "forward_intents (t # ts) =
     (case t of
        Cancelled \<Rightarrow> []
      | StreamError _ \<Rightarrow> []
      | Event None _ \<Rightarrow> forward_intents ts
      | Event (Some intent) delivered \<Rightarrow> if delivered then intent # forward_intents ts else [])"

definition StreamIntents ::
  "(string \<Rightarrow> string + stream_turn list) \<Rightarrow> string \<Rightarrow> CompleteClient \<Rightarrow> client_error + Intent list" where
  "StreamIntents call subnetID c =
     (if \<not> cl_conn c then Inl NotConnected
      else case call (subnet_or_default subnetID c) of Inl e \<Rightarrow> Inl (CallFailed e) | Inr turns \<Rightarrow> Inr (forward_intents turns))"

definition SubscribeToIntents :: "(string \<Rightarrow> string + stream_turn list) \<Rightarrow> CompleteClient \<Rightarrow> client_error + Intent list" where
  "SubscribeToIntents call c =
     (if \<not> cl_conn c then Inl NotConnected
      else case call (rc_SubnetID (cl_cfg c)) of
        Inl e \<Rightarrow> Inl (CallFailed e)
      | Inr turns \<Rightarrow> Inr (forward_intents (filter (\<lambda>t. t \<noteq> Cancelled) turns)))"

subsection \<open>Assignments\<close>

definition normal_status :: "Assignment \<Rightarrow> Assignment" where
  "normal_status a =
     (if as_Status a = 0 then a\<lparr>as_Status := ASSIGNMENT_ACTIVE\<rparr>
      else if as_Status a \<noteq> 2 then a\<lparr>as_Status := ASSIGNMENT_ACTIVE\<rparr> else a)"

text \<open>The assignment of the caller is changed as well; it is the first component.\<close>

definition SubmitAssignment ::
  "(Assignment \<Rightarrow> string + bool \<times> string) \<Rightarrow> Assignment \<Rightarrow> CompleteClient \<Rightarrow> Assignment \<times> client_error option" where
  "SubmitAssignment call a c =
     (if \<not> cl_conn c then (a, Some NotConnected)
      else let a = normal_status a in
        (a, case call a of Inl e \<Rightarrow> Some (CallFailed e) | Inr (ok, msg) \<Rightarrow> if ok then None else Some (Rejected msg)))"

definition PostAssignmentBatch ::
  "(Assignment list \<Rightarrow> string + bool \<times> string) \<Rightarrow> Assignment list \<Rightarrow> CompleteClient \<Rightarrow> Assignment list \<times> client_error option" where
  "PostAssignmentBatch call as c =
     (if \<not> cl_conn c then (as, Some NotConnected)
      else if length as = 0 then (as, Some EmptyBatch)
      else let as = map normal_status as in
        (as, case call as of Inl e \<Rightarrow> Some (CallFailed e) | Inr (ok, msg) \<Rightarrow> if ok then None else Some (Rejected msg)))"

definition GetAssignment_client :: "string \<Rightarrow> CompleteClient \<Rightarrow> client_error + Assignment" where
  "GetAssignment_client assignmentID c =
     (if \<not> cl_conn c then Inl NotConnected
      else Inr \<lparr>as_AssignmentId = assignmentID, as_IntentId = [], as_AgentId = [], as_BidId = [], as_Status = ASSIGNMENT_ACTIVE,
                as_MatcherId = [], as_Signature = []\<rparr>)"

record MatchingResult_rootlayer =
  rr_IntentID :: string
  rr_WinningAgentID :: string
  rr_WinningBidID :: string
  rr_Price :: u64
  rr_MatcherID :: string
  rr_Timestamp :: int
  rr_Signature :: bytes

definition assignment_text :: "Assignment \<Rightarrow> string" where
  "assignment_text a =
     ''assignment:'' @ as_AssignmentId a @ '':'' @ as_IntentId a @ '':'' @ as_AgentId a @ '':'' @ as_BidId a"

definition result_assignment :: "int \<Rightarrow> MatchingResult_rootlayer \<Rightarrow> Assignment" where
  "result_assignment now r =
     \<lparr>as_AssignmentId = ''match-'' @ rr_IntentID r @ ''-'' @ dec_int (now div second), as_IntentId = rr_IntentID r,
      as_AgentId = rr_WinningAgentID r, as_BidId = rr_WinningBidID r, as_Status = ASSIGNMENT_ACTIVE, as_MatcherId = rr_MatcherID r,
      as_Signature = rr_Signature r\<rparr>"

definition SubmitMatchingResult ::
  "(Assignment \<Rightarrow> string + bool \<times> string) \<Rightarrow> int \<Rightarrow> MatchingResult_rootlayer \<Rightarrow> CompleteClient \<Rightarrow> client_error option" where
  "SubmitMatchingResult call now r c =
     (let a = result_assignment now r in
      case cl_signer c of
        Some sign \<Rightarrow>
          if rr_Signature r = [] then
            (case sign (bytes_of (assignment_text a)) of
               Inl e \<Rightarrow> Some (SignFailed_client e)
             | Inr signature \<Rightarrow> snd (SubmitAssignment call (a\<lparr>as_Signature := signature\<rparr>) c))
          else snd (SubmitAssignment call a c)
      | None \<Rightarrow> snd (SubmitAssignment call a c))"

subsection \<open>Checkpoints and validators\<close>

text \<open>These calls only check the connection.\<close>

definition SubmitCheckpoint :: "CheckpointHeader_types \<Rightarrow> CompleteClient \<Rightarrow> client_error option" where
  "SubmitCheckpoint checkpoint c = (if \<not> cl_conn c then Some NotConnected else None)"

definition RegisterValidator :: "bytes \<Rightarrow> string \<Rightarrow> CompleteClient \<Rightarrow> client_error option" where
  "RegisterValidator pubKey endpoint c = (if \<not> cl_conn c then Some NotConnected else None)"

definition GetValidatorSet_client :: "CompleteClient \<Rightarrow> client_error + ValidatorSet" where
  "GetValidatorSet_client c =
     (if \<not> cl_conn c then Inl NotConnected
      else Inr \<lparr>vs_Validators = map (\<lambda>i. \<lparr>v_ID = i, v_PubKey = [], v_Weight = 1, v_Endpoint = []\<rparr>) [''validator-1'', ''validator-2'', ''validator-3''],
                vs_MinValidators = 3, vs_ThresholdNum = 2, vs_ThresholdDenom = 3, vs_EffectiveEpoch = 0\<rparr>)"

subsection \<open>Life of a client\<close>

datatype lifecycle = Do_Connect "string option" | Do_Close "string option"

primrec client_step :: "CompleteClient \<Rightarrow> lifecycle \<Rightarrow> CompleteClient" where
  "client_step c (Do_Connect dial) = fst (Connect dial c)"
| "client_step c (Do_Close closing) = fst (Close_client closing c)"

definition client_run :: "CompleteClient \<Rightarrow> lifecycle list \<Rightarrow> CompleteClient" where
  "client_run c ls = foldl client_step c ls"

text \<open>What the calls promise: connected since the last successful \<open>Connect\<close>, unless closed.\<close>

primrec up_step :: "bool \<Rightarrow> lifecycle \<Rightarrow> bool" where
  "up_step up (Do_Connect dial) = (up \<or> dial = None)"
| "up_step up (Do_Close closing) = False"

section \<open>Facts\<close>

definition client_ok :: "CompleteClient \<Rightarrow> bool \<Rightarrow> CompleteClient \<Rightarrow> bool" where
  "client_ok c0 up c \<longleftrightarrow> cl_connected c = up \<and> cl_conn c = up \<and> cl_cfg c = cl_cfg c0 \<and> cl_signer c = cl_signer c0"

lemma client_step_ok: "client_ok c0 up c \<Longrightarrow> client_ok c0 (up_step up l) (client_step c l)"
  by (cases l) (auto simp: client_ok_def Connect_def Close_client_def split: option.split)

lemma client_run_ok: "client_ok c0 up c \<Longrightarrow> client_ok c0 (foldl up_step up ls) (client_run c ls)"
  unfolding client_run_def by (induction ls arbitrary: up c) (simp_all add: client_step_ok)

lemma new_client: "NewCompleteClient load cfg = Inr c \<Longrightarrow> client_ok c False c"
  by (auto simp: NewCompleteClient_def client_ok_def Let_def split: sum.splits if_splits)

lemma status_normal: "as_Status (normal_status a) = (if as_Status a = 2 then 2 else 1)"
  by (simp add: normal_status_def ASSIGNMENT_ACTIVE_def)

lemma grouped_fold:
  "foldl (\<lambda>grouped report. grouped(group_key report \<mapsto> (case grouped (group_key report) of None \<Rightarrow> [] | Some rs \<Rightarrow> rs) @ [report])) m reports k =
     (if filter (\<lambda>r. group_key r = k) reports = [] then m k
      else Some ((case m k of None \<Rightarrow> [] | Some rs \<Rightarrow> rs) @ filter (\<lambda>r. group_key r = k) reports))"
  by (induction reports arbitrary: m) (auto split: option.split)

text \<open>The text that is signed does not separate its parts, so one signature serves for two assignments.\<close>

theorem matching_text_ambiguous:
  "assignment_text (result_assignment now (r\<lparr>rr_WinningAgentID := a @ '':'' @ b, rr_WinningBidID := d\<rparr>)) =
   assignment_text (result_assignment now (r\<lparr>rr_WinningAgentID := a, rr_WinningBidID := b @ '':'' @ d\<rparr>))"
  by (simp add: assignment_text_def result_assignment_def)

text \<open>The bundle that the client builds for itself claims a weight of 1 for a signature without content and a bitmap without signers.\<close>

theorem client_bundle_is_unsigned:
  assumes "buildValidationBundleForIntent_client H keccak reports checkpoint now c = Some b" "cl_signer c \<noteq> None"
  shows "bu_TotalWeight b = 1 \<and> map vsg_Signature (bu_Signatures b) = [[]] \<and> set (bu_SignerBitmap b) = {0}"
  using assms by (auto simp: buildValidationBundleForIntent_client_def client_bundle_def split: list.splits if_splits)

section \<open>Properties\<close>

text \<open>
  After any calls of \<open>Connect\<close> and \<open>Close\<close> a client is connected exactly if a successful \<open>Connect\<close> is not followed by a \<open>Close\<close>, whatever
  errors closing has; its configuration and its signer stay the same. Without connection no call reaches the root layer and each reports it;
  with it an assignment that reaches the root layer is active or failed, and failed only if the caller said so.
\<close>
theorem client_follows_connection:
  assumes "NewCompleteClient load cfg = Inr c0" "c = client_run c0 ls"
  shows "IsConnected c = foldl up_step False ls \<and> cl_cfg c = cl_cfg c0 \<and> cl_signer c = cl_signer c0 \<and>
    (if IsConnected c
     then SubmitAssignment call a c = (normal_status a, snd (SubmitAssignment call (normal_status a) c)) \<and>
       as_Status (fst (SubmitAssignment call a c)) = (if as_Status a = 2 then 2 else 1) \<and>
       (as \<noteq> [] \<longrightarrow> fst (PostAssignmentBatch calls as c) = map (\<lambda>a. fst (SubmitAssignment call a c)) as)
     else SubmitAssignment call a c = (a, Some NotConnected) \<and> PostAssignmentBatch calls as c = (as, Some NotConnected) \<and>
       SubmitValidationBundle call' bundle c = Some NotConnected \<and> SubmitValidationBundleBatch batch groups batchID partialOk c = Inl NotConnected \<and>
       GetPendingIntents pending subnetID c = Inl NotConnected \<and> StreamIntents stream subnetID c = Inl NotConnected \<and>
       HealthCheck state c = Some NotHealthy)"
proof -
  have ok: "client_ok c0 (foldl up_step False ls) c" using client_run_ok [OF new_client [OF assms(1)]] assms(2) by simp
  have again: "normal_status (normal_status a) = normal_status a" by (simp add: normal_status_def ASSIGNMENT_ACTIVE_def)
  show ?thesis
    using ok again
    by (simp add: client_ok_def IsConnected_def SubmitAssignment_def PostAssignmentBatch_def SubmitValidationBundle_def
        SubmitValidationBundleBatch_def GetPendingIntents_def StreamIntents_def HealthCheck_def status_normal Let_def)
qed

definition example_client_config :: CompleteClientConfig where
  "example_client_config = \<lparr>ccc_Endpoint = ''e'', ccc_SubnetID = ''s'', ccc_NodeID = ''v1'', ccc_NodeType = ''validator'', ccc_PrivateKey = []\<rparr>"

theorem client_follows_connection_witness:
  "\<exists>c0. NewCompleteClient (\<lambda>_. Inl ''e'') example_client_config = Inr c0 \<and>
     IsConnected (client_run c0 [Do_Connect (Some ''refused''), Do_Connect None, Do_Connect None]) \<and>
     \<not> IsConnected (client_run c0 [Do_Connect None, Do_Close (Some ''late'')])"
proof -
  obtain c0 where c0: "NewCompleteClient (\<lambda>_. Inl ''e'') example_client_config = Inr c0"
    by (simp add: NewCompleteClient_def example_client_config_def Let_def)
  note follows = client_follows_connection [OF c0 refl, THEN conjunct1]
  show ?thesis using c0 follows by auto
qed

text \<open>
  The groups of the client are the reports of each key in their order, and nothing else.
\<close>
theorem client_groups_partition:
  "groupReportsByIntent_client reports k =
     (if k \<in> group_key ` set reports then Some (filter (\<lambda>r. group_key r = k) reports) else None)"
  using grouped_fold [of Map.empty reports k] by (auto simp: groupReportsByIntent_client_def filter_empty_conv)

end
