(* ===== verification/HTTP_Reports.thy ===== *)
theory HTTP_Reports
  imports Validator_Service
begin

text \<open>
  The HTTP endpoint of a validator for execution reports (\<open>handleHTTPExecutionReport\<close> in \<open>src/internal/validator/node.go\<close>): reading the
  payload, building the report, and the answer. The report goes the same way as that of the gRPC service, after the service's checks. The JSON codec
  is an argument.
\<close>

section \<open>Model\<close>

subsection \<open>Base64\<close>

definition b64_value :: "char \<Rightarrow> nat option" where
  "b64_value c =
     (let n = (of_char c :: nat) in
      if 65 \<le> n \<and> n \<le> 90 then Some (n - 65)
      else if 97 \<le> n \<and> n \<le> 122 then Some (n - 71)
      else if 48 \<le> n \<and> n \<le> 57 then Some (n + 4)
      else if n = 43 then Some 62 else if n = 47 then Some 63 else None)"

definition b64_group :: "nat \<Rightarrow> nat \<Rightarrow> nat \<Rightarrow> nat \<Rightarrow> bytes" where
  "b64_group a b c d = [word_of_nat (a * 4 + b div 16), word_of_nat (b mod 16 * 16 + c div 4), word_of_nat (c mod 4 * 64 + d)]"

text \<open>\<open>StdEncoding.DecodeString\<close> on text without line breaks: groups of four, the last one padded.\<close>

fun b64_groups :: "string \<Rightarrow> bytes option" where
  "b64_groups [] = Some []"
| "b64_groups (a # b # c # d # rest) =
     (case (b64_value a, b64_value b) of
        (Some x, Some y) \<Rightarrow>
          if d = CHR ''='' then
            (if rest \<noteq> [] then None
             else if c = CHR ''='' then Some (take 1 (b64_group x y 0 0))
             else map_option (\<lambda>z. take 2 (b64_group x y z 0)) (b64_value c))
          else
            (case (b64_value c, b64_value d, b64_groups rest) of
               (Some z, Some w, Some bs) \<Rightarrow> Some (b64_group x y z w @ bs)
             | _ \<Rightarrow> None)
      | _ \<Rightarrow> None)"
| "b64_groups _ = None"

definition b64_decode :: "string \<Rightarrow> bytes option" where
  "b64_decode s = b64_groups (filter (\<lambda>c. c \<noteq> CHR 0x0A \<and> c \<noteq> CHR 0x0D) s)"

subsection \<open>Handler\<close>

record httpExecutionReport =
  hp_ReportID :: string
  hp_AssignmentID :: string
  hp_IntentID :: string
  hp_AgentID :: string
  hp_Status :: string
  hp_ResultData :: string
  hp_Timestamp :: int

record httpExecutionReceipt =
  hc_ReportID :: string
  hc_IntentID :: string
  hc_ValidatorID :: string
  hc_Status :: string
  hc_ReceivedTs :: int
  hc_Message :: string

datatype http_body = NoBody | InvalidPayload | MissingFields | UnknownStatus string | ProcessingFailed process_error | Accepted httpExecutionReceipt

definition parseReportStatus :: "string \<Rightarrow> ReportStatus option" where
  "parseReportStatus status =
     (if status = [] then Some SUCCESS
      else let s = ToLower status in
        if s \<in> {''success'', ''ok'', ''accepted''} then Some SUCCESS
        else if s \<in> {''failed'', ''error'', ''rejected''} then Some FAILED
        else if s = ''partial'' then Some PARTIAL
        else if s \<in> {''status_unspecified'', ''unspecified''} then Some STATUS_UNSPECIFIED
        else None)"

text \<open>Result data that is not base64 counts as it is.\<close>

definition http_report :: "httpExecutionReport \<Rightarrow> ReportStatus \<Rightarrow> int \<Rightarrow> ExecutionReport" where
  "http_report p status now =
     \<lparr>er_ReportId = hp_ReportID p, er_AssignmentId = hp_AssignmentID p, er_IntentId = hp_IntentID p, er_AgentId = hp_AgentID p,
      er_Status = status,
      er_ResultData = (if hp_ResultData p = [] then [] else case b64_decode (hp_ResultData p) of None \<Rightarrow> bytes_of (hp_ResultData p) | Some d \<Rightarrow> d),
      er_Evidence = None, er_Error = None, er_Timestamp = (if hp_Timestamp p = 0 then now div second else hp_Timestamp p),
      er_Signature = [], er_RootRef = None\<rparr>"

text \<open>The status code and the body; \<open>t0\<close>, \<open>t1\<close> and \<open>t2\<close> are readings of the clock.\<close>

definition handleHTTPExecutionReport ::
  "('sk, 'pk, 'd) Node_Env \<Rightarrow> ('sk, 'd) Engine_Env \<Rightarrow> string \<Rightarrow> httpExecutionReport option \<Rightarrow> int \<Rightarrow> int \<Rightarrow> int \<Rightarrow> ('sk, 'd) Node
   \<Rightarrow> ('sk, 'd) Node \<times> int \<times> http_body" where
  "handleHTTPExecutionReport env eng meth payload t0 t1 t2 n =
     (if meth \<noteq> ''POST'' then (n, 405, NoBody)
      else case payload of
        None \<Rightarrow> (n, 400, InvalidPayload)
      | Some p \<Rightarrow>
          if hp_ReportID p = [] \<or> hp_AssignmentID p = [] \<or> hp_IntentID p = [] \<or> hp_AgentID p = [] then (n, 400, MissingFields)
          else (case parseReportStatus (hp_Status p) of
                  None \<Rightarrow> (n, 400, UnknownStatus (hp_Status p))
                | Some status \<Rightarrow>
                    (case ProcessExecutionReport_engines env eng n (http_report p status t0) t1 t2 of
                       (n, Inl e) \<Rightarrow> (n, 500, ProcessingFailed e)
                     | (n, Inr receipt) \<Rightarrow>
                         (n, 200, Accepted \<lparr>hc_ReportID = rc_ReportId receipt, hc_IntentID = rc_IntentId receipt,
                            hc_ValidatorID = rc_ValidatorId receipt, hc_Status = rc_Status receipt, hc_ReceivedTs = rc_ReceivedTs receipt,
                            hc_Message = []\<rparr>))))"

section \<open>Facts\<close>

lemma process_alone:
  assumes "\<not> n_raft n" "\<not> n_comet n" "n_pendingReports n (generateReportID r) = None"
  shows "\<exists>n' receipt. ProcessExecutionReport_engines env eng n r t1 t2 = (n', Inr receipt)
    \<and> n_pendingReports n' = (n_pendingReports n)(generateReportID r \<mapsto> r) \<and> rc_Status receipt = ''accepted''"
  using assms by (simp add: ProcessExecutionReport_engines_def ProcessExecutionReport_def save_report_def Let_def split: option.split)

lemma process_leader:
  assumes "n_raft n" "en_IsLeader eng" "er_Timestamp r \<noteq> 0" "n_pendingReports n (generateReportID r) = None" "en_Apply eng n r = (n', None)"
  shows "\<exists>receipt. ProcessExecutionReport_engines env eng n r t1 t2 = (n', Inr receipt) \<and> rc_Status receipt = ''accepted''"
  using assms by (simp add: ProcessExecutionReport_engines_def processExecutionReportRaft_def stamp_report_def engine_receipt_def Let_def)

section \<open>Properties\<close>


definition forged_payload :: httpExecutionReport where
  "forged_payload = \<lparr>hp_ReportID = ''r'', hp_AssignmentID = ''a'', hp_IntentID = ''i'', hp_AgentID = ''victim'', hp_Status = [],
     hp_ResultData = ''AQI='', hp_Timestamp = 7\<rparr>"


end
